(* ===== verification/Htsn_Prelude.thy ===== *)
theory Htsn_Prelude
  imports Main "HOL-Library.Word"
begin

text \<open>
  Shared vocabulary of the development: the type names of the machine integers, the
  \<open>htsn_error\<close> codes every operation of the control plane returns (\<open>src/common/common.h\<close>),
  the C buffer primitives the sources use (\<open>memcpy\<close>, first-match array scans, \<open>memmove\<close>
  removal), and the generic lemmas about them. The interfaces several components
  share are locales: a code with an inverse (\<open>codec\<close>) and a bounded array
  addressed by a key (\<open>keyed_array\<close>).
\<close>

unbundle bit_operations_syntax

named_theorems bytes_simps "byte and word decomposition facts"
named_theorems arr_simps "facts on key-addressed arrays"

type_synonym byte = "8 word"
type_synonym u16 = "16 word"
type_synonym u32 = "32 word"
type_synonym u64 = "64 word"
type_synonym i64 = "64 word"

section \<open>Error codes\<close>

datatype htsn_error =
    HTSN_OK
  | HTSN_ERR_INVALID_ARG
  | HTSN_ERR_NO_MEMORY
  | HTSN_ERR_NOT_FOUND
  | HTSN_ERR_ALREADY_EXISTS
  | HTSN_ERR_DB
  | HTSN_ERR_IO
  | HTSN_ERR_NET
  | HTSN_ERR_NOT_IMPLEMENTED
  | HTSN_ERR_BUSY
  | HTSN_ERR_NOT_READY
  | HTSN_ERR_LAST

fun htsn_error_str :: "htsn_error \<Rightarrow> string" where
  "htsn_error_str HTSN_OK = ''ok''"
| "htsn_error_str HTSN_ERR_INVALID_ARG = ''invalid argument''"
| "htsn_error_str HTSN_ERR_NO_MEMORY = ''out of memory''"
| "htsn_error_str HTSN_ERR_NOT_FOUND = ''not found''"
| "htsn_error_str HTSN_ERR_ALREADY_EXISTS = ''already exists''"
| "htsn_error_str HTSN_ERR_DB = ''database error''"
| "htsn_error_str HTSN_ERR_IO = ''i/o error''"
| "htsn_error_str HTSN_ERR_NET = ''network error''"
| "htsn_error_str HTSN_ERR_NOT_IMPLEMENTED = ''not implemented''"
| "htsn_error_str HTSN_ERR_BUSY = ''busy''"
| "htsn_error_str HTSN_ERR_NOT_READY = ''not ready''"
| "htsn_error_str HTSN_ERR_LAST = ''unknown error''"

section \<open>C memory primitives on arrays kept as lists\<close>

text \<open>\<open>memcpy(&dst[off], src, n)\<close> on an array that is long enough.\<close>

definition memcpy :: "'a list \<Rightarrow> nat \<Rightarrow> 'a list \<Rightarrow> nat \<Rightarrow> 'a list" where
  "memcpy dst off src n = take off dst @ take n src @ drop (off + n) dst"

text \<open>The index of the first element that satisfies a test: the \<open>for\<close> loop with \<open>break\<close>.\<close>

fun find_idx :: "('a \<Rightarrow> bool) \<Rightarrow> 'a list \<Rightarrow> nat option" where
  "find_idx P [] = None"
| "find_idx P (x # xs) = (if P x then Some 0 else map_option Suc (find_idx P xs))"

text \<open>\<open>memmove(&a[i], &a[i+1], ...)\<close> followed by \<open>count--\<close>.\<close>

definition remove_at :: "nat \<Rightarrow> 'a list \<Rightarrow> 'a list" where
  "remove_at i xs = take i xs @ drop (Suc i) xs"

lemma memcpy_zero [simp]: "memcpy dst off src 0 = dst"
  by (simp add: memcpy_def)

lemma length_memcpy [simp]:
  "off + n \<le> length dst \<Longrightarrow> n \<le> length src \<Longrightarrow> length (memcpy dst off src n) = length dst"
  by (simp add: memcpy_def)

lemma take_memcpy_below [simp]:
  "k \<le> off \<Longrightarrow> off \<le> length dst \<Longrightarrow> take k (memcpy dst off src n) = take k dst"
  by (simp add: memcpy_def)

lemma take_memcpy_whole:
  "off \<le> length dst \<Longrightarrow> n \<le> length src \<Longrightarrow>
     take (off + n) (memcpy dst off src n) = take off dst @ take n src"
  by (simp add: memcpy_def)

lemma drop_memcpy_at:
  "off \<le> length dst \<Longrightarrow> drop off (memcpy dst off src n) = take n src @ drop (off + n) dst"
  by (simp add: memcpy_def)

lemma find_idx_None_iff: "find_idx P xs = None \<longleftrightarrow> (\<forall>x \<in> set xs. \<not> P x)"
  by (induction xs) auto

lemma find_idx_SomeD:
  "find_idx P xs = Some i \<Longrightarrow> i < length xs \<and> P (xs ! i) \<and> (\<forall>j < i. \<not> P (xs ! j))"
proof (induction xs arbitrary: i)
  case Nil
  then show ?case by simp
next
  case (Cons x xs)
  show ?case
  proof (cases "P x")
    case True
    with Cons.prems show ?thesis by simp
  next
    case False
    with Cons.prems obtain k where "find_idx P xs = Some k" and i: "i = Suc k"
      by (auto simp: map_option_case split: option.splits)
    from this(1) have "k < length xs \<and> P (xs ! k) \<and> (\<forall>j < k. \<not> P (xs ! j))"
      by (rule Cons.IH)
    with False i show ?thesis by (auto simp: less_Suc_eq_0_disj)
  qed
qed

lemma find_idx_bound [simp]: "find_idx P xs = Some i \<Longrightarrow> i < length xs"
  by (drule find_idx_SomeD) simp

lemma length_remove_at [simp]: "i < length xs \<Longrightarrow> length (remove_at i xs) = length xs - 1"
  by (simp add: remove_at_def)

lemma set_remove_at_subset: "set (remove_at i xs) \<subseteq> set xs"
  by (auto simp: remove_at_def dest: in_set_takeD in_set_dropD)

lemma map_remove_at: "map f (remove_at i xs) = remove_at i (map f xs)"
  by (simp add: remove_at_def take_map drop_map)

lemma split_at_nth: "i < length xs \<Longrightarrow> xs = take i xs @ xs ! i # drop (Suc i) xs"
  by (rule id_take_nth_drop)

lemma distinct_remove_at:
  assumes "distinct xs" shows "distinct (remove_at i xs)"
proof (cases "i < length xs")
  case True
  then have "distinct (take i xs @ xs ! i # drop (Suc i) xs)"
    using assms split_at_nth [OF True] by simp
  then show ?thesis by (simp add: remove_at_def)
next
  case False
  with assms show ?thesis by (simp add: remove_at_def)
qed

lemma set_remove_at:
  assumes "distinct xs" and "i < length xs"
  shows "set (remove_at i xs) = set xs - {xs ! i}"
proof -
  have "set xs = set (remove_at i xs) \<union> {xs ! i}"
    using split_at_nth [OF assms(2)] unfolding remove_at_def
    by (metis Un_insert_right list.simps(15) set_append sup_bot_right)
  moreover have "xs ! i \<notin> set (remove_at i xs)"
  proof -
    have "distinct (take i xs @ xs ! i # drop (Suc i) xs)"
      using assms split_at_nth [OF assms(2)] by simp
    then show ?thesis by (simp add: remove_at_def)
  qed
  ultimately show ?thesis by auto
qed

section \<open>Codes with an inverse\<close>

text \<open>
  The contract of an encoder and its decoder: on the values it accepts, decoding what was
  encoded gives the value back. Distinct values then have distinct codes.
\<close>

locale codec =
  fixes enc :: "'a \<Rightarrow> 'b" and dec :: "'b \<Rightarrow> 'a option" and ok :: "'a \<Rightarrow> bool"
  assumes dec_enc: "ok x \<Longrightarrow> dec (enc x) = Some x"
begin

lemma enc_inject: "ok x \<Longrightarrow> ok y \<Longrightarrow> enc x = enc y \<longleftrightarrow> x = y"
  using dec_enc by (metis option.inject)

lemma inj_on_enc: "inj_on enc {x. ok x}"
  by (rule inj_onI) (simp add: enc_inject)

lemma dec_map_enc: "list_all ok xs \<Longrightarrow> map (dec \<circ> enc) xs = map Some xs"
  by (induction xs) (auto simp: dec_enc)

end

section \<open>Bounded arrays addressed by a key\<close>

text \<open>
  Several managers keep their objects in a fixed array with a count, scanned for the first element
  with the wanted key. The specification is a finite map of bounded cardinality: \<open>bm_put\<close> and
  \<open>bm_del\<close> give the error code and the new map.
\<close>

definition table :: "('v \<Rightarrow> 'k) \<Rightarrow> 'v list \<Rightarrow> 'k \<Rightarrow> 'v option" where
  "table key xs k = find (\<lambda>x. key x = k) xs"

definition bm_put :: "nat \<Rightarrow> 'k \<Rightarrow> 'v \<Rightarrow> ('k \<Rightarrow> 'v option) \<Rightarrow> htsn_error \<times> ('k \<Rightarrow> 'v option)" where
  "bm_put cap k v m =
     (if k \<in> dom m \<or> card (dom m) < cap then (HTSN_OK, m(k \<mapsto> v)) else (HTSN_ERR_BUSY, m))"

definition bm_del :: "'k \<Rightarrow> ('k \<Rightarrow> 'v option) \<Rightarrow> htsn_error \<times> ('k \<Rightarrow> 'v option)" where
  "bm_del k m = (if k \<in> dom m then (HTSN_OK, m(k := None)) else (HTSN_ERR_NOT_FOUND, m))"

text \<open>A history of removals (\<open>Inl\<close>) and insertions (\<open>Inr\<close>): the error codes and the final state.\<close>

fun run_ops :: "('a \<Rightarrow> 's \<Rightarrow> 'e \<times> 's) \<Rightarrow> ('k \<Rightarrow> 's \<Rightarrow> 'e \<times> 's) \<Rightarrow> ('k + 'a) list \<Rightarrow> 's \<Rightarrow> 'e list \<times> 's" where
  "run_ops put rem [] s = ([], s)"
| "run_ops put rem (x # xs) s =
     (let (e, s') = (case x of Inl k \<Rightarrow> rem k s | Inr a \<Rightarrow> put a s); (es, s'') = run_ops put rem xs s'
      in (e # es, s''))"

lemma find_idx_None_table: "find_idx (\<lambda>x. key x = k) xs = None \<longleftrightarrow> table key xs k = None"
  by (auto simp: find_idx_None_iff table_def find_None_iff)

lemma dom_table: "dom (table key xs) = key ` set xs"
  by (auto simp: dom_def table_def find_None_iff simp flip: not_None_eq)

lemma card_dom_table: "distinct (map key xs) \<Longrightarrow> card (dom (table key xs)) = length xs"
  by (metis dom_table distinct_card length_map list.set_map)

lemma table_Nil [simp]: "table key [] = Map.empty"
  by (rule ext) (simp add: table_def)

lemma table_Cons: "table key (x # xs) = (table key xs)(key x \<mapsto> x)"
  by (rule ext) (simp add: table_def)

lemma table_update [arr_simps]:
  "find_idx (\<lambda>x. key x = k) xs = Some i \<Longrightarrow> key v = k \<Longrightarrow> table key (xs[i := v]) = (table key xs)(k \<mapsto> v)"
proof (induction xs arbitrary: i)
  case (Cons x xs)
  then show ?case by (cases i) (auto simp: table_Cons fun_upd_twist split: if_splits)
qed simp

lemma table_append [arr_simps]:
  "table key xs (key v) = None \<Longrightarrow> table key (xs @ [v]) = (table key xs)(key v \<mapsto> v)"
proof (induction xs)
  case (Cons x xs)
  then show ?case by (auto simp: table_Cons fun_upd_twist split: if_splits)
qed (simp add: table_Cons)

lemma table_remove [arr_simps]:
  "find_idx (\<lambda>x. key x = k) xs = Some i \<Longrightarrow> distinct (map key xs) \<Longrightarrow>
     table key (remove_at i xs) = (table key xs)(k := None)"
proof (induction xs arbitrary: i)
  case (Cons x xs)
  show ?case
  proof (cases "key x = k")
    case True
    with Cons.prems have "i = 0" and "k \<notin> key ` set xs" by auto
    then have "table key xs k = None" by (metis dom_table domIff)
    then show ?thesis using True \<open>i = 0\<close> by (auto simp: table_Cons remove_at_def fun_upd_idem)
  next
    case False
    with Cons.prems obtain j where j: "find_idx (\<lambda>x. key x = k) xs = Some j" "i = Suc j" by auto
    then have "remove_at i (x # xs) = x # remove_at j xs" by (simp add: remove_at_def)
    moreover have "table key (remove_at j xs) = (table key xs)(k := None)"
      using Cons.prems(2) by (intro Cons.IH [OF j(1)]) simp
    ultimately show ?thesis using False by (intro ext) (simp add: table_Cons)
  qed
qed simp

text \<open>
  What the code of such a manager does: \<open>put\<close> replaces the first element with the key, or appends
  when there is room; \<open>rem\<close> closes the gap. An argument \<open>a\<close> that is not \<open>ok\<close> is refused.
\<close>

locale keyed_array =
  fixes items :: "'s \<Rightarrow> 'v list" and key :: "'v \<Rightarrow> 'k" and cap :: nat
    and akey :: "'a \<Rightarrow> 'k" and stored :: "'a \<Rightarrow> 'v" and ok :: "'a \<Rightarrow> bool"
    and put :: "'a \<Rightarrow> 's \<Rightarrow> htsn_error \<times> 's" and rem :: "'k \<Rightarrow> 's \<Rightarrow> htsn_error \<times> 's"
  assumes key_stored: "key (stored a) = akey a"
    and put_found: "ok a \<Longrightarrow> find_idx (\<lambda>x. key x = akey a) (items s) = Some i \<Longrightarrow>
      fst (put a s) = HTSN_OK \<and> items (snd (put a s)) = (items s)[i := stored a]"
    and put_new: "ok a \<Longrightarrow> find_idx (\<lambda>x. key x = akey a) (items s) = None \<Longrightarrow> length (items s) < cap \<Longrightarrow>
      fst (put a s) = HTSN_OK \<and> items (snd (put a s)) = items s @ [stored a]"
    and put_full: "ok a \<Longrightarrow> find_idx (\<lambda>x. key x = akey a) (items s) = None \<Longrightarrow> cap \<le> length (items s) \<Longrightarrow>
      put a s = (HTSN_ERR_BUSY, s)"
    and put_refused: "\<not> ok a \<Longrightarrow> fst (put a s) \<noteq> HTSN_OK \<and> snd (put a s) = s"
    and rem_found: "find_idx (\<lambda>x. key x = k) (items s) = Some i \<Longrightarrow>
      fst (rem k s) = HTSN_OK \<and> items (snd (rem k s)) = remove_at i (items s)"
    and rem_missing: "find_idx (\<lambda>x. key x = k) (items s) = None \<Longrightarrow> rem k s = (HTSN_ERR_NOT_FOUND, s)"
begin

definition wf :: "'s \<Rightarrow> bool" where
  "wf s \<longleftrightarrow> distinct (map key (items s)) \<and> length (items s) \<le> cap"

lemma put_wf: "wf s \<Longrightarrow> wf (snd (put a s))"
proof (cases "ok a")
  case True
  assume w: "wf s"
  show ?thesis
  proof (cases "find_idx (\<lambda>x. key x = akey a) (items s)")
    case None
    then have "akey a \<notin> key ` set (items s)" by (auto simp: find_idx_None_iff)
    then show ?thesis
      using w True None put_new [OF True None] put_full [OF True None]
      by (cases "length (items s) < cap") (auto simp: wf_def key_stored)
  next
    case (Some i)
    then have "map key ((items s)[i := stored a]) = map key (items s)"
      using find_idx_SomeD [OF Some] by (metis key_stored list_update_id map_update nth_map)
    then show ?thesis using w put_found [OF True Some] by (simp add: wf_def)
  qed
qed (simp add: put_refused)

lemma rem_wf: "wf s \<Longrightarrow> wf (snd (rem k s))"
  by (cases "find_idx (\<lambda>x. key x = k) (items s)")
    (auto simp: rem_missing rem_found wf_def map_remove_at distinct_remove_at)

lemma put_refines:
  assumes "wf s" and "ok a"
  shows "fst (put a s) = fst (bm_put cap (akey a) (stored a) (table key (items s)))"
    and "table key (items (snd (put a s))) = snd (bm_put cap (akey a) (stored a) (table key (items s)))"
proof (atomize (full), cases "find_idx (\<lambda>x. key x = akey a) (items s)")
  case None
  then have n: "table key (items s) (akey a) = None" by (simp add: find_idx_None_table)
  have "table key (items s @ [stored a]) = (table key (items s))(akey a \<mapsto> stored a)"
    using table_append [of key "items s" "stored a"] n by (simp add: key_stored)
  with n None assms put_new [OF assms(2) None] put_full [OF assms(2) None]
  show "fst (put a s) = fst (bm_put cap (akey a) (stored a) (table key (items s))) \<and>
      table key (items (snd (put a s))) = snd (bm_put cap (akey a) (stored a) (table key (items s)))"
    by (cases "length (items s) < cap") (simp_all add: bm_put_def domIff wf_def card_dom_table)
next
  case (Some i)
  then have "akey a \<in> dom (table key (items s))"
    using find_idx_None_table [of key "akey a" "items s"] by auto
  with put_found [OF assms(2) Some] Some
  show "fst (put a s) = fst (bm_put cap (akey a) (stored a) (table key (items s))) \<and>
      table key (items (snd (put a s))) = snd (bm_put cap (akey a) (stored a) (table key (items s)))"
    by (simp add: bm_put_def table_update key_stored)
qed

lemma rem_refines:
  assumes "wf s"
  shows "fst (rem k s) = fst (bm_del k (table key (items s)))"
    and "table key (items (snd (rem k s))) = snd (bm_del k (table key (items s)))"
proof (atomize (full), cases "find_idx (\<lambda>x. key x = k) (items s)")
  case None
  then have "table key (items s) k = None" by (simp add: find_idx_None_table)
  with rem_missing [OF None] show "fst (rem k s) = fst (bm_del k (table key (items s))) \<and>
      table key (items (snd (rem k s))) = snd (bm_del k (table key (items s)))"
    by (simp add: bm_del_def domIff)
next
  case (Some i)
  then have "k \<in> dom (table key (items s))" using find_idx_None_table [of key k "items s"] by auto
  with rem_found [OF Some] Some assms show "fst (rem k s) = fst (bm_del k (table key (items s))) \<and>
      table key (items (snd (rem k s))) = snd (bm_del k (table key (items s)))"
    by (simp add: bm_del_def table_remove wf_def)
qed

text \<open>A whole history returns the error codes of the bounded map and ends in its table.\<close>

lemma history_wf: "wf s \<Longrightarrow> wf (snd (run_ops put rem xs s))"
proof (induction xs arbitrary: s)
  case (Cons x xs)
  then have "wf (snd (case x of Inl k \<Rightarrow> rem k s | Inr a \<Rightarrow> put a s))"
    by (cases x) (simp_all add: rem_wf put_wf)
  with Cons.IH show ?case by (simp add: Let_def split_beta)
qed simp

lemma history_refines:
  assumes "wf s" and "list_all (\<lambda>x. case x of Inl _ \<Rightarrow> True | Inr a \<Rightarrow> ok a) xs"
  shows "map_prod (\<lambda>es. es) (\<lambda>s. table key (items s)) (run_ops put rem xs s) =
    run_ops (\<lambda>a. bm_put cap (akey a) (stored a)) bm_del xs (table key (items s))"
  using assms
proof (induction xs arbitrary: s)
  case (Cons x xs)
  obtain e t where c: "(case x of Inl k \<Rightarrow> rem k s | Inr a \<Rightarrow> put a s) = (e, t)" by fastforce
  have "wf t" and "(case x of Inl k \<Rightarrow> bm_del k (table key (items s))
      | Inr a \<Rightarrow> bm_put cap (akey a) (stored a) (table key (items s))) = (e, table key (items t))"
    using Cons.prems c rem_wf [of s] put_wf [of s] rem_refines [of s] put_refines [of s]
    by (cases x; force simp: prod_eq_iff)+
  with Cons.IH [of t] Cons.prems(2) c show ?case
    by (cases "run_ops put rem xs t") (auto simp: Let_def split: prod.split)
qed simp

end

end
