(* ===== verification/C_Text.thy ===== *)
theory C_Text
  imports Htsn_Prelude
begin

text \<open>
  C strings. A NUL-terminated string is the list of its characters before the terminator, so
  \<open>strlen\<close> is \<open>length\<close> and \<open>strcmp(a, b) == 0\<close> is equality; a \<open>char *\<close> that may be
  null is an option. The theory models \<open>src/common/str_util.c\<close> and what the sources use of the
  C library: \<open>snprintf\<close> truncation, \<open>%d\<close>, \<open>%04u\<close> and \<open>%02X\<close> conversions, \<open>atoi\<close>,
  \<open>strtoll\<close>, the \<open>sscanf\<close> conversions \<open>%d\<close>, \<open>%255[^:]\<close>, and \<open>strtok_r\<close>.
  The lemmas show that copying truncates to the buffer and is the identity on strings that fit, that
  printed numbers read back, and that tokens separated by single blanks come apart again.
\<close>

section \<open>Characters\<close>

definition digit_char :: "nat \<Rightarrow> char" where
  "digit_char d = char_of (48 + d)"

definition is_digit :: "char \<Rightarrow> bool" where
  "is_digit c \<longleftrightarrow> 48 \<le> (of_char c :: nat) \<and> (of_char c :: nat) \<le> 57"

definition digit_val :: "char \<Rightarrow> nat" where
  "digit_val c = of_char c - 48"

text \<open>\<open>isspace\<close> in the C locale.\<close>

definition is_space :: "char \<Rightarrow> bool" where
  "is_space c \<longleftrightarrow> (of_char c :: nat) = 32 \<or> (9 \<le> (of_char c :: nat) \<and> (of_char c :: nat) \<le> 13)"

lemma digit_char_simps [simp]:
  "d < 10 \<Longrightarrow> is_digit (digit_char d)" "d < 10 \<Longrightarrow> digit_val (digit_char d) = d"
  "d < 10 \<Longrightarrow> \<not> is_space (digit_char d)"
  by (auto simp: digit_char_def is_digit_def digit_val_def is_space_def of_char_of)

lemma digit_char_table [simp]:
  "digit_char 0 = CHR ''0''" "digit_char 1 = CHR ''1''" "digit_char 2 = CHR ''2''"
  "digit_char 3 = CHR ''3''" "digit_char 4 = CHR ''4''" "digit_char 5 = CHR ''5''"
  "digit_char 6 = CHR ''6''" "digit_char 7 = CHR ''7''" "digit_char 8 = CHR ''8''"
  "digit_char 9 = CHR ''9''" "digit_char (Suc 0) = CHR ''1''"
  by (simp_all add: digit_char_def char_of_def bit_0)

lemma digit_char_neq:
  "d < 10 \<Longrightarrow> \<not> is_digit c \<Longrightarrow> digit_char d \<noteq> c"
  using digit_char_simps(1) by metis

section \<open>Copying into buffers\<close>

text \<open>
  \<open>htsn_strlcpy(dst, src, size)\<close>: the new contents of \<open>dst\<close> and the return value. A null
  \<open>dst\<close> or a zero sz changes nothing and returns 0.
\<close>

definition htsn_strlcpy :: "string option \<Rightarrow> string option \<Rightarrow> nat \<Rightarrow> string option \<times> nat" where
  "htsn_strlcpy dst src sz =
     (if dst = None \<or> sz = 0 then (dst, 0)
      else
        (let src_len = (case src of Some s \<Rightarrow> length s | None \<Rightarrow> 0)
         in if src_len \<ge> sz then (Some (take (sz - 1) (the src)), src_len)
            else (case src of
                    Some s \<Rightarrow> (Some s, src_len)
                  | None \<Rightarrow> (Some [], src_len))))"

text \<open>The contents of a fixed-sz field after \<open>htsn_strlcpy(field, src, sizeof(field))\<close>.\<close>

definition cpy :: "nat \<Rightarrow> string option \<Rightarrow> string" where
  "cpy sz src = the (fst (htsn_strlcpy (Some []) src sz))"

text \<open>The contents of a buffer after \<open>snprintf(buf, size, ...)\<close> of a text.\<close>

definition snprintf_buf :: "nat \<Rightarrow> string \<Rightarrow> string" where
  "snprintf_buf sz s = take (sz - 1) s"

definition fits :: "nat \<Rightarrow> string \<Rightarrow> bool" where
  "fits sz s \<longleftrightarrow> length s < sz"

lemma cpy_Some: "0 < sz \<Longrightarrow> cpy sz (Some s) = take (sz - 1) s"
  by (auto simp: cpy_def htsn_strlcpy_def Let_def)

lemma cpy_None [simp]: "0 < sz \<Longrightarrow> cpy sz None = []"
  by (simp add: cpy_def htsn_strlcpy_def Let_def)

lemma cpy_fits [simp]: "fits sz s \<Longrightarrow> cpy sz (Some s) = s"
  by (cases "sz = 0") (auto simp: cpy_Some fits_def)

lemma fits_cpy [simp]: "0 < sz \<Longrightarrow> fits sz (cpy sz src)"
  by (cases src) (auto simp: cpy_Some fits_def)

lemma fits_mono: "fits m s \<Longrightarrow> m \<le> n \<Longrightarrow> fits n s"
  by (simp add: fits_def)

lemma htsn_strlcpy_bounded:
  assumes "htsn_strlcpy (Some d) src sz = (r, n)" and "0 < sz"
  shows "\<exists>s. r = Some s \<and> fits sz s \<and> n = (case src of Some t \<Rightarrow> length t | None \<Rightarrow> 0)"
  using assms by (auto simp: htsn_strlcpy_def fits_def Let_def split: option.splits if_splits)

section \<open>Trimming, prefixes\<close>

definition trim_tail_char :: "char \<Rightarrow> bool" where
  "trim_tail_char c \<longleftrightarrow> c = CHR '' '' \<or> c = CHR 0x09 \<or> c = CHR 0x0A \<or> c = CHR 0x0D"

definition trim_head_char :: "char \<Rightarrow> bool" where
  "trim_head_char c \<longleftrightarrow> c = CHR '' '' \<or> c = CHR 0x09"

definition htsn_str_trim :: "string option \<Rightarrow> string option" where
  "htsn_str_trim s =
     (case s of
        None \<Rightarrow> None
      | Some t \<Rightarrow> Some (dropWhile trim_head_char (rev (dropWhile trim_tail_char (rev t)))))"

definition htsn_str_starts_with :: "string option \<Rightarrow> string option \<Rightarrow> bool" where
  "htsn_str_starts_with s p =
     (case (s, p) of (Some t, Some q) \<Rightarrow> take (length q) t = q | _ \<Rightarrow> False)"

definition htsn_str_dup :: "string option \<Rightarrow> string option" where
  "htsn_str_dup s = s"

section \<open>UTF-8\<close>

definition byte_of :: "char \<Rightarrow> byte" where
  "byte_of c = word_of_nat (of_char c)"

definition utf8_cont :: "byte \<Rightarrow> bool" where
  "utf8_cont b \<longleftrightarrow> b AND 0xC0 = 0x80"

text \<open>The scan of \<open>htsn_str_valid_utf8\<close>; the terminator is never a continuation byte.\<close>

fun utf8_scan :: "byte list \<Rightarrow> bool" where
  "utf8_scan [] = True"
| "utf8_scan (b # r) =
     (if b < 0x80 then utf8_scan r
      else if b AND 0xE0 = 0xC0 then
        (case r of c1 # r1 \<Rightarrow> utf8_cont c1 \<and> utf8_scan r1 | _ \<Rightarrow> False)
      else if b AND 0xF0 = 0xE0 then
        (case r of c1 # c2 # r2 \<Rightarrow> utf8_cont c1 \<and> utf8_cont c2 \<and> utf8_scan r2 | _ \<Rightarrow> False)
      else if b AND 0xF8 = 0xF0 then
        (case r of
           c1 # c2 # c3 # r3 \<Rightarrow> utf8_cont c1 \<and> utf8_cont c2 \<and> utf8_cont c3 \<and> utf8_scan r3
         | _ \<Rightarrow> False)
      else False)"

definition htsn_str_valid_utf8 :: "string option \<Rightarrow> int" where
  "htsn_str_valid_utf8 s =
     (case s of None \<Rightarrow> 0 | Some t \<Rightarrow> if utf8_scan (map byte_of t) then 1 else 0)"

section \<open>Printing numbers\<close>

fun dec_nat :: "nat \<Rightarrow> string" where
  "dec_nat n = (if n < 10 then [digit_char n] else dec_nat (n div 10) @ [digit_char (n mod 10)])"

declare dec_nat.simps [simp del]

text \<open>\<open>%d\<close> and \<open>%lld\<close>.\<close>

definition dec_int :: "int \<Rightarrow> string" where
  "dec_int i = (if i < 0 then CHR ''-'' # dec_nat (nat (- i)) else dec_nat (nat i))"

text \<open>\<open>%04u\<close>.\<close>

definition dec_nat4 :: "nat \<Rightarrow> string" where
  "dec_nat4 n = replicate (4 - length (dec_nat n)) (CHR ''0'') @ dec_nat n"

text \<open>\<open>%02X\<close> of a byte.\<close>

definition hex_digit :: "nat \<Rightarrow> char" where
  "hex_digit d = (if d < 10 then char_of (48 + d) else char_of (55 + d))"

definition hex2 :: "byte \<Rightarrow> string" where
  "hex2 b = [hex_digit (unat b div 16), hex_digit (unat b mod 16)]"

section \<open>Reading numbers\<close>

fun scan_nat :: "nat \<Rightarrow> string \<Rightarrow> nat \<times> string" where
  "scan_nat acc [] = (acc, [])"
| "scan_nat acc (c # r) = (if is_digit c then scan_nat (10 * acc + digit_val c) r else (acc, c # r))"

text \<open>
  The integer at the head of a text after blanks and a sign, and the rest; \<open>None\<close> when no digit
  follows. This is the subject sequence of \<open>strtol\<close> and of the \<open>%d\<close> conversion of
  \<open>sscanf\<close>.
\<close>

definition scan_int :: "string \<Rightarrow> (int \<times> string) option" where
  "scan_int s =
     (let t = dropWhile is_space s;
          neg = (t \<noteq> [] \<and> hd t = CHR ''-'');
          u = (if t \<noteq> [] \<and> (hd t = CHR ''-'' \<or> hd t = CHR ''+'') then tl t else t)
      in case u of
           [] \<Rightarrow> None
         | c # _ \<Rightarrow>
             if is_digit c
             then (let (n, r) = scan_nat 0 u in Some (if neg then - int n else int n, r))
             else None)"

definition int32_wrap :: "int \<Rightarrow> int" where
  "int32_wrap i = signed_take_bit 31 i"

definition int64_sat :: "int \<Rightarrow> int" where
  "int64_sat i = max (- (2 ^ 63)) (min (2 ^ 63 - 1) i)"

text \<open>\<open>strtoll(s, NULL, 10)\<close> saturates; \<open>atoi\<close> keeps the low 32 bits of that value.\<close>

definition strtoll :: "string \<Rightarrow> int" where
  "strtoll s = (case scan_int s of None \<Rightarrow> 0 | Some (i, _) \<Rightarrow> int64_sat i)"

definition atoi :: "string \<Rightarrow> int" where
  "atoi s = int32_wrap (strtoll s)"

text \<open>The \<open>sscanf\<close> conversions \<open>%d\<close> and \<open>%lld\<close>.\<close>

definition scan_d :: "string \<Rightarrow> (int \<times> string) option" where
  "scan_d s = map_option (\<lambda>(i, r). (int32_wrap (int64_sat i), r)) (scan_int s)"

definition scan_lld :: "string \<Rightarrow> (int \<times> string) option" where
  "scan_lld s = map_option (\<lambda>(i, r). (int64_sat i, r)) (scan_int s)"

text \<open>A literal part of an \<open>sscanf\<close> format without blanks.\<close>

definition scan_lit :: "string \<Rightarrow> string \<Rightarrow> string option" where
  "scan_lit lit s = (if take (length lit) s = lit then Some (drop (length lit) s) else None)"

text \<open>\<open>%255[^c]\<close>: at least one, at most 255 characters other than \<open>c\<close>.\<close>

definition scan_upto :: "char \<Rightarrow> string \<Rightarrow> (string \<times> string) option" where
  "scan_upto c s =
     (let t = take 255 (takeWhile (\<lambda>x. x \<noteq> c) s)
      in if t = [] then None else Some (t, drop (length t) s))"

text \<open>\<open>%255s\<close>: leading blanks are skipped, then up to 255 non-blank characters.\<close>

definition scan_word :: "string \<Rightarrow> (string \<times> string) option" where
  "scan_word s =
     (let u = dropWhile is_space s; t = take 255 (takeWhile (\<lambda>x. \<not> is_space x) u)
      in if t = [] then None else Some (t, drop (length t) u))"

text \<open>All tokens \<open>strtok_r\<close> returns for a one-character delimiter set.\<close>

fun split_tokens :: "char \<Rightarrow> string \<Rightarrow> string \<Rightarrow> string list" where
  "split_tokens d cur [] = (if cur = [] then [] else [cur])"
| "split_tokens d cur (c # r) =
     (if c = d then (if cur = [] then split_tokens d [] r else cur # split_tokens d [] r)
      else split_tokens d (cur @ [c]) r)"

definition strtok_all :: "char \<Rightarrow> string \<Rightarrow> string list" where
  "strtok_all d s = split_tokens d [] s"

section \<open>Numbers read back what was printed\<close>

lemma dec_nat_nonempty [simp]: "dec_nat n \<noteq> []"
  by (subst dec_nat.simps) simp

lemma dec_nat_digits: "c \<in> set (dec_nat n) \<Longrightarrow> is_digit c"
proof (induction n rule: dec_nat.induct)
  case (1 n)
  show ?case
  proof (cases "n < 10")
    case True
    with "1.prems" show ?thesis by (simp add: dec_nat.simps [of n])
  next
    case False
    with 1 show ?thesis by (auto simp: dec_nat.simps [of n])
  qed
qed

lemma scan_nat_append:
  "scan_nat acc (dec_nat n @ r) = scan_nat (acc * 10 ^ length (dec_nat n) + n) r"
proof (induction n arbitrary: acc r rule: dec_nat.induct)
  case (1 n)
  show ?case
  proof (cases "n < 10")
    case True
    then show ?thesis by (simp add: dec_nat.simps [of n] mult.commute)
  next
    case False
    have n: "n div 10 * 10 + n mod 10 = n" by simp
    have "scan_nat acc (dec_nat n @ r) =
        scan_nat (10 * (acc * 10 ^ length (dec_nat (n div 10)) + n div 10) + n mod 10) r"
      using 1 False by (simp add: dec_nat.simps [of n])
    moreover have "10 * (acc * 10 ^ length (dec_nat (n div 10)) + n div 10) + n mod 10 =
        acc * 10 ^ length (dec_nat n) + n"
      using False n by (simp add: dec_nat.simps [of n] algebra_simps)
    ultimately show ?thesis by (simp only:)
  qed
qed

definition no_digit_ahead :: "string \<Rightarrow> bool" where
  "no_digit_ahead r \<longleftrightarrow> (case r of [] \<Rightarrow> True | c # _ \<Rightarrow> \<not> is_digit c)"

lemma scan_nat_stop: "no_digit_ahead r \<Longrightarrow> scan_nat acc r = (acc, r)"
  by (cases r) (auto simp: no_digit_ahead_def)

lemma scan_nat_dec_nat: "no_digit_ahead r \<Longrightarrow> scan_nat 0 (dec_nat n @ r) = (n, r)"
  by (simp add: scan_nat_append scan_nat_stop)

lemma dec_nat_Cons:
  obtains c t where "dec_nat n = c # t" and "is_digit c"
proof -
  obtain c t where e: "dec_nat n = c # t" by (cases "dec_nat n") auto
  then have "is_digit c" using dec_nat_digits [of c n] by simp
  with e that show ?thesis by blast
qed

lemma digit_no_space_sign:
  "is_digit c \<Longrightarrow> \<not> is_space c \<and> c \<noteq> CHR ''-'' \<and> c \<noteq> CHR ''+''"
  by (auto simp: is_digit_def is_space_def)

lemma scan_int_dec_int:
  assumes "no_digit_ahead r"
  shows "scan_int (dec_int i @ r) = Some (i, r)"
proof (cases "i < 0")
  case True
  obtain c t where e: "dec_nat (nat (- i)) = c # t" and c: "is_digit c" by (rule dec_nat_Cons)
  have "scan_nat 0 (dec_nat (nat (- i)) @ r) = (nat (- i), r)"
    using assms by (rule scan_nat_dec_nat)
  with e c True show ?thesis
    by (simp add: scan_int_def dec_int_def is_space_def Let_def)
next
  case False
  obtain c t where e: "dec_nat (nat i) = c # t" and c: "is_digit c" by (rule dec_nat_Cons)
  have "scan_nat 0 (dec_nat (nat i) @ r) = (nat i, r)"
    using assms by (rule scan_nat_dec_nat)
  with e c False digit_no_space_sign [OF c] show ?thesis
    by (simp add: scan_int_def dec_int_def Let_def)
qed

definition in_i32 :: "int \<Rightarrow> bool" where
  "in_i32 i \<longleftrightarrow> - (2 ^ 31) \<le> i \<and> i < 2 ^ 31"

definition in_i64 :: "int \<Rightarrow> bool" where
  "in_i64 i \<longleftrightarrow> - (2 ^ 63) \<le> i \<and> i < 2 ^ 63"

lemma int32_wrap_id [simp]: "in_i32 i \<Longrightarrow> int32_wrap i = i"
  by (simp add: in_i32_def int32_wrap_def signed_take_bit_int_eq_self)

lemma int64_sat_id [simp]: "in_i64 i \<Longrightarrow> int64_sat i = i"
  by (simp add: in_i64_def int64_sat_def)

lemma in_i32_i64: "in_i32 i \<Longrightarrow> in_i64 i"
  by (simp add: in_i32_def in_i64_def)

lemma int32_wrap_range [simp]: "in_i32 (int32_wrap i)"
  using signed_take_bit_int_greater_eq_minus_exp [of 31 i] signed_take_bit_int_less_exp [of 31 i]
  by (simp add: in_i32_def int32_wrap_def)

lemma scan_d_dec_int: "in_i32 i \<Longrightarrow> no_digit_ahead r \<Longrightarrow> scan_d (dec_int i @ r) = Some (i, r)"
  by (simp add: scan_d_def scan_int_dec_int in_i32_i64)

lemma scan_lld_dec_int: "in_i64 i \<Longrightarrow> no_digit_ahead r \<Longrightarrow> scan_lld (dec_int i @ r) = Some (i, r)"
  by (simp add: scan_lld_def scan_int_dec_int)

lemma atoi_dec_int: "in_i32 i \<Longrightarrow> no_digit_ahead r \<Longrightarrow> atoi (dec_int i @ r) = i"
  by (simp add: atoi_def strtoll_def scan_int_dec_int in_i32_i64)

lemma dec_int_no_space: "c \<in> set (dec_int i) \<Longrightarrow> c \<noteq> CHR '' ''  \<and> c \<noteq> CHR '':''"
  by (auto simp: dec_int_def is_digit_def split: if_splits dest: dec_nat_digits)

lemma length_dec_nat: "n < 10 ^ k \<Longrightarrow> 0 < k \<Longrightarrow> length (dec_nat n) \<le> k"
proof (induction n arbitrary: k rule: dec_nat.induct)
  case (1 n)
  show ?case
  proof (cases "n < 10")
    case True
    with "1.prems" show ?thesis by (simp add: dec_nat.simps [of n])
  next
    case False
    with "1.prems" obtain j where k: "k = Suc j" "0 < j" by (cases k; cases "k - 1") auto
    with "1.prems" have "n div 10 < 10 ^ j" by (simp add: less_mult_imp_div_less mult.commute)
    with 1 False k show ?thesis by (simp add: dec_nat.simps [of n])
  qed
qed

lemma length_dec_nat_i32: "n \<le> 2 ^ 31 \<Longrightarrow> length (dec_nat n) \<le> 10"
  by (rule length_dec_nat) simp_all

lemma length_dec_i32: "in_i32 i \<Longrightarrow> length (dec_int i) \<le> 11"
proof -
  assume "in_i32 i"
  then have "nat (- i) \<le> 2 ^ 31" "nat i \<le> 2 ^ 31" by (auto simp: in_i32_def)
  from this [THEN length_dec_nat_i32] show ?thesis by (simp add: dec_int_def)
qed

lemma length_dec_i64: "in_i64 i \<Longrightarrow> length (dec_int i) \<le> 20"
proof -
  assume "in_i64 i"
  then have "nat (- i) < 10 ^ 19" "nat i < 10 ^ 19" by (auto simp: in_i64_def)
  from this [THEN length_dec_nat] show ?thesis by (simp add: dec_int_def)
qed

text \<open>Decimal notation is a code with an inverse, and so is injective.\<close>

interpretation dec: codec dec_int "\<lambda>s. map_option fst (scan_int s)" "\<lambda>_. True"
  by unfold_locales (use scan_int_dec_int [of "[]"] in \<open>simp add: no_digit_ahead_def\<close>)

section \<open>Tokens\<close>

lemma split_tokens_one:
  "d \<notin> set t \<Longrightarrow> split_tokens d cur (t @ r) = split_tokens d (cur @ t) r"
  by (induction t arbitrary: cur) auto

lemma strtok_all_joined:
  assumes "\<And>t. t \<in> set ts \<Longrightarrow> t \<noteq> [] \<and> d \<notin> set t"
  shows "strtok_all d (concat (map (\<lambda>t. t @ [d]) ts)) = ts"
  using assms
proof (induction ts)
  case Nil
  then show ?case by (simp add: strtok_all_def)
next
  case (Cons t ts)
  then have "t \<noteq> []" "d \<notin> set t" by auto
  with Cons show ?case by (simp add: strtok_all_def split_tokens_one)
qed

lemma scan_lit_append [simp]: "scan_lit l (l @ r) = Some r"
  by (simp add: scan_lit_def)

lemma scan_upto_append:
  assumes "t \<noteq> []" "c \<notin> set t" "length t \<le> 255"
  shows "scan_upto c (t @ c # r) = Some (t, c # r)"
proof -
  have "takeWhile (\<lambda>x. x \<noteq> c) (t @ c # r) = t"
    using assms(2) by (induction t) auto
  with assms show ?thesis by (simp add: scan_upto_def)
qed

lemma scan_upto_end:
  assumes "t \<noteq> []" "c \<notin> set t" "length t \<le> 255"
  shows "scan_upto c t = Some (t, [])"
proof -
  have "takeWhile (\<lambda>x. x \<noteq> c) t = t"
    using assms(2) by (induction t) auto
  with assms show ?thesis unfolding scan_upto_def by (simp only: Let_def) simp
qed

text \<open>
  A call \<open>off += snprintf(buf + off, cap - off, ...)\<close> on a buffer that holds the text \<open>buf\<close>: the text and the new
  \<open>off\<close>, which counts the characters the call would have liked to write. Behind the end of the buffer the difference
  wraps, and the call writes outside: \<open>None\<close>. At its very end nothing is written.
\<close>

definition sn_append :: "nat \<Rightarrow> string \<Rightarrow> string \<times> nat \<Rightarrow> (string \<times> nat) option" where
  "sn_append cap s bo =
     (let (buf, off) = bo
      in if off > cap then None
         else if off = cap then Some (buf, off + length s)
         else Some (take off buf @ take (cap - off - 1) s, off + length s))"

lemma sn_append_fits:
  "length buf + length s < cap \<Longrightarrow> sn_append cap s (buf, length buf) = Some (buf @ s, length (buf @ s))"
  by (simp add: sn_append_def)

lemma sn_append_text:
  "sn_append cap s (take (cap - 1) t, length t) =
     (if length t \<le> cap then Some (take (cap - 1) (t @ s), length (t @ s)) else None)"
  by (auto simp: sn_append_def)

text \<open>Repeated calls that write the elements of a list with commas between them; \<open>first\<close> omits the first comma.\<close>

fun sn_list :: "nat \<Rightarrow> bool \<Rightarrow> string list \<Rightarrow> string \<times> nat \<Rightarrow> (string \<times> nat) option" where
  "sn_list cap first [] bo = Some bo"
| "sn_list cap first (e # es) bo =
     (case sn_append cap ((if first then [] else '','') @ e) bo of None \<Rightarrow> None | Some bo1 \<Rightarrow> sn_list cap False es bo1)"

fun csv :: "bool \<Rightarrow> string list \<Rightarrow> string" where
  "csv first [] = []"
| "csv first (e # es) = (if first then [] else '','') @ e @ csv False es"

lemma sn_list_text:
  "sn_list cap first es (take (cap - 1) t, length t) =
     (if es = [] \<or> length (t @ csv first (butlast es)) \<le> cap
      then Some (take (cap - 1) (t @ csv first es), length (t @ csv first es)) else None)"
proof (induction es arbitrary: first t)
  case (Cons e es)
  let ?s = "(if first then [] else '','') @ e"
  show ?case
  proof (cases "length t \<le> cap")
    case True
    then have "sn_list cap first (e # es) (take (cap - 1) t, length t) = sn_list cap False es (take (cap - 1) (t @ ?s), length (t @ ?s))"
      unfolding sn_list.simps sn_append_text by simp
    then show ?thesis using True Cons [of False "t @ ?s"] by simp
  next
    case False
    then show ?thesis unfolding sn_list.simps sn_append_text by simp
  qed
qed simp

lemma csv_butlast: "length (csv first (butlast es)) \<le> length (csv first es)"
  by (induction es arbitrary: first) (auto intro: le_trans)

end
