(* ===== verification/Htsn_Types.thy ===== *)
theory Htsn_Types
  imports C_Text
begin

text \<open>
  The data of the control plane: the structures and enumerations of \<open>device.h\<close>,
  \<open>sensor.h\<close>, \<open>qos.h\<close>, \<open>vlan.h\<close>, \<open>stream.h\<close>, \<open>timesync.h\<close>, \<open>gcl.h\<close>,
  \<open>tas.h\<close>, \<open>trace.h\<close> and of the database headers, their validity checks and their textual names. An
  enumeration is a datatype whose last constructor holds the other values an \<open>int\<close> cast into it
  can have. Fixed-size character fields are strings; C \<open>int\<close>, \<open>int64_t\<close> and \<open>time_t\<close>
  fields are integers. The lemmas show that names parse back and that casts are inverse, through the locale \<open>codec\<close>.
\<close>

definition HTSN_MAX_STR :: nat where "HTSN_MAX_STR = 256"
definition HTSN_MAX_DEVICES :: nat where "HTSN_MAX_DEVICES = 512"

section \<open>Devices\<close>

datatype htsn_device_status =
    HTSN_DEVICE_ONLINE | HTSN_DEVICE_OFFLINE | HTSN_DEVICE_ERROR | Device_status_other int

datatype htsn_device_kind =
    HTSN_DEVICE_KIND_UNKNOWN | HTSN_DEVICE_KIND_ESP32 | HTSN_DEVICE_KIND_RASPBERRYPI
  | HTSN_DEVICE_KIND_STM32

definition HTSN_TSN_FEATURES_MAX :: nat where "HTSN_TSN_FEATURES_MAX = 8"

record htsn_device =
  dev_id :: string
  dev_ip :: string
  dev_mac :: string
  dev_firmware :: string
  dev_last_seen :: int
  dev_status :: htsn_device_status
  dev_kind :: htsn_device_kind
  dev_tsn_features :: "string list"
  dev_name :: string
  dev_domain :: string
  dev_heartbeat_at :: int

fun device_status_int :: "htsn_device_status \<Rightarrow> int" where
  "device_status_int HTSN_DEVICE_ONLINE = 0"
| "device_status_int HTSN_DEVICE_OFFLINE = 1"
| "device_status_int HTSN_DEVICE_ERROR = 2"
| "device_status_int (Device_status_other i) = i"

definition int_device_status :: "int \<Rightarrow> htsn_device_status" where
  "int_device_status i =
     (if i = 0 then HTSN_DEVICE_ONLINE else if i = 1 then HTSN_DEVICE_OFFLINE
      else if i = 2 then HTSN_DEVICE_ERROR else Device_status_other i)"

fun htsn_device_status_str :: "htsn_device_status \<Rightarrow> string" where
  "htsn_device_status_str HTSN_DEVICE_ONLINE = ''online''"
| "htsn_device_status_str HTSN_DEVICE_OFFLINE = ''offline''"
| "htsn_device_status_str HTSN_DEVICE_ERROR = ''error''"
| "htsn_device_status_str (Device_status_other _) = ''unknown''"

fun htsn_device_kind_str :: "htsn_device_kind \<Rightarrow> string" where
  "htsn_device_kind_str HTSN_DEVICE_KIND_ESP32 = ''ESP32''"
| "htsn_device_kind_str HTSN_DEVICE_KIND_RASPBERRYPI = ''RaspberryPi''"
| "htsn_device_kind_str HTSN_DEVICE_KIND_STM32 = ''STM32''"
| "htsn_device_kind_str HTSN_DEVICE_KIND_UNKNOWN = ''Unknown''"

text \<open>\<open>tolower\<close> in the C locale and \<open>strcasecmp(a, b) == 0\<close>.\<close>

definition to_lower :: "char \<Rightarrow> char" where
  "to_lower c = (if 65 \<le> (of_char c :: nat) \<and> (of_char c :: nat) \<le> 90 then char_of (of_char c + 32 :: nat) else c)"

definition strcaseeq :: "string \<Rightarrow> string \<Rightarrow> bool" where
  "strcaseeq a b \<longleftrightarrow> map to_lower a = map to_lower b"

definition htsn_device_kind_parse :: "string option \<Rightarrow> htsn_device_kind" where
  "htsn_device_kind_parse so =
     (case so of
        None \<Rightarrow> HTSN_DEVICE_KIND_UNKNOWN
      | Some s \<Rightarrow>
          if strcaseeq s ''ESP32'' then HTSN_DEVICE_KIND_ESP32
          else if strcaseeq s ''RaspberryPi'' then HTSN_DEVICE_KIND_RASPBERRYPI
          else if strcaseeq s ''STM32'' then HTSN_DEVICE_KIND_STM32
          else HTSN_DEVICE_KIND_UNKNOWN)"

definition htsn_device_add_tsn_feature :: "htsn_device \<Rightarrow> string option \<Rightarrow> htsn_device" where
  "htsn_device_add_tsn_feature d feature =
     (case feature of
        None \<Rightarrow> d
      | Some f \<Rightarrow>
          if length (dev_tsn_features d) \<ge> HTSN_TSN_FEATURES_MAX then d
          else d\<lparr>dev_tsn_features := dev_tsn_features d @ [cpy 64 (Some f)]\<rparr>)"

section \<open>Domains, sensors\<close>

record htsn_domain =
  dom_id :: string
  dom_name :: string
  dom_description :: string

datatype htsn_sensor_type =
    HTSN_SENSOR_TEMPERATURE | HTSN_SENSOR_PRESSURE | HTSN_SENSOR_IMU | HTSN_SENSOR_DISTANCE
  | HTSN_SENSOR_GPIO

text \<open>The value of a sensor is a C \<open>double\<close>, kept as its 64-bit pattern.\<close>

record htsn_sensor =
  sen_device_id :: string
  sen_sensor_id :: string
  sen_type :: htsn_sensor_type
  sen_name :: string
  sen_value :: u64
  sen_unit :: string
  sen_healthy :: bool
  sen_last_update :: int

fun htsn_sensor_type_str :: "htsn_sensor_type \<Rightarrow> string" where
  "htsn_sensor_type_str HTSN_SENSOR_TEMPERATURE = ''temperature''"
| "htsn_sensor_type_str HTSN_SENSOR_PRESSURE = ''pressure''"
| "htsn_sensor_type_str HTSN_SENSOR_IMU = ''imu''"
| "htsn_sensor_type_str HTSN_SENSOR_DISTANCE = ''distance''"
| "htsn_sensor_type_str HTSN_SENSOR_GPIO = ''gpio''"

definition htsn_sensor_type_parse :: "string option \<Rightarrow> htsn_sensor_type" where
  "htsn_sensor_type_parse so =
     (case so of
        None \<Rightarrow> HTSN_SENSOR_TEMPERATURE
      | Some s \<Rightarrow>
          if s = ''temperature'' then HTSN_SENSOR_TEMPERATURE
          else if s = ''pressure'' then HTSN_SENSOR_PRESSURE
          else if s = ''imu'' then HTSN_SENSOR_IMU
          else if s = ''distance'' then HTSN_SENSOR_DISTANCE
          else if s = ''gpio'' then HTSN_SENSOR_GPIO
          else HTSN_SENSOR_TEMPERATURE)"

section \<open>Quality of service\<close>

record htsn_qos_config_model =
  qm_device_id :: string
  qm_priority :: int
  qm_traffic_class :: int
  qm_bandwidth_kbps :: int
  qm_latency_ms :: int
  qm_latency_class :: int
  qm_preemption :: int

record htsn_qos_config =
  qos_device_id :: string
  qos_priority :: int
  qos_traffic_class :: int
  qos_bandwidth_kbps :: int
  qos_latency_ms :: int
  qos_preemption :: int

definition htsn_qos_validate :: "htsn_qos_config_model option \<Rightarrow> htsn_error" where
  "htsn_qos_validate co =
     (case co of
        None \<Rightarrow> HTSN_ERR_INVALID_ARG
      | Some cfg \<Rightarrow>
          if qm_priority cfg < 0 \<or> qm_priority cfg > 7 then HTSN_ERR_INVALID_ARG
          else if qm_bandwidth_kbps cfg < 0 \<or> qm_bandwidth_kbps cfg > 10000000 then HTSN_ERR_INVALID_ARG
          else if qm_latency_ms cfg < 0 \<or> qm_latency_ms cfg > 60000 then HTSN_ERR_INVALID_ARG
          else if length (qm_device_id cfg) = 0 then HTSN_ERR_INVALID_ARG
          else HTSN_OK)"

definition htsn_qos_tc_str :: "int \<Rightarrow> string" where
  "htsn_qos_tc_str tc =
     (if tc = 0 then ''Best Effort'' else if tc = 1 then ''Audio/Video''
      else if tc = 2 then ''Controlled'' else if tc = 3 then ''Critical'' else ''Unknown'')"

definition htsn_qos_latency_str :: "int \<Rightarrow> string" where
  "htsn_qos_latency_str lc =
     (if lc = 0 then ''Priority'' else if lc = 1 then ''Soft Real-Time''
      else if lc = 2 then ''Hard Real-Time'' else ''Unknown'')"

definition htsn_preemption_str :: "int \<Rightarrow> string" where
  "htsn_preemption_str p =
     (if p = 0 then ''off'' else if p = 1 then ''express-queue'' else if p = 2 then ''on'' else ''off'')"

section \<open>VLAN groups\<close>

record htsn_vlan_group_model =
  vg_id :: string
  vg_name :: string
  vg_vlan_id :: int

record htsn_vlan_member =
  vm_group_id :: string
  vm_device_id :: string

definition htsn_vlan_validate_group :: "htsn_vlan_group_model option \<Rightarrow> htsn_error" where
  "htsn_vlan_validate_group go =
     (case go of
        None \<Rightarrow> HTSN_ERR_INVALID_ARG
      | Some g \<Rightarrow>
          if vg_vlan_id g < 1 \<or> vg_vlan_id g > 4094 then HTSN_ERR_INVALID_ARG
          else if length (vg_name g) = 0 then HTSN_ERR_INVALID_ARG
          else HTSN_OK)"

definition htsn_vlan_group_id :: "htsn_vlan_group_model \<Rightarrow> htsn_vlan_group_model" where
  "htsn_vlan_group_id g = g\<lparr>vg_id := snprintf_buf HTSN_MAX_STR (''vlan-'' @ dec_int (vg_vlan_id g))\<rparr>"

section \<open>Streams\<close>

datatype htsn_stream_status =
    HTSN_STREAM_CONFIGURED | HTSN_STREAM_READY | HTSN_STREAM_FAILED | HTSN_STREAM_STANDBY
  | Stream_status_other int

datatype htsn_stream_role = HTSN_STREAM_ROLE_TALKER | HTSN_STREAM_ROLE_LISTENER | HTSN_STREAM_ROLE_COUNT

definition HTSN_STREAM_ALL_LISTENERS :: string where "HTSN_STREAM_ALL_LISTENERS = ''*''"

record htsn_stream =
  st_stream_id :: string
  st_name :: string
  st_talker :: string
  st_vlan_id :: int
  st_max_latency_ns :: int
  st_max_interval_ns :: int
  st_priority :: int
  st_data_frame_prio :: int
  st_status :: htsn_stream_status
  st_comment :: string
  st_listeners :: "string list"
  st_listener_all :: bool

fun stream_status_int :: "htsn_stream_status \<Rightarrow> int" where
  "stream_status_int HTSN_STREAM_CONFIGURED = 0"
| "stream_status_int HTSN_STREAM_READY = 1"
| "stream_status_int HTSN_STREAM_FAILED = 2"
| "stream_status_int HTSN_STREAM_STANDBY = 3"
| "stream_status_int (Stream_status_other i) = i"

definition int_stream_status :: "int \<Rightarrow> htsn_stream_status" where
  "int_stream_status i =
     (if i = 0 then HTSN_STREAM_CONFIGURED else if i = 1 then HTSN_STREAM_READY
      else if i = 2 then HTSN_STREAM_FAILED else if i = 3 then HTSN_STREAM_STANDBY
      else Stream_status_other i)"

definition htsn_stream_validate :: "htsn_stream option \<Rightarrow> htsn_error" where
  "htsn_stream_validate so =
     (case so of
        None \<Rightarrow> HTSN_ERR_INVALID_ARG
      | Some s \<Rightarrow>
          if length (st_stream_id s) = 0 then HTSN_ERR_INVALID_ARG
          else if length (st_talker s) = 0 then HTSN_ERR_INVALID_ARG
          else if st_vlan_id s < 0 \<or> st_vlan_id s > 4094 then HTSN_ERR_INVALID_ARG
          else if st_priority s < 0 \<or> st_priority s > 7 then HTSN_ERR_INVALID_ARG
          else if st_data_frame_prio s < 0 \<or> st_data_frame_prio s > 7 then HTSN_ERR_INVALID_ARG
          else if st_max_latency_ns s \<le> 0 then HTSN_ERR_INVALID_ARG
          else if st_max_interval_ns s \<le> 0 then HTSN_ERR_INVALID_ARG
          else if \<not> st_listener_all s \<and> length (st_listeners s) = 0 then HTSN_ERR_INVALID_ARG
          else HTSN_OK)"

definition htsn_stream_status_parse :: "string option \<Rightarrow> htsn_stream_status" where
  "htsn_stream_status_parse so =
     (case so of
        None \<Rightarrow> HTSN_STREAM_CONFIGURED
      | Some s \<Rightarrow>
          if s = ''ready'' then HTSN_STREAM_READY
          else if s = ''failed'' then HTSN_STREAM_FAILED
          else if s = ''standby'' then HTSN_STREAM_STANDBY
          else HTSN_STREAM_CONFIGURED)"

fun htsn_stream_status_str :: "htsn_stream_status \<Rightarrow> string" where
  "htsn_stream_status_str HTSN_STREAM_READY = ''ready''"
| "htsn_stream_status_str HTSN_STREAM_FAILED = ''failed''"
| "htsn_stream_status_str HTSN_STREAM_STANDBY = ''standby''"
| "htsn_stream_status_str HTSN_STREAM_CONFIGURED = ''configured''"
| "htsn_stream_status_str (Stream_status_other _) = ''configured''"

fun htsn_stream_role_str :: "htsn_stream_role \<Rightarrow> string" where
  "htsn_stream_role_str HTSN_STREAM_ROLE_TALKER = ''talker''"
| "htsn_stream_role_str HTSN_STREAM_ROLE_LISTENER = ''listener''"
| "htsn_stream_role_str HTSN_STREAM_ROLE_COUNT = ''listener''"

section \<open>Time synchronisation\<close>

datatype htsn_timesync_mode =
    HTSN_TIMESYNC_DISABLED | HTSN_TIMESYNC_LOCAL_GRANDMASTER | HTSN_TIMESYNC_EXTERNAL_GRANDMASTER
  | HTSN_TIMESYNC_AUTO

record htsn_timesync_status =
  ts_mode :: htsn_timesync_mode
  ts_grandmaster :: string
  ts_offset_ns :: int
  ts_jitter_ns :: int
  ts_quality :: int
  ts_gptp_active :: bool
  ts_protocol :: string
  ts_report_offset_ns :: int
  ts_report_jitter_ns :: int
  ts_report_packet_count :: int
  ts_report_packet_loss :: int
  ts_report_device :: string

record htsn_timesync_report =
  tr_device_id :: string
  tr_ts :: int
  tr_offset_ns :: int
  tr_jitter_ns :: int
  tr_packet_count :: int
  tr_packet_loss :: int
  tr_status :: string

fun htsn_timesync_mode_str :: "htsn_timesync_mode \<Rightarrow> string" where
  "htsn_timesync_mode_str HTSN_TIMESYNC_DISABLED = ''disabled''"
| "htsn_timesync_mode_str HTSN_TIMESYNC_LOCAL_GRANDMASTER = ''local_grandmaster''"
| "htsn_timesync_mode_str HTSN_TIMESYNC_EXTERNAL_GRANDMASTER = ''external_grandmaster''"
| "htsn_timesync_mode_str HTSN_TIMESYNC_AUTO = ''auto''"

definition htsn_timesync_mode_parse :: "string option \<Rightarrow> htsn_timesync_mode" where
  "htsn_timesync_mode_parse so =
     (case so of
        None \<Rightarrow> HTSN_TIMESYNC_DISABLED
      | Some s \<Rightarrow>
          if s = ''local_grandmaster'' then HTSN_TIMESYNC_LOCAL_GRANDMASTER
          else if s = ''external_grandmaster'' then HTSN_TIMESYNC_EXTERNAL_GRANDMASTER
          else if s = ''auto'' then HTSN_TIMESYNC_AUTO
          else HTSN_TIMESYNC_DISABLED)"

definition htsn_timesync_validate_mode :: "htsn_timesync_mode \<Rightarrow> htsn_error" where
  "htsn_timesync_validate_mode m = HTSN_OK"

section \<open>Trace entries, configuration versions\<close>

datatype htsn_trace_type =
    HTSN_TRACE_COMM | HTSN_TRACE_FRAME | HTSN_TRACE_CONFIG | HTSN_TRACE_MULTICAST
  | Trace_type_other int

record htsn_trace_entry =
  te_timestamp :: string
  te_type :: htsn_trace_type
  te_source :: string
  te_line :: string

fun trace_type_int :: "htsn_trace_type \<Rightarrow> int" where
  "trace_type_int HTSN_TRACE_COMM = 0"
| "trace_type_int HTSN_TRACE_FRAME = 1"
| "trace_type_int HTSN_TRACE_CONFIG = 2"
| "trace_type_int HTSN_TRACE_MULTICAST = 3"
| "trace_type_int (Trace_type_other i) = i"

definition int_trace_type :: "int \<Rightarrow> htsn_trace_type" where
  "int_trace_type i =
     (if i = 0 then HTSN_TRACE_COMM else if i = 1 then HTSN_TRACE_FRAME
      else if i = 2 then HTSN_TRACE_CONFIG else if i = 3 then HTSN_TRACE_MULTICAST
      else Trace_type_other i)"

record htsn_config_version =
  cv_id :: int
  cv_name :: string
  cv_device_id :: string
  cv_created_at :: int
  cv_payload :: string

section \<open>Names parse back\<close>

interpretation sensor_type: codec htsn_sensor_type_str "\<lambda>s. Some (htsn_sensor_type_parse (Some s))"
  "\<lambda>_. True"
  by (unfold_locales, case_tac x) (simp_all add: htsn_sensor_type_parse_def)

interpretation device_kind: codec htsn_device_kind_str "\<lambda>s. Some (htsn_device_kind_parse (Some s))"
  "\<lambda>_. True"
  by (unfold_locales, case_tac x) (simp_all add: htsn_device_kind_parse_def strcaseeq_def to_lower_def)

interpretation timesync_mode: codec htsn_timesync_mode_str
  "\<lambda>s. Some (htsn_timesync_mode_parse (Some s))" "\<lambda>_. True"
  by (unfold_locales, case_tac x) (simp_all add: htsn_timesync_mode_parse_def)

interpretation stream_status: codec htsn_stream_status_str
  "\<lambda>s. Some (htsn_stream_status_parse (Some s))" "\<lambda>s. \<forall>i. s \<noteq> Stream_status_other i"
  by (unfold_locales, case_tac x) (simp_all add: htsn_stream_status_parse_def)

text \<open>A cast of an enumeration to \<open>int\<close> and back, on the values a cast produces.\<close>

definition proper_device_status :: "htsn_device_status \<Rightarrow> bool" where
  "proper_device_status s \<longleftrightarrow> (\<forall>i. s = Device_status_other i \<longrightarrow> i \<noteq> 0 \<and> i \<noteq> 1 \<and> i \<noteq> 2)"

interpretation device_status: codec device_status_int "\<lambda>i. Some (int_device_status i)" proper_device_status
  by (unfold_locales, case_tac x) (simp_all add: int_device_status_def proper_device_status_def)

definition proper_stream_status :: "htsn_stream_status \<Rightarrow> bool" where
  "proper_stream_status s \<longleftrightarrow> (\<forall>i. s = Stream_status_other i \<longrightarrow> i \<noteq> 0 \<and> i \<noteq> 1 \<and> i \<noteq> 2 \<and> i \<noteq> 3)"

interpretation stream_status_cast: codec stream_status_int "\<lambda>i. Some (int_stream_status i)"
  proper_stream_status
  by (unfold_locales, case_tac x) (simp_all add: int_stream_status_def proper_stream_status_def)

lemmas name_roundtrips [simp] =
  sensor_type.dec_enc [OF TrueI, simplified] device_kind.dec_enc [OF TrueI, simplified]
  timesync_mode.dec_enc [OF TrueI, simplified]

end
