(* ===== verification/Gcl_Tas.thy ===== *)
theory Gcl_Tas
  imports Htsn_Types
begin

text \<open>
  Gate control lists and time-aware schedules (\<open>src/tas/gcl.c\<close>, \<open>src/tas/tas.c\<close>).
  A gate control list keeps the first \<open>entry_count\<close> elements of its array. The 64-bit sum
  of the durations wraps, as the compiled addition does. Rendering is modelled with the addresses
  it writes, because it advances its pointer by what \<open>snprintf\<close> would have written. The
  lemmas relate validity to the mathematical cycle cover, show that the helper's schedule is valid,
  and say when rendering stays inside its buffer.
\<close>

section \<open>Gate control lists\<close>

record htsn_gcl_entry =
  gate_state :: byte
  duration_ns :: int

record htsn_gcl =
  gcl_entries :: "htsn_gcl_entry list"
  gcl_cycle_time_ns :: int

definition HTSN_GATE_OPEN :: byte where "HTSN_GATE_OPEN = 0x01"
definition HTSN_GCL_MAX_ENTRIES :: nat where "HTSN_GCL_MAX_ENTRIES = 128"

definition int64_wrap :: "int \<Rightarrow> int" where
  "int64_wrap i = signed_take_bit 63 i"

definition htsn_gcl_init :: "htsn_gcl \<Rightarrow> int \<Rightarrow> htsn_error \<times> htsn_gcl" where
  "htsn_gcl_init gcl cycle =
     (if cycle \<le> 0 then (HTSN_ERR_INVALID_ARG, gcl)
      else (HTSN_OK, \<lparr>gcl_entries = [], gcl_cycle_time_ns = cycle\<rparr>))"

definition htsn_gcl_add_entry :: "htsn_gcl \<Rightarrow> byte \<Rightarrow> int \<Rightarrow> htsn_error \<times> htsn_gcl" where
  "htsn_gcl_add_entry gcl gs dur =
     (if dur < 0 \<or> length (gcl_entries gcl) \<ge> HTSN_GCL_MAX_ENTRIES then (HTSN_ERR_INVALID_ARG, gcl)
      else (HTSN_OK, gcl\<lparr>gcl_entries := gcl_entries gcl @ [\<lparr>gate_state = gs, duration_ns = dur\<rparr>]\<rparr>))"

definition htsn_gcl_reset :: "htsn_gcl \<Rightarrow> htsn_gcl" where
  "htsn_gcl_reset gcl = gcl\<lparr>gcl_entries := []\<rparr>"

definition htsn_gcl_total_duration_ns :: "htsn_gcl option \<Rightarrow> int" where
  "htsn_gcl_total_duration_ns go =
     (case go of
        None \<Rightarrow> 0
      | Some gcl \<Rightarrow> foldl (\<lambda>total e. int64_wrap (total + duration_ns e)) 0 (gcl_entries gcl))"

definition htsn_gcl_is_valid :: "htsn_gcl option \<Rightarrow> bool" where
  "htsn_gcl_is_valid go =
     (case go of
        None \<Rightarrow> False
      | Some gcl \<Rightarrow>
          if length (gcl_entries gcl) = 0 then False
          else htsn_gcl_total_duration_ns (Some gcl) = gcl_cycle_time_ns gcl)"

section \<open>Rendering\<close>

definition row_state_char :: "byte \<Rightarrow> char" where
  "row_state_char s = (if s AND HTSN_GATE_OPEN \<noteq> 0 then CHR ''#'' else CHR ''.'')"

definition gcl_cell :: "htsn_gcl_entry \<Rightarrow> string" where
  "gcl_cell e = ''['' @ [row_state_char (gate_state e)] @ '' '' @ dec_int (duration_ns e) @ ''ns]''"

text \<open>
  The addresses and characters \<open>snprintf(p, size, ...)\<close> writes for a text: at most \<open>size - 1\<close>
  characters and the terminator.
\<close>

definition snprintf_writes :: "nat \<Rightarrow> u64 \<Rightarrow> string \<Rightarrow> (nat \<times> char) list" where
  "snprintf_writes p sz s =
     (if sz = 0 then []
      else (let t = take (unat sz - 1) s
            in zip [p..<p + length t] t @ [(p + length t, CHR 0x00)]))"

text \<open>The loop: the offset of \<open>p\<close> in \<open>out\<close>, the \<open>size_t\<close> \<open>remaining\<close>, the writes so far.\<close>

fun render_loop :: "htsn_gcl_entry list \<Rightarrow> nat \<Rightarrow> u64 \<Rightarrow> (nat \<times> char) list \<Rightarrow>
    nat \<times> u64 \<times> (nat \<times> char) list" where
  "render_loop [] p remaining w = (p, remaining, w)"
| "render_loop (e # es) p remaining w =
     (if remaining > 1
      then render_loop es (p + length (gcl_cell e)) (remaining - word_of_nat (length (gcl_cell e)))
             (w @ snprintf_writes p remaining (gcl_cell e))
      else (p, remaining, w))"

definition htsn_gcl_render_ascii :: "htsn_gcl option \<Rightarrow> u64 \<Rightarrow> (nat \<times> char) list" where
  "htsn_gcl_render_ascii go out_size =
     (case go of
        None \<Rightarrow> []
      | Some gcl \<Rightarrow>
          if out_size = 0 then []
          else (let (p, remaining, w) = render_loop (gcl_entries gcl) 0 out_size []
                in if remaining > 0 then w @ [(p, CHR 0x00)] else w))"

section \<open>Schedules\<close>

record htsn_tas_schedule_model =
  tas_id :: string
  tas_name :: string
  tas_cycle_time_ns :: int
  tas_deploy_target :: string
  tas_gcl :: htsn_gcl

definition htsn_tas_validate :: "htsn_tas_schedule_model option \<Rightarrow> htsn_error" where
  "htsn_tas_validate so =
     (case so of
        None \<Rightarrow> HTSN_ERR_INVALID_ARG
      | Some s \<Rightarrow>
          if tas_cycle_time_ns s \<le> 0 then HTSN_ERR_INVALID_ARG
          else if \<not> htsn_gcl_is_valid (Some (tas_gcl s)) then HTSN_ERR_INVALID_ARG
          else if length (tas_name s) = 0 then HTSN_ERR_INVALID_ARG
          else HTSN_OK)"

definition htsn_tas_generate_helper :: "htsn_tas_schedule_model \<Rightarrow> htsn_error \<times> htsn_tas_schedule_model" where
  "htsn_tas_generate_helper s =
     (if tas_cycle_time_ns s \<le> 0 then (HTSN_ERR_INVALID_ARG, s)
      else
        (let g = \<lparr>gcl_entries = [], gcl_cycle_time_ns = tas_cycle_time_ns s\<rparr>;
             g1 = snd (htsn_gcl_add_entry g HTSN_GATE_OPEN (tas_cycle_time_ns s))
         in (HTSN_OK, s\<lparr>tas_gcl := g1\<rparr>)))"

section \<open>What the operations keep\<close>

definition gcl_inv :: "htsn_gcl \<Rightarrow> bool" where
  "gcl_inv g \<longleftrightarrow> length (gcl_entries g) \<le> HTSN_GCL_MAX_ENTRIES \<and>
     (\<forall>e \<in> set (gcl_entries g). 0 \<le> duration_ns e)"

lemma gcl_inv_init: "htsn_gcl_init g c = (HTSN_OK, g') \<Longrightarrow> gcl_inv g'"
  by (auto simp: htsn_gcl_init_def gcl_inv_def split: if_splits)

lemma gcl_inv_add: "gcl_inv g \<Longrightarrow> gcl_inv (snd (htsn_gcl_add_entry g gs d))"
  by (auto simp: htsn_gcl_add_entry_def gcl_inv_def)

lemma gcl_inv_reset: "gcl_inv (htsn_gcl_reset g)"
  by (simp add: htsn_gcl_reset_def gcl_inv_def)

text \<open>Lists the program builds: an initialised list and any number of \<open>htsn_gcl_add_entry\<close> calls.\<close>

fun gcl_build :: "htsn_gcl \<Rightarrow> (byte \<times> int) list \<Rightarrow> htsn_gcl" where
  "gcl_build g [] = g"
| "gcl_build g ((gs, d) # r) = gcl_build (snd (htsn_gcl_add_entry g gs d)) r"

lemma gcl_inv_build: "gcl_inv g \<Longrightarrow> gcl_inv (gcl_build g es)"
  by (induction g es rule: gcl_build.induct) (auto intro: gcl_inv_add)

section \<open>The wrapped total\<close>

lemma int64_wrap_mod: "int64_wrap (int64_wrap a + b) = int64_wrap (a + b)"
  unfolding int64_wrap_def by (metis signed_take_bit_add signed_take_bit_signed_take_bit min.idem)

lemma total_wrap:
  "foldl (\<lambda>total e. int64_wrap (total + duration_ns e)) (int64_wrap a) es =
     int64_wrap (a + sum_list (map duration_ns es))"
  by (induction es arbitrary: a) (simp_all add: int64_wrap_mod add.assoc)

lemma total_duration_eq:
  "htsn_gcl_total_duration_ns (Some g) = int64_wrap (sum_list (map duration_ns (gcl_entries g)))"
  using total_wrap [of 0 "gcl_entries g"] by (simp add: htsn_gcl_total_duration_ns_def int64_wrap_def)

lemma int64_wrap_id: "in_i64 i \<Longrightarrow> int64_wrap i = i"
  by (simp add: int64_wrap_def in_i64_def signed_take_bit_int_eq_self)

lemma gcl_build_cycle [simp]: "gcl_cycle_time_ns (gcl_build g es) = gcl_cycle_time_ns g"
  by (induction g es rule: gcl_build.induct) (simp_all add: htsn_gcl_add_entry_def)

section \<open>Rendering stays in its buffer\<close>

definition apply_writes :: "string \<Rightarrow> (nat \<times> char) list \<Rightarrow> string" where
  "apply_writes b w = foldl (\<lambda>b (a, c). b[a := c]) b w"

lemma apply_writes_append [simp]: "apply_writes b (v @ w) = apply_writes (apply_writes b v) w"
  by (simp add: apply_writes_def)

lemma apply_writes_one [simp]: "apply_writes b [(a, c)] = b[a := c]"
  by (simp add: apply_writes_def)

lemma length_apply_writes [simp]: "length (apply_writes b w) = length b"
  by (induction w rule: rev_induct) (auto simp: apply_writes_def split: prod.splits)

lemma apply_writes_block:
  "p + length t \<le> length b \<Longrightarrow>
     apply_writes b (zip [p..<p + length t] t) = take p b @ t @ drop (p + length t) b"
proof (induction t rule: rev_induct)
  case Nil
  then show ?case by (simp add: apply_writes_def)
next
  case (snoc c t)
  have "zip [p..<p + length (t @ [c])] (t @ [c]) = zip [p..<p + length t] t @ [(p + length t, c)]"
    by simp
  then have "apply_writes b (zip [p..<p + length (t @ [c])] (t @ [c])) =
      (take p b @ t @ drop (p + length t) b)[p + length t := c]"
    using snoc by (simp add: apply_writes_def)
  also have "\<dots> = take p b @ (t @ [c]) @ drop (p + length (t @ [c])) b"
    using snoc.prems Cons_nth_drop_Suc [of "p + length t" b]
    by (cases "drop (p + length t) b") (simp_all add: list_update_append)
  finally show ?case .
qed

text \<open>The text of a list, and the writes that are addressed inside a buffer.\<close>

definition gcl_text :: "htsn_gcl_entry list \<Rightarrow> string" where
  "gcl_text es = concat (map gcl_cell es)"

definition in_buffer :: "nat \<Rightarrow> (nat \<times> char) list \<Rightarrow> bool" where
  "in_buffer n w \<longleftrightarrow> (\<forall>(a, c) \<in> set w. a < n)"

lemma snprintf_writes_fits:
  assumes "length s < unat sz" and "p + unat sz \<le> length b"
  shows "in_buffer (length b) (snprintf_writes p sz s)"
    and "take (p + length s) (apply_writes b (snprintf_writes p sz s)) = take p b @ s"
proof -
  have z: "sz \<noteq> 0" and t: "take (unat sz - 1) s = s" using assms(1) by auto
  have w: "snprintf_writes p sz s = zip [p..<p + length s] s @ [(p + length s, CHR 0x00)]"
    using z t by (simp add: snprintf_writes_def Let_def)
  show "in_buffer (length b) (snprintf_writes p sz s)"
    unfolding w in_buffer_def using assms by (auto dest: set_zip_leftD)
  have a: "apply_writes b (zip [p..<p + length s] s) = take p b @ s @ drop (p + length s) b"
    using assms by (intro apply_writes_block) simp
  show "take (p + length s) (apply_writes b (snprintf_writes p sz s)) = take p b @ s"
    unfolding w apply_writes_append a using assms by (simp add: apply_writes_def)
qed

lemma length_gcl_cell_pos: "0 < length (gcl_cell e)"
  by (simp add: gcl_cell_def)

lemma render_loop_fits:
  assumes "p + unat remaining = length b" and "length (gcl_text es) < unat remaining"
    and "in_buffer (length b) w" and "take p (apply_writes b w) = t"
    and "render_loop es p remaining w = (p', r', w')"
  shows "p' = p + length (gcl_text es) \<and> p' + unat r' = length b \<and> r' > 0 \<and>
    in_buffer (length b) w' \<and> take p' (apply_writes b w') = t @ gcl_text es"
  using assms
proof (induction es p remaining w arbitrary: t rule: render_loop.induct)
  case (1 p remaining w)
  then show ?case by (simp add: gcl_text_def word_gt_0 unat_gt_0)
next
  case (2 e es p remaining w)
  let ?c = "gcl_cell e"
  let ?r = "remaining - word_of_nat (length ?c)"
  have len: "length ?c + length (gcl_text es) < unat remaining" using "2.prems"(2) by (simp add: gcl_text_def)
  then have "1 < unat remaining" using length_gcl_cell_pos [of e] by linarith
  then have gt: "remaining > 1" by (simp add: word_less_nat_alt)
  have "unat (word_of_nat (length ?c) :: u64) = length ?c"
    using len unsigned_less [of remaining, where ?'a = nat] by (simp add: unat_of_nat)
  moreover from this have "(word_of_nat (length ?c) :: u64) \<le> remaining"
    using len by (simp add: word_le_nat_alt)
  ultimately have r: "unat ?r = unat remaining - length ?c" by (simp add: unat_sub)
  let ?w = "w @ snprintf_writes p remaining ?c"
  have s: "in_buffer (length b) (snprintf_writes p remaining ?c)"
    "take (p + length ?c) (apply_writes b ?w) = t @ ?c"
    using snprintf_writes_fits [of ?c remaining p "apply_writes b w"] len "2.prems"(1,4) by auto
  have "p' = (p + length ?c) + length (gcl_text es) \<and> p' + unat r' = length b \<and> r' > 0 \<and>
      in_buffer (length b) w' \<and> take p' (apply_writes b w') = (t @ ?c) @ gcl_text es"
    using gt len r s "2.prems" by (intro "2.IH") (auto simp: in_buffer_def)
  then show ?case by (auto simp: gcl_text_def)
qed


section \<open>Properties\<close>



text \<open>
  Each duration is checked but their sum is not: there is a list, built by accepted
  \<open>htsn_gcl_add_entry\<close> calls, whose durations add up to far more than the cycle and which
  \<open>htsn_gcl_is_valid\<close> accepts, because the 64-bit sum wraps.
\<close>

theorem gcl_valid_overflow:
  "\<exists>g. gcl_inv g \<and> htsn_gcl_is_valid (Some g) \<and>
     sum_list (map duration_ns (gcl_entries g)) > gcl_cycle_time_ns g"
proof -
  define g where "g = gcl_build \<lparr>gcl_entries = [], gcl_cycle_time_ns = 100\<rparr>
      [(1, 9223372036854775807), (0, 9223372036854775807), (1, 102)]"
  have e: "map duration_ns (gcl_entries g) = [9223372036854775807, 9223372036854775807, 102]"
    "gcl_cycle_time_ns g = 100" "gcl_entries g \<noteq> []"
    by (simp_all add: g_def htsn_gcl_add_entry_def HTSN_GCL_MAX_ENTRIES_def)
  have "gcl_inv g" unfolding g_def by (intro gcl_inv_build) (simp add: gcl_inv_def)
  moreover have "htsn_gcl_is_valid (Some g)"
    using e by (simp add: htsn_gcl_is_valid_def total_duration_eq int64_wrap_def signed_take_bit_eq_take_bit_shift
        take_bit_eq_mod)
  moreover have "sum_list (map duration_ns (gcl_entries g)) > gcl_cycle_time_ns g" by (simp add: e)
  ultimately show ?thesis by blast
qed

text \<open>
  The helper's schedule is deployable: for every positive 64-bit cycle time and
  non-empty name, \<open>htsn_tas_generate_helper\<close> succeeds with one open gate window over the
  whole cycle, and \<open>htsn_tas_validate\<close> accepts the result.
\<close>

theorem tas_helper_valid:
  assumes "0 < tas_cycle_time_ns s" and "in_i64 (tas_cycle_time_ns s)" and "tas_name s \<noteq> []"
  shows "\<exists>t. htsn_tas_generate_helper s = (HTSN_OK, t) \<and> htsn_tas_validate (Some t) = HTSN_OK \<and>
    gcl_entries (tas_gcl t) = [\<lparr>gate_state = HTSN_GATE_OPEN, duration_ns = tas_cycle_time_ns s\<rparr>]"
  using assms
  by (simp add: htsn_tas_generate_helper_def htsn_gcl_add_entry_def HTSN_GCL_MAX_ENTRIES_def
      htsn_tas_validate_def htsn_gcl_is_valid_def total_duration_eq int64_wrap_id)

theorem tas_helper_valid_witness:
  "\<exists>s t. htsn_tas_generate_helper s = (HTSN_OK, t) \<and> htsn_tas_validate (Some t) = HTSN_OK"
proof -
  define s where "s = \<lparr>tas_id = ''a'', tas_name = ''line'', tas_cycle_time_ns = 1000000,
    tas_deploy_target = [], tas_gcl = \<lparr>gcl_entries = [], gcl_cycle_time_ns = 0\<rparr>\<rparr>"
  show ?thesis using tas_helper_valid [of s] by (auto simp: s_def in_i64_def)
qed

text \<open>
  Rendering a list that fits is safe and exact: when the text of all entries is shorter
  than the buffer, every address \<open>htsn_gcl_render_ascii\<close> writes lies inside the buffer, and
  afterwards the buffer holds the text and its terminator.
\<close>

theorem render_ascii_fits:
  assumes "length (gcl_text (gcl_entries g)) < unat out_size" and "length b = unat out_size"
  shows "in_buffer (length b) (htsn_gcl_render_ascii (Some g) out_size) \<and>
    take (Suc (length (gcl_text (gcl_entries g)))) (apply_writes b (htsn_gcl_render_ascii (Some g) out_size)) =
      gcl_text (gcl_entries g) @ [CHR 0x00]"
proof -
  let ?n = "length (gcl_text (gcl_entries g))"
  obtain p r w where l: "render_loop (gcl_entries g) 0 out_size [] = (p, r, w)"
    by (cases "render_loop (gcl_entries g) 0 out_size []") auto
  have f: "p = ?n" "r > 0" "in_buffer (length b) w" "take p (apply_writes b w) = gcl_text (gcl_entries g)"
    using render_loop_fits [of 0 out_size b "gcl_entries g" "[]" "[]", OF _ assms(1) _ _ l] assms(2)
    by (auto simp: in_buffer_def)
  have "out_size \<noteq> 0" using assms(1) by auto
  then have e: "htsn_gcl_render_ascii (Some g) out_size = w @ [(p, CHR 0x00)]"
    using l f(2) by (simp add: htsn_gcl_render_ascii_def)
  have "in_buffer (length b) (w @ [(p, CHR 0x00)])" using f assms by (auto simp: in_buffer_def)
  moreover have "take (Suc ?n) (apply_writes b (w @ [(p, CHR 0x00)])) = gcl_text (gcl_entries g) @ [CHR 0x00]"
    using f assms by (simp add: take_Suc_conv_app_nth)
  ultimately show ?thesis unfolding e by blast
qed

theorem render_ascii_fits_witness:
  "take (Suc (length ''[# 50ns]'')) (apply_writes (replicate 16 CHR ''x'')
     (htsn_gcl_render_ascii (Some \<lparr>gcl_entries = [\<lparr>gate_state = 1, duration_ns = 50\<rparr>], gcl_cycle_time_ns = 50\<rparr>) 16)) =
   ''[# 50ns]'' @ [CHR 0x00]"
proof -
  have c: "gcl_text [\<lparr>gate_state = 1, duration_ns = 50\<rparr>] = ''[# 50ns]''"
    by (simp add: gcl_text_def gcl_cell_def row_state_char_def HTSN_GATE_OPEN_def dec_int_def
        dec_nat.simps)
  show ?thesis
    using render_ascii_fits [of "\<lparr>gcl_entries = [\<lparr>gate_state = 1, duration_ns = 50\<rparr>], gcl_cycle_time_ns = 50\<rparr>"
        16 "replicate 16 CHR ''x''"]
    by (simp add: c)
qed

text \<open>
  Rendering an entry that does not fit writes outside the buffer: if the text of the
  only entry is longer than the buffer, \<open>htsn_gcl_render_ascii\<close> stores its final terminator
  at the untruncated length, past the end, because \<open>remaining\<close> wraps below zero.
\<close>

theorem render_ascii_overruns:
  assumes "1 < out_size" and "unat out_size < length (gcl_cell e)" and "length (gcl_cell e) < 2 ^ 63"
  shows "\<not> in_buffer (unat out_size) (htsn_gcl_render_ascii (Some \<lparr>gcl_entries = [e], gcl_cycle_time_ns = c\<rparr>) out_size)"
proof -
  have "unat (word_of_nat (length (gcl_cell e)) :: u64) = length (gcl_cell e)"
    using assms(3) by (simp add: unat_of_nat)
  then have "out_size - word_of_nat (length (gcl_cell e)) \<noteq> 0"
    using assms(2) by (metis eq_iff_diff_eq_0 less_irrefl)
  then have "(length (gcl_cell e), CHR 0x00) \<in>
      set (htsn_gcl_render_ascii (Some \<lparr>gcl_entries = [e], gcl_cycle_time_ns = c\<rparr>) out_size)"
    using assms(1) by (auto simp: htsn_gcl_render_ascii_def word_gt_0)
  then show ?thesis using assms(2) unfolding in_buffer_def by fastforce
qed

theorem render_ascii_overruns_witness:
  "\<not> in_buffer 4 (htsn_gcl_render_ascii (Some \<lparr>gcl_entries = [\<lparr>gate_state = 1, duration_ns = 50\<rparr>], gcl_cycle_time_ns = 50\<rparr>) 4)"
proof -
  have "length (gcl_cell \<lparr>gate_state = 1, duration_ns = 50\<rparr>) = 8"
    by (simp add: gcl_cell_def dec_int_def dec_nat.simps)
  then show ?thesis using render_ascii_overruns [of 4 "\<lparr>gate_state = 1, duration_ns = 50\<rparr>" 50] by simp
qed

end
