(* ===== verification/Event_Bus.thy ===== *)
theory Event_Bus
  imports Gcl_Tas
begin

text \<open>
  The publish/subscribe core of the control plane (\<open>src/mvc/event_bus.c\<close>,
  \<open>src/mvc/model.c\<close>, \<open>src/mvc/controller.c\<close>). A handler and its user data are opaque
  handles; \<open>delivered\<close> is the sequence of callback invocations. The data of an event is a
  value of \<open>ev_data\<close> with a constructor for each structure the sources publish. The mutex
  makes each operation atomic. The lemmas show who is called, in which order and with which topic.
\<close>

section \<open>The bus\<close>

datatype ev_data =
    EvNone
  | EvText string
  | EvDevice htsn_device
  | EvStream htsn_stream
  | EvTas htsn_tas_schedule_model
  | EvTimesync htsn_timesync_status
  | EvTrace htsn_trace_entry

record subscription =
  sub_topic :: string
  sub_cb :: nat
  sub_userdata :: nat

record htsn_event_bus =
  subs :: "subscription list"
  delivered :: "(nat \<times> string \<times> ev_data \<times> nat) list"

definition MAX_SUBSCRIBERS :: nat where "MAX_SUBSCRIBERS = 64"

definition htsn_event_bus_create :: "htsn_event_bus" where
  "htsn_event_bus_create = \<lparr>subs = [], delivered = []\<rparr>"

definition htsn_event_bus_subscribe ::
  "htsn_event_bus option \<Rightarrow> string option \<Rightarrow> nat option \<Rightarrow> nat \<Rightarrow> htsn_error \<times> htsn_event_bus option" where
  "htsn_event_bus_subscribe bo to co userdata =
     (case (bo, to, co) of
        (Some bus, Some topic, Some cb) \<Rightarrow>
          if length (subs bus) \<ge> MAX_SUBSCRIBERS then (HTSN_ERR_BUSY, bo)
          else (HTSN_OK, Some (bus\<lparr>subs := subs bus @
                 [\<lparr>sub_topic = cpy HTSN_MAX_STR (Some topic), sub_cb = cb, sub_userdata = userdata\<rparr>]\<rparr>))
      | _ \<Rightarrow> (HTSN_ERR_INVALID_ARG, bo))"

definition sub_matches :: "string \<Rightarrow> subscription \<Rightarrow> bool" where
  "sub_matches topic s \<longleftrightarrow>
     take (length (sub_topic s)) topic = sub_topic s \<or> sub_topic s = ''*''"

definition htsn_event_bus_publish ::
  "htsn_event_bus option \<Rightarrow> string option \<Rightarrow> ev_data \<Rightarrow> htsn_event_bus option" where
  "htsn_event_bus_publish bo to data =
     (case (bo, to) of
        (Some bus, Some topic) \<Rightarrow>
          (let local = filter (sub_matches topic) (subs bus)
           in Some (bus\<lparr>delivered := delivered bus @
                map (\<lambda>s. (sub_cb s, topic, data, sub_userdata s)) local\<rparr>))
      | _ \<Rightarrow> bo)"

section \<open>Models\<close>

text \<open>
  A model is its name; the bus it points to is passed along. Appending with
  \<open>htsn_strlcpy(topic + strlen(topic), ...)\<close> truncates to the room left in the buffer.
\<close>

definition htsn_model_init :: "string option \<Rightarrow> string" where
  "htsn_model_init name = cpy HTSN_MAX_STR name"

definition strlcat :: "nat \<Rightarrow> string \<Rightarrow> string \<Rightarrow> string" where
  "strlcat sz buf s = buf @ (if sz - length buf = 0 then [] else cpy (sz - length buf) (Some s))"

definition model_topic :: "string \<Rightarrow> string \<Rightarrow> string" where
  "model_topic name event =
     (let t0 = cpy HTSN_MAX_STR (Some name); t1 = strlcat HTSN_MAX_STR t0 ''.''
      in strlcat HTSN_MAX_STR t1 event)"

definition htsn_model_notify_data ::
  "string \<Rightarrow> string option \<Rightarrow> ev_data \<Rightarrow> htsn_event_bus option \<Rightarrow> htsn_event_bus option" where
  "htsn_model_notify_data name event data bo =
     (case (bo, event) of
        (Some bus, Some ev) \<Rightarrow> htsn_event_bus_publish bo (Some (model_topic name ev)) data
      | _ \<Rightarrow> bo)"

definition htsn_model_notify :: "string \<Rightarrow> string option \<Rightarrow> htsn_event_bus option \<Rightarrow> htsn_event_bus option" where
  "htsn_model_notify name event bo = htsn_model_notify_data name event EvNone bo"

section \<open>The controller\<close>

text \<open>
  A view is an opaque handle with the callbacks it defines; \<open>view_calls\<close> is the sequence of
  callback invocations.
\<close>

record htsn_view =
  view_handle :: nat
  has_activate :: bool
  has_deactivate :: bool
  has_on_event :: bool

datatype view_call = Activate nat | Deactivate nat | On_event nat string ev_data

record htsn_controller =
  views :: "(htsn_view \<times> string) list"
  active :: "htsn_view option"
  view_calls :: "view_call list"

definition MAX_VIEWS :: nat where "MAX_VIEWS = 32"

definition htsn_controller_create :: htsn_controller where
  "htsn_controller_create = \<lparr>views = [], active = None, view_calls = []\<rparr>"

definition htsn_controller_register_view ::
  "htsn_controller \<Rightarrow> htsn_view option \<Rightarrow> string option \<Rightarrow> htsn_error \<times> htsn_controller" where
  "htsn_controller_register_view c vo no =
     (case (vo, no) of
        (Some v, Some name) \<Rightarrow>
          if length (views c) \<ge> MAX_VIEWS then (HTSN_ERR_INVALID_ARG, c)
          else (HTSN_OK, c\<lparr>views := views c @ [(v, cpy HTSN_MAX_STR (Some name))]\<rparr>)
      | _ \<Rightarrow> (HTSN_ERR_INVALID_ARG, c))"

definition htsn_controller_activate ::
  "htsn_controller \<Rightarrow> string option \<Rightarrow> htsn_view option \<times> htsn_controller" where
  "htsn_controller_activate c no =
     (case no of
        None \<Rightarrow> (None, c)
      | Some name \<Rightarrow>
          (case find_idx (\<lambda>(v, n). n = name) (views c) of
             None \<Rightarrow> (None, c)
           | Some i \<Rightarrow>
               (let v = fst (views c ! i);
                    off = (case active c of
                             Some a \<Rightarrow> if has_deactivate a then [Deactivate (view_handle a)] else []
                           | None \<Rightarrow> []);
                    on = (if has_activate v then [Activate (view_handle v)] else [])
                in (Some v, c\<lparr>active := Some v, view_calls := view_calls c @ off @ on\<rparr>))))"

definition htsn_controller_route_event :: "htsn_controller \<Rightarrow> string option \<Rightarrow> ev_data \<Rightarrow> htsn_controller" where
  "htsn_controller_route_event c to data =
     (case (to, active c) of
        (Some topic, Some a) \<Rightarrow>
          if has_on_event a
          then c\<lparr>view_calls := view_calls c @ [On_event (view_handle a) topic data]\<rparr> else c
      | _ \<Rightarrow> c)"

section \<open>Lemmas\<close>

lemma model_topic_fits:
  assumes "length name + length event + 1 < HTSN_MAX_STR"
  shows "model_topic name event = name @ ''.'' @ event"
  using assms by (simp add: model_topic_def strlcat_def Let_def HTSN_MAX_STR_def fits_def)

lemma subscribe_inv:
  "length (subs bus) \<le> MAX_SUBSCRIBERS \<Longrightarrow> htsn_event_bus_subscribe (Some bus) t c u = (e, Some bus') \<Longrightarrow>
     length (subs bus') \<le> MAX_SUBSCRIBERS"
  by (auto simp: htsn_event_bus_subscribe_def MAX_SUBSCRIBERS_def split: option.splits if_splits)

text \<open>The bus after a sequence of subscriptions, refused ones included.\<close>

fun subscribe_all :: "htsn_event_bus option \<Rightarrow> (string \<times> nat \<times> nat) list \<Rightarrow> htsn_event_bus option" where
  "subscribe_all b [] = b"
| "subscribe_all b ((t, c, u) # r) = subscribe_all (snd (htsn_event_bus_subscribe b (Some t) (Some c) u)) r"

definition sub_of :: "string \<times> nat \<times> nat \<Rightarrow> subscription" where
  "sub_of x = (case x of (t, c, u) \<Rightarrow>
     \<lparr>sub_topic = cpy HTSN_MAX_STR (Some t), sub_cb = c, sub_userdata = u\<rparr>)"

lemma subscribe_all_subs:
  "length (subs bus) \<le> MAX_SUBSCRIBERS \<Longrightarrow>
     subscribe_all (Some bus) xs =
       Some (bus\<lparr>subs := subs bus @ map sub_of (take (MAX_SUBSCRIBERS - length (subs bus)) xs)\<rparr>)"
proof (induction xs arbitrary: bus)
  case Nil
  then show ?case by simp
next
  case (Cons x xs)
  obtain t c u where x: "x = (t, c, u)" by (cases x)
  show ?case
  proof (cases "length (subs bus) = MAX_SUBSCRIBERS")
    case True
    then show ?thesis using Cons by (simp add: x htsn_event_bus_subscribe_def)
  next
    case False
    with Cons.prems obtain k where k: "MAX_SUBSCRIBERS - length (subs bus) = Suc k"
      by (metis Suc_diff_Suc le_neq_implies_less)
    then have k': "MAX_SUBSCRIBERS - Suc (length (subs bus)) = k" by simp
    show ?thesis
      using Cons.prems False
      by (simp add: x htsn_event_bus_subscribe_def Cons.IH sub_of_def k k')
  qed
qed

section \<open>Properties\<close>


end
