(* ===== verification/Sql.thy ===== *)
theory Sql
  imports Htsn_Types
begin

text \<open>
  The database interface. SQLite is not part of the repository: it is the parameter
  \<open>E :: 'h engine\<close> of every definition that reaches it, a function from a statement, its bound
  values and the state behind the handle to the outcome. The statements the sources pass to
  \<open>sqlite3_prepare_v2\<close> are values of the datatype \<open>stmt\<close>, and the schema of
  \<open>src/db/db.c\<close> is \<open>schema\<close>. What the sources rely on is the locale \<open>sqlite\<close>: seen through
  an abstraction to tables, the engine behaves as the documented semantics \<open>sql_run\<close> of
  these statements (unknown columns and reserved words do not prepare, primary keys and conflict
  clauses, foreign keys with cascading deletes, \<open>CHECK\<close>, \<open>AUTOINCREMENT\<close>). The
  locale is interpreted on \<open>sql_run\<close> itself.
\<close>

section \<open>Values and statements\<close>

datatype sqlval = SNull | SInt int | SText string | SReal u64

datatype sexp = P nat | L sqlval

datatype conflict = Abort | Ignore | Replace | DoUpdate "string list" "string list"

datatype sort_order = Unordered | Asc string | Desc string

text \<open>
  \<open>Insert c t cols vals\<close>, \<open>Delete t w\<close>, \<open>Update t sets w\<close>, \<open>Select cols t w ord limit offset\<close>,
  \<open>Prune t n\<close> (\<open>DELETE FROM t WHERE id NOT IN (SELECT id FROM t ORDER BY id DESC LIMIT n)\<close>) and
  \<open>Count t\<close>. A condition is a conjunction of equations between a column and an expression.
\<close>

datatype stmt =
    Insert conflict string "string list" "sexp list"
  | Delete string "(string \<times> sexp) list"
  | Update string "(string \<times> sexp) list" "(string \<times> sexp) list"
  | Select "string list" string "(string \<times> sexp) list" sort_order "sexp option" "sexp option"
  | Prune string sexp
  | Count string

type_synonym row = "string \<Rightarrow> sqlval"

record tables =
  rows :: "string \<Rightarrow> row list"
  seqs :: "string \<Rightarrow> int"

record table_def =
  td_cols :: "string list"
  td_pk :: "string list"
  td_autoinc :: bool
  td_fk :: "(string \<times> string \<times> string) option"
  td_defaults :: "(string \<times> sqlval) list"
  td_check :: "(string \<times> int list) option"

text \<open>A table of text and number columns with a primary key, without further clauses.\<close>

definition plain_table :: "string list \<Rightarrow> string list \<Rightarrow> table_def" where
  "plain_table cols pk = \<lparr>td_cols = cols, td_pk = pk, td_autoinc = False, td_fk = None,
     td_defaults = [], td_check = None\<rparr>"

section \<open>The schema\<close>

definition schema :: "(string \<times> table_def) list" where
  "schema =
   [(''devices'',
       (plain_table [''id'', ''name'', ''ip'', ''mac'', ''kind'', ''firmware'', ''status'', ''last_seen'',
                     ''domain'', ''heartbeat_at''] [''id''])
       \<lparr>td_defaults := [(''domain'', SText ''default''), (''heartbeat_at'', SInt 0)]\<rparr>),
    (''domains'', plain_table [''id'', ''name'', ''description''] [''id'']),
    (''device_tsn_features'',
       (plain_table [''device_id'', ''feature''] []) \<lparr>td_fk := Some (''device_id'', ''devices'', ''id'')\<rparr>),
    (''qos_configs'',
       (plain_table [''device_id'', ''priority'', ''traffic_class'', ''bandwidth_kbps'', ''latency_ms'',
                     ''preemption''] [''device_id''])
       \<lparr>td_fk := Some (''device_id'', ''devices'', ''id'')\<rparr>),
    (''vlan_groups'', plain_table [''id'', ''name'', ''vlan_id''] [''id'']),
    (''vlan_members'', plain_table [''group_id'', ''device_id''] []),
    (''tas_schedules'', plain_table [''id'', ''name'', ''cycle_time_ns'', ''deploy_target''] [''id'']),
    (''gcl_entries'',
       (plain_table [''schedule_id'', ''index'', ''gate_state'', ''duration_ns''] [])
       \<lparr>td_fk := Some (''schedule_id'', ''tas_schedules'', ''id'')\<rparr>),
    (''timesync_status'', plain_table [''id'', ''mode'', ''grandmaster'', ''offset_ns'', ''quality''] [''id'']),
    (''sensors'',
       (plain_table [''device_id'', ''sensor_id'', ''type'', ''name'', ''value'', ''unit'', ''healthy'',
                     ''last_update''] [''device_id'', ''sensor_id''])
       \<lparr>td_fk := Some (''device_id'', ''devices'', ''id'')\<rparr>),
    (''settings'', plain_table [''key'', ''value''] [''key'']),
    (''tsn_streams'',
       (plain_table [''stream_id'', ''name'', ''talker'', ''vlan_id'', ''max_latency_ns'', ''max_interval_ns'',
                     ''priority'', ''data_frame_prio'', ''status'', ''comment''] [''stream_id''])
       \<lparr>td_check := Some (''status'', [0, 1, 2, 3])\<rparr>),
    (''tsn_stream_members'',
       (plain_table [''stream_id'', ''role'', ''device_id''] [])
       \<lparr>td_fk := Some (''stream_id'', ''tsn_streams'', ''stream_id'')\<rparr>),
    (''trace_log'',
       (plain_table [''id'', ''ts'', ''type'', ''source'', ''line''] [''id'']) \<lparr>td_autoinc := True\<rparr>),
    (''timesync_reports'',
       (plain_table [''id'', ''device_id'', ''ts'', ''offset_ns'', ''jitter_ns'', ''packet_count'',
                     ''packet_loss'', ''status''] [''id'']) \<lparr>td_autoinc := True\<rparr>),
    (''config_versions'',
       (plain_table [''id'', ''name'', ''device_id'', ''created_at'', ''payload''] [''id''])
       \<lparr>td_autoinc := True\<rparr>)]"

section \<open>Preparing a statement\<close>

text \<open>The words SQLite does not accept as an unquoted identifier.\<close>

definition reserved :: "string list" where
  "reserved = [''add'', ''all'', ''alter'', ''and'', ''as'', ''autoincrement'', ''between'', ''case'', ''check'',
     ''collate'', ''commit'', ''constraint'', ''create'', ''default'', ''deferrable'', ''delete'', ''distinct'',
     ''drop'', ''else'', ''escape'', ''exists'', ''foreign'', ''from'', ''group'', ''having'', ''in'', ''index'',
     ''insert'', ''into'', ''is'', ''isnull'', ''join'', ''limit'', ''not'', ''nothing'', ''notnull'', ''null'',
     ''on'', ''or'', ''order'', ''primary'', ''references'', ''returning'', ''select'', ''set'', ''table'',
     ''then'', ''to'', ''transaction'', ''union'', ''unique'', ''update'', ''using'', ''values'', ''when'', ''where'']"

fun order_cols :: "sort_order \<Rightarrow> string list" where
  "order_cols Unordered = []"
| "order_cols (Asc c) = [c]"
| "order_cols (Desc c) = [c]"

fun stmt_table :: "stmt \<Rightarrow> string" where
  "stmt_table (Insert _ t _ _) = t"
| "stmt_table (Delete t _) = t"
| "stmt_table (Update t _ _) = t"
| "stmt_table (Select _ t _ _ _ _) = t"
| "stmt_table (Prune t _) = t"
| "stmt_table (Count t) = t"

fun stmt_cols :: "stmt \<Rightarrow> string list" where
  "stmt_cols (Insert c _ cols _) =
     cols @ (case c of DoUpdate target sets \<Rightarrow> target @ sets | _ \<Rightarrow> [])"
| "stmt_cols (Delete _ w) = map fst w"
| "stmt_cols (Update _ s w) = map fst s @ map fst w"
| "stmt_cols (Select cols _ w ord _ _) = cols @ map fst w @ order_cols ord"
| "stmt_cols (Prune _ _) = [''id'']"
| "stmt_cols (Count _) = []"

fun conflict_ok :: "stmt \<Rightarrow> table_def \<Rightarrow> bool" where
  "conflict_ok (Insert (DoUpdate target _) _ _ _) td \<longleftrightarrow> target = td_pk td"
| "conflict_ok _ td \<longleftrightarrow> True"

definition sql_prepares :: "stmt \<Rightarrow> bool" where
  "sql_prepares st \<longleftrightarrow>
     (case map_of schema (stmt_table st) of
        None \<Rightarrow> False
      | Some td \<Rightarrow>
          list_all (\<lambda>c. c \<in> set (td_cols td) \<and> c \<notin> set reserved) (stmt_cols st) \<and> conflict_ok st td)"

section \<open>Running a statement\<close>

definition sexp_val :: "sqlval list \<Rightarrow> sexp \<Rightarrow> sqlval" where
  "sexp_val ps e = (case e of L v \<Rightarrow> v | P i \<Rightarrow> if 1 \<le> i \<and> i \<le> length ps then ps ! (i - 1) else SNull)"

definition sql_int :: "sqlval \<Rightarrow> int" where
  "sql_int v = (case v of SInt i \<Rightarrow> i | _ \<Rightarrow> 0)"

definition row_where :: "sqlval list \<Rightarrow> (string \<times> sexp) list \<Rightarrow> row \<Rightarrow> bool" where
  "row_where ps w r \<longleftrightarrow> list_all (\<lambda>(c, e). r c = sexp_val ps e \<and> r c \<noteq> SNull) w"

definition set_cols :: "row \<Rightarrow> (string \<times> sqlval) list \<Rightarrow> row" where
  "set_cols r kvs = foldl (\<lambda>r (c, v). r(c := v)) r kvs"

definition new_row :: "table_def \<Rightarrow> int \<Rightarrow> (string \<times> sqlval) list \<Rightarrow> row" where
  "new_row td n kvs =
     (let r0 = set_cols (\<lambda>_. SNull) (td_defaults td);
          r1 = (if td_autoinc td then r0(''id'' := SInt n) else r0)
      in set_cols r1 kvs)"

definition same_key :: "table_def \<Rightarrow> row \<Rightarrow> row \<Rightarrow> bool" where
  "same_key td r r' \<longleftrightarrow> td_pk td \<noteq> [] \<and> list_all (\<lambda>c. r c = r' c \<and> r c \<noteq> SNull) (td_pk td)"

definition check_ok :: "table_def \<Rightarrow> row \<Rightarrow> bool" where
  "check_ok td r \<longleftrightarrow>
     (case td_check td of
        None \<Rightarrow> True
      | Some (c, vs) \<Rightarrow> r c = SNull \<or> (\<exists>v \<in> set vs. r c = SInt v))"

definition fk_ok :: "tables \<Rightarrow> table_def \<Rightarrow> row \<Rightarrow> bool" where
  "fk_ok T td r \<longleftrightarrow>
     (case td_fk td of
        None \<Rightarrow> True
      | Some (c, parent, pc) \<Rightarrow> r c = SNull \<or> list_ex (\<lambda>p. p pc = r c) (rows T parent))"

definition put_rows :: "string \<Rightarrow> row list \<Rightarrow> tables \<Rightarrow> tables" where
  "put_rows t rs T = T\<lparr>rows := (rows T)(t := rs)\<rparr>"

text \<open>
  The rows of child tables that refer to a deleted row go with it. The child tables of the schema
  have no child tables of their own.
\<close>

definition cascade :: "string \<Rightarrow> row list \<Rightarrow> tables \<Rightarrow> tables" where
  "cascade t dead T =
     T\<lparr>rows := (\<lambda>u. case map_of schema u of
          Some td \<Rightarrow>
            (case td_fk td of
               Some (c, parent, pc) \<Rightarrow>
                 if parent = t then filter (\<lambda>r. \<not> list_ex (\<lambda>d. d pc = r c) dead) (rows T u) else rows T u
             | None \<Rightarrow> rows T u)
        | None \<Rightarrow> rows T u)\<rparr>"

definition delete_rows :: "string \<Rightarrow> (row \<Rightarrow> bool) \<Rightarrow> tables \<Rightarrow> tables" where
  "delete_rows t Q T =
     cascade t (filter Q (rows T t)) (put_rows t (filter (\<lambda>r. \<not> Q r) (rows T t)) T)"

definition sql_insert :: "conflict \<Rightarrow> string \<Rightarrow> table_def \<Rightarrow> (string \<times> sqlval) list \<Rightarrow> tables \<Rightarrow> bool \<times> tables" where
  "sql_insert conf t td kvs T =
     (let n = seqs T t + 1;
          r = new_row td n kvs;
          T1 = (if td_autoinc td then T\<lparr>seqs := (seqs T)(t := n)\<rparr> else T);
          clash = list_ex (same_key td r) (rows T t)
      in if \<not> check_ok td r then (conf = Ignore, T)
         else if clash then
           (case conf of
              Abort \<Rightarrow> (False, T)
            | Ignore \<Rightarrow> (True, T)
            | Replace \<Rightarrow>
                (let T2 = delete_rows t (same_key td r) T1
                 in if fk_ok T2 td r then (True, put_rows t (rows T2 t @ [r]) T2) else (False, T))
            | DoUpdate _ sets \<Rightarrow>
                (True, put_rows t (map (\<lambda>r0. if same_key td r r0
                     then set_cols r0 (map (\<lambda>c. (c, r c)) sets) else r0) (rows T t)) T))
         else if fk_ok T1 td r then (True, put_rows t (rows T1 t @ [r]) T1)
         else (False, T))"

definition sort_rows :: "sort_order \<Rightarrow> row list \<Rightarrow> row list" where
  "sort_rows ord rs =
     (case ord of
        Unordered \<Rightarrow> rs
      | Asc c \<Rightarrow> sort_key (\<lambda>r. sql_int (r c)) rs
      | Desc c \<Rightarrow> rev (sort_key (\<lambda>r. sql_int (r c)) rs))"

definition limit_rows :: "int option \<Rightarrow> int option \<Rightarrow> 'a list \<Rightarrow> 'a list" where
  "limit_rows lim off rs =
     (let rs1 = (case off of None \<Rightarrow> rs | Some k \<Rightarrow> drop (nat k) rs)
      in case lim of None \<Rightarrow> rs1 | Some n \<Rightarrow> if n < 0 then rs1 else take (nat n) rs1)"

definition sql_exec :: "stmt \<Rightarrow> table_def \<Rightarrow> sqlval list \<Rightarrow> tables \<Rightarrow> bool \<times> sqlval list list \<times> tables" where
  "sql_exec st td ps T =
     (case st of
        Insert conf t cols vals \<Rightarrow>
          (let (d, T') = sql_insert conf t td (zip cols (map (sexp_val ps) vals)) T in (d, [], T'))
      | Delete t w \<Rightarrow> (True, [], delete_rows t (row_where ps w) T)
      | Update t sets w \<Rightarrow>
          (let upd = (\<lambda>r. if row_where ps w r then set_cols r (map (\<lambda>(c, e). (c, sexp_val ps e)) sets) else r);
               rs = map upd (rows T t)
           in if list_all (\<lambda>r. row_where ps w r \<longrightarrow> check_ok td (upd r)) (rows T t)
              then (True, [], put_rows t rs T) else (False, [], T))
      | Select cols t w ord lim off \<Rightarrow>
          (True,
           map (\<lambda>r. map r cols)
             (limit_rows (map_option (sql_int \<circ> sexp_val ps) lim) (map_option (sql_int \<circ> sexp_val ps) off)
                (sort_rows ord (filter (row_where ps w) (rows T t)))), T)
      | Prune t e \<Rightarrow>
          (let keep = limit_rows (Some (sql_int (sexp_val ps e))) None
                        (map (\<lambda>r. r ''id'') (sort_rows (Desc ''id'') (rows T t)))
           in (True, [], delete_rows t (\<lambda>r. r ''id'' \<notin> set keep) T))
      | Count t \<Rightarrow> (True, [[SInt (int (length (rows T t)))]], T))"

text \<open>
  The documented behaviour: \<open>None\<close> is a failing \<open>sqlite3_prepare_v2\<close>; otherwise whether
  stepping ended with \<open>SQLITE_DONE\<close>, the rows it produced before, and the new tables.
\<close>

definition sql_run :: "stmt \<Rightarrow> sqlval list \<Rightarrow> tables \<Rightarrow> (bool \<times> sqlval list list \<times> tables) option" where
  "sql_run st ps T =
     (case map_of schema (stmt_table st) of
        None \<Rightarrow> None
      | Some td \<Rightarrow> if sql_prepares st then Some (sql_exec st td ps T) else None)"

definition empty_tables :: tables where
  "empty_tables = \<lparr>rows = (\<lambda>_. []), seqs = (\<lambda>_. 0)\<rparr>"

section \<open>The engine as an interface\<close>

type_synonym 'h engine = "stmt \<Rightarrow> sqlval list \<Rightarrow> 'h \<Rightarrow> (bool \<times> sqlval list list \<times> 'h) option"

text \<open>
  \<open>htsn_db\<close>: the handle (\<open>None\<close> when closed; a null \<open>db\<close> pointer is treated like a closed
  one, as every function that checks does) and the path.
\<close>

record 'h htsn_db =
  handle :: "'h option"
  path :: string

definition db_run :: "'h engine \<Rightarrow> stmt \<Rightarrow> sqlval list \<Rightarrow> 'h htsn_db \<Rightarrow>
    (bool \<times> sqlval list list \<times> 'h htsn_db) option" where
  "db_run E st ps db =
     (case handle db of
        None \<Rightarrow> None
      | Some h \<Rightarrow>
          (case E st ps h of
             None \<Rightarrow> None
           | Some (d, rs, h') \<Rightarrow> Some (d, rs, db\<lparr>handle := Some h'\<rparr>)))"

text \<open>Prepare, bind, step and finalize a statement whose outcome the code ignores.\<close>

definition db_exec :: "'h engine \<Rightarrow> stmt \<Rightarrow> sqlval list \<Rightarrow> 'h htsn_db \<Rightarrow> 'h htsn_db" where
  "db_exec E st ps db = (case db_run E st ps db of None \<Rightarrow> db | Some (_, _, db') \<Rightarrow> db')"

text \<open>The rows of a query, none when it does not prepare.\<close>

definition db_rows :: "'h engine \<Rightarrow> stmt \<Rightarrow> sqlval list \<Rightarrow> 'h htsn_db \<Rightarrow> sqlval list list" where
  "db_rows E st ps db = (case db_run E st ps db of None \<Rightarrow> [] | Some (_, rs, _) \<Rightarrow> rs)"

text \<open>\<open>sqlite3_column_text\<close>, \<open>sqlite3_column_int\<close>, \<open>sqlite3_column_int64\<close>, \<open>sqlite3_column_double\<close>.\<close>

definition column_text :: "sqlval list \<Rightarrow> nat \<Rightarrow> string option" where
  "column_text r i = (case r ! i of SText s \<Rightarrow> Some s | SInt k \<Rightarrow> Some (dec_int k) | _ \<Rightarrow> None)"

definition column_int64 :: "sqlval list \<Rightarrow> nat \<Rightarrow> int" where
  "column_int64 r i = (case r ! i of SInt k \<Rightarrow> k | SText s \<Rightarrow> strtoll s | _ \<Rightarrow> 0)"

definition column_int :: "sqlval list \<Rightarrow> nat \<Rightarrow> int" where
  "column_int r i = int32_wrap (column_int64 r i)"

definition column_double :: "sqlval list \<Rightarrow> nat \<Rightarrow> u64" where
  "column_double r i = (case r ! i of SReal d \<Rightarrow> d | _ \<Rightarrow> 0)"

section \<open>The contract of the engine\<close>

text \<open>A database seen through an abstraction of what is behind its handle.\<close>

definition dbabs :: "('h \<Rightarrow> tables) \<Rightarrow> 'h htsn_db \<Rightarrow> tables htsn_db" where
  "dbabs tabs db = \<lparr>handle = map_option tabs (handle db), path = path db\<rparr>"

locale sqlite =
  fixes E :: "'h engine" and tabs :: "'h \<Rightarrow> tables"
  assumes engine_run: "map_option (\<lambda>(d, rs, h'). (d, rs, tabs h')) (E st ps h) = sql_run st ps (tabs h)"
begin

lemma db_run_abs:
  "db_run sql_run st ps (dbabs tabs db) = map_option (\<lambda>(d, rs, db'). (d, rs, dbabs tabs db')) (db_run E st ps db)"
proof (cases "handle db")
  case None
  then show ?thesis by (simp add: db_run_def dbabs_def)
next
  case (Some h)
  then show ?thesis
    using engine_run [of st ps h, symmetric]
    by (cases "E st ps h") (auto simp: db_run_def dbabs_def split: prod.splits)
qed

lemma db_exec_abs: "db_exec sql_run st ps (dbabs tabs db) = dbabs tabs (db_exec E st ps db)"
  by (simp add: db_exec_def db_run_abs split: option.splits prod.splits)

lemma db_rows_abs: "db_rows sql_run st ps (dbabs tabs db) = db_rows E st ps db"
  by (simp add: db_rows_def db_run_abs split: option.splits prod.splits)

lemma dbabs_handle [simp]: "handle (dbabs tabs db) = map_option tabs (handle db)"
  by (simp add: dbabs_def)

end

interpretation sql_ref: sqlite sql_run "\<lambda>T. T"
  by unfold_locales (simp add: case_prod_unfold option.map_ident)

end
