(* ===== verification/Db_Store.thy ===== *)
theory Db_Store
  imports Sql Gcl_Tas
begin

text \<open>
  The persistence layer, one definition per function of \<open>src/db/db_devices.c\<close>,
  \<open>db_domains.c\<close>, \<open>db_qos.c\<close>, \<open>db_sensors.c\<close>, \<open>db_tas.c\<close>, \<open>db_timesync.c\<close>,
  \<open>db_timesync_report.c\<close>, \<open>db_trace_log.c\<close>, \<open>db_vlan.c\<close>, \<open>db_tsn.c\<close> and
  \<open>db_config_versions.c\<close>. Each takes the engine \<open>E\<close>, its pointer arguments (an option where
  the code checks for null), and the database; it returns the error code or the data and the new database. A
  \<open>for_each\<close> function returns the sequence of values it passes to its callback. \<open>now\<close> is the
  result of \<open>time(NULL)\<close>, and \<open>hms\<close> the \<open>localtime\<close>/\<open>strftime\<close> formatting of a time.
\<close>

definition closed :: "'h htsn_db \<Rightarrow> bool" where
  "closed db \<longleftrightarrow> handle db = None"

text \<open>\<open>return rc == SQLITE_DONE ? HTSN_OK : HTSN_ERR_DB\<close> after a prepared statement.\<close>

definition db_step :: "'h engine \<Rightarrow> stmt \<Rightarrow> sqlval list \<Rightarrow> 'h htsn_db \<Rightarrow> htsn_error \<times> 'h htsn_db" where
  "db_step E st ps db =
     (case db_run E st ps db of
        None \<Rightarrow> (HTSN_ERR_DB, db)
      | Some (d, _, db') \<Rightarrow> (if d then HTSN_OK else HTSN_ERR_DB, db'))"

text \<open>The same with the result of stepping ignored.\<close>

definition db_do :: "'h engine \<Rightarrow> stmt \<Rightarrow> sqlval list \<Rightarrow> 'h htsn_db \<Rightarrow> htsn_error \<times> 'h htsn_db" where
  "db_do E st ps db =
     (case db_run E st ps db of None \<Rightarrow> (HTSN_ERR_DB, db) | Some (_, _, db') \<Rightarrow> (HTSN_OK, db'))"

section \<open>Devices\<close>

definition device_cols :: "string list" where
  "device_cols = [''id'', ''name'', ''ip'', ''mac'', ''kind'', ''firmware'', ''status'', ''last_seen'',
     ''domain'', ''heartbeat_at'']"

definition bind_device :: "htsn_device \<Rightarrow> sqlval list" where
  "bind_device dev =
     [SText (dev_id dev), SText (dev_name dev), SText (dev_ip dev), SText (dev_mac dev),
      SText (htsn_device_kind_str (dev_kind dev)), SText (dev_firmware dev),
      SInt (device_status_int (dev_status dev)), SInt (dev_last_seen dev),
      SText (if dev_domain dev \<noteq> [] then dev_domain dev else ''default''), SInt (dev_heartbeat_at dev)]"

definition htsn_db_device_upsert :: "'h engine \<Rightarrow> htsn_device option \<Rightarrow> 'h htsn_db \<Rightarrow> htsn_error \<times> 'h htsn_db" where
  "htsn_db_device_upsert E devo db =
     (case devo of
        None \<Rightarrow> (HTSN_ERR_INVALID_ARG, db)
      | Some dev \<Rightarrow>
          if closed db then (HTSN_ERR_INVALID_ARG, db)
          else
            (case db_run E (Insert (DoUpdate [''id''] (tl device_cols)) ''devices'' device_cols
                       [P 1, P 2, P 3, P 4, P 5, P 6, P 7, P 8, P 9, P 10]) (bind_device dev) db of
               None \<Rightarrow> (HTSN_ERR_DB, db)
             | Some (d, _, db1) \<Rightarrow>
                 if \<not> d then (HTSN_ERR_DB, db1)
                 else
                   (let db2 = db_exec E (Delete ''device_tsn_features'' [(''device_id'', P 1)]) [SText (dev_id dev)] db1
                    in (HTSN_OK,
                        foldl (\<lambda>b f. db_exec E (Insert Abort ''device_tsn_features'' [''device_id'', ''feature''] [P 1, P 2])
                                 [SText (dev_id dev), SText f] b) db2 (dev_tsn_features dev)))))"

definition row_to_device :: "'h engine \<Rightarrow> 'h htsn_db \<Rightarrow> sqlval list \<Rightarrow> htsn_device" where
  "row_to_device E db r =
     (let d = \<lparr> dev_id = cpy HTSN_MAX_STR (column_text r 0), dev_ip = cpy 64 (column_text r 2),
                dev_mac = cpy 32 (column_text r 3), dev_firmware = cpy 32 (column_text r 5),
                dev_last_seen = column_int64 r 7, dev_status = int_device_status (column_int r 6),
                dev_kind = htsn_device_kind_parse (column_text r 4), dev_tsn_features = [],
                dev_name = cpy HTSN_MAX_STR (column_text r 1),
                dev_domain = (case column_text r 8 of
                                Some dm \<Rightarrow> if dm \<noteq> [] then cpy HTSN_MAX_STR (Some dm) else []
                              | None \<Rightarrow> []),
                dev_heartbeat_at = column_int64 r 9 \<rparr>
      in foldl (\<lambda>d f. htsn_device_add_tsn_feature d (column_text f 0)) d
           (db_rows E (Select [''feature''] ''device_tsn_features'' [(''device_id'', P 1)] Unordered None None)
              [SText (dev_id d)] db))"

definition htsn_db_device_for_each :: "'h engine \<Rightarrow> 'h htsn_db \<Rightarrow> htsn_device list" where
  "htsn_db_device_for_each E db =
     map (row_to_device E db) (db_rows E (Select device_cols ''devices'' [] Unordered None None) [] db)"

definition htsn_db_device_for_each_in_domain :: "'h engine \<Rightarrow> string \<Rightarrow> 'h htsn_db \<Rightarrow> htsn_device list" where
  "htsn_db_device_for_each_in_domain E domain db =
     map (row_to_device E db)
       (db_rows E (Select device_cols ''devices'' [(''domain'', P 1)] Unordered None None) [SText domain] db)"

text \<open>The loaders return the error code and, with \<open>HTSN_OK\<close>, the structure they filled in.\<close>

definition htsn_db_device_get :: "'h engine \<Rightarrow> string option \<Rightarrow> 'h htsn_db \<Rightarrow> htsn_error + htsn_device" where
  "htsn_db_device_get E keyo db =
     (case keyo of
        None \<Rightarrow> Inl HTSN_ERR_INVALID_ARG
      | Some key \<Rightarrow>
          if closed db then Inl HTSN_ERR_INVALID_ARG
          else
            (case db_run E (Select device_cols ''devices'' [(''id'', P 1)] Unordered None None) [SText key] db of
               None \<Rightarrow> Inl HTSN_ERR_DB
             | Some (_, rs, _) \<Rightarrow>
                 (case rs of [] \<Rightarrow> Inl HTSN_ERR_NOT_FOUND | r # _ \<Rightarrow> Inr (row_to_device E db r))))"

definition htsn_db_device_delete :: "'h engine \<Rightarrow> string \<Rightarrow> 'h htsn_db \<Rightarrow> htsn_error \<times> 'h htsn_db" where
  "htsn_db_device_delete E key db = db_do E (Delete ''devices'' [(''id'', P 1)]) [SText key] db"

definition htsn_db_device_set_status ::
  "'h engine \<Rightarrow> string \<Rightarrow> htsn_device_status \<Rightarrow> 'h htsn_db \<Rightarrow> htsn_error \<times> 'h htsn_db" where
  "htsn_db_device_set_status E key status db =
     db_do E (Update ''devices'' [(''status'', P 1)] [(''id'', P 2)]) [SInt (device_status_int status), SText key] db"

definition htsn_db_device_touch :: "'h engine \<Rightarrow> string \<Rightarrow> int \<Rightarrow> 'h htsn_db \<Rightarrow> htsn_error \<times> 'h htsn_db" where
  "htsn_db_device_touch E key seen db =
     db_do E (Update ''devices'' [(''last_seen'', P 1)] [(''id'', P 2)]) [SInt seen, SText key] db"

section \<open>Domains\<close>

definition htsn_db_domain_save :: "'h engine \<Rightarrow> htsn_domain option \<Rightarrow> 'h htsn_db \<Rightarrow> htsn_error \<times> 'h htsn_db" where
  "htsn_db_domain_save E do' db =
     (case do' of
        None \<Rightarrow> (HTSN_ERR_INVALID_ARG, db)
      | Some d \<Rightarrow>
          if closed db then (HTSN_ERR_INVALID_ARG, db)
          else db_step E (Insert (DoUpdate [''id''] [''name'', ''description'']) ''domains''
                            [''id'', ''name'', ''description''] [P 1, P 2, P 3])
                 [SText (dom_id d), SText (dom_name d), SText (dom_description d)] db)"

definition htsn_db_domain_delete :: "'h engine \<Rightarrow> string \<Rightarrow> 'h htsn_db \<Rightarrow> htsn_error \<times> 'h htsn_db" where
  "htsn_db_domain_delete E key db = db_do E (Delete ''domains'' [(''id'', P 1)]) [SText key] db"

definition row_to_domain :: "sqlval list \<Rightarrow> htsn_domain" where
  "row_to_domain r = \<lparr> dom_id = cpy HTSN_MAX_STR (column_text r 0), dom_name = cpy HTSN_MAX_STR (column_text r 1),
     dom_description = cpy HTSN_MAX_STR (column_text r 2) \<rparr>"

definition htsn_db_domain_for_each :: "'h engine \<Rightarrow> 'h htsn_db \<Rightarrow> htsn_domain list" where
  "htsn_db_domain_for_each E db =
     map row_to_domain (db_rows E (Select [''id'', ''name'', ''description''] ''domains'' [] Unordered None None) [] db)"

section \<open>Quality of service\<close>

definition qos_cols :: "string list" where
  "qos_cols = [''device_id'', ''priority'', ''traffic_class'', ''bandwidth_kbps'', ''latency_ms'', ''preemption'']"

definition htsn_db_qos_save :: "'h engine \<Rightarrow> htsn_qos_config option \<Rightarrow> 'h htsn_db \<Rightarrow> htsn_error \<times> 'h htsn_db" where
  "htsn_db_qos_save E co db =
     (case co of
        None \<Rightarrow> (HTSN_ERR_INVALID_ARG, db)
      | Some c \<Rightarrow>
          if closed db then (HTSN_ERR_INVALID_ARG, db)
          else
            (let db1 = db_exec E (Insert Ignore ''devices'' [''id'', ''name''] [P 1, P 2])
                         [SText (qos_device_id c), SText (qos_device_id c)] db
             in db_step E (Insert (DoUpdate [''device_id''] (tl qos_cols)) ''qos_configs'' qos_cols
                             [P 1, P 2, P 3, P 4, P 5, P 6])
                  [SText (qos_device_id c), SInt (qos_priority c), SInt (qos_traffic_class c),
                   SInt (qos_bandwidth_kbps c), SInt (qos_latency_ms c), SInt (qos_preemption c)] db1))"

definition htsn_db_qos_load :: "'h engine \<Rightarrow> string option \<Rightarrow> 'h htsn_db \<Rightarrow> htsn_error + htsn_qos_config" where
  "htsn_db_qos_load E keyo db =
     (case keyo of
        None \<Rightarrow> Inl HTSN_ERR_INVALID_ARG
      | Some key \<Rightarrow>
          if closed db then Inl HTSN_ERR_INVALID_ARG
          else
            (case db_run E (Select qos_cols ''qos_configs'' [(''device_id'', P 1)] Unordered None None) [SText key] db of
               None \<Rightarrow> Inl HTSN_ERR_DB
             | Some (_, rs, _) \<Rightarrow>
                 (case rs of
                    [] \<Rightarrow> Inl HTSN_ERR_NOT_FOUND
                  | r # _ \<Rightarrow> Inr \<lparr> qos_device_id = cpy HTSN_MAX_STR (column_text r 0),
                      qos_priority = column_int r 1, qos_traffic_class = column_int r 2,
                      qos_bandwidth_kbps = column_int r 3, qos_latency_ms = column_int r 4,
                      qos_preemption = column_int r 5 \<rparr>)))"

definition htsn_db_qos_delete :: "'h engine \<Rightarrow> string \<Rightarrow> 'h htsn_db \<Rightarrow> htsn_error \<times> 'h htsn_db" where
  "htsn_db_qos_delete E device_id db = db_do E (Delete ''qos_configs'' [(''device_id'', P 1)]) [SText device_id] db"

section \<open>Sensors\<close>

definition sensor_cols :: "string list" where
  "sensor_cols = [''device_id'', ''sensor_id'', ''type'', ''name'', ''value'', ''unit'', ''healthy'', ''last_update'']"

definition htsn_db_sensor_upsert :: "'h engine \<Rightarrow> htsn_sensor option \<Rightarrow> 'h htsn_db \<Rightarrow> htsn_error \<times> 'h htsn_db" where
  "htsn_db_sensor_upsert E so db =
     (case so of
        None \<Rightarrow> (HTSN_ERR_INVALID_ARG, db)
      | Some s \<Rightarrow>
          if closed db then (HTSN_ERR_INVALID_ARG, db)
          else db_step E (Insert (DoUpdate [''device_id'', ''sensor_id''] (drop 2 sensor_cols)) ''sensors'' sensor_cols
                            [P 1, P 2, P 3, P 4, P 5, P 6, P 7, P 8])
                 [SText (sen_device_id s), SText (sen_sensor_id s), SText (htsn_sensor_type_str (sen_type s)),
                  SText (sen_name s), SReal (sen_value s), SText (sen_unit s),
                  SInt (if sen_healthy s then 1 else 0), SInt (sen_last_update s)] db)"

definition htsn_db_sensor_delete ::
  "'h engine \<Rightarrow> string \<Rightarrow> string \<Rightarrow> 'h htsn_db \<Rightarrow> htsn_error \<times> 'h htsn_db" where
  "htsn_db_sensor_delete E device_id sensor_id db =
     db_do E (Delete ''sensors'' [(''device_id'', P 1), (''sensor_id'', P 2)]) [SText device_id, SText sensor_id] db"

definition row_to_sensor :: "sqlval list \<Rightarrow> htsn_sensor" where
  "row_to_sensor r = \<lparr> sen_device_id = cpy HTSN_MAX_STR (column_text r 0),
     sen_sensor_id = cpy HTSN_MAX_STR (column_text r 1), sen_type = htsn_sensor_type_parse (column_text r 2),
     sen_name = cpy HTSN_MAX_STR (column_text r 3), sen_value = column_double r 4,
     sen_unit = cpy 32 (column_text r 5), sen_healthy = (column_int r 6 \<noteq> 0), sen_last_update = column_int64 r 7 \<rparr>"

definition htsn_db_sensor_for_each :: "'h engine \<Rightarrow> 'h htsn_db \<Rightarrow> htsn_sensor list" where
  "htsn_db_sensor_for_each E db =
     map row_to_sensor (db_rows E (Select sensor_cols ''sensors'' [] Unordered None None) [] db)"

section \<open>Schedules\<close>

text \<open>The entries of a schedule belong to it; \<open>gate_state\<close> of the structure itself is never used.\<close>

record htsn_tas_schedule =
  sch_id :: string
  sch_name :: string
  sch_cycle_time_ns :: int
  sch_deploy_target :: string
  sch_entries :: "htsn_gcl_entry list"

definition HTSN_TAS_MAX_ENTRIES :: nat where "HTSN_TAS_MAX_ENTRIES = 128"

definition htsn_db_tas_save :: "'h engine \<Rightarrow> htsn_tas_schedule option \<Rightarrow> 'h htsn_db \<Rightarrow> htsn_error \<times> 'h htsn_db" where
  "htsn_db_tas_save E so db =
     (case so of
        None \<Rightarrow> (HTSN_ERR_INVALID_ARG, db)
      | Some s \<Rightarrow>
          if closed db then (HTSN_ERR_INVALID_ARG, db)
          else
            (case db_run E (Insert (DoUpdate [''id''] [''name'', ''cycle_time_ns'', ''deploy_target'']) ''tas_schedules''
                       [''id'', ''name'', ''cycle_time_ns'', ''deploy_target''] [P 1, P 2, P 3, P 4])
                     [SText (sch_id s), SText (sch_name s), SInt (sch_cycle_time_ns s), SText (sch_deploy_target s)] db of
               None \<Rightarrow> (HTSN_ERR_DB, db)
             | Some (_, _, db1) \<Rightarrow>
                 (case db_run E (Delete ''gcl_entries'' [(''schedule_id'', P 1)]) [SText (sch_id s)] db1 of
                    None \<Rightarrow> (HTSN_ERR_DB, db1)
                  | Some (_, _, db2) \<Rightarrow>
                      (HTSN_OK,
                       foldl (\<lambda>b (i, e).
                          db_exec E (Insert Abort ''gcl_entries'' [''schedule_id'', ''index'', ''gate_state'', ''duration_ns'']
                                       [P 1, P 2, P 3, P 4])
                            [SText (sch_id s), SInt (int i), SInt (int (unat (gate_state e))), SInt (duration_ns e)] b)
                         db2 (enumerate 0 (sch_entries s))))))"

definition htsn_db_tas_load :: "'h engine \<Rightarrow> string option \<Rightarrow> 'h htsn_db \<Rightarrow> htsn_error + htsn_tas_schedule" where
  "htsn_db_tas_load E keyo db =
     (case keyo of
        None \<Rightarrow> Inl HTSN_ERR_INVALID_ARG
      | Some key \<Rightarrow>
          if closed db then Inl HTSN_ERR_INVALID_ARG
          else
            (case db_run E (Select [''id'', ''name'', ''cycle_time_ns'', ''deploy_target''] ''tas_schedules''
                       [(''id'', P 1)] Unordered None None) [SText key] db of
               None \<Rightarrow> Inl HTSN_ERR_DB
             | Some (_, rs, _) \<Rightarrow>
                 (case rs of
                    [] \<Rightarrow> Inl HTSN_ERR_NOT_FOUND
                  | r # _ \<Rightarrow>
                      (case db_run E (Select [''gate_state'', ''duration_ns''] ''gcl_entries'' [(''schedule_id'', P 1)]
                                 (Asc ''index'') None None) [SText key] db of
                         None \<Rightarrow> Inl HTSN_ERR_DB
                       | Some (_, gs, _) \<Rightarrow>
                           Inr \<lparr> sch_id = cpy HTSN_MAX_STR (column_text r 0), sch_name = cpy HTSN_MAX_STR (column_text r 1),
                                 sch_cycle_time_ns = column_int64 r 2,
                                 sch_deploy_target = cpy HTSN_MAX_STR (column_text r 3),
                                 sch_entries = map (\<lambda>g. \<lparr>gate_state = word_of_int (column_int g 0),
                                     duration_ns = column_int64 g 1\<rparr>) (take HTSN_TAS_MAX_ENTRIES gs) \<rparr>))))"

definition htsn_db_tas_for_each :: "'h engine \<Rightarrow> 'h htsn_db \<Rightarrow> htsn_tas_schedule list" where
  "htsn_db_tas_for_each E db =
     concat (map (\<lambda>r. case htsn_db_tas_load E (column_text r 0) db of Inr s \<Rightarrow> [s] | Inl _ \<Rightarrow> [])
       (db_rows E (Select [''id''] ''tas_schedules'' [] Unordered None None) [] db))"

definition htsn_db_tas_delete :: "'h engine \<Rightarrow> string \<Rightarrow> 'h htsn_db \<Rightarrow> htsn_error \<times> 'h htsn_db" where
  "htsn_db_tas_delete E key db = db_do E (Delete ''tas_schedules'' [(''id'', P 1)]) [SText key] db"

section \<open>Time synchronisation\<close>

definition htsn_db_timesync_save ::
  "'h engine \<Rightarrow> htsn_timesync_status option \<Rightarrow> 'h htsn_db \<Rightarrow> htsn_error \<times> 'h htsn_db" where
  "htsn_db_timesync_save E so db =
     (case so of
        None \<Rightarrow> (HTSN_ERR_INVALID_ARG, db)
      | Some s \<Rightarrow>
          if closed db then (HTSN_ERR_INVALID_ARG, db)
          else db_step E (Insert (DoUpdate [''id''] [''mode'', ''grandmaster'', ''offset_ns'', ''quality'', ''jitter_ns''])
                            ''timesync_status'' [''id'', ''mode'', ''grandmaster'', ''offset_ns'', ''quality'', ''jitter_ns'']
                            [L (SText ''global''), P 1, P 2, P 3, P 4, P 5])
                 [SText (htsn_timesync_mode_str (ts_mode s)), SText (ts_grandmaster s), SInt (ts_offset_ns s),
                  SInt (ts_quality s), SInt (ts_jitter_ns s)] db)"

definition timesync_zero :: htsn_timesync_status where
  "timesync_zero = \<lparr> ts_mode = HTSN_TIMESYNC_DISABLED, ts_grandmaster = [], ts_offset_ns = 0, ts_jitter_ns = 0,
     ts_quality = 0, ts_gptp_active = False, ts_protocol = [], ts_report_offset_ns = 0, ts_report_jitter_ns = 0,
     ts_report_packet_count = 0, ts_report_packet_loss = 0, ts_report_device = [] \<rparr>"

definition htsn_db_timesync_load :: "'h engine \<Rightarrow> 'h htsn_db \<Rightarrow> htsn_error + htsn_timesync_status" where
  "htsn_db_timesync_load E db =
     (if closed db then Inl HTSN_ERR_INVALID_ARG
      else
        (case db_run E (Select [''mode'', ''grandmaster'', ''offset_ns'', ''quality'', ''jitter_ns''] ''timesync_status''
                   [(''id'', L (SText ''global''))] Unordered None None) [] db of
           None \<Rightarrow> Inl HTSN_ERR_DB
         | Some (_, rs, _) \<Rightarrow>
             (case rs of
                [] \<Rightarrow> Inl HTSN_ERR_NOT_FOUND
              | r # _ \<Rightarrow> Inr (timesync_zero\<lparr> ts_mode := htsn_timesync_mode_parse (column_text r 0),
                  ts_grandmaster := cpy HTSN_MAX_STR (column_text r 1), ts_offset_ns := column_int64 r 2,
                  ts_quality := column_int r 3, ts_jitter_ns := column_int64 r 4 \<rparr>))))"

definition report_cols :: "string list" where
  "report_cols = [''device_id'', ''ts'', ''offset_ns'', ''jitter_ns'', ''packet_count'', ''packet_loss'', ''status'']"

definition htsn_db_timesync_report_insert ::
  "'h engine \<Rightarrow> int \<Rightarrow> htsn_timesync_report option \<Rightarrow> 'h htsn_db \<Rightarrow> htsn_error \<times> 'h htsn_db" where
  "htsn_db_timesync_report_insert E now ro db =
     (case ro of
        None \<Rightarrow> (HTSN_ERR_INVALID_ARG, db)
      | Some r \<Rightarrow>
          if closed db then (HTSN_ERR_INVALID_ARG, db)
          else db_do E (Insert Abort ''timesync_reports'' report_cols [P 1, P 2, P 3, P 4, P 5, P 6, P 7])
                 [SText (tr_device_id r), SInt (if tr_ts r \<noteq> 0 then tr_ts r else now), SInt (tr_offset_ns r),
                  SInt (tr_jitter_ns r), SInt (tr_packet_count r), SInt (tr_packet_loss r), SText (tr_status r)] db)"

definition row_to_report :: "sqlval list \<Rightarrow> htsn_timesync_report" where
  "row_to_report r = \<lparr> tr_device_id = cpy HTSN_MAX_STR (column_text r 0), tr_ts = column_int64 r 1,
     tr_offset_ns = column_int64 r 2, tr_jitter_ns = column_int64 r 3, tr_packet_count = column_int r 4,
     tr_packet_loss = column_int r 5, tr_status = cpy 32 (column_text r 6) \<rparr>"

definition htsn_db_timesync_report_for_each ::
  "'h engine \<Rightarrow> string option \<Rightarrow> int \<Rightarrow> 'h htsn_db \<Rightarrow> htsn_timesync_report list" where
  "htsn_db_timesync_report_for_each E devo limit db =
     (let n = (if limit \<le> 0 then 50 else limit)
      in map row_to_report
           (case devo of
              Some dev \<Rightarrow>
                if dev \<noteq> []
                then db_rows E (Select report_cols ''timesync_reports'' [(''device_id'', P 1)] (Desc ''id'') (Some (P 2)) None)
                       [SText dev, SInt n] db
                else db_rows E (Select report_cols ''timesync_reports'' [] (Desc ''id'') (Some (P 1)) None) [SInt n] db
            | None \<Rightarrow>
                db_rows E (Select report_cols ''timesync_reports'' [] (Desc ''id'') (Some (P 1)) None) [SInt n] db))"

definition htsn_db_timesync_report_prune :: "'h engine \<Rightarrow> int \<Rightarrow> 'h htsn_db \<Rightarrow> htsn_error \<times> 'h htsn_db" where
  "htsn_db_timesync_report_prune E keep db =
     (if closed db then (HTSN_ERR_INVALID_ARG, db) else db_do E (Prune ''timesync_reports'' (P 1)) [SInt keep] db)"

section \<open>The trace log\<close>

definition htsn_db_trace_log_insert ::
  "'h engine \<Rightarrow> int \<Rightarrow> htsn_trace_entry option \<Rightarrow> 'h htsn_db \<Rightarrow> htsn_error \<times> 'h htsn_db" where
  "htsn_db_trace_log_insert E now eo db =
     (case eo of
        None \<Rightarrow> (HTSN_ERR_INVALID_ARG, db)
      | Some e \<Rightarrow>
          if closed db then (HTSN_ERR_INVALID_ARG, db)
          else db_do E (Insert Abort ''trace_log'' [''ts'', ''type'', ''source'', ''line''] [P 1, P 2, P 3, P 4])
                 [SInt now, SInt (trace_type_int (te_type e)), SText (te_source e), SText (te_line e)] db)"

text \<open>\<open>strncpy\<close> into the zeroed field; a text of the size of the field is left without terminator.\<close>

definition row_to_trace :: "(int \<Rightarrow> string) \<Rightarrow> sqlval list \<Rightarrow> htsn_trace_entry" where
  "row_to_trace hms r = \<lparr> te_timestamp = hms (column_int64 r 0), te_type = int_trace_type (column_int r 1),
     te_source = take 256 (case column_text r 2 of Some s \<Rightarrow> s | None \<Rightarrow> ''-''),
     te_line = take 256 (case column_text r 3 of Some s \<Rightarrow> s | None \<Rightarrow> []) \<rparr>"

definition htsn_db_trace_paged ::
  "'h engine \<Rightarrow> (int \<Rightarrow> string) \<Rightarrow> int \<Rightarrow> int \<Rightarrow> 'h htsn_db \<Rightarrow> htsn_trace_entry list" where
  "htsn_db_trace_paged E hms offset limit db =
     map (row_to_trace hms)
       (db_rows E (Select [''ts'', ''type'', ''source'', ''line''] ''trace_log'' [] (Desc ''id'') (Some (P 1)) (Some (P 2)))
          [SInt limit, SInt offset] db)"

definition htsn_db_trace_count :: "'h engine \<Rightarrow> 'h htsn_db \<Rightarrow> int" where
  "htsn_db_trace_count E db = (case db_rows E (Count ''trace_log'') [] db of [] \<Rightarrow> 0 | r # _ \<Rightarrow> column_int r 0)"

definition htsn_db_trace_prune :: "'h engine \<Rightarrow> int \<Rightarrow> 'h htsn_db \<Rightarrow> htsn_error \<times> 'h htsn_db" where
  "htsn_db_trace_prune E keep db =
     (if closed db then (HTSN_ERR_INVALID_ARG, db) else db_do E (Prune ''trace_log'' (P 1)) [SInt keep] db)"

section \<open>VLAN groups and members\<close>

text \<open>\<open>htsn_vlan_group\<close> has the fields of \<open>htsn_vlan_group_model\<close>.\<close>

type_synonym htsn_vlan_group = htsn_vlan_group_model

definition row_to_group :: "sqlval list \<Rightarrow> htsn_vlan_group" where
  "row_to_group r = \<lparr> vg_id = cpy HTSN_MAX_STR (column_text r 0), vg_name = cpy HTSN_MAX_STR (column_text r 1),
     vg_vlan_id = column_int r 2 \<rparr>"

definition htsn_db_vlan_group_save :: "'h engine \<Rightarrow> htsn_vlan_group option \<Rightarrow> 'h htsn_db \<Rightarrow> htsn_error \<times> 'h htsn_db" where
  "htsn_db_vlan_group_save E go db =
     (case go of
        None \<Rightarrow> (HTSN_ERR_INVALID_ARG, db)
      | Some g \<Rightarrow>
          if closed db then (HTSN_ERR_INVALID_ARG, db)
          else db_step E (Insert (DoUpdate [''id''] [''name'', ''vlan_id'']) ''vlan_groups'' [''id'', ''name'', ''vlan_id'']
                            [P 1, P 2, P 3])
                 [SText (vg_id g), SText (vg_name g), SInt (vg_vlan_id g)] db)"

definition htsn_db_vlan_group_delete :: "'h engine \<Rightarrow> string \<Rightarrow> 'h htsn_db \<Rightarrow> htsn_error \<times> 'h htsn_db" where
  "htsn_db_vlan_group_delete E key db = db_do E (Delete ''vlan_groups'' [(''id'', P 1)]) [SText key] db"

definition htsn_db_vlan_group_for_each :: "'h engine \<Rightarrow> 'h htsn_db \<Rightarrow> htsn_vlan_group list" where
  "htsn_db_vlan_group_for_each E db =
     map row_to_group (db_rows E (Select [''id'', ''name'', ''vlan_id''] ''vlan_groups'' [] Unordered None None) [] db)"

definition htsn_db_vlan_member_add :: "'h engine \<Rightarrow> htsn_vlan_member \<Rightarrow> 'h htsn_db \<Rightarrow> htsn_error \<times> 'h htsn_db" where
  "htsn_db_vlan_member_add E m db =
     db_do E (Insert Ignore ''vlan_members'' [''group_id'', ''device_id''] [P 1, P 2])
       [SText (vm_group_id m), SText (vm_device_id m)] db"

definition htsn_db_vlan_member_remove ::
  "'h engine \<Rightarrow> string \<Rightarrow> string \<Rightarrow> 'h htsn_db \<Rightarrow> htsn_error \<times> 'h htsn_db" where
  "htsn_db_vlan_member_remove E group_id device_id db =
     db_do E (Delete ''vlan_members'' [(''group_id'', P 1), (''device_id'', P 2)]) [SText group_id, SText device_id] db"

definition row_to_member :: "sqlval list \<Rightarrow> htsn_vlan_member" where
  "row_to_member r = \<lparr> vm_group_id = cpy HTSN_MAX_STR (column_text r 0), vm_device_id = cpy HTSN_MAX_STR (column_text r 1) \<rparr>"

definition htsn_db_vlan_member_for_each_group :: "'h engine \<Rightarrow> string \<Rightarrow> 'h htsn_db \<Rightarrow> htsn_vlan_member list" where
  "htsn_db_vlan_member_for_each_group E group_id db =
     map row_to_member (db_rows E (Select [''group_id'', ''device_id''] ''vlan_members'' [(''group_id'', P 1)] Unordered None None)
       [SText group_id] db)"

definition htsn_db_vlan_member_for_each_all :: "'h engine \<Rightarrow> 'h htsn_db \<Rightarrow> htsn_vlan_member list" where
  "htsn_db_vlan_member_for_each_all E db =
     map row_to_member (db_rows E (Select [''group_id'', ''device_id''] ''vlan_members'' [] Unordered None None) [] db)"

section \<open>Streams\<close>

definition stream_cols :: "string list" where
  "stream_cols = [''stream_id'', ''name'', ''talker'', ''vlan_id'', ''max_latency_ns'', ''max_interval_ns'', ''priority'',
     ''data_frame_prio'', ''status'', ''comment'']"

definition bind_stream :: "htsn_stream \<Rightarrow> sqlval list" where
  "bind_stream s =
     [SText (st_stream_id s), SText (st_name s), SText (st_talker s), SInt (st_vlan_id s), SInt (st_max_latency_ns s),
      SInt (st_max_interval_ns s), SInt (st_priority s), SInt (st_data_frame_prio s),
      SInt (stream_status_int (st_status s)), SText (st_comment s)]"

text \<open>The member rows \<open>htsn_db_tsn_save\<close> writes, in its order.\<close>

definition stream_members :: "htsn_stream \<Rightarrow> (string \<times> string) list" where
  "stream_members s =
     [(''talker'', st_talker s)] @
     (if st_listener_all s then [(''listener'', HTSN_STREAM_ALL_LISTENERS)] else []) @
     map (\<lambda>l. (''listener'', l)) (filter (\<lambda>l. l \<noteq> []) (st_listeners s))"

definition member_insert :: stmt where
  "member_insert = Insert Abort ''tsn_stream_members'' [''stream_id'', ''role'', ''device_id''] [P 1, P 2, P 3]"

text \<open>
  The insert statement is prepared once and stepped for every member; that it prepares is seen on
  the first step.
\<close>

definition htsn_db_tsn_save :: "'h engine \<Rightarrow> htsn_stream option \<Rightarrow> 'h htsn_db \<Rightarrow> htsn_error \<times> 'h htsn_db" where
  "htsn_db_tsn_save E so db =
     (case so of
        None \<Rightarrow> (HTSN_ERR_INVALID_ARG, db)
      | Some s \<Rightarrow>
          if closed db then (HTSN_ERR_INVALID_ARG, db)
          else
            (case db_run E (Insert (DoUpdate [''stream_id''] (tl stream_cols)) ''tsn_streams'' stream_cols
                       [P 1, P 2, P 3, P 4, P 5, P 6, P 7, P 8, P 9, P 10]) (bind_stream s) db of
               None \<Rightarrow> (HTSN_ERR_DB, db)
             | Some (_, _, db1) \<Rightarrow>
                 (case db_run E (Delete ''tsn_stream_members'' [(''stream_id'', P 1)]) [SText (st_stream_id s)] db1 of
                    None \<Rightarrow> (HTSN_ERR_DB, db1)
                  | Some (_, _, db2) \<Rightarrow>
                      (case db_run E member_insert [SText (st_stream_id s), SText ''talker'', SText (st_talker s)] db2 of
                         None \<Rightarrow> (HTSN_ERR_DB, db2)
                       | Some (_, _, db3) \<Rightarrow>
                           (HTSN_OK,
                            foldl (\<lambda>b (role, dev). db_exec E member_insert [SText (st_stream_id s), SText role, SText dev] b)
                              db3 (tl (stream_members s)))))))"

definition add_member_row :: "htsn_stream \<Rightarrow> sqlval list \<Rightarrow> htsn_stream" where
  "add_member_row s r =
     (case (column_text r 0, column_text r 1) of
        (Some role, Some dev) \<Rightarrow>
          if role = ''listener'' then
            if dev = HTSN_STREAM_ALL_LISTENERS then s\<lparr>st_listener_all := True\<rparr>
            else if length (st_listeners s) < HTSN_MAX_DEVICES
            then s\<lparr>st_listeners := st_listeners s @ [cpy HTSN_MAX_STR (Some dev)]\<rparr> else s
          else s
      | _ \<Rightarrow> s)"

definition htsn_db_tsn_load :: "'h engine \<Rightarrow> string option \<Rightarrow> 'h htsn_db \<Rightarrow> htsn_error + htsn_stream" where
  "htsn_db_tsn_load E keyo db =
     (case keyo of
        None \<Rightarrow> Inl HTSN_ERR_INVALID_ARG
      | Some key \<Rightarrow>
          if closed db then Inl HTSN_ERR_INVALID_ARG
          else
            (case db_run E (Select stream_cols ''tsn_streams'' [(''stream_id'', P 1)] Unordered None None) [SText key] db of
               None \<Rightarrow> Inl HTSN_ERR_DB
             | Some (_, rs, _) \<Rightarrow>
                 (case rs of
                    [] \<Rightarrow> Inl HTSN_ERR_NOT_FOUND
                  | r # _ \<Rightarrow>
                      (let s = \<lparr> st_stream_id = cpy HTSN_MAX_STR (column_text r 0), st_name = cpy HTSN_MAX_STR (column_text r 1),
                                 st_talker = cpy HTSN_MAX_STR (column_text r 2), st_vlan_id = column_int r 3,
                                 st_max_latency_ns = column_int64 r 4, st_max_interval_ns = column_int64 r 5,
                                 st_priority = column_int r 6, st_data_frame_prio = column_int r 7,
                                 st_status = int_stream_status (column_int r 8),
                                 st_comment = cpy HTSN_MAX_STR (column_text r 9), st_listeners = [],
                                 st_listener_all = False \<rparr>
                       in case db_run E (Select [''role'', ''device_id''] ''tsn_stream_members'' [(''stream_id'', P 1)]
                                  Unordered None None) [SText key] db of
                            None \<Rightarrow> Inl HTSN_ERR_DB
                          | Some (_, ms, _) \<Rightarrow> Inr (foldl add_member_row s ms)))))"

definition htsn_db_tsn_for_each :: "'h engine \<Rightarrow> 'h htsn_db \<Rightarrow> htsn_stream list" where
  "htsn_db_tsn_for_each E db =
     concat (map (\<lambda>r. case htsn_db_tsn_load E (column_text r 0) db of Inr s \<Rightarrow> [s] | Inl _ \<Rightarrow> [])
       (db_rows E (Select [''stream_id''] ''tsn_streams'' [] Unordered None None) [] db))"

definition htsn_db_tsn_delete :: "'h engine \<Rightarrow> string option \<Rightarrow> 'h htsn_db \<Rightarrow> htsn_error \<times> 'h htsn_db" where
  "htsn_db_tsn_delete E keyo db =
     (case keyo of
        None \<Rightarrow> (HTSN_ERR_INVALID_ARG, db)
      | Some key \<Rightarrow>
          if closed db then (HTSN_ERR_INVALID_ARG, db)
          else
            (case db_run E (Delete ''tsn_streams'' [(''stream_id'', P 1)]) [SText key] db of
               None \<Rightarrow> (HTSN_ERR_DB, db)
             | Some (_, _, db1) \<Rightarrow> db_do E (Delete ''tsn_stream_members'' [(''stream_id'', P 1)]) [SText key] db1))"

definition htsn_db_tsn_set_status ::
  "'h engine \<Rightarrow> string option \<Rightarrow> htsn_stream_status \<Rightarrow> 'h htsn_db \<Rightarrow> htsn_error \<times> 'h htsn_db" where
  "htsn_db_tsn_set_status E keyo st db =
     (case keyo of
        None \<Rightarrow> (HTSN_ERR_INVALID_ARG, db)
      | Some key \<Rightarrow>
          if closed db then (HTSN_ERR_INVALID_ARG, db)
          else db_do E (Update ''tsn_streams'' [(''status'', P 1)] [(''stream_id'', P 2)])
                 [SInt (stream_status_int st), SText key] db)"

section \<open>Configuration versions\<close>

definition version_cols :: "string list" where
  "version_cols = [''id'', ''name'', ''device_id'', ''created_at'', ''payload'']"

definition htsn_db_config_version_add ::
  "'h engine \<Rightarrow> int \<Rightarrow> string option \<Rightarrow> string option \<Rightarrow> string option \<Rightarrow> 'h htsn_db \<Rightarrow> htsn_error \<times> 'h htsn_db" where
  "htsn_db_config_version_add E now no devo po db =
     (case no of
        None \<Rightarrow> (HTSN_ERR_INVALID_ARG, db)
      | Some name \<Rightarrow>
          if closed db then (HTSN_ERR_INVALID_ARG, db)
          else db_do E (Insert Abort ''config_versions'' (tl version_cols) [P 1, P 2, P 3, P 4])
                 [SText name, SText (case devo of Some d \<Rightarrow> d | None \<Rightarrow> []), SInt now,
                  SText (case po of Some p \<Rightarrow> p | None \<Rightarrow> [])] db)"

definition row_to_version :: "sqlval list \<Rightarrow> htsn_config_version" where
  "row_to_version r = \<lparr> cv_id = column_int r 0, cv_name = cpy HTSN_MAX_STR (column_text r 1),
     cv_device_id = cpy HTSN_MAX_STR (column_text r 2), cv_created_at = column_int64 r 3,
     cv_payload = cpy 4096 (column_text r 4) \<rparr>"

definition htsn_db_config_version_get :: "'h engine \<Rightarrow> int \<Rightarrow> 'h htsn_db \<Rightarrow> htsn_error + htsn_config_version" where
  "htsn_db_config_version_get E key db =
     (if closed db then Inl HTSN_ERR_INVALID_ARG
      else
        (case db_run E (Select version_cols ''config_versions'' [(''id'', P 1)] Unordered None None) [SInt key] db of
           None \<Rightarrow> Inl HTSN_ERR_DB
         | Some (_, rs, _) \<Rightarrow> (case rs of [] \<Rightarrow> Inl HTSN_ERR_NOT_FOUND | r # _ \<Rightarrow> Inr (row_to_version r))))"

definition htsn_db_config_version_for_each :: "'h engine \<Rightarrow> 'h htsn_db \<Rightarrow> htsn_config_version list" where
  "htsn_db_config_version_for_each E db =
     map row_to_version (db_rows E (Select version_cols ''config_versions'' [] (Desc ''id'') None None) [] db)"

definition htsn_db_config_version_count :: "'h engine \<Rightarrow> 'h htsn_db \<Rightarrow> int" where
  "htsn_db_config_version_count E db =
     (case db_rows E (Count ''config_versions'') [] db of [] \<Rightarrow> 0 | r # _ \<Rightarrow> column_int r 0)"

end
