(* ===== verification/Db_Laws.thy ===== *)
theory Db_Laws
  imports Db_Store
begin

text \<open>
  Laws of the persistence layer. First the effect of the statement shapes on the tables of the
  reference semantics (upserts, lookups and deletes by a one-column key), then the contract of a
  keyed store as the locale \<open>kv_store\<close> with its consequence for whole histories, and the transfer of the
  contract along the abstraction of the engine. QoS configurations are the first instance: the
  contract is proved for the reference semantics and passed to every engine that keeps the locale
  \<open>sqlite\<close>.
\<close>

named_theorems sql_prep "which statements of the sources prepare"
named_theorems abs_simps "operations commute with the abstraction to tables"

section \<open>Rows\<close>

lemma set_cols_Nil [simp]: "set_cols r [] = r"
  by (simp add: set_cols_def)

lemma set_cols_Cons [simp]: "set_cols r ((c, v) # kvs) = set_cols (r(c := v)) kvs"
  by (simp add: set_cols_def)

lemma set_cols_copy: "set_cols r0 (map (\<lambda>c. (c, r c)) cs) c = (if c \<in> set cs then r c else r0 c)"
  by (induction cs arbitrary: r0) auto

lemma set_cols_other: "c \<notin> fst ` set kvs \<Longrightarrow> set_cols r kvs c = r c"
  by (induction kvs arbitrary: r) auto

section \<open>Statements on tables with a one-column key\<close>

text \<open>The rows with a given key.\<close>

definition keyed :: "string \<Rightarrow> sqlval \<Rightarrow> row list \<Rightarrow> row list" where
  "keyed k v rs = filter (\<lambda>r. r k = v) rs"

lemma rows_put_rows [simp]: "rows (put_rows t rs T) u = (if u = t then rs else rows T u)"
  by (simp add: put_rows_def)

lemma row_where_key: "v \<noteq> SNull \<Longrightarrow> filter (row_where [v] [(k, P 1)]) rs = keyed k v rs"
  unfolding keyed_def by (rule filter_cong) (auto simp: row_where_def sexp_val_def)

lemmas row_where_key' = row_where_key [unfolded One_nat_def]

lemma row_where_none [simp]: "filter (row_where ps []) rs = rs"
  by (simp add: row_where_def)

lemma same_key_one: "td_pk td = [k] \<Longrightarrow> r k = v \<Longrightarrow> v \<noteq> SNull \<Longrightarrow> same_key td r r' \<longleftrightarrow> r' k = v"
  by (auto simp: same_key_def)

text \<open>
  An upsert succeeds, touches its table only, leaves the rows with other keys alone, and the row
  it inserted or updated carries the new values.
\<close>

lemma sql_insert_upsert:
  assumes "td_pk td = [k]" and "\<not> td_autoinc td" and "k \<notin> set sets"
    and r: "r = new_row td (seqs T t + 1) kvs" "r k = v" "v \<noteq> SNull"
    and "check_ok td r" and "fk_ok T td r"
  obtains T' where "sql_insert (DoUpdate tg sets) t td kvs T = (True, T')"
    and "\<And>u. u \<noteq> t \<Longrightarrow> rows T' u = rows T u" and "seqs T' = seqs T"
    and "\<And>w. w \<noteq> v \<Longrightarrow> keyed k w (rows T' t) = keyed k w (rows T t)"
    and "\<exists>r' rs. keyed k v (rows T' t) = r' # rs \<and> r' k = v \<and> (\<forall>c \<in> set sets. r' c = r c)"
proof (cases "list_ex (same_key td r) (rows T t)")
  case True
  let ?upd = "\<lambda>r0. if same_key td r r0 then set_cols r0 (map (\<lambda>c. (c, r c)) sets) else r0"
  let ?T = "put_rows t (map ?upd (rows T t)) T"
  have s: "same_key td r r0 \<longleftrightarrow> r0 k = v" for r0
    using assms by (intro same_key_one) auto
  have uk: "?upd r0 k = r0 k" for r0 using assms(3) by (simp add: set_cols_copy)
  have e: "sql_insert (DoUpdate tg sets) t td kvs T = (True, ?T)"
    using True assms(2,7) unfolding r(1) by (simp add: sql_insert_def Let_def)
  have o: "keyed k w (map ?upd rs) = map ?upd (keyed k w rs)" for w rs
    by (simp add: keyed_def filter_map o_def uk)
  have "keyed k w (rows ?T t) = keyed k w (rows T t)" if "w \<noteq> v" for w
    using that unfolding rows_put_rows if_P [OF refl] o
    by (intro map_idI) (auto simp: keyed_def s)
  moreover have "\<exists>r' rs. keyed k v (rows ?T t) = r' # rs \<and> r' k = v \<and> (\<forall>c \<in> set sets. r' c = r c)"
  proof -
    obtain r0 rs where k: "keyed k v (rows T t) = r0 # rs"
      using True by (cases "keyed k v (rows T t)") (auto simp: list_ex_iff s keyed_def filter_empty_conv)
    then have "r0 k = v" by (auto simp: keyed_def dest: filter_eq_ConsD)
    then have "?upd r0 k = v" "\<forall>c \<in> set sets. ?upd r0 c = r c"
      using assms(3) by (auto simp: s set_cols_copy)
    moreover have "keyed k v (rows ?T t) = ?upd r0 # map ?upd rs" unfolding rows_put_rows if_P [OF refl] o k by simp
    ultimately show ?thesis by blast
  qed
  moreover have "seqs ?T = seqs T" by (simp add: put_rows_def)
  ultimately show thesis using e that [of ?T] by simp
next
  case False
  let ?T = "put_rows t (rows T t @ [r]) T"
  have s: "same_key td r r0 \<longleftrightarrow> r0 k = v" for r0
    using assms by (intro same_key_one) auto
  have e: "sql_insert (DoUpdate tg sets) t td kvs T = (True, ?T)"
    using False assms(2,7,8) unfolding r(1) by (simp add: sql_insert_def Let_def)
  have "keyed k v (rows T t) = []" using False by (auto simp: keyed_def list_ex_iff s filter_empty_conv)
  then have "\<exists>r' rs. keyed k v (rows ?T t) = r' # rs \<and> r' k = v \<and> (\<forall>c \<in> set sets. r' c = r c)"
    using r(2) by (simp add: keyed_def)
  moreover have "seqs ?T = seqs T" by (simp add: put_rows_def)
  ultimately show thesis using e r(2) that [of ?T] by (simp add: keyed_def)
qed

section \<open>Running statements\<close>

lemma db_run_ref:
  assumes "handle db = Some T" and "sql_prepares st" and "map_of schema (stmt_table st) = Some td"
    and "sql_exec st td ps T = (d, rs, T')"
  shows "db_run sql_run st ps db = Some (d, rs, db\<lparr>handle := Some T'\<rparr>)"
  using assms by (simp add: db_run_def sql_run_def)

lemma db_run_select_key:
  assumes "handle db = Some T" and "sql_prepares (Select cols t [(k, P 1)] Unordered None None)"
    and "v \<noteq> SNull"
  shows "db_run sql_run (Select cols t [(k, P 1)] Unordered None None) [v] db =
    Some (True, map (\<lambda>r. map r cols) (keyed k v (rows T t)), db)"
proof -
  obtain td where td: "map_of schema t = Some td"
    using assms(2) by (auto simp: sql_prepares_def split: option.splits)
  have "sql_exec (Select cols t [(k, P 1)] Unordered None None) td [v] T =
      (True, map (\<lambda>r. map r cols) (keyed k v (rows T t)), T)"
    using assms(3) by (simp add: sql_exec_def row_where_key' sort_rows_def limit_rows_def)
  then have "db_run sql_run (Select cols t [(k, P 1)] Unordered None None) [v] db =
      Some (True, map (\<lambda>r. map r cols) (keyed k v (rows T t)), db\<lparr>handle := Some T\<rparr>)"
    using assms td by (intro db_run_ref) auto
  moreover have "db\<lparr>handle := Some T\<rparr> = db" using assms(1) by simp
  ultimately show ?thesis by simp
qed

lemma db_run_unprepared:
  assumes "\<not> sql_prepares st" shows "db_run sql_run st ps db = None"
  using assms by (auto simp: db_run_def sql_run_def split: option.splits)

section \<open>The tables of the schema\<close>

lemma plain_table_simps [simp]:
  "td_cols (plain_table cs k) = cs" "td_pk (plain_table cs k) = k" "\<not> td_autoinc (plain_table cs k)"
  "td_fk (plain_table cs k) = None" "td_defaults (plain_table cs k) = []" "td_check (plain_table cs k) = None"
  by (simp_all add: plain_table_def)

lemma schema_tables:
  "map_of schema ''devices'' = Some ((plain_table device_cols [''id''])
     \<lparr>td_defaults := [(''domain'', SText ''default''), (''heartbeat_at'', SInt 0)]\<rparr>)"
  "map_of schema ''qos_configs'' = Some ((plain_table qos_cols [''device_id''])
     \<lparr>td_fk := Some (''device_id'', ''devices'', ''id'')\<rparr>)"
  "map_of schema ''tsn_streams'' = Some ((plain_table stream_cols [''stream_id''])
     \<lparr>td_check := Some (''status'', [0, 1, 2, 3])\<rparr>)"
  "map_of schema ''tsn_stream_members'' = Some ((plain_table [''stream_id'', ''role'', ''device_id''] [])
     \<lparr>td_fk := Some (''stream_id'', ''tsn_streams'', ''stream_id'')\<rparr>)"
  by (simp_all add: schema_def device_cols_def qos_cols_def stream_cols_def)

lemma sql_prep_qos [sql_prep]:
  "sql_prepares (Insert Ignore ''devices'' [''id'', ''name''] [P 1, P 2])"
  "sql_prepares (Insert (DoUpdate [''device_id''] (tl qos_cols)) ''qos_configs'' qos_cols
     [P 1, P 2, P 3, P 4, P 5, P 6])"
  "sql_prepares (Select qos_cols ''qos_configs'' [(''device_id'', P 1)] Unordered None None)"
  "sql_prepares (Delete ''qos_configs'' [(''device_id'', P 1)])"
  by code_simp+

section \<open>Deleting by key\<close>

lemma cascade_same [simp]:
  assumes "map_of schema t = Some td" and "td_fk td = None \<or> fst (snd (the (td_fk td))) \<noteq> t"
  shows "rows (cascade t dead T) t = rows T t"
  using assms by (auto simp: cascade_def split: option.splits prod.splits)

lemma cascade_leaf:
  assumes "\<And>u td c p. map_of schema u = Some td \<Longrightarrow> td_fk td = Some (c, t, p) \<Longrightarrow> False"
  shows "cascade t dead T = T"
proof -
  have "rows (cascade t dead T) u = rows T u" for u
    using assms [of u] by (fastforce simp: cascade_def split: option.splits prod.splits)
  then show ?thesis by (simp add: cascade_def)
qed

lemma keyed_filter_key: "keyed k w (filter (\<lambda>r. \<not> r k = v) rs) = (if w = v then [] else keyed k w rs)"
  by (auto simp: keyed_def filter_empty_conv intro!: filter_cong)

section \<open>QoS configurations as a keyed store\<close>

definition qos_ok :: "htsn_qos_config \<Rightarrow> bool" where
  "qos_ok c \<longleftrightarrow> fits HTSN_MAX_STR (qos_device_id c) \<and> in_i32 (qos_priority c) \<and> in_i32 (qos_traffic_class c) \<and>
     in_i32 (qos_bandwidth_kbps c) \<and> in_i32 (qos_latency_ms c) \<and> in_i32 (qos_preemption c)"

lemma ensure_device:
  assumes "handle db = Some T"
  obtains T' where "db_exec sql_run (Insert Ignore ''devices'' [''id'', ''name''] [P 1, P 2])
      [SText i, SText i] db = db\<lparr>handle := Some T'\<rparr>"
    and "list_ex (\<lambda>p. p ''id'' = SText i) (rows T' ''devices'')"
    and "\<And>u. u \<noteq> ''devices'' \<Longrightarrow> rows T' u = rows T u"
proof -
  let ?td = "(plain_table device_cols [''id''])
     \<lparr>td_defaults := [(''domain'', SText ''default''), (''heartbeat_at'', SInt 0)]\<rparr>"
  let ?kvs = "[(''id'', SText i), (''name'', SText i)]"
  let ?r = "new_row ?td (seqs T ''devices'' + 1) ?kvs"
  let ?T = "if list_ex (same_key ?td ?r) (rows T ''devices'') then T
      else put_rows ''devices'' (rows T ''devices'' @ [?r]) T"
  have rid: "?r ''id'' = SText i" by (simp add: new_row_def)
  have k: "same_key ?td ?r = (\<lambda>r'. r' ''id'' = SText i)"
    by (rule ext, rule same_key_one) (simp_all add: rid)
  have "sql_insert Ignore ''devices'' ?td ?kvs T = (True, ?T)"
    by (simp add: sql_insert_def Let_def check_ok_def fk_ok_def)
  then have "sql_exec (Insert Ignore ''devices'' [''id'', ''name''] [P 1, P 2]) ?td [SText i, SText i] T =
      (True, [], ?T)"
    by (simp add: sql_exec_def sexp_val_def)
  then have "db_run sql_run (Insert Ignore ''devices'' [''id'', ''name''] [P 1, P 2]) [SText i, SText i] db =
      Some (True, [], db\<lparr>handle := Some ?T\<rparr>)"
    using assms by (intro db_run_ref) (simp_all only: sql_prep stmt_table.simps schema_tables)
  then have "db_exec sql_run (Insert Ignore ''devices'' [''id'', ''name''] [P 1, P 2])
      [SText i, SText i] db = db\<lparr>handle := Some ?T\<rparr>"
    by (simp add: db_exec_def)
  moreover have "list_ex (\<lambda>p. p ''id'' = SText i) (rows ?T ''devices'')"
    unfolding k by (simp add: rid)
  ultimately show thesis using that [of ?T] by simp
qed


lemma qos_row_read:
  assumes "qos_ok c" and "r ''device_id'' = SText (qos_device_id c)"
    and "\<forall>x \<in> set (tl qos_cols). r x = new_row td n (zip qos_cols
       [SText (qos_device_id c), SInt (qos_priority c), SInt (qos_traffic_class c),
        SInt (qos_bandwidth_kbps c), SInt (qos_latency_ms c), SInt (qos_preemption c)]) x"
  shows "\<lparr> qos_device_id = cpy HTSN_MAX_STR (column_text (map r qos_cols) 0),
      qos_priority = column_int (map r qos_cols) 1, qos_traffic_class = column_int (map r qos_cols) 2,
      qos_bandwidth_kbps = column_int (map r qos_cols) 3, qos_latency_ms = column_int (map r qos_cols) 4,
      qos_preemption = column_int (map r qos_cols) 5 \<rparr> = c"
  using assms
  by (cases c) (auto simp: qos_cols_def new_row_def column_text_def column_int_def column_int64_def qos_ok_def Let_def)

lemma qos_save_ref:
  assumes "handle db = Some T" and "qos_ok c"
  obtains T' where "htsn_db_qos_save sql_run (Some c) db = (HTSN_OK, db\<lparr>handle := Some T'\<rparr>)"
    and "\<And>w. w \<noteq> SText (qos_device_id c) \<Longrightarrow>
      keyed ''device_id'' w (rows T' ''qos_configs'') = keyed ''device_id'' w (rows T ''qos_configs'')"
    and "htsn_db_qos_load sql_run (Some (qos_device_id c)) (db\<lparr>handle := Some T'\<rparr>) = Inr c"
proof -
  let ?i = "SText (qos_device_id c)"
  let ?ps = "[?i, SInt (qos_priority c), SInt (qos_traffic_class c), SInt (qos_bandwidth_kbps c),
      SInt (qos_latency_ms c), SInt (qos_preemption c)]"
  let ?td = "(plain_table qos_cols [''device_id'']) \<lparr>td_fk := Some (''device_id'', ''devices'', ''id'')\<rparr>"
  let ?st = "Insert (DoUpdate [''device_id''] (tl qos_cols)) ''qos_configs'' qos_cols [P 1, P 2, P 3, P 4, P 5, P 6]"
  obtain T1 where T1: "db_exec sql_run (Insert Ignore ''devices'' [''id'', ''name''] [P 1, P 2]) [?i, ?i] db =
      db\<lparr>handle := Some T1\<rparr>" "list_ex (\<lambda>p. p ''id'' = ?i) (rows T1 ''devices'')"
    "\<And>u. u \<noteq> ''devices'' \<Longrightarrow> rows T1 u = rows T u"
    by (rule ensure_device [OF assms(1)]) blast
  let ?r = "new_row ?td (seqs T1 ''qos_configs'' + 1) (zip qos_cols ?ps)"
  have rk: "?r ''device_id'' = ?i" by (simp add: new_row_def qos_cols_def)
  obtain T2 where T2: "sql_insert (DoUpdate [''device_id''] (tl qos_cols)) ''qos_configs'' ?td (zip qos_cols ?ps) T1 = (True, T2)"
    "\<And>w. w \<noteq> ?i \<Longrightarrow> keyed ''device_id'' w (rows T2 ''qos_configs'') = keyed ''device_id'' w (rows T1 ''qos_configs'')"
    "\<exists>r' rs. keyed ''device_id'' ?i (rows T2 ''qos_configs'') = r' # rs \<and> r' ''device_id'' = ?i \<and>
       (\<forall>x \<in> set (tl qos_cols). r' x = ?r x)"
    by (rule sql_insert_upsert [of ?td "''device_id''" "tl qos_cols" ?r T1 "''qos_configs''" "zip qos_cols ?ps" ?i
          "[''device_id'']"])
      (use T1(2) rk in \<open>simp_all add: qos_cols_def check_ok_def fk_ok_def\<close>)
  have "sql_exec ?st ?td ?ps T1 = (True, [], T2)"
    using T2(1) by (simp add: sql_exec_def sexp_val_def)
  then have run: "db_run sql_run ?st ?ps (db\<lparr>handle := Some T1\<rparr>) = Some (True, [], db\<lparr>handle := Some T2\<rparr>)"
    using db_run_ref [of "db\<lparr>handle := Some T1\<rparr>" T1 ?st ?td ?ps] sql_prep schema_tables by simp
  have save: "htsn_db_qos_save sql_run (Some c) db = (HTSN_OK, db\<lparr>handle := Some T2\<rparr>)"
    unfolding htsn_db_qos_save_def db_step_def using assms(1) T1(1) run by (simp add: closed_def)
  obtain r' rs where r': "keyed ''device_id'' ?i (rows T2 ''qos_configs'') = r' # rs" "r' ''device_id'' = ?i"
    "\<forall>x \<in> set (tl qos_cols). r' x = ?r x"
    using T2(3) by blast
  have load: "htsn_db_qos_load sql_run (Some (qos_device_id c)) (db\<lparr>handle := Some T2\<rparr>) = Inr c"
    unfolding htsn_db_qos_load_def
    using db_run_select_key [of "db\<lparr>handle := Some T2\<rparr>" T2 qos_cols "''qos_configs''" "''device_id''" ?i] sql_prep
      qos_row_read [OF assms(2) r'(2,3)] r'(1)
    by (simp add: closed_def)
  show thesis
    by (rule that [of T2]) (use save load T2(2) T1(3) in \<open>simp_all\<close>)
qed

section \<open>The contract of a keyed store\<close>

text \<open>
  What a manager relies on when it persists its objects: a saved object is loaded back under its
  key, saving and deleting one object leaves the others alone, and a deleted one is not found.
\<close>

text \<open>An operation is a delete (\<open>Inl\<close>) or a save (\<open>Inr\<close>); a history is a list of them.\<close>

fun apply_op :: "('v \<Rightarrow> 's \<Rightarrow> 'e \<times> 's) \<Rightarrow> ('k \<Rightarrow> 's \<Rightarrow> 'e \<times> 's) \<Rightarrow> 's \<Rightarrow> 'k + 'v \<Rightarrow> 's" where
  "apply_op save del s (Inl k) = snd (del k s)"
| "apply_op save del s (Inr v) = snd (save v s)"

fun op_ok :: "('v \<Rightarrow> bool) \<Rightarrow> 'k + 'v \<Rightarrow> bool" where
  "op_ok ok (Inl k) \<longleftrightarrow> True"
| "op_ok ok (Inr v) \<longleftrightarrow> ok v"

fun about :: "('v \<Rightarrow> 'k) \<Rightarrow> 'k \<Rightarrow> 'k + 'v \<Rightarrow> bool" where
  "about key k (Inl k') \<longleftrightarrow> k' = k"
| "about key k (Inr v) \<longleftrightarrow> key v = k"

fun outcome :: "'k + 'v \<Rightarrow> htsn_error + 'v" where
  "outcome (Inl k) = Inl HTSN_ERR_NOT_FOUND"
| "outcome (Inr v) = Inr v"

locale kv_store =
  fixes save :: "'v \<Rightarrow> 's \<Rightarrow> htsn_error \<times> 's" and load :: "'k \<Rightarrow> 's \<Rightarrow> htsn_error + 'v"
    and del :: "'k \<Rightarrow> 's \<Rightarrow> htsn_error \<times> 's" and key :: "'v \<Rightarrow> 'k"
    and ok :: "'v \<Rightarrow> bool" and opened :: "'s \<Rightarrow> bool"
  assumes save_ok: "opened s \<Longrightarrow> ok v \<Longrightarrow> fst (save v s) = HTSN_OK"
    and save_opened: "opened s \<Longrightarrow> ok v \<Longrightarrow> opened (snd (save v s))"
    and load_save: "opened s \<Longrightarrow> ok v \<Longrightarrow> load (key v) (snd (save v s)) = Inr v"
    and load_save_other: "opened s \<Longrightarrow> ok v \<Longrightarrow> k \<noteq> key v \<Longrightarrow> load k (snd (save v s)) = load k s"
    and del_ok: "opened s \<Longrightarrow> fst (del k s) = HTSN_OK"
    and del_opened: "opened s \<Longrightarrow> opened (snd (del k s))"
    and load_del: "opened s \<Longrightarrow> load k (snd (del k s)) = Inl HTSN_ERR_NOT_FOUND"
    and load_del_other: "opened s \<Longrightarrow> k \<noteq> k' \<Longrightarrow> load k (snd (del k' s)) = load k s"
begin

text \<open>Loading a key gives the outcome of the last operation on it.\<close>

lemma history_opened: "opened s \<Longrightarrow> list_all (op_ok ok) xs \<Longrightarrow> opened (foldl (apply_op save del) s xs)"
proof (induction xs arbitrary: s)
  case Nil
  then show ?case by simp
next
  case (Cons x xs)
  then show ?case by (cases x) (simp_all add: save_opened del_opened)
qed

lemma history_load:
  "opened s \<Longrightarrow> list_all (op_ok ok) xs \<Longrightarrow>
     load k (foldl (apply_op save del) s xs) =
       (case filter (about key k) (rev xs) of [] \<Rightarrow> load k s | x # _ \<Rightarrow> outcome x)"
proof (induction xs rule: rev_induct)
  case Nil
  then show ?case by simp
next
  case (snoc x xs)
  then have o: "opened (foldl (apply_op save del) s xs)" by (intro history_opened) auto
  show ?case
  proof (cases x)
    case (Inl k')
    then show ?thesis
      using snoc o by (cases "k' = k") (simp_all add: load_del load_del_other)
  next
    case (Inr v)
    then show ?thesis
      using snoc o by (cases "key v = k") (auto simp: load_save load_save_other)
  qed
qed

end

text \<open>The contract passes to a system whose operations an abstraction maps to a keyed store.\<close>

lemma kv_store_abs:
  assumes "kv_store save' load' del' key ok opened'"
    and s: "\<And>v x. save' v (A x) = map_prod (\<lambda>e. e) A (save v x)"
    and d: "\<And>k x. del' k (A x) = map_prod (\<lambda>e. e) A (del k x)"
    and l: "\<And>k x. load' k (A x) = load k x" and o: "\<And>x. opened' (A x) = opened x"
  shows "kv_store save load del key ok opened"
proof -
  have s': "fst (save v x) = fst (save' v (A x))" "A (snd (save v x)) = snd (save' v (A x))" for v x
    by (cases "save v x"; simp add: s)+
  have d': "fst (del k x) = fst (del' k (A x))" "A (snd (del k x)) = snd (del' k (A x))" for k x
    by (cases "del k x"; simp add: d)+
  show ?thesis
    by unfold_locales
      (simp_all only: s' d' l [symmetric] o [symmetric] kv_store.save_ok [OF assms(1)]
        kv_store.save_opened [OF assms(1)] kv_store.load_save [OF assms(1)] kv_store.load_save_other [OF assms(1)]
        kv_store.del_ok [OF assms(1)] kv_store.del_opened [OF assms(1)] kv_store.load_del [OF assms(1)]
        kv_store.load_del_other [OF assms(1)] not_False_eq_True)
qed

section \<open>Operations commute with the abstraction\<close>

context sqlite
begin

lemma closed_abs [abs_simps]: "closed (dbabs tabs db) = closed db"
  by (simp add: closed_def)

lemma db_step_abs [abs_simps]:
  "db_step sql_run st ps (dbabs tabs db) = map_prod (\<lambda>e. e) (dbabs tabs) (db_step E st ps db)"
  by (simp add: db_step_def db_run_abs split: option.splits prod.splits)

lemma db_do_abs [abs_simps]:
  "db_do sql_run st ps (dbabs tabs db) = map_prod (\<lambda>e. e) (dbabs tabs) (db_do E st ps db)"
  by (simp add: db_do_def db_run_abs split: option.splits prod.splits)

lemma qos_save_abs [abs_simps]:
  "htsn_db_qos_save sql_run c (dbabs tabs db) = map_prod (\<lambda>e. e) (dbabs tabs) (htsn_db_qos_save E c db)"
  by (simp add: htsn_db_qos_save_def closed_abs db_step_abs db_exec_abs Let_def split: option.splits)

lemma qos_delete_abs [abs_simps]:
  "htsn_db_qos_delete sql_run k (dbabs tabs db) = map_prod (\<lambda>e. e) (dbabs tabs) (htsn_db_qos_delete E k db)"
  by (simp add: htsn_db_qos_delete_def db_do_abs)

lemma qos_load_abs [abs_simps]: "htsn_db_qos_load sql_run k (dbabs tabs db) = htsn_db_qos_load E k db"
  by (simp add: htsn_db_qos_load_def closed_abs db_run_abs split: option.splits prod.splits)

end

lemma map_prod_id_simps [simp]:
  "fst (map_prod (\<lambda>e. e) f p) = fst p" "snd (map_prod (\<lambda>e. e) f p) = f (snd p)"
  by (cases p; simp)+

lemma delete_key_ref:
  assumes "handle db = Some T" and "sql_prepares (Delete t [(k, P 1)])" and "v \<noteq> SNull"
  shows "db_do sql_run (Delete t [(k, P 1)]) [v] db =
    (HTSN_OK, db\<lparr>handle := Some (delete_rows t (\<lambda>r. r k = v) T)\<rparr>)"
proof -
  obtain td where td: "map_of schema t = Some td"
    using assms(2) by (auto simp: sql_prepares_def split: option.splits)
  have "row_where [v] [(k, P 1)] = (\<lambda>r. r k = v)"
    using assms(3) by (intro ext) (auto simp: row_where_def sexp_val_def)
  then have "db_run sql_run (Delete t [(k, P 1)]) [v] db =
      Some (True, [], db\<lparr>handle := Some (delete_rows t (\<lambda>r. r k = v) T)\<rparr>)"
    using assms td by (intro db_run_ref) (auto simp: sql_exec_def)
  then show ?thesis by (simp add: db_do_def)
qed

lemma qos_delete_ref:
  assumes "handle db = Some T"
  shows "htsn_db_qos_delete sql_run i db =
    (HTSN_OK, db\<lparr>handle := Some (delete_rows ''qos_configs'' (\<lambda>r. r ''device_id'' = SText i) T)\<rparr>)"
    and "keyed ''device_id'' w (rows (delete_rows ''qos_configs'' (\<lambda>r. r ''device_id'' = SText i) T) ''qos_configs'') =
      (if w = SText i then [] else keyed ''device_id'' w (rows T ''qos_configs''))"
proof -
  show "htsn_db_qos_delete sql_run i db =
    (HTSN_OK, db\<lparr>handle := Some (delete_rows ''qos_configs'' (\<lambda>r. r ''device_id'' = SText i) T)\<rparr>)"
    unfolding htsn_db_qos_delete_def by (rule delete_key_ref) (simp_all add: assms sql_prep [simplified])
  show "keyed ''device_id'' w (rows (delete_rows ''qos_configs'' (\<lambda>r. r ''device_id'' = SText i) T) ''qos_configs'') =
      (if w = SText i then [] else keyed ''device_id'' w (rows T ''qos_configs''))"
    by (simp add: delete_rows_def schema_tables(2) keyed_filter_key)
qed

text \<open>What a load returns depends on the rows of its key only.\<close>

lemma qos_load_ref:
  assumes "handle db = Some T"
  shows "htsn_db_qos_load sql_run (Some i) db =
    (case keyed ''device_id'' (SText i) (rows T ''qos_configs'') of
       [] \<Rightarrow> Inl HTSN_ERR_NOT_FOUND
     | r # _ \<Rightarrow> Inr \<lparr> qos_device_id = cpy HTSN_MAX_STR (column_text (map r qos_cols) 0),
         qos_priority = column_int (map r qos_cols) 1, qos_traffic_class = column_int (map r qos_cols) 2,
         qos_bandwidth_kbps = column_int (map r qos_cols) 3, qos_latency_ms = column_int (map r qos_cols) 4,
         qos_preemption = column_int (map r qos_cols) 5 \<rparr>)"
  unfolding htsn_db_qos_load_def
  using db_run_select_key [OF assms, of qos_cols "''qos_configs''" "''device_id''" "SText i"] sql_prep assms
  by (simp add: closed_def split: list.splits)


lemma qos_store_ref:
  assumes "handle db = Some T" and "qos_ok c" and "j \<noteq> qos_device_id c"
  shows "htsn_db_qos_load sql_run (Some j) (snd (htsn_db_qos_save sql_run (Some c) db)) =
    htsn_db_qos_load sql_run (Some j) db"
  by (rule qos_save_ref [OF assms(1,2)]) (use assms in \<open>simp add: qos_load_ref\<close>)

interpretation qos_ref: kv_store
  "\<lambda>c. htsn_db_qos_save sql_run (Some c)" "\<lambda>k. htsn_db_qos_load sql_run (Some k)" "htsn_db_qos_delete sql_run"
  qos_device_id qos_ok "\<lambda>db. \<not> closed db"
proof (unfold_locales, goal_cases)
  case (1 s v)
  then obtain T where "handle s = Some T" by (auto simp: closed_def)
  from this 1(2) show ?case by (rule qos_save_ref) simp
next
  case (2 s v)
  then obtain T where "handle s = Some T" by (auto simp: closed_def)
  from this 2(2) show ?case by (rule qos_save_ref) (simp add: closed_def)
next
  case (3 s v)
  then obtain T where "handle s = Some T" by (auto simp: closed_def)
  from this 3(2) show ?case by (rule qos_save_ref) simp
next
  case (4 s v k)
  then obtain T where "handle s = Some T" by (auto simp: closed_def)
  with 4 show ?case by (simp add: qos_store_ref)
qed (auto simp: closed_def qos_delete_ref qos_load_ref)

text \<open>An engine that keeps its contract gives a keyed store of QoS configurations.\<close>

sublocale sqlite \<subseteq> qos_store: kv_store
  "\<lambda>c. htsn_db_qos_save E (Some c)" "\<lambda>k. htsn_db_qos_load E (Some k)" "htsn_db_qos_delete E"
  qos_device_id qos_ok "\<lambda>db. \<not> closed db"
  by (rule kv_store_abs [OF qos_ref.kv_store_axioms, where A = "dbabs tabs"]) (simp_all add: abs_simps)

context sqlite
begin

lemmas qos_history = qos_store.history_load

end

text \<open>
  The QoS table is a faithful store: for every engine that keeps the SQLite contract,
  every open database and every sequence of saves (of configurations whose fields fit their C types) and
  deletes, loading a device gives the outcome of the last operation on it: the configuration
  last saved, unchanged in every field, or \<open>HTSN_ERR_NOT_FOUND\<close> after a delete; a device the
  sequence does not touch loads as before. No device row has to exist beforehand.
\<close>

theorem qos_store_history:
  assumes "sqlite E tabs" and "\<not> closed db" and "list_all (op_ok qos_ok) xs"
  shows "htsn_db_qos_load E (Some k)
      (foldl (apply_op (\<lambda>c. htsn_db_qos_save E (Some c)) (htsn_db_qos_delete E)) db xs) =
    (case filter (about qos_device_id k) (rev xs) of
       [] \<Rightarrow> htsn_db_qos_load E (Some k) db | x # _ \<Rightarrow> outcome x)"
  using assms by (rule sqlite.qos_history)

definition empty_db :: "tables htsn_db" where
  "empty_db = \<lparr>handle = Some empty_tables, path = ''htsn.db''\<rparr>"

theorem qos_store_history_witness:
  "htsn_db_qos_load sql_run (Some ''d1'')
     (snd (htsn_db_qos_save sql_run (Some \<lparr>qos_device_id = ''d1'', qos_priority = 7, qos_traffic_class = 3,
        qos_bandwidth_kbps = 100, qos_latency_ms = 5, qos_preemption = 1\<rparr>) empty_db)) =
   Inr \<lparr>qos_device_id = ''d1'', qos_priority = 7, qos_traffic_class = 3,
        qos_bandwidth_kbps = 100, qos_latency_ms = 5, qos_preemption = 1\<rparr>"
  using qos_store_history [OF sql_ref.sqlite_axioms, of empty_db "[Inr \<lparr>qos_device_id = ''d1'', qos_priority = 7,
      qos_traffic_class = 3, qos_bandwidth_kbps = 100, qos_latency_ms = 5, qos_preemption = 1\<rparr>]" "''d1''"]
  by (simp add: closed_def empty_db_def qos_ok_def fits_def HTSN_MAX_STR_def in_i32_def)

end
