(* ===== verification/Db_Streams.thy ===== *)
theory Db_Streams
  imports Db_Laws
begin

text \<open>
  The stream, schedule and time synchronisation tables (src/src/db/db_tsn.c, db_tas.c,
  db_timesync.c) over SQLite: streams with their members obey the laws of a keyed store; schedules
  never load and time synchronisation states never persist, because two of the statements do not
  prepare against the schema.
\<close>

lemma sql_prep_stream [sql_prep]:
  "sql_prepares (Insert (DoUpdate [''stream_id''] (tl stream_cols)) ''tsn_streams'' stream_cols
     [P 1, P 2, P 3, P 4, P 5, P 6, P 7, P 8, P 9, P 10])"
  "sql_prepares (Delete ''tsn_stream_members'' [(''stream_id'', P 1)])"
  "sql_prepares (Delete ''tsn_streams'' [(''stream_id'', P 1)])"
  "sql_prepares member_insert"
  "sql_prepares (Select stream_cols ''tsn_streams'' [(''stream_id'', P 1)] Unordered None None)"
  "sql_prepares (Select [''role'', ''device_id''] ''tsn_stream_members'' [(''stream_id'', P 1)] Unordered None None)"
  by code_simp+

text \<open>No table of the schema refers to the members of streams.\<close>

lemma schema_fks:
  "list_all (\<lambda>(u, td). case td_fk td of None \<Rightarrow> True
     | Some (c, par, pc) \<Rightarrow> par \<in> set [''devices'', ''tas_schedules'', ''tsn_streams'']) schema"
  by code_simp

lemma cascade_childless:
  assumes "t \<notin> set [''devices'', ''tas_schedules'', ''tsn_streams'']" shows "cascade t dead T = T"
proof (rule cascade_leaf)
  fix u td c p assume "map_of schema u = Some td" and fk: "td_fk td = Some (c, t, p)"
  then have "(u, td) \<in> set schema" by (auto dest: map_of_SomeD)
  with fk schema_fks have "t \<in> set [''devices'', ''tas_schedules'', ''tsn_streams'']"
    by (fastforce simp: list_all_iff)
  with assms show False by blast
qed

lemma cascade_members [simp]: "cascade ''tsn_stream_members'' dead T = T"
  by (rule cascade_childless) simp

lemma cascade_streams_members:
  "rows (cascade ''tsn_streams'' dead T) ''tsn_stream_members'' =
     filter (\<lambda>r. \<not> list_ex (\<lambda>d. d ''stream_id'' = r ''stream_id'') dead) (rows T ''tsn_stream_members'')"
  by (simp add: cascade_def schema_tables)

lemma cascade_streams_same: "rows (cascade ''tsn_streams'' dead T) ''tsn_streams'' = rows T ''tsn_streams''"
  by (rule cascade_same [OF schema_tables(3)]) simp

section \<open>Streams whose fields fit\<close>

definition stream_ok :: "htsn_stream \<Rightarrow> bool" where
  "stream_ok s \<longleftrightarrow>
     fits HTSN_MAX_STR (st_stream_id s) \<and> fits HTSN_MAX_STR (st_name s) \<and> fits HTSN_MAX_STR (st_talker s) \<and>
     fits HTSN_MAX_STR (st_comment s) \<and> in_i32 (st_vlan_id s) \<and> in_i32 (st_priority s) \<and>
     in_i32 (st_data_frame_prio s) \<and> (\<forall>i. st_status s \<noteq> Stream_status_other i) \<and>
     length (st_listeners s) \<le> HTSN_MAX_DEVICES \<and>
     (\<forall>l \<in> set (st_listeners s). l \<noteq> [] \<and> l \<noteq> HTSN_STREAM_ALL_LISTENERS \<and> fits HTSN_MAX_STR l)"

definition member_row :: "string \<Rightarrow> string \<times> string \<Rightarrow> row" where
  "member_row sid m = (\<lambda>_. SNull)(''stream_id'' := SText sid, ''role'' := SText (fst m), ''device_id'' := SText (snd m))"

lemma member_insert_ref:
  assumes "handle db = Some T" and "list_ex (\<lambda>p. p ''stream_id'' = SText sid) (rows T ''tsn_streams'')"
  shows "db_run sql_run member_insert [SText sid, SText role, SText dev] db =
    Some (True, [], db\<lparr>handle := Some (put_rows ''tsn_stream_members''
       (rows T ''tsn_stream_members'' @ [member_row sid (role, dev)]) T)\<rparr>)"
proof -
  let ?td = "(plain_table [''stream_id'', ''role'', ''device_id''] [])
     \<lparr>td_fk := Some (''stream_id'', ''tsn_streams'', ''stream_id'')\<rparr>"
  let ?kvs = "[(''stream_id'', SText sid), (''role'', SText role), (''device_id'', SText dev)]"
  have nr: "new_row ?td n ?kvs = member_row sid (role, dev)" for n
    by (simp add: new_row_def member_row_def)
  have "\<not> list_ex (same_key ?td r) rs" for r rs by (simp add: same_key_def list_ex_iff)
  moreover have "fk_ok T ?td (member_row sid (role, dev))"
    using assms(2) by (simp add: fk_ok_def member_row_def)
  moreover have "check_ok ?td r" for r by (simp add: check_ok_def)
  ultimately have "sql_insert Abort ''tsn_stream_members'' ?td ?kvs T =
      (True, put_rows ''tsn_stream_members'' (rows T ''tsn_stream_members'' @ [member_row sid (role, dev)]) T)"
    by (simp add: sql_insert_def Let_def nr)
  then have "sql_exec member_insert ?td [SText sid, SText role, SText dev] T =
      (True, [], put_rows ''tsn_stream_members'' (rows T ''tsn_stream_members'' @ [member_row sid (role, dev)]) T)"
    by (simp add: sql_exec_def member_insert_def sexp_val_def)
  then show ?thesis
    using assms(1) sql_prep schema_tables(4) by (intro db_run_ref) (simp_all add: member_insert_def)
qed

lemma member_inserts_ref:
  assumes "list_ex (\<lambda>p. p ''stream_id'' = SText sid) (rows T ''tsn_streams'')"
  shows "foldl (\<lambda>b (role, dev). db_exec sql_run member_insert [SText sid, SText role, SText dev] b)
      (db\<lparr>handle := Some T\<rparr>) ms =
    db\<lparr>handle := Some (put_rows ''tsn_stream_members'' (rows T ''tsn_stream_members'' @ map (member_row sid) ms) T)\<rparr>"
proof (induction ms rule: rev_induct)
  case Nil
  then show ?case by (simp add: put_rows_def)
next
  case (snoc m ms)
  obtain role dev where m: "m = (role, dev)" by (cases m)
  let ?U = "put_rows ''tsn_stream_members'' (rows T ''tsn_stream_members'' @ map (member_row sid) ms) T"
  have "db_exec sql_run member_insert [SText sid, SText role, SText dev] (db\<lparr>handle := Some ?U\<rparr>) =
      db\<lparr>handle := Some (put_rows ''tsn_stream_members'' (rows ?U ''tsn_stream_members'' @ [member_row sid m]) ?U)\<rparr>"
    using member_insert_ref [of "db\<lparr>handle := Some ?U\<rparr>" ?U sid role dev] assms
    by (simp add: db_exec_def m)
  then show ?case by (simp add: snoc m put_rows_def)
qed

section \<open>Reading members back\<close>

lemma add_listeners:
  assumes "\<forall>l \<in> set ls. l \<noteq> HTSN_STREAM_ALL_LISTENERS \<and> fits HTSN_MAX_STR l"
    and "length (st_listeners s) + length ls \<le> HTSN_MAX_DEVICES"
  shows "foldl add_member_row s (map (\<lambda>l. [SText ''listener'', SText l]) ls) =
    s\<lparr>st_listeners := st_listeners s @ ls\<rparr>"
  using assms
proof (induction ls arbitrary: s)
  case Nil
  then show ?case by simp
next
  case (Cons l ls)
  have "add_member_row s [SText ''listener'', SText l] = s\<lparr>st_listeners := st_listeners s @ [l]\<rparr>"
    using Cons.prems by (simp add: add_member_row_def column_text_def)
  then show ?case using Cons by simp
qed

lemma add_stream_members:
  assumes "stream_ok s" and "st_listeners s0 = []" and "\<not> st_listener_all s0"
  shows "foldl add_member_row s0 (map (\<lambda>r. map r [''role'', ''device_id'']) (map (member_row sid) (stream_members s))) =
    s0\<lparr>st_listener_all := st_listener_all s, st_listeners := st_listeners s\<rparr>"
proof -
  have f: "filter (\<lambda>l. l \<noteq> []) (st_listeners s) = st_listeners s"
    using assms(1) by (simp add: stream_ok_def filter_id_conv)
  have m: "map (\<lambda>r. map r [''role'', ''device_id'']) (map (member_row sid) ms) =
      map (\<lambda>(role, dev). [SText role, SText dev]) ms" for ms
    by (induction ms) (auto simp: member_row_def)
  let ?s1 = "if st_listener_all s then s0\<lparr>st_listener_all := True\<rparr> else s0"
  have "foldl add_member_row s0 (map (\<lambda>(role, dev). [SText role, SText dev]) (stream_members s)) =
      foldl add_member_row ?s1 (map (\<lambda>l. [SText ''listener'', SText l]) (st_listeners s))"
    by (simp add: stream_members_def f comp_def add_member_row_def column_text_def)
  also have "\<dots> = ?s1\<lparr>st_listeners := st_listeners s\<rparr>"
    using add_listeners [of "st_listeners s" ?s1] assms by (simp add: stream_ok_def)
  also have "\<dots> = s0\<lparr>st_listener_all := st_listener_all s, st_listeners := st_listeners s\<rparr>"
    using assms(3) by (cases s0) simp
  finally show ?thesis unfolding m .
qed

section \<open>Streams as a keyed store\<close>

definition read_stream :: "row \<Rightarrow> htsn_stream" where
  "read_stream r0 =
     (let r = map r0 stream_cols
      in \<lparr> st_stream_id = cpy HTSN_MAX_STR (column_text r 0), st_name = cpy HTSN_MAX_STR (column_text r 1),
           st_talker = cpy HTSN_MAX_STR (column_text r 2), st_vlan_id = column_int r 3,
           st_max_latency_ns = column_int64 r 4, st_max_interval_ns = column_int64 r 5,
           st_priority = column_int r 6, st_data_frame_prio = column_int r 7,
           st_status = int_stream_status (column_int r 8), st_comment = cpy HTSN_MAX_STR (column_text r 9),
           st_listeners = [], st_listener_all = False \<rparr>)"

lemma stream_load_ref:
  assumes "handle db = Some T"
  shows "htsn_db_tsn_load sql_run (Some i) db =
    (case keyed ''stream_id'' (SText i) (rows T ''tsn_streams'') of
       [] \<Rightarrow> Inl HTSN_ERR_NOT_FOUND
     | r # _ \<Rightarrow> Inr (foldl add_member_row (read_stream r)
         (map (\<lambda>r. map r [''role'', ''device_id'']) (keyed ''stream_id'' (SText i) (rows T ''tsn_stream_members'')))))"
proof -
  have a: "db_run sql_run (Select stream_cols ''tsn_streams'' [(''stream_id'', P 1)] Unordered None None) [SText i] db =
      Some (True, map (\<lambda>r. map r stream_cols) (keyed ''stream_id'' (SText i) (rows T ''tsn_streams'')), db)"
    by (rule db_run_select_key [OF assms]) (simp_all only: sql_prep, simp)
  have b: "db_run sql_run (Select [''role'', ''device_id''] ''tsn_stream_members'' [(''stream_id'', P 1)] Unordered None None)
      [SText i] db =
      Some (True, map (\<lambda>r. map r [''role'', ''device_id'']) (keyed ''stream_id'' (SText i) (rows T ''tsn_stream_members'')), db)"
    by (rule db_run_select_key [OF assms]) (simp_all only: sql_prep, simp)
  show ?thesis
    unfolding htsn_db_tsn_load_def option.case a b prod.case
    using assms by (simp add: closed_def read_stream_def Let_def split: list.splits)
qed

lemma stream_row_read:
  assumes "stream_ok s" and "r ''stream_id'' = SText (st_stream_id s)"
    and "\<forall>x \<in> set (tl stream_cols). r x = new_row td n (zip stream_cols (bind_stream s)) x"
  shows "read_stream r = s\<lparr>st_listeners := [], st_listener_all := False\<rparr>"
proof -
  have "int_stream_status (int32_wrap (stream_status_int (st_status s))) = st_status s"
    using assms(1) by (cases "st_status s") (simp_all add: stream_ok_def int_stream_status_def in_i32_def)
  then show ?thesis
    using assms
    by (cases s) (auto simp: read_stream_def stream_cols_def bind_stream_def new_row_def column_text_def column_int_def
        column_int64_def stream_ok_def Let_def)
qed

lemma stream_upsert_ref:
  assumes "handle db = Some T" and "stream_ok s"
  obtains T' where
    "db_run sql_run (Insert (DoUpdate [''stream_id''] (tl stream_cols)) ''tsn_streams'' stream_cols
        [P 1, P 2, P 3, P 4, P 5, P 6, P 7, P 8, P 9, P 10]) (bind_stream s) db =
      Some (True, [], db\<lparr>handle := Some T'\<rparr>)"
    and "\<And>u. u \<noteq> ''tsn_streams'' \<Longrightarrow> rows T' u = rows T u"
    and "\<And>w. w \<noteq> SText (st_stream_id s) \<Longrightarrow>
      keyed ''stream_id'' w (rows T' ''tsn_streams'') = keyed ''stream_id'' w (rows T ''tsn_streams'')"
    and "\<exists>r rs. keyed ''stream_id'' (SText (st_stream_id s)) (rows T' ''tsn_streams'') = r # rs \<and>
      read_stream r = s\<lparr>st_listeners := [], st_listener_all := False\<rparr>"
proof -
  let ?v = "SText (st_stream_id s)"
  let ?td = "(plain_table stream_cols [''stream_id'']) \<lparr>td_check := Some (''status'', [0, 1, 2, 3])\<rparr>"
  let ?st = "Insert (DoUpdate [''stream_id''] (tl stream_cols)) ''tsn_streams'' stream_cols
        [P 1, P 2, P 3, P 4, P 5, P 6, P 7, P 8, P 9, P 10]"
  let ?r = "new_row ?td (seqs T ''tsn_streams'' + 1) (zip stream_cols (bind_stream s))"
  have rk: "?r ''stream_id'' = ?v" by (simp add: new_row_def stream_cols_def bind_stream_def)
  have "?r ''status'' = SInt (stream_status_int (st_status s))"
    by (simp add: new_row_def stream_cols_def bind_stream_def)
  then have ck: "check_ok ?td ?r"
    using assms(2) by (cases "st_status s") (simp_all add: check_ok_def stream_ok_def)
  obtain T' where T': "sql_insert (DoUpdate [''stream_id''] (tl stream_cols)) ''tsn_streams'' ?td
      (zip stream_cols (bind_stream s)) T = (True, T')"
    "\<And>u. u \<noteq> ''tsn_streams'' \<Longrightarrow> rows T' u = rows T u"
    "\<And>w. w \<noteq> ?v \<Longrightarrow> keyed ''stream_id'' w (rows T' ''tsn_streams'') = keyed ''stream_id'' w (rows T ''tsn_streams'')"
    "\<exists>r' rs. keyed ''stream_id'' ?v (rows T' ''tsn_streams'') = r' # rs \<and> r' ''stream_id'' = ?v \<and>
       (\<forall>x \<in> set (tl stream_cols). r' x = ?r x)"
    by (rule sql_insert_upsert [of ?td "''stream_id''" "tl stream_cols" ?r T "''tsn_streams''"
          "zip stream_cols (bind_stream s)" ?v "[''stream_id'']"])
      (use rk ck in \<open>simp_all add: stream_cols_def fk_ok_def\<close>)
  have "sql_exec ?st ?td (bind_stream s) T = (True, [], T')"
    using T'(1) by (simp add: sql_exec_def sexp_val_def bind_stream_def)
  then have "db_run sql_run ?st (bind_stream s) db = Some (True, [], db\<lparr>handle := Some T'\<rparr>)"
    using assms(1) sql_prep schema_tables(3) by (intro db_run_ref) simp_all
  moreover have "\<exists>r rs. keyed ''stream_id'' ?v (rows T' ''tsn_streams'') = r # rs \<and>
      read_stream r = s\<lparr>st_listeners := [], st_listener_all := False\<rparr>"
    using T'(4) stream_row_read [OF assms(2)] by blast
  ultimately show thesis using T'(2,3) by (intro that [of T']) auto
qed

lemma keyed_append: "keyed k v (xs @ ys) = keyed k v xs @ keyed k v ys"
  by (simp add: keyed_def)

lemma keyed_members:
  "keyed ''stream_id'' v (map (member_row sid) ms) = (if v = SText sid then map (member_row sid) ms else [])"
  by (auto simp: keyed_def member_row_def filter_empty_conv filter_id_conv)

lemma keyed_Cons_ex: "keyed k v rs = r # rest \<Longrightarrow> list_ex (\<lambda>p. p k = v) rs"
  by (auto simp: keyed_def list_ex_iff dest!: filter_eq_ConsD)

lemma stream_save_ref:
  assumes "handle db = Some T" and "stream_ok s"
  obtains T' where "htsn_db_tsn_save sql_run (Some s) db = (HTSN_OK, db\<lparr>handle := Some T'\<rparr>)"
    and "\<And>w u. w \<noteq> SText (st_stream_id s) \<Longrightarrow> u = ''tsn_streams'' \<or> u = ''tsn_stream_members'' \<Longrightarrow>
      keyed ''stream_id'' w (rows T' u) = keyed ''stream_id'' w (rows T u)"
    and "htsn_db_tsn_load sql_run (Some (st_stream_id s)) (db\<lparr>handle := Some T'\<rparr>) = Inr s"
proof -
  let ?i = "st_stream_id s"
  obtain T1 r rs where T1: "db_run sql_run (Insert (DoUpdate [''stream_id''] (tl stream_cols)) ''tsn_streams'' stream_cols
        [P 1, P 2, P 3, P 4, P 5, P 6, P 7, P 8, P 9, P 10]) (bind_stream s) db =
      Some (True, [], db\<lparr>handle := Some T1\<rparr>)"
    "\<And>u. u \<noteq> ''tsn_streams'' \<Longrightarrow> rows T1 u = rows T u"
    "\<And>w. w \<noteq> SText ?i \<Longrightarrow>
      keyed ''stream_id'' w (rows T1 ''tsn_streams'') = keyed ''stream_id'' w (rows T ''tsn_streams'')"
    "keyed ''stream_id'' (SText ?i) (rows T1 ''tsn_streams'') = r # rs"
    "read_stream r = s\<lparr>st_listeners := [], st_listener_all := False\<rparr>"
    by (rule stream_upsert_ref [OF assms]) blast
  let ?kept = "filter (\<lambda>r. \<not> r ''stream_id'' = SText ?i) (rows T1 ''tsn_stream_members'')"
  let ?T2 = "put_rows ''tsn_stream_members'' ?kept T1"
  have del: "db_run sql_run (Delete ''tsn_stream_members'' [(''stream_id'', P 1)]) [SText ?i] (db\<lparr>handle := Some T1\<rparr>) =
      Some (True, [], db\<lparr>handle := Some ?T2\<rparr>)"
  proof -
    have "row_where [SText ?i] [(''stream_id'', P 1)] = (\<lambda>r. r ''stream_id'' = SText ?i)"
      by (intro ext) (auto simp: row_where_def sexp_val_def)
    then show ?thesis
      using db_run_ref [of "db\<lparr>handle := Some T1\<rparr>" T1 "Delete ''tsn_stream_members'' [(''stream_id'', P 1)]" _
          "[SText ?i]"] sql_prep schema_tables(4)
      by (simp add: sql_exec_def delete_rows_def)
  qed
  have ex: "list_ex (\<lambda>p. p ''stream_id'' = SText ?i) (rows ?T2 ''tsn_streams'')"
    using keyed_Cons_ex [OF T1(4)] by simp
  let ?T3 = "put_rows ''tsn_stream_members'' (rows ?T2 ''tsn_stream_members'' @ map (member_row ?i) (stream_members s)) ?T2"
  have hd: "stream_members s = (''talker'', st_talker s) # tl (stream_members s)" by (simp add: stream_members_def)
  let ?U = "put_rows ''tsn_stream_members'' (rows ?T2 ''tsn_stream_members'' @ [member_row ?i (''talker'', st_talker s)]) ?T2"
  have fst_ins: "db_run sql_run member_insert [SText ?i, SText ''talker'', SText (st_talker s)] (db\<lparr>handle := Some ?T2\<rparr>) =
      Some (True, [], db\<lparr>handle := Some ?U\<rparr>)"
    using member_insert_ref [of "db\<lparr>handle := Some ?T2\<rparr>" ?T2 ?i] ex by simp
  have "foldl (\<lambda>b (role, dev). db_exec sql_run member_insert [SText ?i, SText role, SText dev] b)
      (db\<lparr>handle := Some ?U\<rparr>) (tl (stream_members s)) = db\<lparr>handle := Some ?T3\<rparr>"
    using member_inserts_ref [of ?i ?U db "tl (stream_members s)"] ex
    by (subst hd) (simp add: put_rows_def)
  then have save: "htsn_db_tsn_save sql_run (Some s) db = (HTSN_OK, db\<lparr>handle := Some ?T3\<rparr>)"
    unfolding htsn_db_tsn_save_def option.case T1(1) prod.case del fst_ins
    using assms(1) by (simp add: closed_def)
  have km: "keyed ''stream_id'' w (rows ?T3 ''tsn_stream_members'') =
      (if w = SText ?i then map (member_row ?i) (stream_members s) else keyed ''stream_id'' w (rows T ''tsn_stream_members''))" for w
    by (simp add: keyed_append keyed_members keyed_filter_key T1(2))
  have "htsn_db_tsn_load sql_run (Some ?i) (db\<lparr>handle := Some ?T3\<rparr>) =
      Inr (foldl add_member_row (read_stream r)
        (map (\<lambda>r. map r [''role'', ''device_id'']) (map (member_row ?i) (stream_members s))))"
    by (subst stream_load_ref [of _ ?T3], simp, unfold km) (simp add: T1(4))
  also have "\<dots> = Inr s"
    unfolding T1(5) using add_stream_members [OF assms(2), of "s\<lparr>st_listeners := [], st_listener_all := False\<rparr>" ?i]
    by (cases s) simp
  finally show thesis
    using save km T1(2,3) by (intro that [of ?T3]) auto
qed


lemma keyed_cascade:
  "keyed k w (filter (\<lambda>r. \<not> list_ex (\<lambda>d. d k = r k) (filter (\<lambda>r. r k = v) xs)) rs) =
     (if w = v \<and> keyed k v xs \<noteq> [] then [] else keyed k w rs)"
  by (auto simp: keyed_def list_ex_iff filter_empty_conv intro!: filter_cong)

lemma stream_delete_ref:
  assumes "handle db = Some T"
  obtains T' where "htsn_db_tsn_delete sql_run (Some i) db = (HTSN_OK, db\<lparr>handle := Some T'\<rparr>)"
    and "\<And>w. keyed ''stream_id'' w (rows T' ''tsn_streams'') =
      (if w = SText i then [] else keyed ''stream_id'' w (rows T ''tsn_streams''))"
    and "\<And>w. w \<noteq> SText i \<Longrightarrow>
      keyed ''stream_id'' w (rows T' ''tsn_stream_members'') = keyed ''stream_id'' w (rows T ''tsn_stream_members'')"
proof -
  let ?T1 = "delete_rows ''tsn_streams'' (\<lambda>r. r ''stream_id'' = SText i) T"
  let ?T2 = "delete_rows ''tsn_stream_members'' (\<lambda>r. r ''stream_id'' = SText i) ?T1"
  have "db_do sql_run (Delete ''tsn_streams'' [(''stream_id'', P 1)]) [SText i] db = (HTSN_OK, db\<lparr>handle := Some ?T1\<rparr>)"
    using assms sql_prep by (intro delete_key_ref) simp_all
  then obtain d rs where "db_run sql_run (Delete ''tsn_streams'' [(''stream_id'', P 1)]) [SText i] db =
      Some (d, rs, db\<lparr>handle := Some ?T1\<rparr>)"
    by (auto simp: db_do_def split: option.splits)
  moreover have "db_do sql_run (Delete ''tsn_stream_members'' [(''stream_id'', P 1)]) [SText i] (db\<lparr>handle := Some ?T1\<rparr>) =
      (HTSN_OK, db\<lparr>handle := Some ?T2\<rparr>)"
    using delete_key_ref [of "db\<lparr>handle := Some ?T1\<rparr>" ?T1 "''tsn_stream_members''" "''stream_id''" "SText i"] sql_prep
    by simp
  ultimately have "htsn_db_tsn_delete sql_run (Some i) db = (HTSN_OK, db\<lparr>handle := Some ?T2\<rparr>)"
    using assms by (simp add: htsn_db_tsn_delete_def closed_def)
  moreover have "keyed ''stream_id'' w (rows ?T2 ''tsn_streams'') =
      (if w = SText i then [] else keyed ''stream_id'' w (rows T ''tsn_streams''))" for w
    by (simp add: delete_rows_def cascade_streams_same keyed_filter_key)
  moreover have "keyed ''stream_id'' w (rows ?T2 ''tsn_stream_members'') = keyed ''stream_id'' w (rows T ''tsn_stream_members'')"
    if "w \<noteq> SText i" for w
    using that by (simp add: delete_rows_def cascade_streams_members keyed_filter_key keyed_cascade del: filter_filter)
  ultimately show thesis by (intro that [of ?T2]) auto
qed

interpretation stream_ref: kv_store
  "\<lambda>s. htsn_db_tsn_save sql_run (Some s)" "\<lambda>k. htsn_db_tsn_load sql_run (Some k)"
  "\<lambda>k. htsn_db_tsn_delete sql_run (Some k)" st_stream_id stream_ok "\<lambda>db. \<not> closed db"
proof (unfold_locales, goal_cases)
  case (1 s v)
  then obtain T where "handle s = Some T" by (auto simp: closed_def)
  from this 1(2) show ?case by (rule stream_save_ref) simp
next
  case (2 s v)
  then obtain T where "handle s = Some T" by (auto simp: closed_def)
  from this 2(2) show ?case by (rule stream_save_ref) (simp add: closed_def)
next
  case (3 s v)
  then obtain T where "handle s = Some T" by (auto simp: closed_def)
  from this 3(2) show ?case by (rule stream_save_ref) simp
next
  case (4 s v k)
  then obtain T where T: "handle s = Some T" by (auto simp: closed_def)
  from T 4(2) show ?case by (rule stream_save_ref) (use T 4(3) in \<open>simp add: stream_load_ref split: list.split\<close>)
next
  case (5 s k)
  then obtain T where "handle s = Some T" by (auto simp: closed_def)
  then show ?case by (rule stream_delete_ref [where i = k]) simp
next
  case (6 s k)
  then obtain T where "handle s = Some T" by (auto simp: closed_def)
  then show ?case by (rule stream_delete_ref [where i = k]) (simp add: closed_def)
next
  case (7 s k)
  then obtain T where T: "handle s = Some T" by (auto simp: closed_def)
  then show ?case by (rule stream_delete_ref [where i = k]) (simp add: stream_load_ref)
next
  case (8 s k k')
  then obtain T where T: "handle s = Some T" by (auto simp: closed_def)
  then show ?case by (rule stream_delete_ref [where i = k']) (use T 8(2) in \<open>simp add: stream_load_ref split: list.split\<close>)
qed


context sqlite
begin

lemma stream_save_abs [abs_simps]:
  "htsn_db_tsn_save sql_run s (dbabs tabs db) = map_prod (\<lambda>e. e) (dbabs tabs) (htsn_db_tsn_save E s db)"
proof -
  have f: "foldl (\<lambda>b (role, dev). db_exec sql_run member_insert [SText i, SText role, SText dev] b) (dbabs tabs x) ms =
      dbabs tabs (foldl (\<lambda>b (role, dev). db_exec E member_insert [SText i, SText role, SText dev] b) x ms)" for i x ms
    by (induction ms arbitrary: x) (auto simp: db_exec_abs)
  show ?thesis
    by (simp add: htsn_db_tsn_save_def closed_abs db_run_abs f split: option.splits prod.splits)
qed

lemma stream_load_abs [abs_simps]: "htsn_db_tsn_load sql_run k (dbabs tabs db) = htsn_db_tsn_load E k db"
  by (simp add: htsn_db_tsn_load_def closed_abs db_run_abs Let_def split: option.splits prod.splits list.splits)

lemma stream_delete_abs [abs_simps]:
  "htsn_db_tsn_delete sql_run k (dbabs tabs db) = map_prod (\<lambda>e. e) (dbabs tabs) (htsn_db_tsn_delete E k db)"
  by (simp add: htsn_db_tsn_delete_def closed_abs db_run_abs db_do_abs split: option.splits prod.splits)

lemma tas_load_abs [abs_simps]: "htsn_db_tas_load sql_run k (dbabs tabs db) = htsn_db_tas_load E k db"
  by (simp add: htsn_db_tas_load_def closed_abs db_run_abs split: option.splits prod.splits list.splits)

lemma timesync_save_abs [abs_simps]:
  "htsn_db_timesync_save sql_run s (dbabs tabs db) = map_prod (\<lambda>e. e) (dbabs tabs) (htsn_db_timesync_save E s db)"
  by (simp add: htsn_db_timesync_save_def closed_abs db_step_abs split: option.splits)

lemma timesync_load_abs [abs_simps]: "htsn_db_timesync_load sql_run (dbabs tabs db) = htsn_db_timesync_load E db"
  by (simp add: htsn_db_timesync_load_def closed_abs db_run_abs split: option.splits prod.splits list.splits)

lemma unprepared: "\<not> sql_prepares st \<Longrightarrow> db_run E st ps db = None"
  using db_run_abs [of st ps db] by (simp add: db_run_unprepared)

end

sublocale sqlite \<subseteq> stream_store: kv_store
  "\<lambda>s. htsn_db_tsn_save E (Some s)" "\<lambda>k. htsn_db_tsn_load E (Some k)"
  "\<lambda>k. htsn_db_tsn_delete E (Some k)" st_stream_id stream_ok "\<lambda>db. \<not> closed db"
  by (rule kv_store_abs [OF stream_ref.kv_store_axioms, where A = "dbabs tabs"]) (simp_all add: abs_simps)

context sqlite
begin

lemmas stream_history = stream_store.history_load

end



section \<open>Statements that never prepare\<close>

lemma sql_unprepared:
  "\<not> sql_prepares (Select [''gate_state'', ''duration_ns''] ''gcl_entries'' [(''schedule_id'', P 1)] (Asc ''index'') None None)"
  "\<not> sql_prepares (Insert (DoUpdate [''id''] [''mode'', ''grandmaster'', ''offset_ns'', ''quality'', ''jitter_ns''])
      ''timesync_status'' [''id'', ''mode'', ''grandmaster'', ''offset_ns'', ''quality'', ''jitter_ns'']
      [L (SText ''global''), P 1, P 2, P 3, P 4, P 5])"
  "\<not> sql_prepares (Select [''mode'', ''grandmaster'', ''offset_ns'', ''quality'', ''jitter_ns''] ''timesync_status''
      [(''id'', L (SText ''global''))] Unordered None None)"
  by code_simp+

text \<open>
  A schedule can be saved but never loaded: the queries on \<open>gcl_entries\<close> name its
  column \<open>index\<close> without quotes, a reserved word, so for every engine that keeps the SQLite contract
  \<open>htsn_db_tas_load\<close> fails for every identifier on every database.
\<close>

theorem tas_never_loads:
  assumes "sqlite E tabs"
  shows "\<exists>e. htsn_db_tas_load E k db = Inl e \<and> e \<in> {HTSN_ERR_INVALID_ARG, HTSN_ERR_DB, HTSN_ERR_NOT_FOUND}"
  using sqlite.unprepared [OF assms sql_unprepared(1)]
  by (auto simp: htsn_db_tas_load_def split: option.splits list.splits)

theorem tas_never_loads_witness:
  "\<exists>e. htsn_db_tas_load sql_run (Some ''t'') (snd (htsn_db_tas_save sql_run (Some \<lparr>sch_id = ''t'', sch_name = ''n'',
     sch_cycle_time_ns = 100, sch_deploy_target = [], sch_entries = [\<lparr>gate_state = 1, duration_ns = 100\<rparr>]\<rparr>) empty_db)) = Inl e"
  using tas_never_loads [OF sql_ref.sqlite_axioms] by blast

text \<open>
  The synchronisation status is never persisted: \<open>htsn_db_timesync_save\<close> and
  \<open>htsn_db_timesync_load\<close> name a column \<open>jitter_ns\<close> that the schema does not have, so for every engine that
  keeps the SQLite contract and every open database both return \<open>HTSN_ERR_DB\<close> and the database is unchanged.
\<close>

theorem timesync_never_persists:
  assumes "sqlite E tabs" and "\<not> closed db"
  shows "htsn_db_timesync_save E (Some s) db = (HTSN_ERR_DB, db) \<and> htsn_db_timesync_load E db = Inl HTSN_ERR_DB"
  using sqlite.unprepared [OF assms(1) sql_unprepared(2)] sqlite.unprepared [OF assms(1) sql_unprepared(3)] assms(2)
  by (simp add: htsn_db_timesync_save_def htsn_db_timesync_load_def db_step_def)

theorem timesync_never_persists_witness:
  "htsn_db_timesync_save sql_run (Some timesync_zero) empty_db = (HTSN_ERR_DB, empty_db)"
  using timesync_never_persists [OF sql_ref.sqlite_axioms, of empty_db timesync_zero]
  by (simp add: closed_def empty_db_def)

end
