(* ===== verification/Mqtt.thy ===== *)
theory Mqtt
  imports Event_Bus Db_Streams
begin

text \<open>
  The MQTT client (src/src/mqtt/mqtt_client.c) and the field exchange channel on top of it
  (src/src/fxmqtt/fxmqtt.c). The mosquitto library is not part of the repository: its calls are
  values of \<open>mosq_call\<close>, kept in the order they are made in \<open>mc_calls\<close>, and the parameter
  \<open>Q\<close> says which of them succeed, as a function of the calls made before. \<open>world\<close> is what the managers of
  the control plane share: the database, the event bus and the MQTT client. The lemmas show that the
  library is only called with a handle it returned, and what a publication sends.
\<close>

section \<open>The client\<close>

datatype mosq_call =
    MNew string
  | MUsername string "string option"
  | MConnect string int int
  | MDisconnect
  | MSubscribe string
  | MPublish string string
  | MLoopStart
  | MLoopStop
  | MDestroy

type_synonym mosquitto = "mosq_call list \<Rightarrow> mosq_call \<Rightarrow> bool"

text \<open>\<open>mc_client\<close>: the handle is not null. A message callback and its user data are opaque handles.\<close>

record htsn_mqtt_client =
  mc_client :: bool
  mc_calls :: "mosq_call list"
  mc_msg_cb :: "nat option"
  mc_msg_ud :: nat
  mc_host :: string
  mc_port :: int
  mc_connected :: bool

definition mosq :: "mosquitto \<Rightarrow> mosq_call \<Rightarrow> htsn_mqtt_client \<Rightarrow> bool \<times> htsn_mqtt_client" where
  "mosq Q call c = (Q (mc_calls c) call, c\<lparr>mc_calls := mc_calls c @ [call]\<rparr>)"

definition htsn_mqtt_client_create :: htsn_mqtt_client where
  "htsn_mqtt_client_create = \<lparr>mc_client = False, mc_calls = [], mc_msg_cb = None, mc_msg_ud = 0,
     mc_host = [], mc_port = 0, mc_connected = False\<rparr>"

definition htsn_mqtt_client_connect ::
  "mosquitto \<Rightarrow> string option \<Rightarrow> int \<Rightarrow> string option \<Rightarrow> string option \<Rightarrow> string option \<Rightarrow>
     htsn_mqtt_client option \<Rightarrow> htsn_error \<times> htsn_mqtt_client option" where
  "htsn_mqtt_client_connect Q hosto port client_id username password co =
     (case (co, hosto) of
        (Some c, Some host) \<Rightarrow>
          if port \<le> 0 then (HTSN_ERR_INVALID_ARG, co)
          else if mc_client c then (HTSN_ERR_BUSY, co)
          else
            (let (made, c1) = mosq Q (MNew (case client_id of Some i \<Rightarrow> i | None \<Rightarrow> ''htsn-configurator'')) c
             in if \<not> made then (HTSN_ERR_NO_MEMORY, Some c1)
                else
                  (let c2 = c1\<lparr>mc_client := True\<rparr>;
                       c3 = (case username of Some u \<Rightarrow> snd (mosq Q (MUsername u password) c2) | None \<Rightarrow> c2);
                       c4 = c3\<lparr>mc_host := cpy 128 (Some host), mc_port := port\<rparr>;
                       (sent, c5) = mosq Q (MConnect host port 30) c4
                   in if sent then (HTSN_OK, Some c5) else (HTSN_ERR_NET, Some c5)))
      | _ \<Rightarrow> (HTSN_ERR_INVALID_ARG, co))"

definition htsn_mqtt_client_disconnect :: "mosquitto \<Rightarrow> htsn_mqtt_client option \<Rightarrow> htsn_mqtt_client option" where
  "htsn_mqtt_client_disconnect Q co =
     (case co of Some c \<Rightarrow> if mc_client c then Some (snd (mosq Q MDisconnect c)) else co | None \<Rightarrow> None)"

definition htsn_mqtt_client_subscribe ::
  "mosquitto \<Rightarrow> string option \<Rightarrow> htsn_mqtt_client option \<Rightarrow> htsn_error \<times> htsn_mqtt_client option" where
  "htsn_mqtt_client_subscribe Q topic co =
     (case (co, topic) of
        (Some c, Some t) \<Rightarrow>
          if \<not> mc_client c then (HTSN_ERR_INVALID_ARG, co)
          else (let (r, c') = mosq Q (MSubscribe t) c in (if r then HTSN_OK else HTSN_ERR_NET, Some c'))
      | _ \<Rightarrow> (HTSN_ERR_INVALID_ARG, co))"

definition htsn_mqtt_client_publish ::
  "mosquitto \<Rightarrow> string option \<Rightarrow> string \<Rightarrow> htsn_mqtt_client option \<Rightarrow> htsn_error \<times> htsn_mqtt_client option" where
  "htsn_mqtt_client_publish Q topic payload co =
     (case (co, topic) of
        (Some c, Some t) \<Rightarrow>
          if \<not> mc_client c then (HTSN_ERR_INVALID_ARG, co)
          else (let (r, c') = mosq Q (MPublish t payload) c in (if r then HTSN_OK else HTSN_ERR_NET, Some c'))
      | _ \<Rightarrow> (HTSN_ERR_INVALID_ARG, co))"

definition htsn_mqtt_client_set_message_cb ::
  "nat option \<Rightarrow> nat \<Rightarrow> htsn_mqtt_client option \<Rightarrow> htsn_mqtt_client option" where
  "htsn_mqtt_client_set_message_cb cb ud co = map_option (\<lambda>c. c\<lparr>mc_msg_cb := cb, mc_msg_ud := ud\<rparr>) co"

definition htsn_mqtt_client_loop_start :: "mosquitto \<Rightarrow> htsn_mqtt_client option \<Rightarrow> htsn_mqtt_client option" where
  "htsn_mqtt_client_loop_start Q co =
     (case co of Some c \<Rightarrow> if mc_client c then Some (snd (mosq Q MLoopStart c)) else co | None \<Rightarrow> None)"

definition htsn_mqtt_client_loop_stop :: "mosquitto \<Rightarrow> htsn_mqtt_client option \<Rightarrow> htsn_mqtt_client option" where
  "htsn_mqtt_client_loop_stop Q co =
     (case co of Some c \<Rightarrow> if mc_client c then Some (snd (mosq Q MLoopStop c)) else co | None \<Rightarrow> None)"

text \<open>Destroying frees the client; what remains are the calls it made.\<close>

definition htsn_mqtt_client_destroy :: "mosquitto \<Rightarrow> htsn_mqtt_client option \<Rightarrow> mosq_call list" where
  "htsn_mqtt_client_destroy Q co =
     (case co of
        None \<Rightarrow> []
      | Some c \<Rightarrow>
          if mc_client c
          then (case htsn_mqtt_client_loop_stop Q co of Some c' \<Rightarrow> mc_calls (snd (mosq Q MDestroy c')) | None \<Rightarrow> [])
          else mc_calls c)"

text \<open>The callbacks mosquitto invokes; \<open>bus\<close> is the bus of the client. A message callback of the
  application is invoked with the topic and the payload, reported as the second result.\<close>

definition on_connect ::
  "int \<Rightarrow> htsn_mqtt_client \<Rightarrow> htsn_event_bus option \<Rightarrow> htsn_mqtt_client \<times> htsn_event_bus option" where
  "on_connect rc c bus =
     (if rc = 0 then (c\<lparr>mc_connected := True\<rparr>, htsn_event_bus_publish bus (Some ''mqtt.connected'') EvNone)
      else (c\<lparr>mc_connected := False\<rparr>, bus))"

definition on_message ::
  "string option \<Rightarrow> string option \<Rightarrow> htsn_mqtt_client \<Rightarrow> htsn_event_bus option \<Rightarrow>
     (nat \<times> string \<times> string \<times> nat) list \<times> htsn_event_bus option" where
  "on_message topic payload c bus =
     (let t = (case topic of Some t \<Rightarrow> t | None \<Rightarrow> []); p = (case payload of Some p \<Rightarrow> p | None \<Rightarrow> [])
      in (case mc_msg_cb c of Some cb \<Rightarrow> [(cb, t, p, mc_msg_ud c)] | None \<Rightarrow> [],
          htsn_event_bus_publish bus (Some ''mqtt.message'') (EvText t)))"

definition on_disconnect ::
  "htsn_mqtt_client \<Rightarrow> htsn_event_bus option \<Rightarrow> htsn_mqtt_client \<times> htsn_event_bus option" where
  "on_disconnect c bus =
     (c\<lparr>mc_connected := False\<rparr>, htsn_event_bus_publish bus (Some ''mqtt.disconnected'') EvNone)"

section \<open>Field exchange over MQTT\<close>

datatype htsn_fxmqtt_server_type = HTSN_FXMQTT_SERVER_NONE | HTSN_FXMQTT_SERVER_PC | HTSN_FXMQTT_SERVER_NODE

definition HTSN_FXMQTT_TOPIC_FIELD :: string where "HTSN_FXMQTT_TOPIC_FIELD = ''tsn/fx/field''"
definition HTSN_FXMQTT_TOPIC_DATA :: string where "HTSN_FXMQTT_TOPIC_DATA = ''tsn/fx/data''"
definition HTSN_FXMQTT_TOPIC_NODE :: string where "HTSN_FXMQTT_TOPIC_NODE = ''tsn/fx/node''"

text \<open>\<open>fx_mqtt\<close>: the pointer to the client is set; the client itself is passed along.\<close>

record htsn_fxmqtt =
  fx_device_id :: string
  fx_server_type :: htsn_fxmqtt_server_type
  fx_broker_host :: string
  fx_broker_port :: int
  fx_started :: bool
  fx_mqtt :: bool

definition htsn_fxmqtt_create :: htsn_fxmqtt where
  "htsn_fxmqtt_create = \<lparr>fx_device_id = [], fx_server_type = HTSN_FXMQTT_SERVER_PC,
     fx_broker_host = cpy HTSN_MAX_STR (Some ''127.0.0.1''), fx_broker_port = 1883,
     fx_started = False, fx_mqtt = False\<rparr>"

definition htsn_fxmqtt_configure :: "htsn_fxmqtt option \<Rightarrow> htsn_fxmqtt \<Rightarrow> htsn_error \<times> htsn_fxmqtt" where
  "htsn_fxmqtt_configure cfgo f =
     (case cfgo of
        None \<Rightarrow> (HTSN_ERR_INVALID_ARG, f)
      | Some cfg \<Rightarrow>
          (HTSN_OK, f\<lparr>fx_device_id := cpy HTSN_MAX_STR (Some (fx_device_id cfg)),
             fx_server_type := fx_server_type cfg,
             fx_broker_host := cpy HTSN_MAX_STR (Some (if fx_broker_host cfg \<noteq> [] then fx_broker_host cfg else ''127.0.0.1'')),
             fx_broker_port := (if fx_broker_port cfg > 0 then fx_broker_port cfg else 1883)\<rparr>))"

definition htsn_fxmqtt_start ::
  "mosquitto \<Rightarrow> htsn_fxmqtt \<Rightarrow> htsn_mqtt_client option \<Rightarrow> htsn_error \<times> htsn_fxmqtt \<times> htsn_mqtt_client option" where
  "htsn_fxmqtt_start Q f co =
     (case co of
        None \<Rightarrow> (HTSN_ERR_INVALID_ARG, f, co)
      | Some _ \<Rightarrow>
          (let c1 = snd (htsn_mqtt_client_subscribe Q (Some HTSN_FXMQTT_TOPIC_FIELD) co);
               c2 = snd (htsn_mqtt_client_subscribe Q (Some HTSN_FXMQTT_TOPIC_DATA) c1);
               c3 = snd (htsn_mqtt_client_subscribe Q (Some HTSN_FXMQTT_TOPIC_NODE) c2)
           in (HTSN_OK, f\<lparr>fx_mqtt := True, fx_started := True\<rparr>, c3)))"

definition htsn_fxmqtt_field_publish_ex ::
  "mosquitto \<Rightarrow> htsn_fxmqtt \<Rightarrow> string option \<Rightarrow> string option \<Rightarrow> htsn_mqtt_client option \<Rightarrow>
     htsn_error \<times> htsn_mqtt_client option" where
  "htsn_fxmqtt_field_publish_ex Q f topic payloado co =
     (if \<not> fx_mqtt f \<or> \<not> fx_started f then (HTSN_ERR_NOT_READY, co)
      else
        (case payloado of
           None \<Rightarrow> (HTSN_ERR_INVALID_ARG, co)
         | Some payload \<Rightarrow>
             (let t = (case topic of Some t \<Rightarrow> if t \<noteq> [] then t else HTSN_FXMQTT_TOPIC_FIELD
                                   | None \<Rightarrow> HTSN_FXMQTT_TOPIC_FIELD);
                  (e, c') = htsn_mqtt_client_publish Q (Some t) payload co
              in (if e = HTSN_OK then HTSN_OK else HTSN_ERR_NET, c'))))"

definition htsn_fxmqtt_field_publish ::
  "mosquitto \<Rightarrow> htsn_fxmqtt \<Rightarrow> string option \<Rightarrow> htsn_mqtt_client option \<Rightarrow> htsn_error \<times> htsn_mqtt_client option" where
  "htsn_fxmqtt_field_publish Q f payload co =
     htsn_fxmqtt_field_publish_ex Q f (Some HTSN_FXMQTT_TOPIC_FIELD) payload co"

definition htsn_fxmqtt_send_c2c ::
  "mosquitto \<Rightarrow> htsn_fxmqtt \<Rightarrow> string option \<Rightarrow> string option \<Rightarrow> htsn_mqtt_client option \<Rightarrow>
     htsn_error \<times> htsn_mqtt_client option" where
  "htsn_fxmqtt_send_c2c Q f topic payload co = htsn_fxmqtt_field_publish_ex Q f topic payload co"

section \<open>What the managers share\<close>

record 'h world =
  w_db :: "'h htsn_db"
  w_bus :: "htsn_event_bus option"
  w_mqtt :: "htsn_mqtt_client option"

definition w_notify :: "string \<Rightarrow> string \<Rightarrow> ev_data \<Rightarrow> 'h world \<Rightarrow> 'h world" where
  "w_notify model event data w = w\<lparr>w_bus := htsn_model_notify_data model (Some event) data (w_bus w)\<rparr>"

text \<open>An operation of the database whose result the manager ignores.\<close>

definition w_with_db :: "('h htsn_db \<Rightarrow> htsn_error \<times> 'h htsn_db) \<Rightarrow> 'h world \<Rightarrow> 'h world" where
  "w_with_db f w = w\<lparr>w_db := snd (f (w_db w))\<rparr>"

section \<open>Library calls and handles\<close>

datatype mqtt_op =
    Op_connect "string option" int "string option" "string option" "string option"
  | Op_disconnect
  | Op_subscribe "string option"
  | Op_publish "string option" string
  | Op_set_cb "nat option" nat
  | Op_loop_start
  | Op_loop_stop

fun mqtt_apply :: "mosquitto \<Rightarrow> htsn_mqtt_client option \<Rightarrow> mqtt_op \<Rightarrow> htsn_mqtt_client option" where
  "mqtt_apply Q c (Op_connect h p i u w) = snd (htsn_mqtt_client_connect Q h p i u w c)"
| "mqtt_apply Q c Op_disconnect = htsn_mqtt_client_disconnect Q c"
| "mqtt_apply Q c (Op_subscribe t) = snd (htsn_mqtt_client_subscribe Q t c)"
| "mqtt_apply Q c (Op_publish t p) = snd (htsn_mqtt_client_publish Q t p c)"
| "mqtt_apply Q c (Op_set_cb cb ud) = htsn_mqtt_client_set_message_cb cb ud c"
| "mqtt_apply Q c Op_loop_start = htsn_mqtt_client_loop_start Q c"
| "mqtt_apply Q c Op_loop_stop = htsn_mqtt_client_loop_stop Q c"

fun is_new :: "mosq_call \<Rightarrow> bool" where
  "is_new (MNew _) = True"
| "is_new _ = False"

text \<open>The \<open>j\<close>th call of a log created a handle.\<close>

definition made_at :: "mosquitto \<Rightarrow> mosq_call list \<Rightarrow> nat \<Rightarrow> bool" where
  "made_at Q cs j \<longleftrightarrow> j < length cs \<and> is_new (cs ! j) \<and> Q (take j cs) (cs ! j)"

lemma made_at_snoc: "made_at Q (cs @ [x]) j \<longleftrightarrow> made_at Q cs j \<or> (j = length cs \<and> is_new x \<and> Q cs x)"
  by (auto simp: made_at_def nth_append)

definition log_ok :: "mosquitto \<Rightarrow> mosq_call list \<Rightarrow> bool" where
  "log_ok Q cs \<longleftrightarrow> (\<forall>i < length cs. is_new (cs ! i) \<or> (\<exists>j < i. made_at Q cs j)) \<and>
     (\<forall>j k. made_at Q cs j \<longrightarrow> made_at Q cs k \<longrightarrow> j = k)"

definition client_inv :: "mosquitto \<Rightarrow> htsn_mqtt_client \<Rightarrow> bool" where
  "client_inv Q c \<longleftrightarrow> log_ok Q (mc_calls c) \<and> (mc_client c \<longleftrightarrow> (\<exists>j. made_at Q (mc_calls c) j))"

lemma made_at_less: "made_at Q cs j \<Longrightarrow> j < length cs"
  by (simp add: made_at_def)

lemma log_ok_use:
  assumes "log_ok Q cs" and "\<exists>j. made_at Q cs j" and "\<not> is_new x"
  shows "log_ok Q (cs @ [x])"
  using assms by (auto simp: log_ok_def made_at_snoc nth_append less_Suc_eq dest: made_at_less)

lemma log_ok_new:
  assumes "log_ok Q cs" and "\<not> (\<exists>j. made_at Q cs j)" and "is_new x"
  shows "log_ok Q (cs @ [x])"
  using assms by (auto simp: log_ok_def made_at_snoc nth_append less_Suc_eq)

lemma mosq_use_inv:
  "client_inv Q c \<Longrightarrow> mc_client c \<Longrightarrow> \<not> is_new x \<Longrightarrow> client_inv Q (snd (mosq Q x c)) \<and> mc_client (snd (mosq Q x c))"
  by (auto simp: client_inv_def mosq_def made_at_snoc intro: log_ok_use)

lemma mosq_new_inv:
  assumes "client_inv Q c" and "\<not> mc_client c"
  shows "client_inv Q ((snd (mosq Q (MNew n) c))\<lparr>mc_client := fst (mosq Q (MNew n) c)\<rparr>)"
  using assms by (auto simp: client_inv_def mosq_def made_at_snoc intro: log_ok_new)

lemma client_inv_fields [simp]:
  "client_inv Q (c\<lparr>mc_host := h\<rparr>) = client_inv Q c" "client_inv Q (c\<lparr>mc_port := p\<rparr>) = client_inv Q c"
  "client_inv Q (c\<lparr>mc_msg_cb := cb\<rparr>) = client_inv Q c" "client_inv Q (c\<lparr>mc_msg_ud := ud\<rparr>) = client_inv Q c"
  by (simp_all add: client_inv_def)

lemma connect_inv:
  assumes "client_inv Q c"
  shows "\<exists>c'. snd (htsn_mqtt_client_connect Q h p i u w (Some c)) = Some c' \<and> client_inv Q c'"
proof (cases "h = None \<or> p \<le> 0 \<or> mc_client c")
  case True
  then show ?thesis using assms by (auto simp: htsn_mqtt_client_connect_def split: option.splits)
next
  case False
  then obtain host where h: "h = Some host" "\<not> p \<le> 0" "\<not> mc_client c" by auto
  let ?new = "MNew (case i of Some i \<Rightarrow> i | None \<Rightarrow> ''htsn-configurator'')"
  obtain made c1 where m: "mosq Q ?new c = (made, c1)" by fastforce
  have n: "client_inv Q (c1\<lparr>mc_client := made\<rparr>)" using mosq_new_inv [OF assms h(3)] m by (metis fst_conv snd_conv)
  show ?thesis
  proof (cases made)
    case False
    have "\<not> mc_client c1" using m h(3) by (auto simp: mosq_def)
    then have "c1\<lparr>mc_client := made\<rparr> = c1" using False by (cases c1) simp
    with n have "client_inv Q c1" by simp
    then show ?thesis using h m False by (simp add: htsn_mqtt_client_connect_def)
  next
    case True
    let ?c2 = "c1\<lparr>mc_client := True\<rparr>"
    let ?c3 = "case u of Some u \<Rightarrow> snd (mosq Q (MUsername u w) ?c2) | None \<Rightarrow> ?c2"
    have "client_inv Q ?c3 \<and> mc_client ?c3" using n True by (auto simp: mosq_use_inv split: option.split)
    then have "client_inv Q (snd (mosq Q (MConnect host p 30) (?c3\<lparr>mc_host := cpy 128 (Some host), mc_port := p\<rparr>)))"
      by (auto intro: conjunct1 [OF mosq_use_inv])
    then show ?thesis using h m True
      by (auto simp: htsn_mqtt_client_connect_def Let_def split: prod.splits)
  qed
qed

lemma mqtt_apply_inv:
  assumes "client_inv Q c"
  shows "\<exists>c'. mqtt_apply Q (Some c) x = Some c' \<and> client_inv Q c'"
proof (cases "\<exists>h p i u w. x = Op_connect h p i u w")
  case True
  then show ?thesis using connect_inv [OF assms] by auto
next
  case False
  then show ?thesis
    using assms mosq_use_inv [OF assms]
    by (cases x)
      (auto simp: htsn_mqtt_client_disconnect_def htsn_mqtt_client_subscribe_def htsn_mqtt_client_publish_def
        htsn_mqtt_client_set_message_cb_def htsn_mqtt_client_loop_start_def htsn_mqtt_client_loop_stop_def
        split_beta split: option.splits)
qed

lemma mqtt_history_inv: "client_inv Q c \<Longrightarrow> \<exists>c'. foldl (mqtt_apply Q) (Some c) xs = Some c' \<and> client_inv Q c'"
proof (induction xs arbitrary: c)
  case (Cons x xs)
  from mqtt_apply_inv [OF Cons.prems] obtain c1 where "mqtt_apply Q (Some c) x = Some c1" "client_inv Q c1" by blast
  with Cons.IH show ?case by simp
qed simp

lemma create_inv: "client_inv Q htsn_mqtt_client_create"
  by (simp add: client_inv_def htsn_mqtt_client_create_def log_ok_def made_at_def)

section \<open>Properties\<close>

text \<open>
  Whatever sequence of connects, disconnects, subscriptions, publications and loop
  operations the application makes, and whichever library calls fail, the client never uses a mosquitto
  handle before \<open>mosquitto_new\<close> returned one, and it never creates a second handle: every call in
  its log is a creation or comes after the successful creation, which is unique.
\<close>

theorem mqtt_handle_discipline:
  "\<exists>c. foldl (mqtt_apply Q) (Some htsn_mqtt_client_create) xs = Some c \<and>
     (\<forall>i < length (mc_calls c). is_new (mc_calls c ! i) \<or> (\<exists>j < i. made_at Q (mc_calls c) j)) \<and>
     (\<forall>j k. made_at Q (mc_calls c) j \<and> made_at Q (mc_calls c) k \<longrightarrow> j = k)"
  using mqtt_history_inv [OF create_inv, of Q xs] by (auto simp: client_inv_def log_ok_def)

theorem mqtt_handle_discipline_witness:
  "\<exists>c. foldl (mqtt_apply (\<lambda>_ _. True)) (Some htsn_mqtt_client_create)
       [Op_publish (Some ''t'') ''a'', Op_connect (Some ''h'') 1883 None None None, Op_publish (Some ''t'') ''b''] = Some c \<and>
     mc_calls c = [MNew ''htsn-configurator'', MConnect ''h'' 1883 30, MPublish ''t'' ''b''] \<and>
     (\<forall>j k. made_at (\<lambda>_ _. True) (mc_calls c) j \<and> made_at (\<lambda>_ _. True) (mc_calls c) k \<longrightarrow> j = k)"
  using mqtt_handle_discipline [of "\<lambda>_ _. True"
      "[Op_publish (Some ''t'') ''a'', Op_connect (Some ''h'') 1883 None None None, Op_publish (Some ''t'') ''b'']"]
  by (auto simp: htsn_mqtt_client_connect_def htsn_mqtt_client_publish_def htsn_mqtt_client_create_def mosq_def)

text \<open>
  The field exchange channel publishes exactly when it is started: before
  \<open>htsn_fxmqtt_start\<close> nothing is sent and the caller sees \<open>HTSN_ERR_NOT_READY\<close>; started on a connected
  client, it has subscribed to the three field topics, and each publication makes exactly one library call, on the
  given topic or on the field topic when none is given.
\<close>

theorem fxmqtt_publishes:
  assumes "mc_client c" and "htsn_fxmqtt_start Q f (Some c) = (e, f', Some c')"
  shows "htsn_fxmqtt_field_publish_ex Q (f\<lparr>fx_started := False\<rparr>) topic (Some p) (Some c) = (HTSN_ERR_NOT_READY, Some c) \<and>
    mc_calls c' = mc_calls c @ map MSubscribe [''tsn/fx/field'', ''tsn/fx/data'', ''tsn/fx/node''] \<and>
    (\<exists>c''. htsn_fxmqtt_field_publish_ex Q f' topic (Some p) (Some c') =
       (if Q (mc_calls c') (MPublish (if topic = None \<or> topic = Some [] then ''tsn/fx/field'' else the topic) p)
        then HTSN_OK else HTSN_ERR_NET, Some c'') \<and>
       mc_calls c'' = mc_calls c' @ [MPublish (if topic = None \<or> topic = Some [] then ''tsn/fx/field'' else the topic) p])"
  using assms
  by (auto simp: htsn_fxmqtt_start_def htsn_fxmqtt_field_publish_ex_def htsn_mqtt_client_subscribe_def
      htsn_mqtt_client_publish_def mosq_def HTSN_FXMQTT_TOPIC_FIELD_def HTSN_FXMQTT_TOPIC_DATA_def
      HTSN_FXMQTT_TOPIC_NODE_def Let_def split: option.splits)

theorem fxmqtt_publishes_witness:
  "\<exists>c'. mc_calls c' = map MSubscribe [''tsn/fx/field'', ''tsn/fx/data'', ''tsn/fx/node''] \<and>
     fst (htsn_fxmqtt_field_publish_ex (\<lambda>_ _. True) (htsn_fxmqtt_create\<lparr>fx_mqtt := True, fx_started := True\<rparr>)
            None (Some ''x'') (Some c')) = HTSN_OK"
proof -
  let ?c = "htsn_mqtt_client_create\<lparr>mc_client := True\<rparr>"
  obtain e f' c' where s: "htsn_fxmqtt_start (\<lambda>_ _. True) htsn_fxmqtt_create (Some ?c) = (e, f', Some c')"
    and f: "f' = htsn_fxmqtt_create\<lparr>fx_mqtt := True, fx_started := True\<rparr>"
    by (simp add: htsn_fxmqtt_start_def htsn_mqtt_client_subscribe_def mosq_def)
  from fxmqtt_publishes [OF _ s, of None "''x''"] f show ?thesis
    by (intro exI [of _ c']) (auto simp: htsn_mqtt_client_create_def)
qed

end
