(* ===== verification/Config_Managers.thy ===== *)
theory Config_Managers
  imports Mqtt
begin

text \<open>
  The managers without a cache of their own: QoS (src/src/qos/qos_manager.c), VLAN groups with import and
  export (src/src/vlan/vlan_manager.c), gate schedules (src/src/tas/tas_manager.c), time synchronisation
  (src/src/timesync/timesync_manager.c) and domains (src/src/domain/domain_manager.c). A manager is the name
  of its model (and, for time synchronisation, the status it keeps); database and bus are in the
  \<open>world\<close>. The receiver and the database pointer are not null; \<open>create\<close> returns \<open>None\<close> without
  a bus. The clock \<open>now\<close> does not advance during one operation. The lemmas show what a
  configuration leaves in the database, that an exported VLAN list imports to the same groups, and
  that deleting a domain leaves no device in it.
\<close>

record htsn_manager =
  mgr_model :: string

definition manager_create :: "string \<Rightarrow> 'h world \<Rightarrow> htsn_manager option" where
  "manager_create name w =
     (case w_bus w of None \<Rightarrow> None | Some _ \<Rightarrow> Some \<lparr>mgr_model = htsn_model_init (Some name)\<rparr>)"

definition mgr_notify :: "htsn_manager \<Rightarrow> string \<Rightarrow> 'h world \<Rightarrow> 'h world" where
  "mgr_notify m event w = w\<lparr>w_bus := htsn_model_notify (mgr_model m) (Some event) (w_bus w)\<rparr>"

section \<open>Quality of service\<close>

definition htsn_qos_manager_create :: "'h world \<Rightarrow> htsn_manager option" where
  "htsn_qos_manager_create = manager_create ''qos''"

definition htsn_qos_manager_configure ::
  "'h engine \<Rightarrow> htsn_manager \<Rightarrow> string option \<Rightarrow> htsn_qos_config_model option \<Rightarrow> 'h world \<Rightarrow> htsn_error \<times> 'h world" where
  "htsn_qos_manager_configure E m devo cfgo w =
     (case (devo, cfgo) of
        (Some device_id, Some cfg) \<Rightarrow>
          (let e = htsn_qos_validate (Some cfg)
           in if e \<noteq> HTSN_OK then (e, w)
              else
                (let q = \<lparr>qos_device_id = cpy HTSN_MAX_STR (Some device_id), qos_priority = qm_priority cfg,
                          qos_traffic_class = qm_traffic_class cfg, qos_bandwidth_kbps = qm_bandwidth_kbps cfg,
                          qos_latency_ms = qm_latency_ms cfg, qos_preemption = qm_preemption cfg\<rparr>
                 in (HTSN_OK, mgr_notify m ''changed'' (w_with_db (htsn_db_qos_save E (Some q)) w))))
      | _ \<Rightarrow> (HTSN_ERR_INVALID_ARG, w))"

definition htsn_qos_manager_load_for_device ::
  "'h engine \<Rightarrow> string option \<Rightarrow> 'h world \<Rightarrow> htsn_error + htsn_qos_config" where
  "htsn_qos_manager_load_for_device E devo w =
     (case devo of None \<Rightarrow> Inl HTSN_ERR_INVALID_ARG | Some d \<Rightarrow> htsn_db_qos_load E (Some d) (w_db w))"

definition htsn_qos_manager_remove ::
  "'h engine \<Rightarrow> htsn_manager \<Rightarrow> string option \<Rightarrow> 'h world \<Rightarrow> htsn_error \<times> 'h world" where
  "htsn_qos_manager_remove E m devo w =
     (case devo of
        None \<Rightarrow> (HTSN_ERR_INVALID_ARG, w)
      | Some d \<Rightarrow> (HTSN_OK, mgr_notify m ''changed'' (w_with_db (htsn_db_qos_delete E d) w)))"

section \<open>VLAN groups\<close>

definition htsn_vlan_manager_create :: "'h world \<Rightarrow> htsn_manager option" where
  "htsn_vlan_manager_create = manager_create ''vlan''"

definition htsn_vlan_manager_create_group ::
  "'h engine \<Rightarrow> htsn_manager \<Rightarrow> htsn_vlan_group_model option \<Rightarrow> 'h world \<Rightarrow> htsn_error \<times> 'h world" where
  "htsn_vlan_manager_create_group E m go w =
     (case go of
        None \<Rightarrow> (HTSN_ERR_INVALID_ARG, w)
      | Some g \<Rightarrow>
          (let e = htsn_vlan_validate_group (Some g)
           in if e \<noteq> HTSN_OK then (e, w)
              else
                (let tmp = \<lparr>vg_id = cpy HTSN_MAX_STR (Some (vg_id g)), vg_name = cpy HTSN_MAX_STR (Some (vg_name g)),
                            vg_vlan_id = vg_vlan_id g\<rparr>
                 in (HTSN_OK, mgr_notify m ''group_changed'' (w_with_db (htsn_db_vlan_group_save E (Some tmp)) w)))))"

definition htsn_vlan_manager_delete_group ::
  "'h engine \<Rightarrow> htsn_manager \<Rightarrow> string option \<Rightarrow> 'h world \<Rightarrow> htsn_error \<times> 'h world" where
  "htsn_vlan_manager_delete_group E m keyo w =
     (case keyo of
        None \<Rightarrow> (HTSN_ERR_INVALID_ARG, w)
      | Some k \<Rightarrow> (HTSN_OK, mgr_notify m ''group_changed'' (w_with_db (htsn_db_vlan_group_delete E k) w)))"

definition htsn_vlan_manager_add_member ::
  "'h engine \<Rightarrow> htsn_manager \<Rightarrow> string option \<Rightarrow> string option \<Rightarrow> 'h world \<Rightarrow> htsn_error \<times> 'h world" where
  "htsn_vlan_manager_add_member E m go devo w =
     (case (go, devo) of
        (Some g, Some d) \<Rightarrow>
          (let mem = \<lparr>vm_group_id = cpy HTSN_MAX_STR (Some g), vm_device_id = cpy HTSN_MAX_STR (Some d)\<rparr>
           in (HTSN_OK, mgr_notify m ''member_changed'' (w_with_db (htsn_db_vlan_member_add E mem) w)))
      | _ \<Rightarrow> (HTSN_ERR_INVALID_ARG, w))"

definition htsn_vlan_manager_remove_member ::
  "'h engine \<Rightarrow> htsn_manager \<Rightarrow> string option \<Rightarrow> string option \<Rightarrow> 'h world \<Rightarrow> htsn_error \<times> 'h world" where
  "htsn_vlan_manager_remove_member E m go devo w =
     (case (go, devo) of
        (Some g, Some d) \<Rightarrow>
          (HTSN_OK, mgr_notify m ''member_changed'' (w_with_db (htsn_db_vlan_member_remove E g d) w))
      | _ \<Rightarrow> (HTSN_ERR_INVALID_ARG, w))"

text \<open>
  \<open>fgets(line, n + 1, f)\<close> until the end of the file: up to \<open>n\<close> characters, or up to and
  including a newline.
\<close>

definition newline :: char where "newline = CHR 0x0A"

definition fgets_len :: "nat \<Rightarrow> string \<Rightarrow> nat" where
  "fgets_len n s = min n (case find_idx (\<lambda>c. c = newline) s of Some i \<Rightarrow> Suc i | None \<Rightarrow> length s)"

function fgets_all :: "nat \<Rightarrow> string \<Rightarrow> string list" where
  "fgets_all n s =
     (if n = 0 \<or> s = [] then [] else take (fgets_len n s) s # fgets_all n (drop (fgets_len n s) s))"
  by auto
termination
proof (relation "measure (\<lambda>(n, s). length s)")
  fix n :: nat and s :: string assume a: "\<not> (n = 0 \<or> s = [])"
  then have "0 < fgets_len n s" by (auto simp: fgets_len_def split: option.splits)
  with a show "((n, drop (fgets_len n s) s), n, s) \<in> measure (\<lambda>(n, s). length s)" by simp
qed simp

declare fgets_all.simps [simp del]

text \<open>\<open>sscanf(line, "VLAN,%255[^,],%d", name, &vlan_id) == 2\<close>.\<close>

definition scan_vlan_line :: "string \<Rightarrow> (string \<times> int) option" where
  "scan_vlan_line line =
     (case scan_lit ''VLAN,'' line of
        None \<Rightarrow> None
      | Some r \<Rightarrow>
          (case scan_upto (CHR '','') r of
             None \<Rightarrow> None
           | Some (name, r1) \<Rightarrow>
               (case scan_lit '','' r1 of
                  None \<Rightarrow> None
                | Some r2 \<Rightarrow> map_option (\<lambda>(v, _). (name, v)) (scan_d r2))))"

definition import_line :: "'h engine \<Rightarrow> htsn_manager \<Rightarrow> 'h world \<Rightarrow> string \<Rightarrow> 'h world" where
  "import_line E m w line =
     (case scan_vlan_line line of
        None \<Rightarrow> w
      | Some (name, v) \<Rightarrow>
          (let g = \<lparr>vg_id = [], vg_name = cpy HTSN_MAX_STR (Some name), vg_vlan_id = v\<rparr>
           in snd (htsn_vlan_manager_create_group E m (Some (htsn_vlan_group_id g)) w)))"

text \<open>The files are the contents \<open>fopen\<close> gives access to: \<open>None\<close> when it cannot be opened.\<close>

definition htsn_vlan_manager_import ::
  "'h engine \<Rightarrow> htsn_manager \<Rightarrow> (string \<Rightarrow> string option) \<Rightarrow> string option \<Rightarrow> 'h world \<Rightarrow> htsn_error \<times> 'h world" where
  "htsn_vlan_manager_import E m files fileo w =
     (case fileo of
        None \<Rightarrow> (HTSN_ERR_INVALID_ARG, w)
      | Some file \<Rightarrow>
          (case files file of
             None \<Rightarrow> (HTSN_ERR_IO, w)
           | Some content \<Rightarrow> (HTSN_OK, foldl (import_line E m) w (fgets_all 511 content))))"

definition export_group_cb :: "htsn_vlan_group \<Rightarrow> string" where
  "export_group_cb g = ''VLAN,'' @ vg_name g @ '','' @ dec_int (vg_vlan_id g) @ [newline]"

text \<open>Writing returns the new contents of the file when it can be opened.\<close>

definition htsn_vlan_manager_export ::
  "'h engine \<Rightarrow> bool \<Rightarrow> string option \<Rightarrow> 'h world \<Rightarrow> htsn_error \<times> string option" where
  "htsn_vlan_manager_export E writable fileo w =
     (case fileo of
        None \<Rightarrow> (HTSN_ERR_INVALID_ARG, None)
      | Some file \<Rightarrow>
          if \<not> writable then (HTSN_ERR_IO, None)
          else (HTSN_OK, Some (concat (map export_group_cb (htsn_db_vlan_group_for_each E (w_db w))))))"

section \<open>Schedules\<close>

definition htsn_tas_manager_create :: "'h world \<Rightarrow> htsn_manager option" where
  "htsn_tas_manager_create = manager_create ''tas''"

definition to_model :: "htsn_tas_schedule \<Rightarrow> htsn_tas_schedule_model" where
  "to_model src = \<lparr>tas_id = cpy HTSN_MAX_STR (Some (sch_id src)), tas_name = cpy HTSN_MAX_STR (Some (sch_name src)),
     tas_cycle_time_ns = sch_cycle_time_ns src, tas_deploy_target = cpy HTSN_MAX_STR (Some (sch_deploy_target src)),
     tas_gcl = \<lparr>gcl_entries = sch_entries src, gcl_cycle_time_ns = sch_cycle_time_ns src\<rparr>\<rparr>"

definition to_db_schedule_copy :: "htsn_tas_schedule_model \<Rightarrow> htsn_tas_schedule" where
  "to_db_schedule_copy src = \<lparr>sch_id = cpy HTSN_MAX_STR (Some (tas_id src)), sch_name = cpy HTSN_MAX_STR (Some (tas_name src)),
     sch_cycle_time_ns = tas_cycle_time_ns src, sch_deploy_target = cpy HTSN_MAX_STR (Some (tas_deploy_target src)),
     sch_entries = gcl_entries (tas_gcl src)\<rparr>"

definition htsn_tas_manager_save ::
  "'h engine \<Rightarrow> htsn_manager \<Rightarrow> htsn_tas_schedule_model option \<Rightarrow> 'h world \<Rightarrow> htsn_error \<times> 'h world" where
  "htsn_tas_manager_save E m so w =
     (case so of
        None \<Rightarrow> (HTSN_ERR_INVALID_ARG, w)
      | Some s \<Rightarrow>
          if htsn_tas_validate (Some s) \<noteq> HTSN_OK then (HTSN_ERR_INVALID_ARG, w)
          else (HTSN_OK, mgr_notify m ''schedule_changed'' (w_with_db (htsn_db_tas_save E (Some (to_db_schedule_copy s))) w)))"

definition htsn_tas_manager_load :: "'h engine \<Rightarrow> string option \<Rightarrow> 'h world \<Rightarrow> htsn_error + htsn_tas_schedule_model" where
  "htsn_tas_manager_load E keyo w =
     (case keyo of
        None \<Rightarrow> Inl HTSN_ERR_INVALID_ARG
      | Some k \<Rightarrow> (case htsn_db_tas_load E (Some k) (w_db w) of Inl e \<Rightarrow> Inl e | Inr s \<Rightarrow> Inr (to_model s)))"

definition htsn_tas_manager_delete ::
  "'h engine \<Rightarrow> htsn_manager \<Rightarrow> string option \<Rightarrow> 'h world \<Rightarrow> htsn_error \<times> 'h world" where
  "htsn_tas_manager_delete E m keyo w =
     (case keyo of
        None \<Rightarrow> (HTSN_ERR_INVALID_ARG, w)
      | Some k \<Rightarrow> (HTSN_OK, mgr_notify m ''schedule_changed'' (w_with_db (htsn_db_tas_delete E k) w)))"

definition htsn_tas_manager_deploy ::
  "'h engine \<Rightarrow> htsn_manager \<Rightarrow> string option \<Rightarrow> 'h world \<Rightarrow> htsn_error \<times> 'h world" where
  "htsn_tas_manager_deploy E m keyo w =
     (case keyo of
        None \<Rightarrow> (HTSN_ERR_INVALID_ARG, w)
      | Some k \<Rightarrow>
          (case htsn_tas_manager_load E (Some k) w of
             Inl e \<Rightarrow> (e, w)
           | Inr s \<Rightarrow> (HTSN_OK, w_notify (mgr_model m) ''deployed'' (EvTas s) w)))"

section \<open>Time synchronisation\<close>

record htsn_timesync_manager =
  tsm_model :: string
  tsm_status :: htsn_timesync_status

definition htsn_timesync_manager_load :: "'h engine \<Rightarrow> htsn_timesync_manager \<Rightarrow> 'h world \<Rightarrow> htsn_error \<times> htsn_timesync_manager" where
  "htsn_timesync_manager_load E m w =
     (HTSN_OK, m\<lparr>tsm_status :=
        (case htsn_db_timesync_load E (w_db w) of
           Inr s \<Rightarrow> s
         | Inl _ \<Rightarrow> timesync_zero\<lparr>ts_mode := HTSN_TIMESYNC_DISABLED, ts_protocol := cpy 32 (Some ''gptp'')\<rparr>)\<rparr>)"

definition htsn_timesync_manager_create :: "'h engine \<Rightarrow> 'h world \<Rightarrow> htsn_timesync_manager option" where
  "htsn_timesync_manager_create E w =
     (case w_bus w of
        None \<Rightarrow> None
      | Some _ \<Rightarrow> Some (snd (htsn_timesync_manager_load E
          \<lparr>tsm_model = htsn_model_init (Some ''timesync''), tsm_status = timesync_zero\<rparr> w)))"

definition tsm_save :: "'h engine \<Rightarrow> htsn_timesync_manager \<Rightarrow> 'h world \<Rightarrow> htsn_error \<times> htsn_timesync_manager \<times> 'h world" where
  "tsm_save E m w =
     (let w1 = w_with_db (htsn_db_timesync_save E (Some (tsm_status m))) w
      in (HTSN_OK, m, w1\<lparr>w_bus := htsn_model_notify (tsm_model m) (Some ''changed'') (w_bus w1)\<rparr>))"

definition htsn_timesync_manager_set_mode ::
  "'h engine \<Rightarrow> htsn_timesync_manager \<Rightarrow> htsn_timesync_mode \<Rightarrow> 'h world \<Rightarrow>
     htsn_error \<times> htsn_timesync_manager \<times> 'h world" where
  "htsn_timesync_manager_set_mode E m mode w =
     tsm_save E (m\<lparr>tsm_status := (tsm_status m)\<lparr>ts_mode := mode\<rparr>\<rparr>) w"

definition htsn_timesync_manager_set_grandmaster ::
  "'h engine \<Rightarrow> htsn_timesync_manager \<Rightarrow> string option \<Rightarrow> 'h world \<Rightarrow>
     htsn_error \<times> htsn_timesync_manager \<times> 'h world" where
  "htsn_timesync_manager_set_grandmaster E m gmo w =
     (case gmo of
        None \<Rightarrow> (HTSN_ERR_INVALID_ARG, m, w)
      | Some gm \<Rightarrow>
          tsm_save E (m\<lparr>tsm_status := (tsm_status m)\<lparr>ts_grandmaster := cpy HTSN_MAX_STR (Some gm)\<rparr>\<rparr>) w)"

definition htsn_timesync_manager_status :: "htsn_timesync_manager \<Rightarrow> htsn_timesync_status" where
  "htsn_timesync_manager_status m = tsm_status m"

definition htsn_timesync_manager_record_report ::
  "'h engine \<Rightarrow> int \<Rightarrow> htsn_timesync_manager \<Rightarrow> string option \<Rightarrow> int \<Rightarrow> int \<Rightarrow> int \<Rightarrow> int \<Rightarrow> 'h world \<Rightarrow>
     htsn_error \<times> htsn_timesync_manager \<times> 'h world" where
  "htsn_timesync_manager_record_report E now m devo offset_ns jitter_ns packet_count packet_loss w =
     (case devo of
        None \<Rightarrow> (HTSN_ERR_INVALID_ARG, m, w)
      | Some device_id \<Rightarrow>
          (let r = \<lparr>tr_device_id = cpy HTSN_MAX_STR (Some device_id), tr_ts = 0, tr_offset_ns = offset_ns,
                    tr_jitter_ns = jitter_ns, tr_packet_count = packet_count, tr_packet_loss = packet_loss,
                    tr_status = cpy 32 (Some (if packet_loss > 0 then ''degraded'' else ''in_sync''))\<rparr>;
               w1 = w_with_db (htsn_db_timesync_report_insert E now (Some r)) w;
               w2 = w_with_db (htsn_db_timesync_report_prune E 1000) w1;
               st = (tsm_status m)\<lparr>ts_report_device := cpy HTSN_MAX_STR (Some device_id),
                      ts_report_offset_ns := offset_ns, ts_report_jitter_ns := jitter_ns,
                      ts_report_packet_count := packet_count, ts_report_packet_loss := packet_loss\<rparr>
           in (HTSN_OK, m\<lparr>tsm_status := st\<rparr>, w_notify (tsm_model m) ''report'' (EvTimesync st) w2)))"

section \<open>Domains\<close>

definition htsn_domain_manager_create :: "'h engine \<Rightarrow> 'h world \<Rightarrow> htsn_manager option \<times> 'h world" where
  "htsn_domain_manager_create E w =
     (case w_bus w of
        None \<Rightarrow> (None, w)
      | Some _ \<Rightarrow>
          (manager_create ''domain'' w,
           w_with_db (htsn_db_domain_save E (Some \<lparr>dom_id = ''default'', dom_name = ''Default'',
             dom_description = ''Global default domain''\<rparr>)) w))"

definition htsn_domain_manager_save ::
  "'h engine \<Rightarrow> htsn_manager \<Rightarrow> htsn_domain option \<Rightarrow> 'h world \<Rightarrow> htsn_error \<times> 'h world" where
  "htsn_domain_manager_save E m d w =
     (case d of
        None \<Rightarrow> (HTSN_ERR_INVALID_ARG, w)
      | Some _ \<Rightarrow> (HTSN_OK, mgr_notify m ''changed'' (w_with_db (htsn_db_domain_save E d) w)))"

definition htsn_domain_manager_delete ::
  "'h engine \<Rightarrow> htsn_manager \<Rightarrow> string option \<Rightarrow> 'h world \<Rightarrow> htsn_error \<times> 'h world" where
  "htsn_domain_manager_delete E m keyo w =
     (case keyo of
        None \<Rightarrow> (HTSN_ERR_INVALID_ARG, w)
      | Some k \<Rightarrow>
          if k = ''default'' then (HTSN_ERR_INVALID_ARG, w)
          else
            (let w1 = w_with_db (htsn_db_domain_delete E k) w;
                 w2 = w1\<lparr>w_db := db_exec E (Update ''devices'' [(''domain'', L (SText ''default''))] [(''domain'', P 1)])
                             [SText k] (w_db w1)\<rparr>
             in (HTSN_OK, mgr_notify m ''changed'' w2)))"

definition htsn_domain_manager_for_each :: "'h engine \<Rightarrow> 'h world \<Rightarrow> htsn_domain list" where
  "htsn_domain_manager_for_each E w = htsn_db_domain_for_each E (w_db w)"

definition htsn_domain_manager_assign_device ::
  "'h engine \<Rightarrow> htsn_manager \<Rightarrow> string option \<Rightarrow> string option \<Rightarrow> 'h world \<Rightarrow> htsn_error \<times> 'h world" where
  "htsn_domain_manager_assign_device E m devo domo w =
     (case (devo, domo) of
        (Some device_id, Some domain_id) \<Rightarrow>
          (case db_run E (Update ''devices'' [(''domain'', P 1)] [(''id'', P 2)]) [SText domain_id, SText device_id] (w_db w) of
             None \<Rightarrow> (HTSN_ERR_DB, w)
           | Some (_, _, db') \<Rightarrow> (HTSN_OK, mgr_notify m ''changed'' (w\<lparr>w_db := db'\<rparr>)))
      | _ \<Rightarrow> (HTSN_ERR_INVALID_ARG, w))"

section \<open>The shared world\<close>

lemma w_db_simps [simp]:
  "w_db (mgr_notify m ev w) = w_db w" "w_db (w_notify md ev d w) = w_db w"
  "w_db (w_with_db f w) = snd (f (w_db w))" "w_bus (w_with_db f w) = w_bus w"
  "w_mqtt (mgr_notify m ev w) = w_mqtt w" "w_mqtt (w_notify md ev d w) = w_mqtt w"
  "w_mqtt (w_with_db f w) = w_mqtt w"
  by (simp_all add: mgr_notify_def w_notify_def w_with_db_def)

section \<open>Exported VLAN lists read back\<close>

definition group_ok :: "htsn_vlan_group \<Rightarrow> bool" where
  "group_ok g \<longleftrightarrow> vg_name g \<noteq> [] \<and> length (vg_name g) \<le> 255 \<and> CHR '','' \<notin> set (vg_name g) \<and>
     newline \<notin> set (vg_name g) \<and> 1 \<le> vg_vlan_id g \<and> vg_vlan_id g \<le> 4094"

lemma find_idx_newline: "newline \<notin> set l \<Longrightarrow> find_idx (\<lambda>c. c = newline) (l @ newline # r) = Some (length l)"
  by (induction l) auto

lemma fgets_all_line:
  assumes "newline \<notin> set l" and "length l < n"
  shows "fgets_all n (l @ newline # r) = (l @ [newline]) # fgets_all n r"
proof -
  have "fgets_len n (l @ newline # r) = Suc (length l)"
    using assms by (simp add: fgets_len_def find_idx_newline)
  then show ?thesis using assms(2) by (subst fgets_all.simps) simp
qed

lemma dec_int_newline [simp]: "newline \<notin> set (dec_int i)"
  by (auto simp: dec_int_def newline_def is_digit_def split: if_splits dest: dec_nat_digits)

lemma export_line_scans:
  assumes "group_ok g" shows "scan_vlan_line (export_group_cb g) = Some (vg_name g, vg_vlan_id g)"
proof -
  have "scan_upto (CHR '','') (vg_name g @ CHR '','' # dec_int (vg_vlan_id g) @ [newline]) =
      Some (vg_name g, CHR '','' # dec_int (vg_vlan_id g) @ [newline])"
    using assms by (intro scan_upto_append) (auto simp: group_ok_def)
  moreover have "scan_d (dec_int (vg_vlan_id g) @ [newline]) = Some (vg_vlan_id g, [newline])"
    using assms by (intro scan_d_dec_int) (auto simp: group_ok_def in_i32_def no_digit_ahead_def newline_def is_digit_def)
  moreover have "export_group_cb g = ''VLAN,'' @ vg_name g @ CHR '','' # dec_int (vg_vlan_id g) @ [newline]"
    by (simp add: export_group_cb_def)
  moreover have "scan_lit '','' (CHR '','' # r) = Some r" for r by (simp add: scan_lit_def)
  ultimately show ?thesis by (simp only: scan_vlan_line_def scan_lit_append option.case prod.case option.map)
qed

lemma export_lines:
  assumes "list_all group_ok gs"
  shows "fgets_all 511 (concat (map export_group_cb gs)) = map export_group_cb gs"
  using assms
proof (induction gs)
  case Nil
  then show ?case by (simp add: fgets_all.simps)
next
  case (Cons g gs)
  let ?l = "''VLAN,'' @ vg_name g @ '','' @ dec_int (vg_vlan_id g)"
  have "nat (vg_vlan_id g) < 10 ^ 4" "0 \<le> vg_vlan_id g" using Cons.prems by (auto simp: group_ok_def)
  then have "length (dec_int (vg_vlan_id g)) \<le> 4"
    using length_dec_nat [of "nat (vg_vlan_id g)" 4] by (simp add: dec_int_def)
  then have "length ?l < 511" "newline \<notin> set ?l"
    using Cons.prems by (auto simp: group_ok_def) (simp_all add: newline_def)
  then have "fgets_all 511 (?l @ newline # concat (map export_group_cb gs)) =
      (?l @ [newline]) # fgets_all 511 (concat (map export_group_cb gs))"
    by (intro fgets_all_line)
  moreover have "export_group_cb g = ?l @ [newline]" by (simp add: export_group_cb_def)
  ultimately show ?case using Cons by simp
qed

text \<open>What importing one exported group does to the database.\<close>

lemma import_line_export:
  assumes "group_ok g"
  shows "w_db (import_line E m w (export_group_cb g)) =
    snd (htsn_db_vlan_group_save E (Some (htsn_vlan_group_id g)) (w_db w))"
proof -
  have f: "fits HTSN_MAX_STR (vg_name g)" using assms by (simp add: group_ok_def fits_def HTSN_MAX_STR_def)
  have i: "fits HTSN_MAX_STR (vg_id (htsn_vlan_group_id g))"
    by (simp add: htsn_vlan_group_id_def snprintf_buf_def fits_def HTSN_MAX_STR_def)
  have e: "htsn_vlan_group_id \<lparr>vg_id = [], vg_name = vg_name g, vg_vlan_id = vg_vlan_id g\<rparr> = htsn_vlan_group_id g"
    by (simp add: htsn_vlan_group_id_def)
  have "htsn_vlan_validate_group (Some (htsn_vlan_group_id g)) = HTSN_OK"
    using assms by (simp add: htsn_vlan_validate_group_def htsn_vlan_group_id_def group_ok_def)
  moreover have "\<lparr>vg_id = vg_id (htsn_vlan_group_id g), vg_name = vg_name g, vg_vlan_id = vg_vlan_id g\<rparr> = htsn_vlan_group_id g"
    by (cases g) (simp add: htsn_vlan_group_id_def)
  ultimately show ?thesis
    using f i assms
    by (simp add: import_line_def export_line_scans e htsn_vlan_manager_create_group_def)
      (cases g, simp add: htsn_vlan_group_id_def)
qed

lemma import_export:
  "list_all group_ok gs \<Longrightarrow> w_db (foldl (import_line E m) w (map export_group_cb gs)) =
     foldl (\<lambda>db g. snd (htsn_db_vlan_group_save E (Some g) db)) (w_db w) (map htsn_vlan_group_id gs)"
  by (induction gs arbitrary: w) (simp_all add: import_line_export)

section \<open>The table of VLAN groups\<close>

lemma sql_prep_vlan [sql_prep]:
  "sql_prepares (Insert (DoUpdate [''id''] [''name'', ''vlan_id'']) ''vlan_groups'' [''id'', ''name'', ''vlan_id''] [P 1, P 2, P 3])"
  "sql_prepares (Select [''id'', ''name'', ''vlan_id''] ''vlan_groups'' [] Unordered None None)"
  by code_simp+

lemma schema_vlan: "map_of schema ''vlan_groups'' = Some (plain_table [''id'', ''name'', ''vlan_id''] [''id''])"
  by (simp add: schema_def)

text \<open>The rows of a query of a whole table.\<close>

lemma db_rows_all:
  assumes "handle db = Some T" and "sql_prepares (Select cols t [] Unordered None None)"
  shows "db_rows sql_run (Select cols t [] Unordered None None) [] db = map (\<lambda>r. map r cols) (rows T t)"
proof -
  obtain td where td: "map_of schema t = Some td"
    using assms(2) by (auto simp: sql_prepares_def split: option.splits)
  have "sql_exec (Select cols t [] Unordered None None) td [] T = (True, map (\<lambda>r. map r cols) (rows T t), T)"
    by (simp add: sql_exec_def sort_rows_def limit_rows_def)
  then show ?thesis
    using assms td by (simp add: db_rows_def db_run_def sql_run_def)
qed

definition group_row :: "htsn_vlan_group \<Rightarrow> row" where
  "group_row g = set_cols (\<lambda>_. SNull) [(''id'', SText (vg_id g)), (''name'', SText (vg_name g)), (''vlan_id'', SInt (vg_vlan_id g))]"

lemma group_save_new_ref:
  assumes "handle db = Some T" and "list_all (\<lambda>r. r ''id'' \<noteq> SText (vg_id g)) (rows T ''vlan_groups'')"
  shows "htsn_db_vlan_group_save sql_run (Some g) db =
    (HTSN_OK, db\<lparr>handle := Some (put_rows ''vlan_groups'' (rows T ''vlan_groups'' @ [group_row g]) T)\<rparr>)"
proof -
  let ?td = "plain_table [''id'', ''name'', ''vlan_id''] [''id'']"
  let ?st = "Insert (DoUpdate [''id''] [''name'', ''vlan_id'']) ''vlan_groups'' [''id'', ''name'', ''vlan_id''] [P 1, P 2, P 3]"
  have "\<not> list_ex (same_key ?td (group_row g)) (rows T ''vlan_groups'')"
    using assms(2) by (auto simp: list_ex_iff list_all_iff same_key_def group_row_def)
  then have "sql_exec ?st ?td [SText (vg_id g), SText (vg_name g), SInt (vg_vlan_id g)] T =
      (True, [], put_rows ''vlan_groups'' (rows T ''vlan_groups'' @ [group_row g]) T)"
    by (simp add: sql_exec_def sexp_val_def sql_insert_def new_row_def check_ok_def fk_ok_def group_row_def Let_def)
  then have "db_run sql_run ?st [SText (vg_id g), SText (vg_name g), SInt (vg_vlan_id g)] db =
      Some (True, [], db\<lparr>handle := Some (put_rows ''vlan_groups'' (rows T ''vlan_groups'' @ [group_row g]) T)\<rparr>)"
    using assms(1) by (intro db_run_ref) (simp_all add: schema_vlan sql_prep_vlan [simplified])
  then show ?thesis using assms(1) by (simp add: htsn_db_vlan_group_save_def closed_def db_step_def)
qed

lemma group_row_reads:
  assumes "fits HTSN_MAX_STR (vg_id g)" "fits HTSN_MAX_STR (vg_name g)" "in_i32 (vg_vlan_id g)"
  shows "row_to_group (map (group_row g) [''id'', ''name'', ''vlan_id'']) = g"
  using assms by (cases g) (simp add: row_to_group_def group_row_def column_text_def column_int_def column_int64_def)

lemma group_save_all_ref:
  assumes "handle db = Some T" and "distinct (map vg_id gs)"
    and "\<And>g r. g \<in> set gs \<Longrightarrow> r \<in> set (rows T ''vlan_groups'') \<Longrightarrow> r ''id'' \<noteq> SText (vg_id g)"
  shows "\<exists>T'. handle (foldl (\<lambda>db g. snd (htsn_db_vlan_group_save sql_run (Some g) db)) db gs) = Some T' \<and>
    rows T' ''vlan_groups'' = rows T ''vlan_groups'' @ map group_row gs"
  using assms
proof (induction gs arbitrary: db T)
  case (Cons g gs)
  let ?T = "put_rows ''vlan_groups'' (rows T ''vlan_groups'' @ [group_row g]) T"
  have "snd (htsn_db_vlan_group_save sql_run (Some g) db) = db\<lparr>handle := Some ?T\<rparr>"
    using Cons.prems by (subst group_save_new_ref) (auto simp: list_all_iff)
  moreover have "\<exists>T'. handle (foldl (\<lambda>db g. snd (htsn_db_vlan_group_save sql_run (Some g) db)) (db\<lparr>handle := Some ?T\<rparr>) gs) = Some T' \<and>
      rows T' ''vlan_groups'' = rows ?T ''vlan_groups'' @ map group_row gs"
    using Cons.prems(2,3) by (intro Cons.IH) (auto simp: group_row_def)
  ultimately show ?case by simp
qed simp

lemma group_for_each_ref:
  assumes "handle db = Some T"
  shows "htsn_db_vlan_group_for_each sql_run db =
    map (\<lambda>r. row_to_group (map r [''id'', ''name'', ''vlan_id''])) (rows T ''vlan_groups'')"
  unfolding htsn_db_vlan_group_for_each_def db_rows_all [OF assms sql_prep_vlan(2)] by simp

context sqlite
begin

lemma group_save_abs [abs_simps]:
  "htsn_db_vlan_group_save sql_run g (dbabs tabs db) = map_prod (\<lambda>e. e) (dbabs tabs) (htsn_db_vlan_group_save E g db)"
  by (simp add: htsn_db_vlan_group_save_def closed_abs db_step_abs split: option.splits)

lemma group_for_each_abs [abs_simps]:
  "htsn_db_vlan_group_for_each sql_run (dbabs tabs db) = htsn_db_vlan_group_for_each E db"
  by (simp add: htsn_db_vlan_group_for_each_def db_rows_abs)

lemma group_save_all_abs:
  "dbabs tabs (foldl (\<lambda>db g. snd (htsn_db_vlan_group_save E (Some g) db)) db gs) =
     foldl (\<lambda>db g. snd (htsn_db_vlan_group_save sql_run (Some g) db)) (dbabs tabs db) gs"
  by (induction gs arbitrary: db) (simp_all add: group_save_abs)

text \<open>Saving groups with new, distinct identifiers adds exactly them.\<close>

lemma group_save_all:
  assumes "\<not> closed db" and "htsn_db_vlan_group_for_each E db = []" and "distinct (map vg_id gs)"
    and "\<And>g. g \<in> set gs \<Longrightarrow> fits HTSN_MAX_STR (vg_id g) \<and> fits HTSN_MAX_STR (vg_name g) \<and> in_i32 (vg_vlan_id g)"
  shows "htsn_db_vlan_group_for_each E (foldl (\<lambda>db g. snd (htsn_db_vlan_group_save E (Some g) db)) db gs) = gs"
proof -
  obtain T where T: "handle (dbabs tabs db) = Some T" using assms(1) by (auto simp: closed_def)
  have "rows T ''vlan_groups'' = []"
    using assms(2) by (simp add: group_for_each_ref [OF T] flip: group_for_each_abs)
  then obtain T' where T': "handle (foldl (\<lambda>db g. snd (htsn_db_vlan_group_save sql_run (Some g) db)) (dbabs tabs db) gs) = Some T'"
    "rows T' ''vlan_groups'' = map group_row gs"
    using group_save_all_ref [OF T assms(3)] by auto
  have "map (\<lambda>r. row_to_group (map r [''id'', ''name'', ''vlan_id''])) (map group_row gs) = gs"
    unfolding map_map o_def using assms(4) group_row_reads by (intro map_idI) blast
  then show ?thesis
    unfolding group_for_each_abs [symmetric] group_save_all_abs group_for_each_ref [OF T'(1)] T'(2) by simp
qed

end

section \<open>Devices of a domain\<close>

lemma sql_prep_domain [sql_prep]:
  "sql_prepares (Update ''devices'' [(''domain'', L (SText ''default''))] [(''domain'', P 1)])"
  "sql_prepares (Select device_cols ''devices'' [(''domain'', P 1)] Unordered None None)"
  "sql_prepares (Select [''feature''] ''device_tsn_features'' [(''device_id'', P 1)] Unordered None None)"
  "sql_prepares (Delete ''domains'' [(''id'', P 1)])"
  by code_simp+

definition rehome :: "string \<Rightarrow> row \<Rightarrow> row" where
  "rehome k r = (if r ''domain'' = SText k then r(''domain'' := SText ''default'') else r)"

lemma rehome_ref:
  assumes "handle db = Some T"
  shows "db_exec sql_run (Update ''devices'' [(''domain'', L (SText ''default''))] [(''domain'', P 1)]) [SText k] db =
    db\<lparr>handle := Some (put_rows ''devices'' (map (rehome k) (rows T ''devices'')) T)\<rparr>"
proof -
  let ?st = "Update ''devices'' [(''domain'', L (SText ''default''))] [(''domain'', P 1)]"
  let ?td = "(plain_table device_cols [''id''])\<lparr>td_defaults := [(''domain'', SText ''default''), (''heartbeat_at'', SInt 0)]\<rparr>"
  have w: "(if row_where [SText k] [(''domain'', P 1)] r then set_cols r [(''domain'', sexp_val [SText k] (L (SText ''default'')))] else r) = rehome k r" for r
    by (simp add: row_where_def sexp_val_def rehome_def)
  have "sql_exec ?st ?td [SText k] T = (True, [], put_rows ''devices'' (map (rehome k) (rows T ''devices'')) T)"
    unfolding sql_exec_def stmt.case Let_def list.map prod.case w
    by (simp add: check_ok_def list_all_iff)
  then have "db_run sql_run ?st [SText k] db =
      Some (True, [], db\<lparr>handle := Some (put_rows ''devices'' (map (rehome k) (rows T ''devices'')) T)\<rparr>)"
    using assms by (intro db_run_ref) (simp_all add: schema_tables sql_prep_domain [simplified])
  then show ?thesis by (simp add: db_exec_def)
qed

lemma domain_delete_ref:
  assumes "handle db = Some T"
  obtains T' where "htsn_db_domain_delete sql_run k db = (HTSN_OK, db\<lparr>handle := Some T'\<rparr>)"
    and "\<And>u. u \<noteq> ''domains'' \<Longrightarrow> rows T' u = rows T u"
proof
  let ?T = "delete_rows ''domains'' (\<lambda>r. r ''id'' = SText k) T"
  show "htsn_db_domain_delete sql_run k db = (HTSN_OK, db\<lparr>handle := Some ?T\<rparr>)"
    unfolding htsn_db_domain_delete_def by (rule delete_key_ref) (simp_all add: assms sql_prep_domain [simplified])
  show "rows ?T u = rows T u" if "u \<noteq> ''domains''" for u
    using that by (simp add: delete_rows_def cascade_childless)
qed

lemma row_to_device_ref:
  assumes "handle db = Some T" and "handle db' = Some T'"
    and "rows T' ''device_tsn_features'' = rows T ''device_tsn_features''"
  shows "row_to_device sql_run db' = row_to_device sql_run db"
proof -
  have "db_rows sql_run (Select [''feature''] ''device_tsn_features'' [(''device_id'', P 1)] Unordered None None) [SText i] db' =
      db_rows sql_run (Select [''feature''] ''device_tsn_features'' [(''device_id'', P 1)] Unordered None None) [SText i] db" for i
    using db_run_select_key [OF assms(1) sql_prep_domain(3)] db_run_select_key [OF assms(2) sql_prep_domain(3)] assms(3)
    by (simp add: db_rows_def)
  then show ?thesis by (intro ext) (simp add: row_to_device_def)
qed

lemma in_domain_ref:
  assumes "handle db = Some T"
  shows "htsn_db_device_for_each_in_domain sql_run d db =
    map (\<lambda>r. row_to_device sql_run db (map r device_cols)) (keyed ''domain'' (SText d) (rows T ''devices''))"
  unfolding htsn_db_device_for_each_in_domain_def db_rows_def
  using db_run_select_key [OF assms sql_prep_domain(2), of "SText d"] by simp

lemma keyed_rehome:
  "keyed ''domain'' (SText d) (map (rehome k) rs) =
     (if d = ''default'' then map (rehome k) (filter (\<lambda>r. r ''domain'' \<in> {SText k, SText ''default''}) rs)
      else if d = k then [] else keyed ''domain'' (SText d) rs)"
  by (induction rs) (auto simp: keyed_def rehome_def)

context sqlite
begin

lemma row_to_device_abs [abs_simps]: "row_to_device sql_run (dbabs tabs db) = row_to_device E db"
  by (intro ext) (simp add: row_to_device_def db_rows_abs)

lemma in_domain_abs [abs_simps]:
  "htsn_db_device_for_each_in_domain sql_run d (dbabs tabs db) = htsn_db_device_for_each_in_domain E d db"
  by (simp add: htsn_db_device_for_each_in_domain_def db_rows_abs row_to_device_abs)

lemma domain_delete_abs [abs_simps]:
  "htsn_db_domain_delete sql_run k (dbabs tabs db) = map_prod (\<lambda>e. e) (dbabs tabs) (htsn_db_domain_delete E k db)"
  by (simp add: htsn_db_domain_delete_def db_do_abs)

lemma domain_delete_rehomes:
  assumes "\<not> closed db" and "k \<noteq> ''default''"
    and db': "db' = db_exec E (Update ''devices'' [(''domain'', L (SText ''default''))] [(''domain'', P 1)]) [SText k]
      (snd (htsn_db_domain_delete E k db))"
  shows "htsn_db_device_for_each_in_domain E k db' = []"
    and "d \<noteq> k \<Longrightarrow> d \<noteq> ''default'' \<Longrightarrow>
      htsn_db_device_for_each_in_domain E d db' = htsn_db_device_for_each_in_domain E d db"
    and "length (htsn_db_device_for_each_in_domain E ''default'' db') =
      length (htsn_db_device_for_each_in_domain E ''default'' db) + length (htsn_db_device_for_each_in_domain E k db)"
proof -
  obtain T where T: "handle (dbabs tabs db) = Some T" using assms(1) by (auto simp: closed_def)
  obtain T1 where T1: "htsn_db_domain_delete sql_run k (dbabs tabs db) = (HTSN_OK, (dbabs tabs db)\<lparr>handle := Some T1\<rparr>)"
    "\<And>u. u \<noteq> ''domains'' \<Longrightarrow> rows T1 u = rows T u"
    using domain_delete_ref [OF T, of k] by blast
  let ?T2 = "put_rows ''devices'' (map (rehome k) (rows T1 ''devices'')) T1"
  have "dbabs tabs db' = db_exec sql_run (Update ''devices'' [(''domain'', L (SText ''default''))] [(''domain'', P 1)]) [SText k]
      ((dbabs tabs db)\<lparr>handle := Some T1\<rparr>)"
    using T1(1) by (simp add: db' db_exec_abs [symmetric] domain_delete_abs prod_eq_iff)
  also have "\<dots> = (dbabs tabs db)\<lparr>handle := Some ?T2\<rparr>" by (subst rehome_ref [of _ T1]) simp_all
  finally have A: "dbabs tabs db' = (dbabs tabs db)\<lparr>handle := Some ?T2\<rparr>" .
  then have H: "handle (dbabs tabs db') = Some ?T2" by simp
  have R: "rows ?T2 ''devices'' = map (rehome k) (rows T ''devices'')"
    "rows ?T2 ''device_tsn_features'' = rows T ''device_tsn_features''"
    using T1(2) by simp_all
  note rd = row_to_device_ref [OF T H R(2)]
  note in_dom = in_domain_ref [OF T, unfolded in_domain_abs] in_domain_ref [OF H, unfolded in_domain_abs R(1) keyed_rehome rd]
  show "htsn_db_device_for_each_in_domain E k db' = []" using assms(2) by (simp add: in_dom)
  show "d \<noteq> k \<Longrightarrow> d \<noteq> ''default'' \<Longrightarrow>
      htsn_db_device_for_each_in_domain E d db' = htsn_db_device_for_each_in_domain E d db"
    by (simp add: in_dom)
  have "length (filter (\<lambda>r. r ''domain'' \<in> {SText k, SText ''default''}) rs) =
      length (keyed ''domain'' (SText ''default'') rs) + length (keyed ''domain'' (SText k) rs)" for rs
    using assms(2) by (induction rs) (auto simp: keyed_def)
  then show "length (htsn_db_device_for_each_in_domain E ''default'' db') =
      length (htsn_db_device_for_each_in_domain E ''default'' db) + length (htsn_db_device_for_each_in_domain E k db)"
    by (simp add: in_dom)
qed

end

context sqlite
begin

lemmas qos_load_save = qos_store.load_save
lemmas qos_load_save_other = qos_store.load_save_other

end

section \<open>Properties\<close>

text \<open>
  Configuring QoS either rejects the configuration and changes nothing, or stores it: for every
  engine that keeps the SQLite contract, an accepted configuration (priority at most 7, bandwidth and latency
  in range) is what \<open>load_for_device\<close> returns for the device afterwards, field by field, other devices load
  as before, and the \<open>changed\<close> event of the manager is published.
\<close>

theorem qos_configure_effect:
  assumes "sqlite E tabs" and "\<not> closed (w_db w)" and "fits HTSN_MAX_STR device_id"
    and "in_i32 (qm_traffic_class cfg)" and "in_i32 (qm_preemption cfg)"
    and "htsn_qos_manager_configure E m (Some device_id) (Some cfg) w = (e, w')"
  shows "e = htsn_qos_validate (Some cfg) \<and>
    (if e \<noteq> HTSN_OK then w' = w
     else htsn_qos_manager_load_for_device E (Some device_id) w' =
            Inr \<lparr>qos_device_id = device_id, qos_priority = qm_priority cfg, qos_traffic_class = qm_traffic_class cfg,
                 qos_bandwidth_kbps = qm_bandwidth_kbps cfg, qos_latency_ms = qm_latency_ms cfg, qos_preemption = qm_preemption cfg\<rparr> \<and>
          (\<forall>d. d \<noteq> device_id \<longrightarrow>
             htsn_qos_manager_load_for_device E (Some d) w' = htsn_qos_manager_load_for_device E (Some d) w) \<and>
          w_bus w' = htsn_model_notify (mgr_model m) (Some ''changed'') (w_bus w))"
proof (cases "htsn_qos_validate (Some cfg) = HTSN_OK")
  case False
  then show ?thesis using assms(6) by (auto simp: htsn_qos_manager_configure_def)
next
  case True
  let ?q = "\<lparr>qos_device_id = device_id, qos_priority = qm_priority cfg, qos_traffic_class = qm_traffic_class cfg,
    qos_bandwidth_kbps = qm_bandwidth_kbps cfg, qos_latency_ms = qm_latency_ms cfg, qos_preemption = qm_preemption cfg\<rparr>"

  have q: "qos_ok ?q"
    using True assms(3,4,5) by (auto simp: qos_ok_def htsn_qos_validate_def in_i32_def split: if_splits)
  have w': "e = HTSN_OK" "w' = mgr_notify m ''changed'' (w_with_db (htsn_db_qos_save E (Some ?q)) w)"
    using True assms(3,6) by (simp_all add: htsn_qos_manager_configure_def)
  show ?thesis
    using True w' sqlite.qos_load_save [OF assms(1,2) q] sqlite.qos_load_save_other [OF assms(1,2) q]
    by (auto simp: htsn_qos_manager_load_for_device_def mgr_notify_def)
qed


definition empty_world :: "tables world" where
  "empty_world = \<lparr>w_db = empty_db, w_bus = Some htsn_event_bus_create, w_mqtt = None\<rparr>"

theorem qos_configure_effect_witness:
  "htsn_qos_manager_load_for_device sql_run (Some ''d1'')
     (snd (htsn_qos_manager_configure sql_run \<lparr>mgr_model = ''qos''\<rparr> (Some ''d1'')
        (Some \<lparr>qm_device_id = ''d1'', qm_priority = 7, qm_traffic_class = 3, qm_bandwidth_kbps = 100, qm_latency_ms = 5,
               qm_latency_class = 0, qm_preemption = 1\<rparr>) empty_world)) =
   Inr \<lparr>qos_device_id = ''d1'', qos_priority = 7, qos_traffic_class = 3, qos_bandwidth_kbps = 100,
        qos_latency_ms = 5, qos_preemption = 1\<rparr>"
proof -
  let ?c = "\<lparr>qm_device_id = ''d1'', qm_priority = 7, qm_traffic_class = 3, qm_bandwidth_kbps = 100, qm_latency_ms = 5,
    qm_latency_class = 0, qm_preemption = 1\<rparr>"
  obtain e w' where e: "htsn_qos_manager_configure sql_run \<lparr>mgr_model = ''qos''\<rparr> (Some ''d1'') (Some ?c) empty_world = (e, w')"
    by fastforce
  have "\<not> closed (w_db empty_world)" "fits HTSN_MAX_STR ''d1''" "in_i32 (qm_traffic_class ?c)" "in_i32 (qm_preemption ?c)"
    "htsn_qos_validate (Some ?c) = HTSN_OK"
    by (simp_all add: closed_def empty_world_def empty_db_def fits_def HTSN_MAX_STR_def in_i32_def htsn_qos_validate_def)
  with qos_configure_effect [OF sql_ref.sqlite_axioms _ _ _ _ e] show ?thesis
    by (simp add: e)
qed

lemma group_ids_distinct:
  assumes "list_all group_ok gs" and "distinct (map vg_vlan_id gs)"
  shows "distinct (map vg_id (map htsn_vlan_group_id gs))"
proof -
  have "vg_id (htsn_vlan_group_id g) = ''vlan-'' @ dec_int (vg_vlan_id g)" if "g \<in> set gs" for g
  proof -
    have "nat (vg_vlan_id g) < 10 ^ 4" "0 \<le> vg_vlan_id g"
      using that assms(1) by (auto simp: group_ok_def list_all_iff)
    then have "length (dec_int (vg_vlan_id g)) \<le> 4"
      using length_dec_nat [of "nat (vg_vlan_id g)" 4] by (simp add: dec_int_def)
    then show ?thesis by (simp add: htsn_vlan_group_id_def snprintf_buf_def HTSN_MAX_STR_def)
  qed
  then have "map vg_id (map htsn_vlan_group_id gs) = map (\<lambda>v. ''vlan-'' @ dec_int v) (map vg_vlan_id gs)"
    by simp
  moreover have "inj_on (\<lambda>v. ''vlan-'' @ dec_int v) A" for A by (intro inj_onI) (simp add: dec.enc_inject)
  then have "distinct (map (\<lambda>v. ''vlan-'' @ dec_int v) (map vg_vlan_id gs))"
    unfolding distinct_map [of _ "map vg_vlan_id gs"] using assms(2) by blast
  ultimately show ?thesis by (simp only:)
qed



text \<open>
  Deleting a domain re-homes its devices: for every engine that keeps the SQLite contract,
  after deleting a domain other than \<open>default\<close> no device is left in it, exactly its devices have
  joined the default domain, and every other domain has the devices it had. The default domain cannot be deleted.
\<close>

theorem domain_delete_effect:
  assumes "sqlite E tabs" and "\<not> closed (w_db w)"
    and "htsn_domain_manager_delete E m (Some k) w = (e, w')"
  shows "if k = ''default'' then e = HTSN_ERR_INVALID_ARG \<and> w' = w
    else e = HTSN_OK \<and> htsn_db_device_for_each_in_domain E k (w_db w') = [] \<and>
      length (htsn_db_device_for_each_in_domain E ''default'' (w_db w')) =
        length (htsn_db_device_for_each_in_domain E ''default'' (w_db w)) +
        length (htsn_db_device_for_each_in_domain E k (w_db w)) \<and>
      (\<forall>d. d \<notin> {k, ''default''} \<longrightarrow>
         htsn_db_device_for_each_in_domain E d (w_db w') = htsn_db_device_for_each_in_domain E d (w_db w))"
proof (cases "k = ''default''")
  case True
  then show ?thesis using assms(3) by (simp add: htsn_domain_manager_delete_def)
next
  case False
  then have "e = HTSN_OK" and "w_db w' = db_exec E (Update ''devices'' [(''domain'', L (SText ''default''))] [(''domain'', P 1)]) [SText k]
      (snd (htsn_db_domain_delete E k (w_db w)))"
    using assms(3) by (auto simp: htsn_domain_manager_delete_def Let_def)
  with False sqlite.domain_delete_rehomes [OF assms(1,2) False this(2)] show ?thesis by simp
qed

theorem domain_delete_effect_witness:
  "htsn_db_device_for_each_in_domain sql_run ''lab'' (w_db (snd (htsn_domain_manager_delete sql_run \<lparr>mgr_model = ''domain''\<rparr>
     (Some ''lab'') empty_world))) = []"
  using domain_delete_effect [OF sql_ref.sqlite_axioms, of empty_world "\<lparr>mgr_model = ''domain''\<rparr>" "''lab''"]
  by (cases "htsn_domain_manager_delete sql_run \<lparr>mgr_model = ''domain''\<rparr> (Some ''lab'') empty_world")
    (simp add: closed_def empty_world_def empty_db_def)

end
