(* ===== verification/Config_Version.thy ===== *)
theory Config_Version
  imports Config_Managers
begin

text \<open>
  Versions of the configuration (src/src/config_version/config_version_manager.c): a snapshot writes the rows of the configuration
  tables as tokens separated by blanks, a rollback deletes the tables and reads the tokens back, and a comparison lists the tokens
  in which two versions differ. \<open>sscanf\<close> is modelled for the formats the code uses, as the list of the values it assigns.
  The lemmas show that a statement only changes its own table and the children of it, that a snapshot is the
  sequence of its tokens, that a rollback restores the VLAN configuration and loses the gate control lists, and what a
  comparison prints.
\<close>

section \<open>Serialisation\<close>

definition CFG_PAYLOAD_MAX :: nat where "CFG_PAYLOAD_MAX = 65536"

text \<open>\<open>append_field\<close> with the text \<open>vsnprintf\<close> produces.\<close>

definition append_field :: "nat \<Rightarrow> string \<Rightarrow> string \<Rightarrow> string" where
  "append_field cap buf txt = take (cap - 1) (buf @ txt)"

definition collect_vlan :: "string \<Rightarrow> htsn_vlan_group \<Rightarrow> string" where
  "collect_vlan buf g =
     append_field CFG_PAYLOAD_MAX buf (''vlan:'' @ vg_id g @ '':'' @ dec_int (vg_vlan_id g) @ '' '')"

definition collect_vlan_member :: "string \<Rightarrow> htsn_vlan_member \<Rightarrow> string" where
  "collect_vlan_member buf m =
     append_field CFG_PAYLOAD_MAX buf (''vmem:'' @ vm_group_id m @ '':'' @ vm_device_id m @ '' '')"

definition collect_device :: "string \<Rightarrow> htsn_device \<Rightarrow> string" where
  "collect_device buf d =
     append_field CFG_PAYLOAD_MAX buf (''device:'' @ dev_id d @ '':kind='' @ htsn_device_kind_str (dev_kind d) @ '':domain='' @
       (if dev_domain d \<noteq> [] then dev_domain d else ''default'') @ '' '')"

definition stream_token :: "htsn_stream \<Rightarrow> string" where
  "stream_token s =
     ''stream:'' @ st_stream_id s @ '':'' @ st_talker s @ '':vlan='' @ dec_int (st_vlan_id s) @ '':prio='' @
     dec_int (st_priority s) @ '':lat='' @ dec_int (st_max_latency_ns s) @ '':iv='' @ dec_int (st_max_interval_ns s) @ '':st='' @
     dec_int (stream_status_int (st_status s)) @ '' ''"

definition cfg_collect_stream :: "string \<Rightarrow> htsn_stream \<Rightarrow> string" where
  "cfg_collect_stream buf s =
     (let b1 = append_field CFG_PAYLOAD_MAX buf (stream_token s);
          b2 = foldl (\<lambda>b l. append_field CFG_PAYLOAD_MAX b (''streammem:'' @ st_stream_id s @ '':'' @ l @ '' '')) b1 (st_listeners s)
      in if st_listener_all s then append_field CFG_PAYLOAD_MAX b2 (''streammem:'' @ st_stream_id s @ '':* '') else b2)"

definition collect_tas :: "string \<Rightarrow> htsn_tas_schedule \<Rightarrow> string" where
  "collect_tas buf s =
     (let b1 = append_field CFG_PAYLOAD_MAX buf
            (''tas:'' @ sch_id s @ '':cycle='' @ dec_int (sch_cycle_time_ns s) @ '':tgt='' @ sch_deploy_target s @ '' '')
      in foldl (\<lambda>b (i, e). append_field CFG_PAYLOAD_MAX b
            (''gcl:'' @ sch_id s @ '':'' @ dec_int (int i) @ '':'' @ dec_int (int (unat (gate_state e))) @ '':'' @
             dec_int (duration_ns e) @ '' ''))
          b1 (enumerate 0 (sch_entries s)))"

text \<open>A null pointer formatted with \<open>%s\<close>.\<close>

definition fmt_s :: "string option \<Rightarrow> string" where
  "fmt_s x = (case x of Some t \<Rightarrow> t | None \<Rightarrow> ''(null)'')"

definition qos_token :: "string \<Rightarrow> int \<Rightarrow> int \<Rightarrow> int \<Rightarrow> int \<Rightarrow> string" where
  "qos_token dev p bw lat pre =
     ''qos:'' @ dev @ '':p='' @ dec_int p @ '':bw='' @ dec_int bw @ '':lat='' @ dec_int lat @ '':pre='' @ dec_int pre @ '' ''"

definition serialize_global :: "'h engine \<Rightarrow> 'h htsn_db \<Rightarrow> string" where
  "serialize_global E db =
     (let b1 = foldl collect_device [] (htsn_db_device_for_each E db);
          b2 = foldl collect_vlan b1 (htsn_db_vlan_group_for_each E db);
          b3 = foldl collect_vlan_member b2 (htsn_db_vlan_member_for_each_all E db);
          b4 = foldl cfg_collect_stream b3 (htsn_db_tsn_for_each E db);
          b5 = foldl collect_tas b4 (htsn_db_tas_for_each E db);
          b6 = foldl (\<lambda>b r. append_field CFG_PAYLOAD_MAX b
                  (qos_token (fmt_s (column_text r 0)) (column_int r 1) (column_int r 2) (column_int r 3) (column_int r 4)))
                 b5 (db_rows E (Select [''device_id'', ''priority'', ''bandwidth_kbps'', ''latency_ms'', ''preemption'']
                       ''qos_configs'' [] Unordered None None) [] db)
      in append_field CFG_PAYLOAD_MAX b6 ''pre:preemption:emac=:pmac= '')"

definition serialize_device :: "'h engine \<Rightarrow> string \<Rightarrow> 'h htsn_db \<Rightarrow> string" where
  "serialize_device E device_id db =
     (let b1 = foldl (\<lambda>b r. append_field CFG_PAYLOAD_MAX b
                  (qos_token device_id (column_int r 0) (column_int r 1) (column_int r 2) (column_int r 3)))
                 [] (db_rows E (Select [''priority'', ''bandwidth_kbps'', ''latency_ms'', ''preemption''] ''qos_configs''
                       [(''device_id'', P 1)] Unordered None None) [SText device_id] db);
          b2 = foldl (\<lambda>b r. append_field CFG_PAYLOAD_MAX b (''vmem:'' @ fmt_s (column_text r 0) @ '':'' @ device_id @ '' ''))
                 b1 (db_rows E (Select [''group_id''] ''vlan_members'' [(''device_id'', P 1)] Unordered None None)
                       [SText device_id] db)
      in foldl (\<lambda>b r. append_field CFG_PAYLOAD_MAX b (''streammem:'' @ fmt_s (column_text r 0) @ '':'' @ device_id @ '' ''))
           b2 (db_rows E (Select [''stream_id''] ''tsn_stream_members'' [(''device_id'', P 1)] Unordered None None)
                 [SText device_id] db))"

definition serialize_scope :: "'h engine \<Rightarrow> string option \<Rightarrow> 'h htsn_db \<Rightarrow> string" where
  "serialize_scope E devo db =
     (case devo of
        Some d \<Rightarrow> if d \<noteq> [] then serialize_device E d db else serialize_global E db
      | None \<Rightarrow> serialize_global E db)"

section \<open>Restoring\<close>

text \<open>
  A format of \<open>sscanf\<close> and the values it assigns: a literal or a failing conversion ends the scan,
  and the result is the number of values.
\<close>

datatype conv = Lit string | Conv_d | Conv_lld | Conv_upto | Conv_s

datatype scanned = Num int | Txt string

fun sscanf :: "conv list \<Rightarrow> string \<Rightarrow> scanned list" where
  "sscanf [] s = []"
| "sscanf (Lit l # cs) s = (case scan_lit l s of None \<Rightarrow> [] | Some r \<Rightarrow> sscanf cs r)"
| "sscanf (Conv_d # cs) s = (case scan_d s of None \<Rightarrow> [] | Some (i, r) \<Rightarrow> Num i # sscanf cs r)"
| "sscanf (Conv_lld # cs) s = (case scan_lld s of None \<Rightarrow> [] | Some (i, r) \<Rightarrow> Num i # sscanf cs r)"
| "sscanf (Conv_upto # cs) s = (case scan_upto (CHR '':'') s of None \<Rightarrow> [] | Some (t, r) \<Rightarrow> Txt t # sscanf cs r)"
| "sscanf (Conv_s # cs) s = (case scan_word s of None \<Rightarrow> [] | Some (t, r) \<Rightarrow> Txt t # sscanf cs r)"

text \<open>A variable of the caller after the scan: 0 or the empty string when it was not assigned.\<close>

definition num_at :: "scanned list \<Rightarrow> nat \<Rightarrow> int" where
  "num_at vs i = (if i < length vs then (case vs ! i of Num n \<Rightarrow> n | Txt _ \<Rightarrow> 0) else 0)"

definition txt_at :: "scanned list \<Rightarrow> nat \<Rightarrow> string" where
  "txt_at vs i = (if i < length vs then (case vs ! i of Txt t \<Rightarrow> t | Num _ \<Rightarrow> []) else [])"

definition restore_qos :: "'h engine \<Rightarrow> string \<Rightarrow> int \<Rightarrow> int \<Rightarrow> int \<Rightarrow> int \<Rightarrow> 'h htsn_db \<Rightarrow> htsn_error \<times> 'h htsn_db" where
  "restore_qos E tdev p bw lat pre db =
     db_do E (Insert Replace ''qos_configs''
         [''device_id'', ''priority'', ''traffic_class'', ''bandwidth_kbps'', ''latency_ms'', ''preemption'']
         [P 1, P 2, P 3, P 4, P 5, P 6])
       [SText tdev, SInt p, SInt p, SInt bw, SInt lat, SInt pre] db"

definition exec_del :: "'h engine \<Rightarrow> string \<Rightarrow> string option \<Rightarrow> 'h htsn_db \<Rightarrow> 'h htsn_db" where
  "exec_del E tbl arg db =
     (case arg of
        Some d \<Rightarrow> db_exec E (Delete tbl [(''device_id'', P 1)]) [SText d] db
      | None \<Rightarrow> db_exec E (Delete tbl []) [] db)"

definition starts :: "string \<Rightarrow> string \<Rightarrow> bool" where
  "starts lit tok \<longleftrightarrow> take (length lit) tok = lit"

text \<open>The body of the loop over the tokens.\<close>

definition restore_token :: "'h engine \<Rightarrow> string \<Rightarrow> 'h htsn_db \<Rightarrow> string \<Rightarrow> 'h htsn_db" where
  "restore_token E device_id db tok =
     (if starts ''qos:p='' tok then
        (let v = sscanf [Lit ''qos:p='', Conv_d, Lit '':bw='', Conv_d, Lit '':lat='', Conv_d, Lit '':pre='', Conv_d] tok
         in if length v \<ge> 1
            then snd (restore_qos E (if device_id \<noteq> [] then device_id else ''default'')
                   (num_at v 0) (num_at v 1) (num_at v 2) (num_at v 3) db)
            else db)
      else if starts ''qos:'' tok then
        (let v = sscanf [Lit ''qos:'', Conv_upto, Lit '':p='', Conv_d, Lit '':bw='', Conv_d, Lit '':lat='', Conv_d,
                   Lit '':pre='', Conv_d] tok
         in if length v = 5 then snd (restore_qos E (txt_at v 0) (num_at v 1) (num_at v 2) (num_at v 3) (num_at v 4) db)
            else db)
      else if starts ''vlan:'' tok then
        (let v = sscanf [Lit ''vlan:'', Conv_upto, Lit '':'', Conv_d] tok
         in if length v = 2 \<and> txt_at v 0 \<noteq> [] \<and> num_at v 1 > 0
            then db_exec E (Insert Replace ''vlan_groups'' [''id'', ''name'', ''vlan_id''] [P 1, P 2, P 3])
                   [SText (txt_at v 0), SText (txt_at v 0), SInt (num_at v 1)] db
            else db)
      else if starts ''vmem:'' tok then
        (let v = sscanf [Lit ''vmem:'', Conv_upto, Lit '':'', Conv_upto] tok
         in if length v = 2
            then db_exec E (Insert Ignore ''vlan_members'' [''group_id'', ''device_id''] [P 1, P 2])
                   [SText (txt_at v 0), SText (txt_at v 1)] db
            else db)
      else if starts ''stream:'' tok then
        (let v = sscanf [Lit ''stream:'', Conv_upto, Lit '':'', Conv_upto, Lit '':vlan='', Conv_d, Lit '':prio='', Conv_d,
                   Lit '':lat='', Conv_lld, Lit '':iv='', Conv_lld, Lit '':st='', Conv_d] tok
         in if length v \<ge> 4
            then db_exec E (Insert Replace ''tsn_streams'' stream_cols
                     [P 1, P 2, P 3, P 4, P 5, P 6, P 7, P 8, P 9, L (SText [])])
                   [SText (txt_at v 0), SText (txt_at v 0), SText (txt_at v 1), SInt (num_at v 2), SInt (num_at v 4),
                    SInt (num_at v 5), SInt (num_at v 3), SInt (num_at v 3), SInt (num_at v 6)] db
            else db)
      else if starts ''streammem:'' tok then
        (let v = sscanf [Lit ''streammem:'', Conv_upto, Lit '':'', Conv_upto] tok
         in if length v = 2
            then db_exec E (Insert Ignore ''tsn_stream_members'' [''stream_id'', ''role'', ''device_id''] [P 1, P 2, P 3])
                   [SText (txt_at v 0), SText ''listener'', SText (txt_at v 1)] db
            else db)
      else if starts ''tas:'' tok then
        (let v = sscanf [Lit ''tas:'', Conv_upto, Lit '':cycle='', Conv_lld, Lit '':tgt='', Conv_s] tok
         in if length v \<ge> 2
            then db_exec E (Insert Replace ''tas_schedules'' [''id'', ''name'', ''cycle_time_ns'', ''deploy_target'']
                     [P 1, P 2, P 3, P 4])
                   [SText (txt_at v 0), SText (txt_at v 0), SInt (num_at v 1), SText (txt_at v 2)] db
            else db)
      else if starts ''gcl:'' tok then
        (let v = sscanf [Lit ''gcl:'', Conv_upto, Lit '':'', Conv_d, Lit '':'', Conv_d, Lit '':'', Conv_lld] tok
         in if length v = 4
            then db_exec E (Insert Replace ''gcl_entries'' [''schedule_id'', ''index'', ''gate_state'', ''duration_ns'']
                     [P 1, P 2, P 3, P 4])
                   [SText (txt_at v 0), SInt (num_at v 1), SInt (num_at v 2), SInt (num_at v 3)] db
            else db)
      else db)"

definition config_tables :: "string list" where
  "config_tables = [''qos_configs'', ''vlan_members'', ''vlan_groups'', ''tsn_streams'', ''tsn_stream_members'', ''tas_schedules'',
     ''gcl_entries'']"

definition restore_payload :: "'h engine \<Rightarrow> string \<Rightarrow> string \<Rightarrow> 'h htsn_db \<Rightarrow> htsn_error \<times> 'h htsn_db" where
  "restore_payload E payload device_id db =
     (let db1 = (if device_id \<noteq> []
                 then foldl (\<lambda>b t. exec_del E t (Some device_id) b) db [''qos_configs'', ''vlan_members'', ''tsn_stream_members'']
                 else foldl (\<lambda>b t. exec_del E t None b) db config_tables)
      in (HTSN_OK, foldl (restore_token E device_id) db1 (strtok_all (CHR '' '') (cpy CFG_PAYLOAD_MAX (Some payload)))))"

section \<open>The manager\<close>

definition htsn_cfg_ver_manager_create :: "'h world \<Rightarrow> htsn_manager option" where
  "htsn_cfg_ver_manager_create = manager_create ''config_version''"

definition htsn_cfg_ver_snapshot ::
  "'h engine \<Rightarrow> int \<Rightarrow> htsn_manager \<Rightarrow> string option \<Rightarrow> string option \<Rightarrow> 'h world \<Rightarrow> htsn_error \<times> 'h world" where
  "htsn_cfg_ver_snapshot E now m nameo devo w =
     (case nameo of
        None \<Rightarrow> (HTSN_ERR_INVALID_ARG, w)
      | Some name \<Rightarrow>
          (HTSN_OK, mgr_notify m ''changed'' (w_with_db (htsn_db_config_version_add E now (Some name)
             (Some (case devo of Some d \<Rightarrow> d | None \<Rightarrow> [])) (Some (serialize_scope E devo (w_db w)))) w)))"

definition htsn_cfg_ver_rollback :: "'h engine \<Rightarrow> htsn_manager \<Rightarrow> int \<Rightarrow> 'h world \<Rightarrow> htsn_error \<times> 'h world" where
  "htsn_cfg_ver_rollback E m key w =
     (case htsn_db_config_version_get E key (w_db w) of
        Inl _ \<Rightarrow> (HTSN_ERR_NOT_FOUND, w)
      | Inr v \<Rightarrow>
          (let (e, db) = restore_payload E (cv_payload v) (cv_device_id v) (w_db w)
           in if e \<noteq> HTSN_OK then (e, w\<lparr>w_db := db\<rparr>)
              else (HTSN_OK, mgr_notify m ''changed'' (w\<lparr>w_db := db\<rparr>))))"

text \<open>
  The output of a comparison is the offset \<open>off\<close> and the text in the buffer. \<open>None\<close>: \<open>off\<close> has passed the end of the
  buffer, the remaining size wraps around and \<open>snprintf\<close> writes behind it.
\<close>

definition put_line :: "nat \<Rightarrow> string \<Rightarrow> nat \<times> string \<Rightarrow> (nat \<times> string) option" where
  "put_line out_size line st =
     (case st of (off, out) \<Rightarrow>
        if off > out_size then None else Some (off + length line, take (out_size - 1) (out @ line)))"

fun diff_rows :: "nat \<Rightarrow> string \<Rightarrow> nat \<Rightarrow> string list \<Rightarrow> string list \<Rightarrow> nat \<times> nat \<times> string \<Rightarrow> (nat \<times> nat \<times> string) option" where
  "diff_rows out_size sign lim [] other st = Some st"
| "diff_rows out_size sign lim (r # rs) other (shown, st) =
     (if shown \<ge> lim then Some (shown, st)
      else if r \<in> set other then diff_rows out_size sign lim rs other (shown, st)
      else
        (case put_line out_size (sign @ r @ [newline]) st of
           None \<Rightarrow> None
         | Some st' \<Rightarrow> diff_rows out_size sign lim rs other (Suc shown, st')))"

definition payload_of :: "'h engine \<Rightarrow> int \<Rightarrow> 'h htsn_db \<Rightarrow> string" where
  "payload_of E key db = (case htsn_db_config_version_get E key db of Inl _ \<Rightarrow> [] | Inr v \<Rightarrow> cv_payload v)"

definition htsn_cfg_ver_diff :: "'h engine \<Rightarrow> int \<Rightarrow> int \<Rightarrow> nat \<Rightarrow> 'h world \<Rightarrow> (htsn_error \<times> string) option" where
  "htsn_cfg_ver_diff E id_a id_b out_size w =
     (if out_size = 0 then Some (HTSN_ERR_INVALID_ARG, [])
      else
        (let pa = payload_of E id_a (w_db w); pb = payload_of E id_b (w_db w)
         in if pa = pb then Some (HTSN_OK, snprintf_buf out_size ''no differences'')
            else
              (let maxl = out_size div 22;
                   arow = take 1024 (strtok_all (CHR '' '') pa); brow = take 1024 (strtok_all (CHR '' '') pb)
               in case diff_rows out_size ''- '' (maxl div 2) arow brow (0, 0, []) of
                    None \<Rightarrow> None
                  | Some st1 \<Rightarrow>
                      (case diff_rows out_size ''+ '' maxl brow arow st1 of
                         None \<Rightarrow> None
                       | Some (_, off, out) \<Rightarrow>
                           Some (HTSN_OK, if off = 0
                             then snprintf_buf out_size (''versions differ (v'' @ dec_int id_a @ '' vs v'' @ dec_int id_b @ '')'')
                             else out)))))"

definition htsn_cfg_ver_count :: "'h engine \<Rightarrow> 'h world \<Rightarrow> int" where
  "htsn_cfg_ver_count E w = htsn_db_config_version_count E (w_db w)"

definition htsn_cfg_ver_for_each :: "'h engine \<Rightarrow> 'h world \<Rightarrow> htsn_config_version list" where
  "htsn_cfg_ver_for_each E w = htsn_db_config_version_for_each E (w_db w)"

section \<open>Tables a statement leaves alone\<close>

definition trows :: "tables htsn_db \<Rightarrow> string \<Rightarrow> row list" where
  "trows db t = (case handle db of None \<Rightarrow> [] | Some T \<Rightarrow> rows T t)"

text \<open>\<open>u\<close> is a child table of \<open>t\<close>.\<close>

definition refers :: "string \<Rightarrow> string \<Rightarrow> bool" where
  "refers u t \<longleftrightarrow> (case map_of schema u of None \<Rightarrow> False | Some td \<Rightarrow>
     (case td_fk td of None \<Rightarrow> False | Some (c, par, pc) \<Rightarrow> par = t))"

lemma rows_cascade_frame: "\<not> refers u t \<Longrightarrow> rows (cascade t dead T) u = rows T u"
  by (auto simp: cascade_def refers_def split: option.splits prod.splits)

lemma rows_delete_frame: "u \<noteq> t \<Longrightarrow> \<not> refers u t \<Longrightarrow> rows (delete_rows t Q T) u = rows T u"
  by (simp add: delete_rows_def rows_cascade_frame)

lemma rows_insert_frame:
  "u \<noteq> t \<Longrightarrow> \<not> refers u t \<Longrightarrow> rows (snd (sql_insert conf t td kvs T)) u = rows T u"
  by (simp add: sql_insert_def Let_def rows_delete_frame split: conflict.splits)

lemma rows_exec_frame:
  assumes "u \<noteq> stmt_table st" and "\<not> refers u (stmt_table st)" and "sql_exec st td ps T = (d, rs, T')"
  shows "rows T' u = rows T u"
proof (cases st)
  case (Insert conf t cols vals)
  with assms have "T' = snd (sql_insert conf t td (zip cols (map (sexp_val ps) vals)) T)"
    by (auto simp: sql_exec_def split: prod.splits)
  with assms Insert show ?thesis by (simp add: rows_insert_frame)
qed (use assms in \<open>auto simp: sql_exec_def Let_def rows_delete_frame split: if_splits\<close>)

lemma trows_exec_frame [simp]:
  assumes "u \<noteq> stmt_table st" and "\<not> refers u (stmt_table st)"
  shows "trows (db_exec sql_run st ps db) u = trows db u"
  using rows_exec_frame [OF assms]
  by (fastforce simp: trows_def db_exec_def db_run_def sql_run_def split: option.splits prod.splits if_splits)

lemma closed_exec [simp]: "closed (db_exec sql_run st ps db) = closed db"
  by (auto simp: closed_def db_exec_def db_run_def split: option.splits prod.splits)

lemma db_do_exec: "snd (db_do E st ps db) = db_exec E st ps db"
  by (auto simp: db_do_def db_exec_def split: option.splits prod.splits)

lemma trows_delete_all:
  assumes "sql_prepares (Delete t [])" and "\<not> refers t t"
  shows "trows (db_exec sql_run (Delete t []) [] db) t = []"
proof -
  obtain td where "map_of schema t = Some td" using assms(1) by (auto simp: sql_prepares_def split: option.splits)
  with assms show ?thesis
    by (auto simp: trows_def db_exec_def db_run_def sql_run_def sql_exec_def delete_rows_def rows_cascade_frame row_where_def
        split: option.splits)
qed

section \<open>Restoring tables\<close>

lemma sql_prep_cfg [sql_prep]:
  "sql_prepares (Insert Replace ''vlan_groups'' [''id'', ''name'', ''vlan_id''] [P 1, P 2, P 3])"
  "sql_prepares (Insert Ignore ''vlan_members'' [''group_id'', ''device_id''] [P 1, P 2])"
  "\<not> sql_prepares (Insert Replace ''gcl_entries'' [''schedule_id'', ''index'', ''gate_state'', ''duration_ns''] [P 1, P 2, P 3, P 4])"
  "sql_prepares (Delete ''vlan_groups'' [])" "sql_prepares (Delete ''vlan_members'' [])" "sql_prepares (Delete ''gcl_entries'' [])"
  by code_simp+

lemma refers_schema:
  "\<not> refers ''vlan_groups'' t" "\<not> refers ''vlan_members'' t" "refers ''gcl_entries'' t \<longleftrightarrow> t = ''tas_schedules''"
  by (auto simp: refers_def schema_def plain_table_def)

lemma closed_restore_token [simp]: "closed (restore_token sql_run d db tok) = closed db"
  by (simp add: restore_token_def restore_qos_def db_do_exec Let_def)

lemma restore_token_frame:
  "\<not> starts ''vlan:'' tok \<Longrightarrow> trows (restore_token sql_run d db tok) ''vlan_groups'' = trows db ''vlan_groups''"
  "\<not> starts ''vmem:'' tok \<Longrightarrow> trows (restore_token sql_run d db tok) ''vlan_members'' = trows db ''vlan_members''"
  by (simp_all add: restore_token_def restore_qos_def db_do_exec Let_def refers_schema)

lemma restore_tokens_frame:
  "list_all (\<lambda>t. \<not> starts ''vlan:'' t) ts \<Longrightarrow>
     trows (foldl (restore_token sql_run d) db ts) ''vlan_groups'' = trows db ''vlan_groups''"
  "list_all (\<lambda>t. \<not> starts ''vmem:'' t) ts \<Longrightarrow>
     trows (foldl (restore_token sql_run d) db ts) ''vlan_members'' = trows db ''vlan_members''"
  by (induction ts arbitrary: db) (simp_all add: restore_token_frame)

lemma closed_restore_tokens [simp]: "closed (foldl (restore_token sql_run d) db ts) = closed db"
  by (induction ts arbitrary: db) simp_all

section \<open>A snapshot as a sequence of tokens\<close>

text \<open>A step that appends to the payload, as long as the result is shorter than the buffer.\<close>

definition appends :: "(string \<Rightarrow> 'a \<Rightarrow> string) \<Rightarrow> ('a \<Rightarrow> string) \<Rightarrow> bool" where
  "appends g f \<longleftrightarrow> (\<forall>b x. Suc (length (g b x)) < CFG_PAYLOAD_MAX \<longrightarrow> g b x = b @ f x)"

lemma append_field_short:
  "Suc (length (append_field cap b x)) < cap \<Longrightarrow> append_field cap b x = b @ x"
  by (auto simp: append_field_def min_def split: if_splits)

lemma appends_field [intro]: "appends (\<lambda>b x. append_field CFG_PAYLOAD_MAX b (f x)) f"
  by (auto simp: appends_def dest: append_field_short)

lemma appends_fold:
  assumes "appends g f" and "Suc (length (foldl g b xs)) < CFG_PAYLOAD_MAX"
  shows "foldl g b xs = b @ concat (map f xs)"
  using assms(2)
proof (induction xs rule: rev_induct)
  case (snoc x xs)
  then have "g (foldl g b xs) x = foldl g b xs @ f x" using assms(1) by (simp add: appends_def)
  with snoc show ?case by simp
qed simp

definition sep :: "string list \<Rightarrow> string" where
  "sep ts = concat (map (\<lambda>t. t @ '' '') ts)"

lemma sep_simps [simp]: "sep [] = []" "sep (t # ts) = t @ '' '' @ sep ts" "sep (ts @ us) = sep ts @ sep us"
  by (simp_all add: sep_def)

definition device_tok :: "htsn_device \<Rightarrow> string" where
  "device_tok d = ''device:'' @ dev_id d @ '':kind='' @ htsn_device_kind_str (dev_kind d) @ '':domain='' @
     (if dev_domain d \<noteq> [] then dev_domain d else ''default'')"

definition vlan_tok :: "htsn_vlan_group \<Rightarrow> string" where
  "vlan_tok g = ''vlan:'' @ vg_id g @ '':'' @ dec_int (vg_vlan_id g)"

definition vmem_tok :: "htsn_vlan_member \<Rightarrow> string" where
  "vmem_tok m = ''vmem:'' @ vm_group_id m @ '':'' @ vm_device_id m"

definition stream_toks :: "htsn_stream \<Rightarrow> string list" where
  "stream_toks s = butlast (stream_token s) # map (\<lambda>l. ''streammem:'' @ st_stream_id s @ '':'' @ l) (st_listeners s) @
     (if st_listener_all s then [''streammem:'' @ st_stream_id s @ '':*''] else [])"

definition qos_tok :: "sqlval list \<Rightarrow> string" where
  "qos_tok r = butlast (qos_token (fmt_s (column_text r 0)) (column_int r 1) (column_int r 2) (column_int r 3) (column_int r 4))"

definition qos_rows :: "'h engine \<Rightarrow> 'h htsn_db \<Rightarrow> sqlval list list" where
  "qos_rows E db = db_rows E (Select [''device_id'', ''priority'', ''bandwidth_kbps'', ''latency_ms'', ''preemption'']
     ''qos_configs'' [] Unordered None None) [] db"

definition serial_tokens :: "'h engine \<Rightarrow> 'h htsn_db \<Rightarrow> string list" where
  "serial_tokens E db =
     map device_tok (htsn_db_device_for_each E db) @ map vlan_tok (htsn_db_vlan_group_for_each E db) @
     map vmem_tok (htsn_db_vlan_member_for_each_all E db) @ concat (map stream_toks (htsn_db_tsn_for_each E db)) @
     map qos_tok (qos_rows E db) @ [''pre:preemption:emac=:pmac='']"

lemma butlast_blank: "butlast (x @ '' '') @ '' '' = x @ '' ''"
  by simp

lemma stream_token_blank: "butlast (stream_token s) @ '' '' = stream_token s"
  by (simp add: stream_token_def butlast_append)

lemma qos_token_blank: "butlast (qos_token d p b l r) @ '' '' = qos_token d p b l r"
  by (simp add: qos_token_def butlast_append)

lemma collect_appends:
  "appends collect_device (\<lambda>d. sep [device_tok d])" "appends collect_vlan (\<lambda>g. sep [vlan_tok g])"
  "appends collect_vlan_member (\<lambda>m. sep [vmem_tok m])"
  by (auto simp: appends_def collect_device_def collect_vlan_def collect_vlan_member_def device_tok_def vlan_tok_def vmem_tok_def
      dest: append_field_short)

lemma collect_stream_appends: "appends cfg_collect_stream (\<lambda>s. sep (stream_toks s))"
  unfolding appends_def
proof (intro allI impI)
  fix b s assume a: "Suc (length (cfg_collect_stream b s)) < CFG_PAYLOAD_MAX"
  let ?m = "\<lambda>l. ''streammem:'' @ st_stream_id s @ '':'' @ l @ '' ''"
  let ?b1 = "append_field CFG_PAYLOAD_MAX b (stream_token s)"
  let ?b2 = "foldl (\<lambda>b l. append_field CFG_PAYLOAD_MAX b (?m l)) ?b1 (st_listeners s)"
  have e: "cfg_collect_stream b s = ?b2 @ (if st_listener_all s then ''streammem:'' @ st_stream_id s @ '':* '' else [])"
    using a by (auto simp: cfg_collect_stream_def Let_def dest: append_field_short)
  have l2: "Suc (length ?b2) < CFG_PAYLOAD_MAX" using a unfolding e by simp
  have e2: "?b2 = ?b1 @ concat (map ?m (st_listeners s))" by (rule appends_fold [OF appends_field l2])
  have "Suc (length ?b1) < CFG_PAYLOAD_MAX" using l2 unfolding e2 by simp
  then have e1: "?b1 = b @ stream_token s" by (rule append_field_short)
  have c: "concat (map ?m ls) = sep (map (\<lambda>l. ''streammem:'' @ st_stream_id s @ '':'' @ l) ls)" for ls
    by (induction ls) simp_all
  obtain t where t: "stream_token s = t @ '' ''" using stream_token_blank [of s] by metis
  show "cfg_collect_stream b s = b @ sep (stream_toks s)"
    unfolding e unfolding e2 unfolding e1 c by (simp add: stream_toks_def t butlast_append)
qed

lemma sep_concat: "concat (map (\<lambda>x. sep (f x)) xs) = sep (concat (map f xs))"
  by (induction xs) simp_all

lemma tas_for_each_none: "sqlite E tabs \<Longrightarrow> htsn_db_tas_for_each E db = []"
proof -
  assume s: "sqlite E tabs"
  have "\<exists>e. htsn_db_tas_load E k db = Inl e" for k
    using sqlite.unprepared [OF s sql_unprepared(1)]
    by (auto simp: htsn_db_tas_load_def split: option.splits list.splits)
  then show ?thesis by (auto simp: htsn_db_tas_for_each_def split: sum.splits) (metis sum.distinct(1))
qed

lemma serialize_global_tokens:
  assumes "sqlite E tabs" and "Suc (length (serialize_global E db)) < CFG_PAYLOAD_MAX"
  shows "serialize_global E db = sep (serial_tokens E db)"
proof -
  let ?b1 = "foldl collect_device [] (htsn_db_device_for_each E db)"
  let ?b2 = "foldl collect_vlan ?b1 (htsn_db_vlan_group_for_each E db)"
  let ?b3 = "foldl collect_vlan_member ?b2 (htsn_db_vlan_member_for_each_all E db)"
  let ?b4 = "foldl cfg_collect_stream ?b3 (htsn_db_tsn_for_each E db)"
  let ?b6 = "foldl (\<lambda>b r. append_field CFG_PAYLOAD_MAX b (sep [qos_tok r])) ?b4 (qos_rows E db)"
  have q: "sep [qos_tok r] = qos_token (fmt_s (column_text r 0)) (column_int r 1) (column_int r 2) (column_int r 3) (column_int r 4)" for r
    by (simp add: qos_tok_def qos_token_blank)
  have s: "serialize_global E db = append_field CFG_PAYLOAD_MAX ?b6 ''pre:preemption:emac=:pmac= ''"
    by (simp add: serialize_global_def tas_for_each_none [OF assms(1)] q qos_rows_def Let_def del: sep_simps)
  have e6: "serialize_global E db = ?b6 @ ''pre:preemption:emac=:pmac= ''"
    using assms(2) unfolding s by (rule append_field_short)
  then have "Suc (length ?b6) < CFG_PAYLOAD_MAX" using assms(2) by simp
  from appends_fold [OF appends_field this] have e4: "?b6 = ?b4 @ concat (map (\<lambda>r. sep [qos_tok r]) (qos_rows E db))" .
  then have "Suc (length ?b4) < CFG_PAYLOAD_MAX" using \<open>Suc (length ?b6) < _\<close> by simp
  from appends_fold [OF collect_stream_appends this] have e3: "?b4 = ?b3 @ concat (map (\<lambda>s. sep (stream_toks s)) (htsn_db_tsn_for_each E db))" .
  then have "Suc (length ?b3) < CFG_PAYLOAD_MAX" using \<open>Suc (length ?b4) < _\<close> by simp
  from appends_fold [OF collect_appends(3) this] have e2: "?b3 = ?b2 @ concat (map (\<lambda>m. sep [vmem_tok m]) (htsn_db_vlan_member_for_each_all E db))" .
  then have "Suc (length ?b2) < CFG_PAYLOAD_MAX" using \<open>Suc (length ?b3) < _\<close> by simp
  from appends_fold [OF collect_appends(2) this] have e1: "?b2 = ?b1 @ concat (map (\<lambda>g. sep [vlan_tok g]) (htsn_db_vlan_group_for_each E db))" .
  then have "Suc (length ?b1) < CFG_PAYLOAD_MAX" using \<open>Suc (length ?b2) < _\<close> by simp
  from appends_fold [OF collect_appends(1) this] have e0: "?b1 = concat (map (\<lambda>d. sep [device_tok d]) (htsn_db_device_for_each E db))" by simp
  have m: "concat (map (\<lambda>x. [f x]) xs) = map f xs" for f :: "'z \<Rightarrow> string" and xs by (induction xs) simp_all
  show ?thesis
    unfolding e6 unfolding e4 unfolding e3 unfolding e2 unfolding e1 unfolding e0 sep_concat m
    by (simp add: serial_tokens_def)
qed

section \<open>Restoring the VLAN configuration\<close>

text \<open>An identifier that \<open>%255[^:]\<close> reads back.\<close>

definition id_ok :: "string \<Rightarrow> bool" where
  "id_ok x \<longleftrightarrow> x \<noteq> [] \<and> CHR '':'' \<notin> set x \<and> fits HTSN_MAX_STR x"

lemma scan_upto_id: "id_ok x \<Longrightarrow> scan_upto (CHR '':'') (x @ CHR '':'' # r) = Some (x, CHR '':'' # r)"
  by (rule scan_upto_append) (auto simp: id_ok_def fits_def HTSN_MAX_STR_def)

lemma scan_upto_id_end: "id_ok x \<Longrightarrow> scan_upto (CHR '':'') x = Some (x, [])"
  by (rule scan_upto_end) (auto simp: id_ok_def fits_def HTSN_MAX_STR_def)

lemma scan_lit_Cons: "scan_lit [c] (c # r) = Some r" by (simp add: scan_lit_def)

lemma scan_d_end: "in_i32 i \<Longrightarrow> scan_d (dec_int i) = Some (i, [])"
  using scan_d_dec_int [of i "[]"] by (simp add: no_digit_ahead_def)

lemma restore_vlan_tok:
  assumes "id_ok (vg_id g)" and "0 < vg_vlan_id g" and "in_i32 (vg_vlan_id g)"
  shows "restore_token E d db (vlan_tok g) =
    db_exec E (Insert Replace ''vlan_groups'' [''id'', ''name'', ''vlan_id''] [P 1, P 2, P 3])
      [SText (vg_id g), SText (vg_id g), SInt (vg_vlan_id g)] db"
proof -
  have "sscanf [Lit ''vlan:'', Conv_upto, Lit '':'', Conv_d] (vlan_tok g) = [Txt (vg_id g), Num (vg_vlan_id g)]"
    using assms scan_lit_append [of "''vlan:''"] by (simp add: vlan_tok_def scan_upto_id scan_lit_Cons scan_d_end)
  then show ?thesis
    using assms by (simp add: restore_token_def starts_def vlan_tok_def id_ok_def num_at_def txt_at_def)
qed

lemma restore_vmem_tok:
  assumes "id_ok (vm_group_id m)" and "id_ok (vm_device_id m)"
  shows "restore_token E d db (vmem_tok m) =
    db_exec E (Insert Ignore ''vlan_members'' [''group_id'', ''device_id''] [P 1, P 2])
      [SText (vm_group_id m), SText (vm_device_id m)] db"
proof -
  have "sscanf [Lit ''vmem:'', Conv_upto, Lit '':'', Conv_upto] (vmem_tok m) = [Txt (vm_group_id m), Txt (vm_device_id m)]"
    using assms scan_lit_append [of "''vmem:''"] by (simp add: vmem_tok_def scan_upto_id scan_upto_id_end scan_lit_Cons)
  then show ?thesis
    using assms by (simp add: restore_token_def starts_def vmem_tok_def num_at_def txt_at_def)
qed

definition restored_group :: "htsn_vlan_group \<Rightarrow> row" where
  "restored_group g = (\<lambda>_. SNull)(''id'' := SText (vg_id g), ''name'' := SText (vg_id g), ''vlan_id'' := SInt (vg_vlan_id g))"

definition restored_member :: "htsn_vlan_member \<Rightarrow> row" where
  "restored_member m = (\<lambda>_. SNull)(''group_id'' := SText (vm_group_id m), ''device_id'' := SText (vm_device_id m))"

lemma schema_vlan_members: "map_of schema ''vlan_members'' = Some (plain_table [''group_id'', ''device_id''] [])"
  by (simp add: schema_def)

lemma insert_group:
  assumes "\<not> closed db" and "\<forall>r \<in> set (trows db ''vlan_groups''). r ''id'' \<noteq> SText (vg_id g)"
  shows "trows (db_exec sql_run (Insert Replace ''vlan_groups'' [''id'', ''name'', ''vlan_id''] [P 1, P 2, P 3])
      [SText (vg_id g), SText (vg_id g), SInt (vg_vlan_id g)] db) ''vlan_groups'' = trows db ''vlan_groups'' @ [restored_group g]"
proof -
  obtain T where T: "handle db = Some T" using assms(1) by (auto simp: closed_def)
  let ?td = "plain_table [''id'', ''name'', ''vlan_id''] [''id'']"
  have n: "new_row ?td n [(''id'', SText (vg_id g)), (''name'', SText (vg_id g)), (''vlan_id'', SInt (vg_vlan_id g))] = restored_group g" for n
    by (simp add: new_row_def restored_group_def)
  have "\<not> list_ex (same_key ?td (restored_group g)) (rows T ''vlan_groups'')"
    using assms(2) T by (auto simp: list_ex_iff same_key_def restored_group_def trows_def)
  then have "sql_exec (Insert Replace ''vlan_groups'' [''id'', ''name'', ''vlan_id''] [P 1, P 2, P 3]) ?td
      [SText (vg_id g), SText (vg_id g), SInt (vg_vlan_id g)] T =
      (True, [], put_rows ''vlan_groups'' (rows T ''vlan_groups'' @ [restored_group g]) T)"
    by (simp add: sql_exec_def sexp_val_def sql_insert_def n check_ok_def fk_ok_def numeral_3_eq_3 numeral_2_eq_2)
  from db_run_ref [OF T sql_prep_cfg(1) _ this] T show ?thesis
    by (simp add: db_exec_def trows_def schema_vlan)
qed

lemma insert_vmem:
  assumes "\<not> closed db"
  shows "trows (db_exec sql_run (Insert Ignore ''vlan_members'' [''group_id'', ''device_id''] [P 1, P 2])
      [SText (vm_group_id m), SText (vm_device_id m)] db) ''vlan_members'' = trows db ''vlan_members'' @ [restored_member m]"
proof -
  obtain T where T: "handle db = Some T" using assms(1) by (auto simp: closed_def)
  let ?td = "plain_table [''group_id'', ''device_id''] []"
  have n: "new_row ?td n [(''group_id'', SText (vm_group_id m)), (''device_id'', SText (vm_device_id m))] = restored_member m" for n
    by (simp add: new_row_def restored_member_def)
  have "\<not> list_ex (same_key ?td (restored_member m)) (rows T ''vlan_members'')"
    by (simp add: list_ex_iff same_key_def)
  then have "sql_exec (Insert Ignore ''vlan_members'' [''group_id'', ''device_id''] [P 1, P 2]) ?td
      [SText (vm_group_id m), SText (vm_device_id m)] T =
      (True, [], put_rows ''vlan_members'' (rows T ''vlan_members'' @ [restored_member m]) T)"
    by (simp add: sql_exec_def sexp_val_def sql_insert_def n check_ok_def fk_ok_def numeral_2_eq_2)
  from db_run_ref [OF T sql_prep_cfg(2) _ this] T show ?thesis
    by (simp add: db_exec_def trows_def schema_vlan_members)
qed

lemma restore_groups:
  assumes "\<not> closed db" and "distinct (map vg_id gs)"
    and "\<forall>g \<in> set gs. id_ok (vg_id g) \<and> 0 < vg_vlan_id g \<and> in_i32 (vg_vlan_id g)"
    and "\<forall>g \<in> set gs. \<forall>r \<in> set (trows db ''vlan_groups''). r ''id'' \<noteq> SText (vg_id g)"
  shows "trows (foldl (restore_token sql_run d) db (map vlan_tok gs)) ''vlan_groups'' = trows db ''vlan_groups'' @ map restored_group gs"
  using assms
proof (induction gs arbitrary: db)
  case (Cons g gs)
  let ?db = "restore_token sql_run d db (vlan_tok g)"
  have t: "trows ?db ''vlan_groups'' = trows db ''vlan_groups'' @ [restored_group g]"
    using Cons.prems insert_group [of db g] by (simp add: restore_vlan_tok)
  have "trows (foldl (restore_token sql_run d) ?db (map vlan_tok gs)) ''vlan_groups'' = trows ?db ''vlan_groups'' @ map restored_group gs"
  proof (rule Cons.IH)
    show "\<forall>h \<in> set gs. \<forall>r \<in> set (trows ?db ''vlan_groups''). r ''id'' \<noteq> SText (vg_id h)"
      using Cons.prems(2,4) unfolding t by (auto simp: restored_group_def)
  qed (use Cons.prems in auto)
  then show ?case unfolding t by simp
qed simp

lemma restore_vmems:
  assumes "\<not> closed db" and "\<forall>m \<in> set ms. id_ok (vm_group_id m) \<and> id_ok (vm_device_id m)"
  shows "trows (foldl (restore_token sql_run d) db (map vmem_tok ms)) ''vlan_members'' = trows db ''vlan_members'' @ map restored_member ms"
  using assms
proof (induction ms arbitrary: db)
  case (Cons m ms)
  then show ?case using insert_vmem [of db m] by (simp add: restore_vmem_tok)
qed simp

lemma restore_clears:
  "trows (foldl (\<lambda>b t. exec_del sql_run t None b) db config_tables) ''vlan_groups'' = []"
  "trows (foldl (\<lambda>b t. exec_del sql_run t None b) db config_tables) ''vlan_members'' = []"
  "trows (foldl (\<lambda>b t. exec_del sql_run t None b) db config_tables) ''gcl_entries'' = []"
  by (simp_all add: config_tables_def exec_del_def refers_schema trows_delete_all sql_prep_cfg)

lemma closed_clears [simp]: "closed (foldl (\<lambda>b t. exec_del sql_run t a b) db ts) = closed db"
  by (induction ts arbitrary: db) (auto simp: exec_del_def split: option.splits)

context sqlite
begin

lemma restore_token_abs: "restore_token sql_run d (dbabs tabs db) tok = dbabs tabs (restore_token E d db tok)"
  by (simp only: restore_token_def restore_qos_def db_do_exec db_exec_abs Let_def if_distrib [of "dbabs tabs"])

lemma restore_payload_abs:
  "restore_payload sql_run p d (dbabs tabs db) = map_prod (\<lambda>e. e) (dbabs tabs) (restore_payload E p d db)"
proof -
  have t: "foldl (restore_token sql_run c) (dbabs tabs b) ts = dbabs tabs (foldl (restore_token E c) b ts)" for b c ts
    by (induction ts arbitrary: b) (simp_all add: restore_token_abs)
  have x: "exec_del sql_run u a (dbabs tabs b) = dbabs tabs (exec_del E u a b)" for u a b
    by (simp add: exec_del_def db_exec_abs split: option.splits)
  have y: "foldl (\<lambda>b t. exec_del sql_run t a b) (dbabs tabs b) ts = dbabs tabs (foldl (\<lambda>b t. exec_del E t a b) b ts)" for a b ts
    by (induction ts arbitrary: b) (simp_all add: x)
  show ?thesis by (cases "d = []") (simp_all add: restore_payload_def t x y Let_def)
qed

lemma vlan_for_each_abs:
  "htsn_db_vlan_group_for_each sql_run (dbabs tabs db) = htsn_db_vlan_group_for_each E db"
  "htsn_db_vlan_member_for_each_all sql_run (dbabs tabs db) = htsn_db_vlan_member_for_each_all E db"
  by (simp_all add: htsn_db_vlan_group_for_each_def htsn_db_vlan_member_for_each_all_def db_rows_abs)

end

lemma sql_prep_vlan_select [sql_prep]:
  "sql_prepares (Select [''id'', ''name'', ''vlan_id''] ''vlan_groups'' [] Unordered None None)"
  "sql_prepares (Select [''group_id'', ''device_id''] ''vlan_members'' [] Unordered None None)"
  by code_simp+

lemma db_rows_select_all:
  assumes "sql_prepares (Select cols t [] Unordered None None)"
  shows "db_rows sql_run (Select cols t [] Unordered None None) [] db = map (\<lambda>r. map r cols) (trows db t)"
proof (cases "handle db")
  case None
  then show ?thesis by (simp add: db_rows_def db_run_def trows_def)
next
  case (Some T)
  obtain td where "map_of schema t = Some td" using assms by (auto simp: sql_prepares_def split: option.splits)
  with Some assms show ?thesis
    by (simp add: db_rows_def db_run_def sql_run_def sql_exec_def trows_def sort_rows_def limit_rows_def)
qed

lemma vlan_for_each_trows:
  "htsn_db_vlan_group_for_each sql_run db = map (\<lambda>r. row_to_group (map r [''id'', ''name'', ''vlan_id''])) (trows db ''vlan_groups'')"
  "htsn_db_vlan_member_for_each_all sql_run db = map (\<lambda>r. row_to_member (map r [''group_id'', ''device_id''])) (trows db ''vlan_members'')"
  by (simp_all add: htsn_db_vlan_group_for_each_def htsn_db_vlan_member_for_each_all_def db_rows_select_all sql_prep)

lemma row_group_row:
  "id_ok (vg_id g) \<Longrightarrow> in_i32 (vg_vlan_id g) \<Longrightarrow> row_to_group (map (restored_group g) [''id'', ''name'', ''vlan_id'']) = g\<lparr>vg_name := vg_id g\<rparr>"
  by (cases g) (simp add: row_to_group_def restored_group_def column_text_def column_int_def column_int64_def id_ok_def)

lemma row_vmem_row:
  "id_ok (vm_group_id m) \<Longrightarrow> id_ok (vm_device_id m) \<Longrightarrow> row_to_member (map (restored_member m) [''group_id'', ''device_id'']) = m"
  by (cases m) (simp add: row_to_member_def restored_member_def column_text_def id_ok_def)

lemma not_starts:
  "\<not> starts ''vlan:'' (device_tok x)" "\<not> starts ''vmem:'' (device_tok x)" "\<not> starts ''vmem:'' (vlan_tok g)" "\<not> starts ''vlan:'' (vmem_tok m)"
  "\<not> starts ''vlan:'' (qos_tok r)" "\<not> starts ''vmem:'' (qos_tok r)"
  by (simp_all add: starts_def device_tok_def vlan_tok_def vmem_tok_def qos_tok_def qos_token_def)

lemma not_starts_stream:
  "t \<in> set (stream_toks s) \<Longrightarrow> \<not> starts ''vlan:'' t \<and> \<not> starts ''vmem:'' t"
  by (auto simp: stream_toks_def stream_token_def starts_def split: if_splits)

lemma restore_tokens_vlan:
  assumes "\<not> closed db" and "trows db ''vlan_groups'' = []" and "trows db ''vlan_members'' = []"
    and "distinct (map vg_id gs)" and "\<forall>g \<in> set gs. id_ok (vg_id g) \<and> 0 < vg_vlan_id g \<and> in_i32 (vg_vlan_id g)"
    and "\<forall>m \<in> set ms. id_ok (vm_group_id m) \<and> id_ok (vm_device_id m)"
    and "list_all (\<lambda>t. \<not> starts ''vlan:'' t \<and> \<not> starts ''vmem:'' t) (before @ after)"
    and "r = foldl (restore_token sql_run d) db (before @ map vlan_tok gs @ map vmem_tok ms @ after)"
  shows "trows r ''vlan_groups'' = map restored_group gs \<and> trows r ''vlan_members'' = map restored_member ms"
proof -
  have b: "list_all (\<lambda>t. \<not> starts ''vlan:'' t) before" "list_all (\<lambda>t. \<not> starts ''vmem:'' t) before"
    "list_all (\<lambda>t. \<not> starts ''vlan:'' t) after" "list_all (\<lambda>t. \<not> starts ''vmem:'' t) after"
    "list_all (\<lambda>t. \<not> starts ''vmem:'' t) (map vlan_tok gs)" "list_all (\<lambda>t. \<not> starts ''vlan:'' t) (map vmem_tok ms)"
    using assms(7) by (auto simp: list_all_iff not_starts)
  let ?f = "foldl (restore_token sql_run d)"
  have "trows (?f (?f db before) (map vlan_tok gs)) ''vlan_groups'' = map restored_group gs"
    using assms b by (subst restore_groups) (simp_all add: restore_tokens_frame)
  moreover have "trows (?f (?f (?f db before) (map vlan_tok gs)) (map vmem_tok ms)) ''vlan_members'' = map restored_member ms"
    using assms b by (subst restore_vmems) (simp_all add: restore_tokens_frame)
  ultimately show ?thesis using assms(8) b by (simp add: restore_tokens_frame)
qed

lemma rollback_tokens:
  assumes "sqlite E tabs" and "htsn_db_config_version_get E key (w_db w) = Inr v" and "cv_device_id v = []"
    and "htsn_cfg_ver_rollback E m key w = (e, w')"
  shows "e = HTSN_OK" and "dbabs tabs (w_db w') =
    foldl (restore_token sql_run []) (foldl (\<lambda>b t. exec_del sql_run t None b) (dbabs tabs (w_db w)) config_tables)
      (strtok_all (CHR '' '') (cpy CFG_PAYLOAD_MAX (Some (cv_payload v))))"
  using assms(2-4) sqlite.restore_payload_abs [OF assms(1), of "cv_payload v" "[]" "w_db w"]
  by (auto simp: htsn_cfg_ver_rollback_def restore_payload_def Let_def)


text \<open>A database with one VLAN group of one device, and a later one that only keeps its snapshot.\<close>

definition demo_db :: "(string \<times> row list) list \<Rightarrow> tables htsn_db" where
  "demo_db rs = \<lparr>handle = Some \<lparr>rows = (\<lambda>t. case map_of rs t of None \<Rightarrow> [] | Some r \<Rightarrow> r), seqs = (\<lambda>_. 0)\<rparr>, path = []\<rparr>"

definition demo_vlan_db :: "tables htsn_db" where
  "demo_vlan_db = demo_db
     [(''vlan_groups'', [(\<lambda>_. SNull)(''id'' := SText ''g1'', ''name'' := SText ''line'', ''vlan_id'' := SInt 10)]),
      (''vlan_members'', [(\<lambda>_. SNull)(''group_id'' := SText ''g1'', ''device_id'' := SText ''d1'')])]"

definition demo_payload :: string where
  "demo_payload = ''vlan:g1:10 vmem:g1:d1 pre:preemption:emac=:pmac= ''"

definition demo_version_row :: row where
  "demo_version_row = (\<lambda>_. SNull)(''id'' := SInt 1, ''name'' := SText ''v1'', ''device_id'' := SText [], ''created_at'' := SInt 0,
     ''payload'' := SText demo_payload)"

definition demo_later :: "tables world" where
  "demo_later = empty_world\<lparr>w_db := demo_db [(''config_versions'', [demo_version_row])]\<rparr>"

definition cfg_manager :: htsn_manager where "cfg_manager = \<lparr>mgr_model = ''config_version''\<rparr>"

lemma sql_prep_snapshot [sql_prep]:
  "sql_prepares (Select device_cols ''devices'' [] Unordered None None)"
  "sql_prepares (Select [''stream_id''] ''tsn_streams'' [] Unordered None None)"
  "sql_prepares (Select [''id''] ''tas_schedules'' [] Unordered None None)"
  "sql_prepares (Select [''device_id'', ''priority'', ''bandwidth_kbps'', ''latency_ms'', ''preemption''] ''qos_configs'' [] Unordered None None)"
  "sql_prepares (Select version_cols ''config_versions'' [(''id'', P 1)] Unordered None None)"
  by code_simp+

lemma trows_demo [simp]: "trows (demo_db rs) t = (case map_of rs t of None \<Rightarrow> [] | Some r \<Rightarrow> r)"
  by (simp add: trows_def demo_db_def)

lemma closed_demo [simp]: "\<not> closed (demo_db rs)"
  by (simp add: closed_def demo_db_def)

lemma demo_vlans:
  "htsn_db_vlan_group_for_each sql_run demo_vlan_db = [\<lparr>vg_id = ''g1'', vg_name = ''line'', vg_vlan_id = 10\<rparr>]"
  "htsn_db_vlan_member_for_each_all sql_run demo_vlan_db = [\<lparr>vm_group_id = ''g1'', vm_device_id = ''d1''\<rparr>]"
  by (simp_all add: vlan_for_each_trows demo_vlan_db_def row_to_group_def row_to_member_def column_text_def column_int_def
      column_int64_def in_i32_def fits_def HTSN_MAX_STR_def)

lemma demo_rest:
  "htsn_db_device_for_each sql_run demo_vlan_db = []" "htsn_db_tsn_for_each sql_run demo_vlan_db = []"
  "qos_rows sql_run demo_vlan_db = []"
  by (simp_all add: htsn_db_device_for_each_def htsn_db_tsn_for_each_def qos_rows_def db_rows_select_all sql_prep demo_vlan_db_def)

lemma dec_10: "dec_int 10 = ''10''" by (simp add: dec_int_def dec_nat.simps)

lemma demo_tokens: "serial_tokens sql_run demo_vlan_db = [''vlan:g1:10'', ''vmem:g1:d1'', ''pre:preemption:emac=:pmac='']"
  by (simp add: serial_tokens_def demo_vlans demo_rest vlan_tok_def vmem_tok_def dec_10)

lemma demo_serialized: "serialize_global sql_run demo_vlan_db = demo_payload"
  using demo_rest(3)
  by (simp add: serialize_global_def demo_vlans demo_rest tas_for_each_none [OF sql_ref.sqlite_axioms] collect_vlan_def
      collect_vlan_member_def append_field_def CFG_PAYLOAD_MAX_def dec_10 demo_payload_def qos_rows_def)

lemma demo_version_get:
  assumes "\<not> closed db" and "trows db ''config_versions'' = [demo_version_row]"
  shows "htsn_db_config_version_get sql_run 1 db =
     Inr \<lparr>cv_id = 1, cv_name = ''v1'', cv_device_id = [], cv_created_at = 0, cv_payload = demo_payload\<rparr>"
proof -
  obtain T where T: "handle db = Some T" "rows T ''config_versions'' = [demo_version_row]"
    using assms by (auto simp: closed_def trows_def)
  from db_run_select_key [OF T(1) sql_prep_snapshot(5), of "SInt 1"] T show ?thesis
    by (simp add: htsn_db_config_version_get_def closed_def keyed_def version_cols_def demo_version_row_def row_to_version_def
        column_text_def column_int_def column_int64_def in_i32_def fits_def HTSN_MAX_STR_def demo_payload_def)
qed

lemma demo_version:
  "htsn_db_config_version_get sql_run 1 (w_db demo_later) =
     Inr \<lparr>cv_id = 1, cv_name = ''v1'', cv_device_id = [], cv_created_at = 0, cv_payload = demo_payload\<rparr>"
  by (rule demo_version_get) (simp_all add: demo_later_def)


section \<open>Gate entries are never restored\<close>

lemma trows_exec_unprepared: "\<not> sql_prepares st \<Longrightarrow> db_exec sql_run st ps db = db"
  by (simp add: db_exec_def db_run_unprepared)

lemma cascade_shrinks: "set (rows (cascade t dead T) u) \<subseteq> set (rows T u)"
  by (auto simp: cascade_def split: option.splits prod.splits if_splits)

lemma rows_insert_other: "u \<noteq> t \<Longrightarrow> set (rows (snd (sql_insert conf t td kvs T)) u) \<subseteq> set (rows T u)"
  by (auto simp: sql_insert_def Let_def delete_rows_def split: conflict.splits if_splits dest: subsetD [OF cascade_shrinks])

lemma trows_insert_other:
  assumes "u \<noteq> t"
  shows "set (trows (db_exec sql_run (Insert conf t cols vals) ps db) u) \<subseteq> set (trows db u)"
proof (cases "handle db = None \<or> \<not> sql_prepares (Insert conf t cols vals)")
  case True
  then have "db_exec sql_run (Insert conf t cols vals) ps db = db"
  proof
    assume "handle db = None"
    then show ?thesis by (simp add: db_exec_def db_run_def)
  qed (rule trows_exec_unprepared)
  then show ?thesis by simp
next
  case False
  then obtain T td where T: "handle db = Some T" "map_of schema t = Some td"
    by (auto simp: sql_prepares_def split: option.splits)
  let ?r = "sql_insert conf t td (zip cols (map (sexp_val ps) vals)) T"
  have "sql_exec (Insert conf t cols vals) td ps T = (fst ?r, [], snd ?r)" by (simp add: sql_exec_def case_prod_unfold Let_def)
  from db_run_ref [OF T(1) _ _ this] have "trows (db_exec sql_run (Insert conf t cols vals) ps db) u = rows (snd ?r) u"
    using False T by (simp add: db_exec_def trows_def)
  with rows_insert_other [OF assms] T show ?thesis by (simp add: trows_def)
qed

lemma restore_token_gates: "trows db ''gcl_entries'' = [] \<Longrightarrow> trows (restore_token sql_run d db tok) ''gcl_entries'' = []"
proof -
  assume e: "trows db ''gcl_entries'' = []"
  have "trows (db_exec sql_run (Insert conf t cols vals) ps db) ''gcl_entries'' = []" if "t \<noteq> ''gcl_entries''" for conf t cols vals ps
    using trows_insert_other [of "''gcl_entries''" t conf cols vals ps db] that e by auto
  with e show ?thesis
    by (simp add: restore_token_def restore_qos_def db_do_exec Let_def trows_exec_unprepared [OF sql_prep_cfg(3)]
      del: One_nat_def sscanf.simps)
qed

lemma restore_tokens_gates:
  "trows db ''gcl_entries'' = [] \<Longrightarrow> trows (foldl (restore_token sql_run d) db ts) ''gcl_entries'' = []"
  by (induction ts arbitrary: db) (simp_all add: restore_token_gates)

text \<open>
  A rollback of the whole configuration destroys all gate control lists: whatever the version contains, after a
  successful rollback the table of gate entries is empty, because they are deleted first and the statement
  that would insert them names the reserved column \<open>index\<close> and never prepares.
\<close>

theorem rollback_loses_gates:
  assumes "sqlite E tabs" and "htsn_db_config_version_get E key (w_db w) = Inr v" and "cv_device_id v = []"
    and "htsn_cfg_ver_rollback E m key w = (e, w')" and "handle (w_db w') = Some h"
  shows "e = HTSN_OK \<and> rows (tabs h) ''gcl_entries'' = []"
proof -
  note r = rollback_tokens [OF assms(1-4)]
  have "trows (dbabs tabs (w_db w')) ''gcl_entries'' = []"
    unfolding r(2) by (rule restore_tokens_gates) (rule restore_clears(3))
  with r(1) show ?thesis using assms(5) by (simp add: trows_def dbabs_def)
qed

definition demo_gates :: "tables world" where
  "demo_gates = empty_world\<lparr>w_db := demo_db [(''config_versions'', [demo_version_row]),
     (''tas_schedules'', [(\<lambda>_. SNull)(''id'' := SText ''s1'')]),
     (''gcl_entries'', [(\<lambda>_. SNull)(''schedule_id'' := SText ''s1'', ''index'' := SInt 0, ''gate_state'' := SInt 1)])]\<rparr>"


lemma demo_gates_version:
  "htsn_db_config_version_get sql_run 1 (w_db demo_gates) =
     Inr \<lparr>cv_id = 1, cv_name = ''v1'', cv_device_id = [], cv_created_at = 0, cv_payload = demo_payload\<rparr>"
  by (rule demo_version_get) (simp_all add: demo_gates_def)

lemma dbabs_ident: "dbabs (\<lambda>T. T) db = db"
  by (cases db) (simp add: dbabs_def option.map_ident)

theorem rollback_loses_gates_witness:
  "\<exists>w' h. trows (w_db demo_gates) ''gcl_entries'' \<noteq> [] \<and> htsn_cfg_ver_rollback sql_run cfg_manager 1 demo_gates = (HTSN_OK, w') \<and>
     handle (w_db w') = Some h \<and> rows h ''gcl_entries'' = []"
proof -
  obtain e w' where r: "htsn_cfg_ver_rollback sql_run cfg_manager 1 demo_gates = (e, w')" by fastforce
  have "closed (w_db w') = closed (w_db demo_gates)"
    using arg_cong [OF rollback_tokens(2) [OF sql_ref.sqlite_axioms demo_gates_version _ r], of closed]
    by (simp add: dbabs_ident)
  then have "\<not> closed (w_db w')" by (simp add: demo_gates_def)
  then obtain h where h: "handle (w_db w') = Some h" by (auto simp: closed_def)
  from rollback_loses_gates [OF sql_ref.sqlite_axioms demo_gates_version _ r h] r h show ?thesis
    by (simp add: demo_gates_def)
qed

section \<open>Comparing versions\<close>

definition diff_lines :: "string \<Rightarrow> string list \<Rightarrow> string" where
  "diff_lines sign rs = concat (map (\<lambda>r. sign @ r @ [newline]) rs)"

lemma diff_lines_simps [simp]:
  "diff_lines sign [] = []" "diff_lines sign (r # rs) = sign @ r @ newline # diff_lines sign rs"
  by (simp_all add: diff_lines_def)

lemma take_take_append: "take n (take n xs @ ys) = take n (xs @ ys)"
  by (simp add: take_append) (metis cancel_comm_monoid_add_class.diff_cancel diff_diff_cancel diff_is_0_eq' min_def nle_le take0)

lemma diff_rows_spec:
  assumes "\<forall>r \<in> set rs. length sign + length r + 1 \<le> 22" and "length full \<le> 22 * shown" and "22 * lim \<le> n"
    and "new = take (lim - shown) (filter (\<lambda>r. r \<notin> set other) rs)"
  shows "diff_rows n sign lim rs other (shown, length full, take (n - 1) full) =
    Some (shown + length new, length (full @ diff_lines sign new), take (n - 1) (full @ diff_lines sign new))"
  using assms
proof (induction rs arbitrary: shown full new)
  case (Cons r rs)
  show ?case
  proof (cases "shown < lim \<and> r \<notin> set other")
    case True
    let ?full = "full @ sign @ r @ [newline]"
    obtain k where k: "lim - shown = Suc k" using True by (cases "lim - shown") auto
    then have "k = lim - Suc shown" by arith
    with k have n: "new = r # take (lim - Suc shown) (filter (\<lambda>r. r \<notin> set other) rs)"
      using Cons.prems(4) True by auto
    have "put_line n (sign @ r @ [newline]) (length full, take (n - 1) full) = Some (length ?full, take (n - 1) ?full)"
      using Cons.prems(2,3) True by (simp add: put_line_def take_take_append del: take_append)
    moreover have "length ?full \<le> 22 * Suc shown" using Cons.prems(1,2) by auto
    from Cons.IH [OF _ this Cons.prems(3) refl] Cons.prems(1)
    have "diff_rows n sign lim rs other (Suc shown, length ?full, take (n - 1) ?full) =
        Some (Suc shown + length (tl new), length (?full @ diff_lines sign (tl new)), take (n - 1) (?full @ diff_lines sign (tl new)))"
      by (simp add: n)
    ultimately show ?thesis using True n by simp
  next
    case False
    then consider "shown \<ge> lim" | "shown < lim" "r \<in> set other" by fastforce
    then show ?thesis
    proof cases
      case 2
      with Cons.IH [OF _ Cons.prems(2,3), of new] Cons.prems(1,4) show ?thesis by simp
    qed (use Cons.prems(4) in simp)
  qed
qed simp

text \<open>
  C39. A comparison of two versions lists what changed: when no row of either payload is longer than 19
  characters, the comparison stays inside its buffer, and its text consists of the rows of the first version that the
  second does not have, up to half of the lines that fit, then the rows of the second that the first does not have, as long as there is
  room, cut to the buffer.
\<close>

theorem diff_lists_changes:
  assumes "0 < out_size" and "payload_of E a (w_db w) \<noteq> payload_of E b (w_db w)"
    and "arow = take 1024 (strtok_all (CHR '' '') (payload_of E a (w_db w)))"
    and "brow = take 1024 (strtok_all (CHR '' '') (payload_of E b (w_db w)))"
    and "\<forall>r \<in> set (arow @ brow). length r \<le> 19"
    and "removed = take (out_size div 22 div 2) (filter (\<lambda>r. r \<notin> set brow) arow)"
    and "added = take (out_size div 22 - length removed) (filter (\<lambda>r. r \<notin> set arow) brow)"
  shows "htsn_cfg_ver_diff E a b out_size w = Some (HTSN_OK,
    if removed = [] \<and> added = [] then snprintf_buf out_size (''versions differ (v'' @ dec_int a @ '' vs v'' @ dec_int b @ '')'')
    else take (out_size - 1) (diff_lines ''- '' removed @ diff_lines ''+ '' added))"
proof -
  have len: "length removed \<le> out_size div 22 div 2" by (simp add: assms(6))
  have "diff_rows out_size ''- '' (out_size div 22 div 2) arow brow (0, 0, []) =
      Some (length removed, length (diff_lines ''- '' removed), take (out_size - 1) (diff_lines ''- '' removed))"
    using diff_rows_spec [of arow "''- ''" "[]" 0 "out_size div 22 div 2" out_size removed brow] assms(5,6) by auto
  moreover have "length (diff_lines ''- '' rs) \<le> 22 * length rs" if "\<forall>r \<in> set rs. length r \<le> 19" for rs
    using that by (induction rs) auto
  then have "length (diff_lines ''- '' removed) \<le> 22 * length removed"
    using assms(5) set_take_subset [of "out_size div 22 div 2" "filter (\<lambda>r. r \<notin> set brow) arow"] unfolding assms(6) [symmetric]
    by fastforce
  from diff_rows_spec [OF _ this, where sign = "''+ ''" and rs = brow and lim = "out_size div 22" and n = out_size and other = arow, OF _ _ assms(7)]
  have "diff_rows out_size ''+ '' (out_size div 22) brow arow
      (length removed, length (diff_lines ''- '' removed), take (out_size - 1) (diff_lines ''- '' removed)) =
      Some (length removed + length added, length (diff_lines ''- '' removed @ diff_lines ''+ '' added),
        take (out_size - 1) (diff_lines ''- '' removed @ diff_lines ''+ '' added))"
    using assms(5) by auto
  moreover have "length (diff_lines ''- '' removed @ diff_lines ''+ '' added) = 0 \<longleftrightarrow> removed = [] \<and> added = []"
    by (cases removed; cases added) auto
  ultimately show ?thesis using assms(1,2) by (simp add: htsn_cfg_ver_diff_def assms(3,4) [symmetric] Let_def)
qed

definition version_row :: "int \<Rightarrow> string \<Rightarrow> row" where
  "version_row i p = (\<lambda>_. SNull)(''id'' := SInt i, ''name'' := SText [], ''device_id'' := SText [], ''created_at'' := SInt 0,
     ''payload'' := SText p)"

definition demo_versions :: "tables world" where
  "demo_versions = empty_world\<lparr>w_db := demo_db [(''config_versions'', [version_row 1 ''vlan:g1:10 vlan:g2:20 '', version_row 2 ''vlan:g1:10 vlan:g3:30 ''])]\<rparr>"

lemma demo_payloads:
  "payload_of sql_run 1 (w_db demo_versions) = ''vlan:g1:10 vlan:g2:20 ''"
  "payload_of sql_run 2 (w_db demo_versions) = ''vlan:g1:10 vlan:g3:30 ''"
proof -
  obtain T where T: "handle (w_db demo_versions) = Some T"
    "rows T ''config_versions'' = [version_row 1 ''vlan:g1:10 vlan:g2:20 '', version_row 2 ''vlan:g1:10 vlan:g3:30 '']"
    by (simp add: demo_versions_def demo_db_def)
  show "payload_of sql_run 1 (w_db demo_versions) = ''vlan:g1:10 vlan:g2:20 ''" "payload_of sql_run 2 (w_db demo_versions) = ''vlan:g1:10 vlan:g3:30 ''"
    using db_run_select_key [OF T(1) sql_prep_snapshot(5), of "SInt 1"] db_run_select_key [OF T(1) sql_prep_snapshot(5), of "SInt 2"] T
    by (simp_all add: payload_of_def htsn_db_config_version_get_def closed_def keyed_def version_cols_def version_row_def row_to_version_def
        column_text_def column_int_def column_int64_def fits_def)
qed

theorem diff_lists_changes_witness:
  "htsn_cfg_ver_diff sql_run 1 2 256 demo_versions = Some (HTSN_OK, ''- vlan:g2:20'' @ [newline] @ ''+ vlan:g3:30'' @ [newline])"
proof -
  have t: "strtok_all (CHR '' '') ''vlan:g1:10 vlan:g2:20 '' = [''vlan:g1:10'', ''vlan:g2:20'']"
    "strtok_all (CHR '' '') ''vlan:g1:10 vlan:g3:30 '' = [''vlan:g1:10'', ''vlan:g3:30'']" by (simp_all add: strtok_all_def)
  show ?thesis
    by (subst diff_lists_changes [OF _ _ refl refl _ refl refl]) (simp_all add: demo_payloads t)
qed

text \<open>
  Longer rows make the comparison write behind its buffer: two removed rows, the first of them longer
  than the buffer, suffice.
\<close>

theorem diff_overruns:
  assumes "88 \<le> out_size" and "strtok_all (CHR '' '') (payload_of E a (w_db w)) = r1 # r2 # rest"
    and "strtok_all (CHR '' '') (payload_of E b (w_db w)) = []" and "out_size < length r1"
  shows "htsn_cfg_ver_diff E a b out_size w = None"
proof -
  have "2 \<le> out_size div 22 div 2" using div_le_mono [OF assms(1), of 44] by (simp add: div_mult2_eq [symmetric])
  then obtain k where k: "out_size div 22 div 2 = Suc (Suc k)" by (metis add_2_eq_Suc le_Suc_ex)
  have t: "take 1024 (r1 # r2 # rest) = r1 # r2 # take 1022 rest" by (simp add: numeral_eq_Suc)
  have "payload_of E a (w_db w) \<noteq> payload_of E b (w_db w)" using assms(2,3) by auto
  moreover have "diff_rows out_size ''- '' (Suc (Suc k)) (r1 # r2 # xs) [] (0, 0, []) = None" for xs
    using assms(4) by (simp add: put_line_def)
  ultimately show ?thesis using assms(1) by (simp add: htsn_cfg_ver_diff_def assms(2,3) k t del: diff_rows.simps take_Suc_Cons)
qed

end
