(* ===== verification/Caches.thy ===== *)
theory Caches
  imports Config_Managers
begin

text \<open>
  The managers that keep their objects in memory and write them through to the database: devices
  (src/src/device/device_manager.c, with the plugins of src/src/plugin) and sensors
  (src/src/sensors/sensor_manager.c). The array and its count are a list. Both satisfy the locale
  \<open>keyed_array\<close>, so each is a finite map of bounded size. The receiver is not null.
\<close>

section \<open>Plugins\<close>

text \<open>
  A plugin is code loaded at run time: its \<open>discover\<close> entry is the outcome of calling it
  (\<open>None\<close> when the pointer is null). \<open>dl\<close> is the dynamic loader: \<open>None\<close> when the library does not open,
  \<open>Some None\<close> when it lacks \<open>htsn_plugin_create\<close>, \<open>Some (Some None)\<close> when creating fails.
\<close>

record htsn_plugin =
  pl_name :: string
  pl_discover :: "(htsn_error \<times> htsn_device list) option"

definition MAX_PLUGINS :: nat where "MAX_PLUGINS = 16"

definition htsn_plugin_manager_load ::
  "(string \<Rightarrow> htsn_plugin option option option) \<Rightarrow> string option \<Rightarrow> htsn_plugin list \<Rightarrow> htsn_error \<times> htsn_plugin list" where
  "htsn_plugin_manager_load dl patho ps =
     (case patho of
        None \<Rightarrow> (HTSN_ERR_INVALID_ARG, ps)
      | Some file \<Rightarrow>
          if length ps \<ge> MAX_PLUGINS then (HTSN_ERR_INVALID_ARG, ps)
          else
            (case dl file of
               None \<Rightarrow> (HTSN_ERR_IO, ps)
             | Some None \<Rightarrow> (HTSN_ERR_IO, ps)
             | Some (Some None) \<Rightarrow> (HTSN_ERR_NO_MEMORY, ps)
             | Some (Some (Some p)) \<Rightarrow> (HTSN_OK, ps @ [p])))"

definition htsn_plugin_manager_get :: "htsn_plugin list \<Rightarrow> nat \<Rightarrow> htsn_plugin option" where
  "htsn_plugin_manager_get ps i = (if i \<ge> length ps then None else Some (ps ! i))"

section \<open>Devices\<close>

definition MAX_DB_DEVICES :: nat where "MAX_DB_DEVICES = 512"

record htsn_device_manager =
  dm_model :: string
  dm_devices :: "htsn_device list"
  dm_plugins :: "htsn_plugin list option"

definition publish_device_event :: "htsn_device_manager \<Rightarrow> string \<Rightarrow> htsn_device \<Rightarrow> 'h world \<Rightarrow> 'h world" where
  "publish_device_event m event dev w = w_notify (dm_model m) (snprintf_buf 512 event) (EvDevice dev) w"

definition collect_devices :: "htsn_device list \<Rightarrow> htsn_device \<Rightarrow> htsn_device list" where
  "collect_devices ds d = (if length ds < MAX_DB_DEVICES then ds @ [d] else ds)"

definition htsn_device_manager_restore :: "'h engine \<Rightarrow> htsn_device_manager \<Rightarrow> 'h world \<Rightarrow> htsn_device_manager" where
  "htsn_device_manager_restore E m w =
     m\<lparr>dm_devices := foldl collect_devices [] (htsn_db_device_for_each E (w_db w))\<rparr>"

definition htsn_device_manager_create ::
  "'h engine \<Rightarrow> htsn_plugin list option \<Rightarrow> 'h world \<Rightarrow> htsn_device_manager option" where
  "htsn_device_manager_create E plugins w =
     (case w_bus w of
        None \<Rightarrow> None
      | Some _ \<Rightarrow> Some (htsn_device_manager_restore E
          \<lparr>dm_model = htsn_model_init (Some ''device''), dm_devices = [], dm_plugins = plugins\<rparr> w))"

definition htsn_device_manager_destroy :: "'h engine \<Rightarrow> htsn_device_manager \<Rightarrow> 'h world \<Rightarrow> 'h world" where
  "htsn_device_manager_destroy E m w =
     foldl (\<lambda>w d. w_with_db (htsn_db_device_upsert E (Some d)) w) w (dm_devices m)"

definition htsn_device_manager_get :: "htsn_device_manager \<Rightarrow> string option \<Rightarrow> htsn_device option" where
  "htsn_device_manager_get m keyo =
     (case keyo of
        None \<Rightarrow> None
      | Some k \<Rightarrow> map_option (\<lambda>i. dm_devices m ! i) (find_idx (\<lambda>d. dev_id d = k) (dm_devices m)))"

definition htsn_device_manager_count :: "htsn_device_manager \<Rightarrow> nat" where
  "htsn_device_manager_count m = length (dm_devices m)"

definition htsn_device_manager_for_each :: "htsn_device_manager \<Rightarrow> htsn_device list" where
  "htsn_device_manager_for_each m = dm_devices m"

definition htsn_device_manager_upsert ::
  "'h engine \<Rightarrow> int \<Rightarrow> htsn_device option \<Rightarrow> htsn_device_manager \<times> 'h world \<Rightarrow> htsn_error \<times> htsn_device_manager \<times> 'h world" where
  "htsn_device_manager_upsert E now devo mw =
     (case (devo, mw) of
        (None, _) \<Rightarrow> (HTSN_ERR_INVALID_ARG, mw)
      | (Some dev, (m, w)) \<Rightarrow>
          (let copy = dev\<lparr>dev_last_seen := (if dev_last_seen dev \<noteq> 0 then dev_last_seen dev else now)\<rparr>
           in case find_idx (\<lambda>d. dev_id d = dev_id copy) (dm_devices m) of
                Some i \<Rightarrow>
                  (let m1 = m\<lparr>dm_devices := (dm_devices m)[i := copy]\<rparr>;
                       w1 = w_with_db (htsn_db_device_upsert E (Some copy)) w
                   in (HTSN_OK, m1, publish_device_event m1 ''updated'' copy w1))
              | None \<Rightarrow>
                  if length (dm_devices m) \<ge> MAX_DB_DEVICES then (HTSN_ERR_BUSY, m, w)
                  else
                    (let m1 = m\<lparr>dm_devices := dm_devices m @ [copy]\<rparr>;
                         w1 = w_with_db (htsn_db_device_upsert E (Some copy)) w
                     in (HTSN_OK, m1, publish_device_event m1 ''discovered'' copy w1))))"

definition htsn_device_manager_remove ::
  "'h engine \<Rightarrow> string option \<Rightarrow> htsn_device_manager \<times> 'h world \<Rightarrow> htsn_error \<times> htsn_device_manager \<times> 'h world" where
  "htsn_device_manager_remove E keyo mw =
     (case (keyo, mw) of
        (None, _) \<Rightarrow> (HTSN_ERR_INVALID_ARG, mw)
      | (Some k, (m, w)) \<Rightarrow>
          (case find_idx (\<lambda>d. dev_id d = k) (dm_devices m) of
             None \<Rightarrow> (HTSN_ERR_NOT_FOUND, mw)
           | Some i \<Rightarrow>
               (let removed = dm_devices m ! i;
                    m1 = m\<lparr>dm_devices := remove_at i (dm_devices m)\<rparr>;
                    w1 = w_with_db (htsn_db_device_delete E k) w
                in (HTSN_OK, m1, publish_device_event m1 ''removed'' removed w1))))"

text \<open>One iteration of \<open>htsn_device_manager_mark_offline_after\<close>.\<close>

definition mark_offline_step ::
  "'h engine \<Rightarrow> int \<Rightarrow> htsn_device_manager \<times> 'h world \<Rightarrow> nat \<Rightarrow> htsn_device_manager \<times> 'h world" where
  "mark_offline_step E threshold mw i =
     (case mw of (m, w) \<Rightarrow>
        (let d = dm_devices m ! i
         in if dev_last_seen d < threshold \<and> dev_status d \<noteq> HTSN_DEVICE_ERROR
            then
              (let d' = d\<lparr>dev_status := HTSN_DEVICE_OFFLINE\<rparr>;
                   m1 = m\<lparr>dm_devices := (dm_devices m)[i := d']\<rparr>;
                   w1 = w_with_db (htsn_db_device_set_status E (dev_id d') (dev_status d')) w
               in (m1, publish_device_event m1 ''status'' d' w1))
            else (m, w)))"

definition htsn_device_manager_mark_offline_after ::
  "'h engine \<Rightarrow> int \<Rightarrow> htsn_device_manager \<times> 'h world \<Rightarrow> htsn_device_manager \<times> 'h world" where
  "htsn_device_manager_mark_offline_after E threshold mw =
     foldl (mark_offline_step E threshold) mw [0..<length (dm_devices (fst mw))]"

definition collect_plugin_devices ::
  "'h engine \<Rightarrow> int \<Rightarrow> htsn_device_manager \<times> 'h world \<Rightarrow> htsn_plugin \<Rightarrow> htsn_device_manager \<times> 'h world" where
  "collect_plugin_devices E now mw p =
     (case pl_discover p of
        Some (HTSN_OK, out) \<Rightarrow> foldl (\<lambda>mw d. snd (htsn_device_manager_upsert E now (Some d) mw)) mw out
      | _ \<Rightarrow> mw)"

definition htsn_device_manager_discover_once ::
  "'h engine \<Rightarrow> int \<Rightarrow> htsn_device_manager \<times> 'h world \<Rightarrow> htsn_error \<times> htsn_device_manager \<times> 'h world" where
  "htsn_device_manager_discover_once E now mw =
     (case dm_plugins (fst mw) of
        None \<Rightarrow> (HTSN_ERR_INVALID_ARG, mw)
      | Some ps \<Rightarrow> (HTSN_OK, foldl (collect_plugin_devices E now) mw ps))"

definition htsn_device_manager_record_heartbeat ::
  "'h engine \<Rightarrow> int \<Rightarrow> string option \<Rightarrow> htsn_device_manager \<times> 'h world \<Rightarrow> htsn_error \<times> htsn_device_manager \<times> 'h world" where
  "htsn_device_manager_record_heartbeat E now keyo mw =
     (case (keyo, mw) of
        (None, _) \<Rightarrow> (HTSN_ERR_INVALID_ARG, mw)
      | (Some k, (m, w)) \<Rightarrow>
          (case find_idx (\<lambda>d. dev_id d = k) (dm_devices m) of
             None \<Rightarrow> (HTSN_ERR_NOT_FOUND, mw)
           | Some i \<Rightarrow>
               (let d = dm_devices m ! i;
                    was_online = (dev_status d = HTSN_DEVICE_ONLINE);
                    d' = d\<lparr>dev_heartbeat_at := now, dev_last_seen := now, dev_status := HTSN_DEVICE_ONLINE\<rparr>;
                    m1 = m\<lparr>dm_devices := (dm_devices m)[i := d']\<rparr>;
                    w1 = w\<lparr>w_db := db_exec E (Update ''devices'' [(''heartbeat_at'', P 1), (''last_seen'', P 2), (''status'', P 3)]
                                [(''id'', P 4)]) [SInt now, SInt now, SInt (device_status_int HTSN_DEVICE_ONLINE), SText k] (w_db w)\<rparr>
                in (HTSN_OK, m1, if was_online then w1 else publish_device_event m1 ''status'' d' w1))))"

definition htsn_device_manager_set_domain ::
  "'h engine \<Rightarrow> string option \<Rightarrow> string option \<Rightarrow> htsn_device_manager \<times> 'h world \<Rightarrow> htsn_error \<times> htsn_device_manager \<times> 'h world" where
  "htsn_device_manager_set_domain E keyo domo mw =
     (case (keyo, domo, mw) of
        (Some k, Some domain, (m, w)) \<Rightarrow>
          (case find_idx (\<lambda>d. dev_id d = k) (dm_devices m) of
             None \<Rightarrow> (HTSN_ERR_NOT_FOUND, mw)
           | Some i \<Rightarrow>
               (let d' = (dm_devices m ! i)\<lparr>dev_domain := cpy HTSN_MAX_STR (Some domain)\<rparr>
                in (HTSN_OK, m\<lparr>dm_devices := (dm_devices m)[i := d']\<rparr>, w_with_db (htsn_db_device_upsert E (Some d')) w)))
      | _ \<Rightarrow> (HTSN_ERR_INVALID_ARG, mw))"

definition htsn_device_manager_set_health ::
  "'h engine \<Rightarrow> string option \<Rightarrow> htsn_device_status \<Rightarrow> htsn_device_manager \<times> 'h world \<Rightarrow> htsn_error \<times> htsn_device_manager \<times> 'h world" where
  "htsn_device_manager_set_health E keyo status mw =
     (case (keyo, mw) of
        (None, _) \<Rightarrow> (HTSN_ERR_INVALID_ARG, mw)
      | (Some k, (m, w)) \<Rightarrow>
          (case find_idx (\<lambda>d. dev_id d = k) (dm_devices m) of
             None \<Rightarrow> (HTSN_ERR_NOT_FOUND, mw)
           | Some i \<Rightarrow>
               (let d' = (dm_devices m ! i)\<lparr>dev_status := status\<rparr>;
                    m1 = m\<lparr>dm_devices := (dm_devices m)[i := d']\<rparr>;
                    w1 = w_with_db (htsn_db_device_set_status E k status) w
                in (HTSN_OK, m1, publish_device_event m1 ''status'' d' w1))))"

section \<open>Sensors\<close>

definition MAX_SENSORS :: nat where "MAX_SENSORS = 1024"

record htsn_sensor_manager =
  sm_model :: string
  sm_sensors :: "htsn_sensor list"

definition sensor_key :: "htsn_sensor \<Rightarrow> string \<times> string" where
  "sensor_key s = (sen_device_id s, sen_sensor_id s)"

definition sensor_collect :: "htsn_sensor list \<Rightarrow> htsn_sensor \<Rightarrow> htsn_sensor list" where
  "sensor_collect ss s = (if length ss < MAX_SENSORS then ss @ [s] else ss)"

definition htsn_sensor_manager_create :: "'h engine \<Rightarrow> 'h world \<Rightarrow> htsn_sensor_manager option" where
  "htsn_sensor_manager_create E w =
     (case w_bus w of
        None \<Rightarrow> None
      | Some _ \<Rightarrow> Some \<lparr>sm_model = htsn_model_init (Some ''sensor''),
          sm_sensors = foldl sensor_collect [] (htsn_db_sensor_for_each E (w_db w))\<rparr>)"

definition htsn_sensor_manager_count :: "htsn_sensor_manager \<Rightarrow> nat" where
  "htsn_sensor_manager_count m = length (sm_sensors m)"

definition sm_changed :: "htsn_sensor_manager \<Rightarrow> 'h world \<Rightarrow> 'h world" where
  "sm_changed m w = w\<lparr>w_bus := htsn_model_notify (sm_model m) (Some ''changed'') (w_bus w)\<rparr>"

definition htsn_sensor_manager_upsert ::
  "'h engine \<Rightarrow> htsn_sensor option \<Rightarrow> htsn_sensor_manager \<times> 'h world \<Rightarrow> htsn_error \<times> htsn_sensor_manager \<times> 'h world" where
  "htsn_sensor_manager_upsert E so mw =
     (case (so, mw) of
        (None, _) \<Rightarrow> (HTSN_ERR_INVALID_ARG, mw)
      | (Some s, (m, w)) \<Rightarrow>
          (case find_idx (\<lambda>x. sen_device_id x = sen_device_id s \<and> sen_sensor_id x = sen_sensor_id s) (sm_sensors m) of
             Some i \<Rightarrow>
               (HTSN_OK, m\<lparr>sm_sensors := (sm_sensors m)[i := s]\<rparr>, sm_changed m (w_with_db (htsn_db_sensor_upsert E (Some s)) w))
           | None \<Rightarrow>
               if length (sm_sensors m) \<ge> MAX_SENSORS then (HTSN_ERR_BUSY, mw)
               else (HTSN_OK, m\<lparr>sm_sensors := sm_sensors m @ [s]\<rparr>,
                     sm_changed m (w_with_db (htsn_db_sensor_upsert E (Some s)) w))))"

definition htsn_sensor_manager_remove ::
  "'h engine \<Rightarrow> string option \<Rightarrow> string option \<Rightarrow> htsn_sensor_manager \<times> 'h world \<Rightarrow>
     htsn_error \<times> htsn_sensor_manager \<times> 'h world" where
  "htsn_sensor_manager_remove E devo sido mw =
     (case (devo, sido, mw) of
        (Some dev, Some sid, (m, w)) \<Rightarrow>
          (case find_idx (\<lambda>x. sen_device_id x = dev \<and> sen_sensor_id x = sid) (sm_sensors m) of
             None \<Rightarrow> (HTSN_ERR_NOT_FOUND, mw)
           | Some i \<Rightarrow>
               (HTSN_OK, m\<lparr>sm_sensors := remove_at i (sm_sensors m)\<rparr>, sm_changed m (w_with_db (htsn_db_sensor_delete E dev sid) w)))
      | _ \<Rightarrow> (HTSN_ERR_INVALID_ARG, mw))"

text \<open>The bit pattern of the \<open>double\<close> 0.0 is zero.\<close>

definition make_sensor :: "int \<Rightarrow> string \<Rightarrow> string \<Rightarrow> htsn_sensor_type \<Rightarrow> string \<Rightarrow> string \<Rightarrow> htsn_sensor" where
  "make_sensor now device_id sid type name unt =
     \<lparr>sen_device_id = cpy HTSN_MAX_STR (Some device_id), sen_sensor_id = cpy HTSN_MAX_STR (Some sid), sen_type = type,
      sen_name = cpy HTSN_MAX_STR (Some name), sen_value = 0, sen_unit = cpy 32 (Some unt), sen_healthy = True,
      sen_last_update = now\<rparr>"

definition auto_sensors :: "int \<Rightarrow> string \<Rightarrow> htsn_sensor list" where
  "auto_sensors now device_id =
     [make_sensor now device_id ''temp1'' HTSN_SENSOR_TEMPERATURE ''Ambient Temperature'' ''degC'',
      make_sensor now device_id ''press1'' HTSN_SENSOR_PRESSURE ''Ambient Pressure'' ''hPa'',
      make_sensor now device_id ''imu1'' HTSN_SENSOR_IMU ''6-axis IMU'' ''g'',
      make_sensor now device_id ''dist1'' HTSN_SENSOR_DISTANCE ''Ultrasonic Distance'' ''cm'',
      make_sensor now device_id ''gpio1'' HTSN_SENSOR_GPIO ''GPIO Input'' '''']"

definition htsn_sensor_manager_auto_detect ::
  "'h engine \<Rightarrow> int \<Rightarrow> string option \<Rightarrow> htsn_sensor_manager \<times> 'h world \<Rightarrow> htsn_error \<times> htsn_sensor_manager \<times> 'h world" where
  "htsn_sensor_manager_auto_detect E now devo mw =
     (case devo of
        None \<Rightarrow> (HTSN_ERR_INVALID_ARG, mw)
      | Some device_id \<Rightarrow>
          (HTSN_OK, foldl (\<lambda>mw s. snd (htsn_sensor_manager_upsert E (Some s) mw)) mw (auto_sensors now device_id)))"

section \<open>The managers are bounded maps\<close>

text \<open>The device as it is kept: seen now when no time is given.\<close>

definition stamped :: "int \<times> htsn_device \<Rightarrow> htsn_device" where
  "stamped a = (snd a)\<lparr>dev_last_seen := (if dev_last_seen (snd a) \<noteq> 0 then dev_last_seen (snd a) else fst a)\<rparr>"

lemma dev_id_stamped [simp]: "dev_id (stamped a) = dev_id (snd a)"
  by (simp add: stamped_def)

interpretation devices: keyed_array
  "\<lambda>mw. dm_devices (fst mw)" dev_id MAX_DB_DEVICES "\<lambda>a. dev_id (snd a)" stamped "\<lambda>_. True"
  "\<lambda>a. htsn_device_manager_upsert E (fst a) (Some (snd a))" "\<lambda>k. htsn_device_manager_remove E (Some k)"
  for E :: "'h engine"
  by unfold_locales
    (auto simp: htsn_device_manager_upsert_def htsn_device_manager_remove_def stamped_def Let_def split: prod.splits)

interpretation sensors: keyed_array
  "\<lambda>mw. sm_sensors (fst mw)" sensor_key MAX_SENSORS sensor_key "\<lambda>s. s" "\<lambda>_. True"
  "\<lambda>s. htsn_sensor_manager_upsert E (Some s)" "\<lambda>k. htsn_sensor_manager_remove E (Some (fst k)) (Some (snd k))"
  for E :: "'h engine"
  by unfold_locales
    (auto simp: htsn_sensor_manager_upsert_def htsn_sensor_manager_remove_def sensor_key_def prod_eq_iff split: prod.splits)

lemma find_idx_nth: "map_option (\<lambda>i. xs ! i) (find_idx test xs) = find test xs"
  by (induction xs) (auto simp: option.map_comp o_def cong: option.map_cong)

lemma device_get_table: "(\<lambda>k. htsn_device_manager_get m (Some k)) = table dev_id (dm_devices m)"
  by (rule ext) (simp add: htsn_device_manager_get_def table_def find_idx_nth)

text \<open>Collecting rows into an array with a guard on the count keeps the first ones.\<close>

lemma foldl_guarded_append:
  "length ds \<le> n \<Longrightarrow> foldl (\<lambda>ds d. if length ds < n then ds @ [d] else ds) ds xs = take n (ds @ xs)"
proof (induction xs arbitrary: ds)
  case (Cons x xs)
  show ?case
  proof (cases "length ds < n")
    case True
    then show ?thesis using Cons.IH [of "ds @ [x]"] by simp
  next
    case False
    with Cons.prems Cons.IH [of ds] show ?thesis by simp
  qed
qed simp

lemma restored_devices:
  "dm_devices (htsn_device_manager_restore E m w) = take MAX_DB_DEVICES (htsn_db_device_for_each E (w_db w))"
  using foldl_guarded_append [of "[]" MAX_DB_DEVICES "htsn_db_device_for_each E (w_db w)"]
  by (simp add: htsn_device_manager_restore_def collect_devices_def [abs_def])

section \<open>Properties\<close>

text \<open>
  C8. The device manager is a map of at most 512 devices: for every history of upserts (each
  with the clock at that moment) and removals, on any engine, the error codes it returns and what
  \<open>htsn_device_manager_get\<close> answers afterwards for every identifier are those of a finite map that refuses
  a new key with \<open>HTSN_ERR_BUSY\<close> when it is full and reports \<open>HTSN_ERR_NOT_FOUND\<close> for a missing one; the
  array never overflows.
\<close>

theorem device_manager_refines_map:
  assumes "distinct (map dev_id (dm_devices m))" and "length (dm_devices m) \<le> MAX_DB_DEVICES"
    and "run_ops (\<lambda>(now, d). htsn_device_manager_upsert E now (Some d)) (\<lambda>k. htsn_device_manager_remove E (Some k)) xs (m, w) =
      (es, m', w')"
  shows "run_ops (\<lambda>(now, d). bm_put MAX_DB_DEVICES (dev_id d) (stamped (now, d))) bm_del xs
      (\<lambda>k. htsn_device_manager_get m (Some k)) = (es, \<lambda>k. htsn_device_manager_get m' (Some k)) \<and>
    htsn_device_manager_count m' \<le> 512"
proof -
  have w: "devices.wf (m, w)" using assms(1,2) by (simp add: devices.wf_def)
  have r: "run_ops (\<lambda>a. htsn_device_manager_upsert E (fst a) (Some (snd a))) (\<lambda>k. htsn_device_manager_remove E (Some k)) xs (m, w) =
      (es, m', w')"
    using assms(3) by (simp add: case_prod_unfold)
  have "list_all (\<lambda>x. case x of Inl _ \<Rightarrow> True | Inr a \<Rightarrow> True) xs"
    by (auto simp: list_all_iff split: sum.splits)
  from devices.history_refines [OF w this, of E] have "run_ops (\<lambda>(now, d). bm_put MAX_DB_DEVICES (dev_id d) (stamped (now, d))) bm_del xs
      (\<lambda>k. htsn_device_manager_get m (Some k)) = (es, \<lambda>k. htsn_device_manager_get m' (Some k))"
    by (simp add: r device_get_table case_prod_unfold)
  moreover have "htsn_device_manager_count m' \<le> 512"
  proof -
    have "devices.wf (m', w')" using devices.history_wf [OF w, of E xs] by (simp add: r)
    then show ?thesis unfolding devices.wf_def by (simp add: htsn_device_manager_count_def MAX_DB_DEVICES_def)
  qed
  ultimately show ?thesis by blast
qed

theorem device_manager_refines_map_witness:
  "\<exists>es m' w'. run_ops (\<lambda>(now, d). htsn_device_manager_upsert sql_run now (Some d)) (\<lambda>k. htsn_device_manager_remove sql_run (Some k))
      [Inl ''x''] (\<lparr>dm_model = ''device'', dm_devices = [], dm_plugins = None\<rparr>, empty_world) = (es, m', w') \<and>
     run_ops (\<lambda>(now, d). bm_put MAX_DB_DEVICES (dev_id d) (stamped (now, d))) bm_del [Inl ''x''] Map.empty =
       (es, \<lambda>k. htsn_device_manager_get m' (Some k))"
proof -
  let ?m = "\<lparr>dm_model = ''device'', dm_devices = [], dm_plugins = None\<rparr>"
  obtain es m' w' where r: "run_ops (\<lambda>(now, d). htsn_device_manager_upsert sql_run now (Some d)) (\<lambda>k. htsn_device_manager_remove sql_run (Some k))
      [Inl ''x''] (?m, empty_world) = (es, m', w')" by (metis prod_cases3)
  from device_manager_refines_map [OF _ _ r] have "run_ops (\<lambda>(now, d). bm_put MAX_DB_DEVICES (dev_id d) (stamped (now, d))) bm_del [Inl ''x'']
      (\<lambda>k. htsn_device_manager_get ?m (Some k)) = (es, \<lambda>k. htsn_device_manager_get m' (Some k))" by simp
  moreover have "(\<lambda>k. htsn_device_manager_get ?m (Some k)) = Map.empty" by (simp add: device_get_table)
  ultimately show ?thesis using r by (intro exI [of _ es] exI [of _ m'] exI [of _ w']) simp
qed

section \<open>Sensors without a device\<close>

lemma sql_prep_sensor [sql_prep]:
  "sql_prepares (Insert (DoUpdate [''device_id'', ''sensor_id''] (drop 2 sensor_cols)) ''sensors'' sensor_cols
     [P 1, P 2, P 3, P 4, P 5, P 6, P 7, P 8])"
  "sql_prepares (Select sensor_cols ''sensors'' [] Unordered None None)"
  "sql_prepares (Select device_cols ''devices'' [] Unordered None None)"
  by code_simp+

lemma schema_sensors: "map_of schema ''sensors'' = Some ((plain_table sensor_cols [''device_id'', ''sensor_id''])
    \<lparr>td_fk := Some (''device_id'', ''devices'', ''id'')\<rparr>)"
  by (simp add: schema_def sensor_cols_def)

lemma sensor_upsert_orphan_ref:
  assumes "handle db = Some T" and "rows T ''sensors'' = []" and "rows T ''devices'' = []"
  shows "htsn_db_sensor_upsert sql_run (Some s) db = (HTSN_ERR_DB, db)"
proof -
  let ?td = "(plain_table sensor_cols [''device_id'', ''sensor_id''])\<lparr>td_fk := Some (''device_id'', ''devices'', ''id'')\<rparr>"
  let ?st = "Insert (DoUpdate [''device_id'', ''sensor_id''] (drop 2 sensor_cols)) ''sensors'' sensor_cols
    [P 1, P 2, P 3, P 4, P 5, P 6, P 7, P 8]"
  let ?ps = "[SText (sen_device_id s), SText (sen_sensor_id s), SText (htsn_sensor_type_str (sen_type s)),
    SText (sen_name s), SReal (sen_value s), SText (sen_unit s), SInt (if sen_healthy s then 1 else 0), SInt (sen_last_update s)]"
  have "sql_exec ?st ?td ?ps T = (False, [], T)"
    using assms(2,3)
    by (simp add: sql_exec_def sql_insert_def Let_def check_ok_def fk_ok_def new_row_def sensor_cols_def sexp_val_def)
  then have "db_run sql_run ?st ?ps db = Some (False, [], db\<lparr>handle := Some T\<rparr>)"
    by (intro db_run_ref [OF assms(1) sql_prep_sensor(1)]) (simp_all add: schema_sensors)
  moreover have "db\<lparr>handle := Some T\<rparr> = db" using assms(1) by simp
  ultimately show ?thesis
    unfolding htsn_db_sensor_upsert_def db_step_def using assms(1) by (simp add: closed_def)
qed

context sqlite
begin

lemma sensor_upsert_abs [abs_simps]:
  "htsn_db_sensor_upsert sql_run s (dbabs tabs db) = map_prod (\<lambda>e. e) (dbabs tabs) (htsn_db_sensor_upsert E s db)"
  by (simp add: htsn_db_sensor_upsert_def closed_abs db_step_abs split: option.splits)

lemma sensor_for_each_abs [abs_simps]: "htsn_db_sensor_for_each sql_run (dbabs tabs db) = htsn_db_sensor_for_each E db"
  by (simp add: htsn_db_sensor_for_each_def db_rows_abs)

lemma device_for_each_abs [abs_simps]: "htsn_db_device_for_each sql_run (dbabs tabs db) = htsn_db_device_for_each E db"
  by (simp add: htsn_db_device_for_each_def db_rows_abs row_to_device_abs)

lemma sensor_orphan:
  assumes "\<not> closed db" and "htsn_db_sensor_for_each E db = []" and "htsn_db_device_for_each E db = []"
  shows "htsn_db_sensor_for_each E (snd (htsn_db_sensor_upsert E (Some s) db)) = []"
proof -
  obtain T where T: "handle (dbabs tabs db) = Some T" using assms(1) by (auto simp: closed_def)
  have "rows T ''sensors'' = []" "rows T ''devices'' = []"
    using assms(2,3) db_rows_all [OF T sql_prep_sensor(2)] db_rows_all [OF T sql_prep_sensor(3)]
    by (simp_all add: htsn_db_sensor_for_each_def htsn_db_device_for_each_def db_rows_abs)
  then have "htsn_db_sensor_upsert sql_run (Some s) (dbabs tabs db) = (HTSN_ERR_DB, dbabs tabs db)"
    by (rule sensor_upsert_orphan_ref [OF T])
  then have "dbabs tabs (snd (htsn_db_sensor_upsert E (Some s) db)) = dbabs tabs db"
    by (simp add: sensor_upsert_abs prod_eq_iff)
  then show ?thesis using assms(2) by (metis sensor_for_each_abs)
qed

end

text \<open>
  A sensor of a device the database does not know is accepted and lost: on every engine that
  keeps the SQLite contract and an open database without devices and sensors, the sensor manager returns \<open>HTSN_OK\<close> and
  keeps the sensor in memory, but the foreign key refuses the row, so a manager created afterwards from
  the same database has no sensors.
\<close>

theorem sensor_orphan_lost:
  assumes "sqlite E tabs" and "\<not> closed (w_db w)" and "w_bus w \<noteq> None"
    and "htsn_db_sensor_for_each E (w_db w) = []" and "htsn_db_device_for_each E (w_db w) = []"
    and "htsn_sensor_manager_upsert E (Some s) (\<lparr>sm_model = md, sm_sensors = []\<rparr>, w) = (e, m', w')"
  shows "e = HTSN_OK \<and> sm_sensors m' = [s] \<and>
    map_option htsn_sensor_manager_count (htsn_sensor_manager_create E w') = Some 0"
proof -
  have m: "e = HTSN_OK" "sm_sensors m' = [s]" "w_db w' = snd (htsn_db_sensor_upsert E (Some s) (w_db w))"
    using assms(6) by (auto simp: htsn_sensor_manager_upsert_def MAX_SENSORS_def sm_changed_def)
  have "w_bus w' \<noteq> None"
    using assms(3,6)
    by (auto simp: htsn_sensor_manager_upsert_def MAX_SENSORS_def sm_changed_def htsn_model_notify_def
        htsn_model_notify_data_def htsn_event_bus_publish_def split: option.splits)
  with m sqlite.sensor_orphan [OF assms(1,2,4,5), of s] show ?thesis
    by (auto simp: htsn_sensor_manager_create_def htsn_sensor_manager_count_def)
qed

theorem sensor_orphan_lost_witness:
  "\<exists>m' w'. htsn_sensor_manager_upsert sql_run (Some (make_sensor 0 ''d'' ''t'' HTSN_SENSOR_IMU ''n'' ''g''))
      (\<lparr>sm_model = ''sensor'', sm_sensors = []\<rparr>, empty_world) = (HTSN_OK, m', w') \<and>
     map_option htsn_sensor_manager_count (htsn_sensor_manager_create sql_run w') = Some 0"
proof -
  obtain e m' w' where r: "htsn_sensor_manager_upsert sql_run (Some (make_sensor 0 ''d'' ''t'' HTSN_SENSOR_IMU ''n'' ''g''))
      (\<lparr>sm_model = ''sensor'', sm_sensors = []\<rparr>, empty_world) = (e, m', w')" by (metis prod_cases3)
  have "htsn_db_sensor_for_each sql_run empty_db = []" "htsn_db_device_for_each sql_run empty_db = []"
    unfolding htsn_db_sensor_for_each_def htsn_db_device_for_each_def
    using db_rows_all [OF _ sql_prep_sensor(2), of empty_db empty_tables] db_rows_all [OF _ sql_prep_sensor(3), of empty_db empty_tables]
    by (simp_all add: empty_db_def empty_tables_def)
  with sensor_orphan_lost [OF sql_ref.sqlite_axioms _ _ _ _ r] r show ?thesis
    by (auto simp: empty_world_def empty_db_def closed_def)
qed

end
