(* ===== verification/Tsn_Manager.thy ===== *)
theory Tsn_Manager
  imports Caches
begin

text \<open>
  The stream manager (src/src/stream/tsn_manager.c): a cache of at most 512 streams written through to
  the database, and the deployment of streams, which pushes a JSON description to the talker and the
  listeners over MQTT. It satisfies the locale \<open>keyed_array\<close>; the lemmas show that
  cache and database agree after every history, and which messages a deployment sends.
\<close>

record htsn_tsn_manager =
  tm_model :: string
  tm_streams :: "htsn_stream list"
  tm_mqtt :: bool

text \<open>\<open>tm_mqtt\<close>: the pointer to the MQTT client is set; the client itself is in the \<open>world\<close>.\<close>

definition collect_stream :: "htsn_stream list \<Rightarrow> htsn_stream \<Rightarrow> htsn_stream list" where
  "collect_stream ss s = (if length ss < HTSN_MAX_DEVICES then ss @ [s] else ss)"

definition tsn_notify :: "htsn_tsn_manager \<Rightarrow> string \<Rightarrow> htsn_stream \<Rightarrow> 'h world \<Rightarrow> 'h world" where
  "tsn_notify m ev s w = w_notify (tm_model m) (snprintf_buf HTSN_MAX_STR ev) (EvStream s) w"

definition htsn_tsn_manager_create :: "'h engine \<Rightarrow> bool \<Rightarrow> 'h world \<Rightarrow> htsn_tsn_manager" where
  "htsn_tsn_manager_create E mqtt w =
     \<lparr>tm_model = htsn_model_init (Some ''tsn''),
      tm_streams = foldl collect_stream [] (htsn_db_tsn_for_each E (w_db w)), tm_mqtt = mqtt\<rparr>"

definition htsn_tsn_manager_set_mqtt :: "bool \<Rightarrow> htsn_tsn_manager \<Rightarrow> htsn_tsn_manager" where
  "htsn_tsn_manager_set_mqtt mqtt m = m\<lparr>tm_mqtt := mqtt\<rparr>"

definition htsn_tsn_manager_count :: "htsn_tsn_manager \<Rightarrow> nat" where
  "htsn_tsn_manager_count m = length (tm_streams m)"

definition htsn_tsn_manager_add ::
  "'h engine \<Rightarrow> htsn_stream option \<Rightarrow> htsn_tsn_manager \<times> 'h world \<Rightarrow> htsn_error \<times> htsn_tsn_manager \<times> 'h world" where
  "htsn_tsn_manager_add E so mw =
     (case (so, mw) of
        (None, _) \<Rightarrow> (HTSN_ERR_INVALID_ARG, mw)
      | (Some s, (m, w)) \<Rightarrow>
          (let e = htsn_stream_validate (Some s)
           in if e \<noteq> HTSN_OK then (e, mw)
              else
                (case find_idx (\<lambda>x. st_stream_id x = st_stream_id s) (tm_streams m) of
                   Some i \<Rightarrow>
                     (let m1 = m\<lparr>tm_streams := (tm_streams m)[i := s]\<rparr>
                      in (HTSN_OK, m1, tsn_notify m1 ''updated'' s (w_with_db (htsn_db_tsn_save E (Some s)) w)))
                 | None \<Rightarrow>
                     if length (tm_streams m) \<ge> HTSN_MAX_DEVICES then (HTSN_ERR_BUSY, mw)
                     else
                       (let m1 = m\<lparr>tm_streams := tm_streams m @ [s]\<rparr>
                        in (HTSN_OK, m1, tsn_notify m1 ''created'' s (w_with_db (htsn_db_tsn_save E (Some s)) w))))))"

definition htsn_tsn_manager_remove ::
  "'h engine \<Rightarrow> string option \<Rightarrow> htsn_tsn_manager \<times> 'h world \<Rightarrow> htsn_error \<times> htsn_tsn_manager \<times> 'h world" where
  "htsn_tsn_manager_remove E keyo mw =
     (case (keyo, mw) of
        (None, _) \<Rightarrow> (HTSN_ERR_INVALID_ARG, mw)
      | (Some k, (m, w)) \<Rightarrow>
          (case find_idx (\<lambda>x. st_stream_id x = k) (tm_streams m) of
             None \<Rightarrow> (HTSN_ERR_NOT_FOUND, mw)
           | Some i \<Rightarrow>
               (let removed = tm_streams m ! i;
                    m1 = m\<lparr>tm_streams := remove_at i (tm_streams m)\<rparr>
                in (HTSN_OK, m1, tsn_notify m1 ''removed'' removed (w_with_db (htsn_db_tsn_delete E (Some k)) w)))))"

definition htsn_tsn_manager_load :: "htsn_tsn_manager \<Rightarrow> string option \<Rightarrow> htsn_error + htsn_stream" where
  "htsn_tsn_manager_load m keyo =
     (case keyo of
        None \<Rightarrow> Inl HTSN_ERR_INVALID_ARG
      | Some k \<Rightarrow>
          (case find_idx (\<lambda>x. st_stream_id x = k) (tm_streams m) of
             None \<Rightarrow> Inl HTSN_ERR_NOT_FOUND
           | Some i \<Rightarrow> Inr (tm_streams m ! i)))"

definition htsn_tsn_manager_for_each :: "htsn_tsn_manager \<Rightarrow> htsn_stream list" where
  "htsn_tsn_manager_for_each m = tm_streams m"

section \<open>Deployment\<close>

text \<open>A double quote, which the string syntax of HOL cannot hold.\<close>

definition dq :: string where "dq = [CHR 0x22]"

text \<open>\<open>"key":"value"\<close> and \<open>"key":number\<close> of the format string.\<close>

definition js_str :: "string \<Rightarrow> string \<Rightarrow> string" where
  "js_str key v = dq @ key @ dq @ '':'' @ dq @ v @ dq"

definition js_num :: "string \<Rightarrow> int \<Rightarrow> string" where
  "js_num key i = dq @ key @ dq @ '':'' @ dec_int i"

definition stream_fields :: "htsn_stream \<Rightarrow> htsn_stream_role \<Rightarrow> string list" where
  "stream_fields s role =
     [js_str ''stream'' (st_stream_id s), js_str ''name'' (st_name s), js_str ''role'' (htsn_stream_role_str role),
      js_str ''talker'' (st_talker s), js_num ''vlan_id'' (st_vlan_id s), js_num ''latency_ns'' (st_max_latency_ns s),
      js_num ''interval_ns'' (st_max_interval_ns s), js_num ''priority'' (st_priority s),
      js_num ''dfprio'' (st_data_frame_prio s), js_str ''status'' (htsn_stream_status_str (st_status s))]"

fun join :: "string \<Rightarrow> string list \<Rightarrow> string" where
  "join sep [] = []"
| "join sep [x] = x"
| "join sep (x # y # r) = x @ sep @ join sep (y # r)"

definition stream_payload :: "htsn_stream \<Rightarrow> htsn_stream_role \<Rightarrow> string" where
  "stream_payload s role = snprintf_buf 1024 (''{'' @ join '','' (stream_fields s role) @ ''}'')"

definition stream_topic :: "string \<Rightarrow> string" where
  "stream_topic device = snprintf_buf HTSN_MAX_STR (''tsn/cmd/'' @ device @ ''/stream'')"

definition publish_stream ::
  "mosquitto \<Rightarrow> htsn_tsn_manager \<Rightarrow> string \<Rightarrow> htsn_stream \<Rightarrow> htsn_stream_role \<Rightarrow> 'h world \<Rightarrow> htsn_error \<times> 'h world" where
  "publish_stream Q m device s role w =
     (if \<not> tm_mqtt m then (HTSN_ERR_NOT_READY, w)
      else
        (let (e, c) = htsn_mqtt_client_publish Q (Some (stream_topic device)) (stream_payload s role) (w_mqtt w)
         in (if e = HTSN_OK then HTSN_OK else HTSN_ERR_NET, w\<lparr>w_mqtt := c\<rparr>)))"

definition all_listener_cb ::
  "mosquitto \<Rightarrow> htsn_tsn_manager \<Rightarrow> htsn_stream \<Rightarrow> string option \<Rightarrow> 'h world \<Rightarrow> htsn_device \<Rightarrow> 'h world" where
  "all_listener_cb Q m s domain w dev =
     (if dev_id dev = [] \<or> dev_id dev = st_talker s then w
      else if (case domain of Some dm \<Rightarrow> dev_domain dev \<noteq> dm | None \<Rightarrow> False) then w
      else snd (publish_stream Q m (dev_id dev) s HTSN_STREAM_ROLE_LISTENER w))"

definition push_listeners ::
  "'h engine \<Rightarrow> mosquitto \<Rightarrow> htsn_tsn_manager \<Rightarrow> htsn_stream \<Rightarrow> string option \<Rightarrow> 'h world \<Rightarrow> 'h world" where
  "push_listeners E Q m s domain w =
     (if st_listener_all s then
        (case domain of
           Some dm \<Rightarrow>
             if dm \<noteq> [] then foldl (all_listener_cb Q m s domain) w (htsn_db_device_for_each_in_domain E dm (w_db w))
             else foldl (all_listener_cb Q m s domain) w (htsn_db_device_for_each E (w_db w))
         | None \<Rightarrow> foldl (all_listener_cb Q m s domain) w (htsn_db_device_for_each E (w_db w)))
      else
        foldl (\<lambda>w l. if l = [] then w else snd (publish_stream Q m l s HTSN_STREAM_ROLE_LISTENER w)) w (st_listeners s))"

definition deploy_scoped ::
  "'h engine \<Rightarrow> mosquitto \<Rightarrow> htsn_tsn_manager \<Rightarrow> string option \<Rightarrow> string option \<Rightarrow> 'h world \<Rightarrow> htsn_error \<times> 'h world" where
  "deploy_scoped E Q m keyo domain w =
     (case keyo of
        None \<Rightarrow> (HTSN_ERR_INVALID_ARG, w)
      | Some k \<Rightarrow>
          (case htsn_tsn_manager_load m (Some k) of
             Inl e \<Rightarrow> (e, w)
           | Inr s \<Rightarrow>
               if \<not> tm_mqtt m then (HTSN_ERR_NOT_READY, w)
               else
                 (let (e, w1) = publish_stream Q m (st_talker s) s HTSN_STREAM_ROLE_TALKER w
                  in if e \<noteq> HTSN_OK then (HTSN_ERR_NET, w1)
                     else
                       (let w2 = push_listeners E Q m s domain w1;
                            w3 = w_with_db (htsn_db_tsn_set_status E (Some k) HTSN_STREAM_READY) w2
                        in (HTSN_OK, tsn_notify m ''deployed'' (s\<lparr>st_status := HTSN_STREAM_READY\<rparr>) w3)))))"

definition htsn_tsn_manager_deploy ::
  "'h engine \<Rightarrow> mosquitto \<Rightarrow> htsn_tsn_manager \<Rightarrow> string option \<Rightarrow> 'h world \<Rightarrow> htsn_error \<times> 'h world" where
  "htsn_tsn_manager_deploy E Q m keyo w = deploy_scoped E Q m keyo None w"

definition stream_in_domain :: "'h engine \<Rightarrow> htsn_tsn_manager \<Rightarrow> string \<Rightarrow> string option \<Rightarrow> 'h world \<Rightarrow> bool" where
  "stream_in_domain E m stream_id domain w =
     (case domain of
        None \<Rightarrow> True
      | Some dm \<Rightarrow>
          if dm = [] then True
          else
            (case htsn_tsn_manager_load m (Some stream_id) of
               Inl _ \<Rightarrow> True
             | Inr s \<Rightarrow>
                 (case htsn_db_device_get E (Some (st_talker s)) (w_db w) of
                    Inl _ \<Rightarrow> True
                  | Inr talker \<Rightarrow> dev_domain talker = [] \<or> dev_domain talker = dm)))"

definition deploy_cb ::
  "'h engine \<Rightarrow> mosquitto \<Rightarrow> htsn_tsn_manager \<Rightarrow> string option \<Rightarrow> 'h world \<Rightarrow> htsn_stream \<Rightarrow> 'h world" where
  "deploy_cb E Q m domain w s =
     (if \<not> stream_in_domain E m (st_stream_id s) domain w then w
      else snd (deploy_scoped E Q m (Some (st_stream_id s)) domain w))"

definition htsn_tsn_manager_deploy_all ::
  "'h engine \<Rightarrow> mosquitto \<Rightarrow> htsn_tsn_manager \<Rightarrow> string option \<Rightarrow> 'h world \<Rightarrow> htsn_error \<times> 'h world" where
  "htsn_tsn_manager_deploy_all E Q m domain w =
     (HTSN_OK, foldl (deploy_cb E Q m domain) w (htsn_tsn_manager_for_each m))"

section \<open>Cache and database agree\<close>

interpretation streams: keyed_array
  "\<lambda>mw. tm_streams (fst mw)" st_stream_id HTSN_MAX_DEVICES st_stream_id "\<lambda>s. s" "\<lambda>s. htsn_stream_validate (Some s) = HTSN_OK"
  "\<lambda>s. htsn_tsn_manager_add E (Some s)" "\<lambda>k. htsn_tsn_manager_remove E (Some k)"
  for E :: "'h engine"
  by unfold_locales
    (auto simp: htsn_tsn_manager_add_def htsn_tsn_manager_remove_def Let_def split: prod.splits)

lemma stream_load_table:
  "htsn_tsn_manager_load m (Some k) =
     (case table st_stream_id (tm_streams m) k of None \<Rightarrow> Inl HTSN_ERR_NOT_FOUND | Some s \<Rightarrow> Inr s)"
proof -
  have "table st_stream_id (tm_streams m) k = map_option (\<lambda>i. tm_streams m ! i) (find_idx (\<lambda>x. st_stream_id x = k) (tm_streams m))"
    by (simp add: table_def find_idx_nth)
  then show ?thesis by (simp add: htsn_tsn_manager_load_def split: option.splits)
qed

definition coherent :: "'h engine \<Rightarrow> htsn_tsn_manager \<times> 'h world \<Rightarrow> bool" where
  "coherent E mw \<longleftrightarrow> \<not> closed (w_db (snd mw)) \<and>
     (\<forall>k. htsn_tsn_manager_load (fst mw) (Some k) = htsn_db_tsn_load E (Some k) (w_db (snd mw)))"

text \<open>An operation changes the database exactly when it changes the cache.\<close>

lemma tsn_add_db:
  "htsn_tsn_manager_add E (Some s) (m, w) = (e, m', w') \<Longrightarrow>
     (if e = HTSN_OK then w_db w' = snd (htsn_db_tsn_save E (Some s) (w_db w)) else (m', w') = (m, w))"
  by (auto simp: htsn_tsn_manager_add_def tsn_notify_def Let_def split: if_splits option.splits)

lemma tsn_remove_db:
  "htsn_tsn_manager_remove E (Some k) (m, w) = (e, m', w') \<Longrightarrow>
     (if e = HTSN_OK then w_db w' = snd (htsn_db_tsn_delete E (Some k) (w_db w)) else (m', w') = (m, w))"
  by (auto simp: htsn_tsn_manager_remove_def tsn_notify_def Let_def split: option.splits)

context sqlite
begin

lemma add_coherent:
  assumes "streams.wf mw" and "coherent E mw" and "stream_ok s"
  shows "coherent E (snd (htsn_tsn_manager_add E (Some s) mw))"
proof -
  obtain m w where mw: "mw = (m, w)" by (cases mw)
  obtain e m' w' where r: "htsn_tsn_manager_add E (Some s) (m, w) = (e, m', w')" by (metis prod_cases3)
  show ?thesis
  proof (cases "e = HTSN_OK")
    case False
    then show ?thesis using assms(2) tsn_add_db [OF r] r by (simp add: mw)
  next
    case True
    then have v: "htsn_stream_validate (Some s) = HTSN_OK"
      using streams.put_refused [of s E "(m, w)"] r by fastforce
    have w': "w_db w' = snd (htsn_db_tsn_save E (Some s) (w_db w))" using tsn_add_db [OF r] True by simp
    have o: "\<not> closed (w_db w)" using assms(2) by (simp add: coherent_def mw)
    have "table st_stream_id (tm_streams m') = (table st_stream_id (tm_streams m))(st_stream_id s \<mapsto> s)"
      using streams.put_refines [OF assms(1) v, of E] r True by (auto simp: mw bm_put_def split: if_splits)
    then have "htsn_tsn_manager_load m' (Some k) =
        (if k = st_stream_id s then Inr s else htsn_tsn_manager_load m (Some k))" for k
      by (simp add: stream_load_table)
    then show ?thesis
      using assms(2) stream_store.load_save [OF o assms(3)] stream_store.load_save_other [OF o assms(3)]
        stream_store.save_opened [OF o assms(3)]
      by (auto simp: coherent_def mw r w')
  qed
qed

lemma remove_coherent:
  assumes "streams.wf mw" and "coherent E mw"
  shows "coherent E (snd (htsn_tsn_manager_remove E (Some k) mw))"
proof -
  obtain m w where mw: "mw = (m, w)" by (cases mw)
  obtain e m' w' where r: "htsn_tsn_manager_remove E (Some k) (m, w) = (e, m', w')" by (metis prod_cases3)
  show ?thesis
  proof (cases "e = HTSN_OK")
    case False
    then show ?thesis using assms(2) tsn_remove_db [OF r] r by (simp add: mw)
  next
    case True
    have w': "w_db w' = snd (htsn_db_tsn_delete E (Some k) (w_db w))" using tsn_remove_db [OF r] True by simp
    have o: "\<not> closed (w_db w)" using assms(2) by (simp add: coherent_def mw)
    have "table st_stream_id (tm_streams m') = (table st_stream_id (tm_streams m))(k := None)"
      using streams.rem_refines [OF assms(1), of E k] r True by (simp add: mw bm_del_def split: if_splits)
    then have "htsn_tsn_manager_load m' (Some j) =
        (if j = k then Inl HTSN_ERR_NOT_FOUND else htsn_tsn_manager_load m (Some j))" for j
      by (simp add: stream_load_table)
    then show ?thesis
      using assms(2) stream_store.load_del [OF o] stream_store.load_del_other [OF o] stream_store.del_opened [OF o]
      by (auto simp: coherent_def mw r w')
  qed
qed

lemma history_coherent:
  assumes "streams.wf mw" and "coherent E mw" and "list_all (op_ok stream_ok) xs"
  shows "coherent E (snd (run_ops (\<lambda>s. htsn_tsn_manager_add E (Some s)) (\<lambda>k. htsn_tsn_manager_remove E (Some k)) xs mw))"
  using assms
proof (induction xs arbitrary: mw)
  case (Cons x xs)
  let ?s = "snd (case x of Inl k \<Rightarrow> htsn_tsn_manager_remove E (Some k) mw | Inr s \<Rightarrow> htsn_tsn_manager_add E (Some s) mw)"
  have "streams.wf ?s" using Cons.prems(1) by (cases x) (simp_all add: streams.rem_wf streams.put_wf)
  moreover have "coherent E ?s" using Cons.prems by (cases x) (simp_all add: remove_coherent add_coherent)
  ultimately show ?case using Cons.IH [of ?s] Cons.prems(3) by (simp add: Let_def split_beta)
qed simp

end

section \<open>Marking a stream as ready\<close>

lemma sql_prep_status [sql_prep]: "sql_prepares (Update ''tsn_streams'' [(''status'', P 1)] [(''stream_id'', P 2)])"
  by code_simp

lemma add_member_status:
  "foldl add_member_row (s\<lparr>st_status := x\<rparr>) ms = (foldl add_member_row s ms)\<lparr>st_status := x\<rparr>"
proof (induction ms arbitrary: s)
  case (Cons r ms)
  have "add_member_row (s\<lparr>st_status := x\<rparr>) r = (add_member_row s r)\<lparr>st_status := x\<rparr>"
    by (simp add: add_member_row_def split: option.splits)
  then show ?case by (simp add: Cons.IH)
qed simp

lemma read_stream_status:
  "read_stream (r(''status'' := SInt 1)) = (read_stream r)\<lparr>st_status := HTSN_STREAM_READY\<rparr>"
  by (simp add: read_stream_def stream_cols_def column_int_def column_int64_def column_text_def int_stream_status_def
      in_i32_def Let_def)

lemma set_ready_ref:
  assumes "handle db = Some T"
  shows "htsn_db_tsn_set_status sql_run (Some k) HTSN_STREAM_READY db = (HTSN_OK, db\<lparr>handle := Some (put_rows ''tsn_streams''
    (map (\<lambda>r. if r ''stream_id'' = SText k then r(''status'' := SInt 1) else r) (rows T ''tsn_streams'')) T)\<rparr>)"
proof -
  let ?st = "Update ''tsn_streams'' [(''status'', P 1)] [(''stream_id'', P 2)]"
  let ?td = "(plain_table stream_cols [''stream_id''])\<lparr>td_check := Some (''status'', [0, 1, 2, 3])\<rparr>"
  have w: "row_where [SInt 1, SText k] [(''stream_id'', P 2)] r \<longleftrightarrow> r ''stream_id'' = SText k" for r
    by (auto simp: row_where_def sexp_val_def)
  have v: "sexp_val [SInt 1, SText k] (P 1) = SInt 1" by (simp add: sexp_val_def)
  have "sql_exec ?st ?td [SInt 1, SText k] T = (True, [], put_rows ''tsn_streams''
      (map (\<lambda>r. if r ''stream_id'' = SText k then r(''status'' := SInt 1) else r) (rows T ''tsn_streams'')) T)"
    unfolding sql_exec_def stmt.case Let_def list.map prod.case w v set_cols_Cons set_cols_Nil
    by (simp add: check_ok_def list_all_iff)
  then have "db_run sql_run ?st [SInt 1, SText k] db = Some (True, [], db\<lparr>handle := Some (put_rows ''tsn_streams''
      (map (\<lambda>r. if r ''stream_id'' = SText k then r(''status'' := SInt 1) else r) (rows T ''tsn_streams'')) T)\<rparr>)"
    by (intro db_run_ref [OF assms sql_prep_status]) (simp_all add: schema_tables)
  then show ?thesis
    unfolding htsn_db_tsn_set_status_def db_do_def using assms by (simp add: closed_def)
qed

lemma keyed_set_status:
  "keyed ''stream_id'' v (map (\<lambda>r. if r ''stream_id'' = SText k then r(''status'' := SInt 1) else r) rs) =
     map (\<lambda>r. if v = SText k then r(''status'' := SInt 1) else r) (keyed ''stream_id'' v rs)"
  by (induction rs) (auto simp: keyed_def)

lemma set_ready_load_ref:
  assumes "\<not> closed db"
  shows "htsn_db_tsn_load sql_run (Some j) (snd (htsn_db_tsn_set_status sql_run (Some k) HTSN_STREAM_READY db)) =
    map_sum (\<lambda>e. e) (\<lambda>s. if j = k then s\<lparr>st_status := HTSN_STREAM_READY\<rparr> else s) (htsn_db_tsn_load sql_run (Some j) db)"
proof -
  obtain T where T: "handle db = Some T" using assms by (auto simp: closed_def)
  show ?thesis
    unfolding set_ready_ref [OF T] snd_conv stream_load_ref [OF T]
    by (subst stream_load_ref, simp, simp only: rows_put_rows)
      (simp add: keyed_set_status read_stream_status add_member_status split: list.split)
qed

context sqlite
begin

lemma set_status_abs [abs_simps]:
  "htsn_db_tsn_set_status sql_run k st (dbabs tabs db) = map_prod (\<lambda>e. e) (dbabs tabs) (htsn_db_tsn_set_status E k st db)"
  by (simp add: htsn_db_tsn_set_status_def closed_abs db_do_abs split: option.splits)

lemma set_ready_load:
  assumes "\<not> closed db"
  shows "htsn_db_tsn_load E (Some j) (snd (htsn_db_tsn_set_status E (Some k) HTSN_STREAM_READY db)) =
    map_sum (\<lambda>e. e) (\<lambda>s. if j = k then s\<lparr>st_status := HTSN_STREAM_READY\<rparr> else s) (htsn_db_tsn_load E (Some j) db)"
  using set_ready_load_ref [of "dbabs tabs db" j k] assms
  by (simp add: closed_abs set_status_abs stream_load_abs)

end

section \<open>Messages of a deployment\<close>

text \<open>Whom a deployment addresses after the talker.\<close>

definition listeners_of :: "'h engine \<Rightarrow> htsn_stream \<Rightarrow> string option \<Rightarrow> 'h htsn_db \<Rightarrow> string list" where
  "listeners_of E s domain db =
     (if st_listener_all s then
        map dev_id (filter (\<lambda>d. dev_id d \<noteq> [] \<and> dev_id d \<noteq> st_talker s \<and> (domain = None \<or> domain = Some (dev_domain d)))
          (if domain = None \<or> domain = Some [] then htsn_db_device_for_each E db
           else htsn_db_device_for_each_in_domain E (the domain) db))
      else filter (\<lambda>l. l \<noteq> []) (st_listeners s))"

definition stream_msg :: "htsn_stream \<Rightarrow> htsn_stream_role \<Rightarrow> string \<Rightarrow> mosq_call" where
  "stream_msg s role device = MPublish (stream_topic device) (stream_payload s role)"

lemma publish_stream_calls:
  assumes "tm_mqtt m" and "w_mqtt w = Some c" and "mc_client c"
  shows "publish_stream Q m d s role w =
    (if Q (mc_calls c) (stream_msg s role d) then HTSN_OK else HTSN_ERR_NET,
     w\<lparr>w_mqtt := Some (c\<lparr>mc_calls := mc_calls c @ [stream_msg s role d]\<rparr>)\<rparr>)"
  using assms by (simp add: publish_stream_def htsn_mqtt_client_publish_def mosq_def stream_msg_def)

text \<open>Pushing to a sequence of addressees, skipping some.\<close>

lemma push_calls:
  assumes "tm_mqtt m" and "w_mqtt w = Some c" and "mc_client c"
    and "\<And>w x. f w x = (if skip x then w else snd (publish_stream Q m (g x) s HTSN_STREAM_ROLE_LISTENER w))"
  shows "foldl f w xs = w\<lparr>w_mqtt := Some (c\<lparr>mc_calls := mc_calls c @
    map (\<lambda>x. stream_msg s HTSN_STREAM_ROLE_LISTENER (g x)) (filter (\<lambda>x. \<not> skip x) xs)\<rparr>)\<rparr>"
  using assms(2,3)
proof (induction xs arbitrary: w c)
  case (Cons x xs)
  show ?case
  proof (cases "skip x")
    case True
    then show ?thesis using Cons by (simp add: assms(4))
  next
    case False
    let ?c = "c\<lparr>mc_calls := mc_calls c @ [stream_msg s HTSN_STREAM_ROLE_LISTENER (g x)]\<rparr>"
    have "f w x = w\<lparr>w_mqtt := Some ?c\<rparr>"
      using publish_stream_calls [OF assms(1) Cons.prems] False by (simp add: assms(4))
    then show ?thesis using Cons.IH [of "w\<lparr>w_mqtt := Some ?c\<rparr>" ?c] Cons.prems(2) False by simp
  qed
qed simp

lemma push_listeners_calls:
  assumes "tm_mqtt m" and "w_mqtt w = Some c" and "mc_client c"
  shows "push_listeners E Q m s domain w = w\<lparr>w_mqtt := Some (c\<lparr>mc_calls := mc_calls c @
    map (stream_msg s HTSN_STREAM_ROLE_LISTENER) (listeners_of E s domain (w_db w))\<rparr>)\<rparr>"
proof (cases "st_listener_all s")
  case True
  have f: "all_listener_cb Q m s domain w d =
      (if dev_id d = [] \<or> dev_id d = st_talker s \<or> (domain \<noteq> None \<and> domain \<noteq> Some (dev_domain d)) then w
       else snd (publish_stream Q m (dev_id d) s HTSN_STREAM_ROLE_LISTENER w))" for w d
    by (auto simp: all_listener_cb_def split: option.splits)
  have "foldl (all_listener_cb Q m s domain) w ds = w\<lparr>w_mqtt := Some (c\<lparr>mc_calls := mc_calls c @
      map (\<lambda>d. stream_msg s HTSN_STREAM_ROLE_LISTENER (dev_id d))
        (filter (\<lambda>d. \<not> (dev_id d = [] \<or> dev_id d = st_talker s \<or> (domain \<noteq> None \<and> domain \<noteq> Some (dev_domain d)))) ds)\<rparr>)\<rparr>" for ds
    by (rule push_calls [OF assms f])
  then show ?thesis
    using True by (auto simp: push_listeners_def listeners_of_def o_def split: option.splits if_splits intro!: arg_cong [where f = "map _"] filter_cong)
next
  case False
  then show ?thesis
    using push_calls [OF assms, of "\<lambda>w l. if l = [] then w else snd (publish_stream Q m l s HTSN_STREAM_ROLE_LISTENER w)"
        "\<lambda>l. l = []" Q "\<lambda>l. l" s "st_listeners s"]
    by (simp add: push_listeners_def listeners_of_def)
qed

lemma deploy_sends:
  assumes "htsn_tsn_manager_load m (Some k) = Inr s" and "tm_mqtt m" and "w_mqtt w = Some c" and "mc_client c"
    and "Q (mc_calls c) (stream_msg s HTSN_STREAM_ROLE_TALKER (st_talker s))"
    and "deploy_scoped E Q m (Some k) domain w = (e, w')"
  shows "e = HTSN_OK"
    and "map_option mc_calls (w_mqtt w') = Some (mc_calls c @ stream_msg s HTSN_STREAM_ROLE_TALKER (st_talker s) #
      map (stream_msg s HTSN_STREAM_ROLE_LISTENER) (listeners_of E s domain (w_db w)))"
    and "w_db w' = snd (htsn_db_tsn_set_status E (Some k) HTSN_STREAM_READY (w_db w))"
proof -
  let ?c = "c\<lparr>mc_calls := mc_calls c @ [stream_msg s HTSN_STREAM_ROLE_TALKER (st_talker s)]\<rparr>"
  have p: "publish_stream Q m (st_talker s) s HTSN_STREAM_ROLE_TALKER w = (HTSN_OK, w\<lparr>w_mqtt := Some ?c\<rparr>)"
    using publish_stream_calls [OF assms(2-4)] assms(5) by simp
  note l = push_listeners_calls [OF assms(2), of "w\<lparr>w_mqtt := Some ?c\<rparr>" ?c E Q s domain]
  show "e = HTSN_OK" "map_option mc_calls (w_mqtt w') = Some (mc_calls c @ stream_msg s HTSN_STREAM_ROLE_TALKER (st_talker s) #
      map (stream_msg s HTSN_STREAM_ROLE_LISTENER) (listeners_of E s domain (w_db w)))"
    "w_db w' = snd (htsn_db_tsn_set_status E (Some k) HTSN_STREAM_READY (w_db w))"
    using assms(1,2,4,6) p l by (auto simp: deploy_scoped_def tsn_notify_def)
qed

section \<open>Properties\<close>


definition demo_stream :: htsn_stream where
  "demo_stream = \<lparr> st_stream_id = ''s1'', st_name = ''line'', st_talker = ''d1'', st_vlan_id = 10,
    st_max_latency_ns = 1000, st_max_interval_ns = 500, st_priority = 5, st_data_frame_prio = 6,
    st_status = HTSN_STREAM_CONFIGURED, st_comment = [], st_listeners = [''d2'', ''d3''], st_listener_all = False \<rparr>"

lemma demo_stream_ok: "stream_ok demo_stream"
  by (simp add: demo_stream_def stream_ok_def fits_def HTSN_MAX_STR_def HTSN_MAX_DEVICES_def in_i32_def HTSN_STREAM_ALL_LISTENERS_def)

definition demo_tsn :: "htsn_stream list \<Rightarrow> htsn_tsn_manager" where
  "demo_tsn ss = \<lparr>tm_model = ''tsn'', tm_streams = ss, tm_mqtt = True\<rparr>"


text \<open>
  C6. A deployment addresses exactly the endpoints of its stream: when the stream is known, a client
  is attached and the message to the talker is accepted, \<open>deploy_scoped\<close> succeeds and publishes, in this order and
  whatever becomes of the later messages, the description in the talker role to the talker and in the listener role
  to each named listener; for a stream to all listeners, to each device of the database with an
  identifier other than the talker's, restricted to the given domain.
\<close>

theorem deploy_messages:
  assumes "htsn_tsn_manager_load m (Some k) = Inr s" and "tm_mqtt m" and "w_mqtt w = Some c" and "mc_client c"
    and "Q (mc_calls c) (MPublish (stream_topic (st_talker s)) (stream_payload s HTSN_STREAM_ROLE_TALKER))"
    and "domain = None \<or> domain = Some dm \<and> dm \<noteq> []"
    and "deploy_scoped E Q m (Some k) domain w = (e, w')"
  shows "e = HTSN_OK \<and> map_option mc_calls (w_mqtt w') = Some (mc_calls c @
    MPublish (stream_topic (st_talker s)) (stream_payload s HTSN_STREAM_ROLE_TALKER) #
    map (\<lambda>l. MPublish (stream_topic l) (stream_payload s HTSN_STREAM_ROLE_LISTENER))
      (if \<not> st_listener_all s then filter (\<lambda>l. l \<noteq> []) (st_listeners s)
       else map dev_id (filter (\<lambda>d. dev_id d \<noteq> [] \<and> dev_id d \<noteq> st_talker s \<and> (domain = None \<or> dev_domain d = dm))
              (if domain = None then htsn_db_device_for_each E (w_db w)
               else htsn_db_device_for_each_in_domain E dm (w_db w)))))"
proof -
  have q: "Q (mc_calls c) (stream_msg s HTSN_STREAM_ROLE_TALKER (st_talker s))" using assms(5) by (simp add: stream_msg_def)
  note d = deploy_sends [OF assms(1-4) q assms(7)]
  show ?thesis
  proof (cases "st_listener_all s")
    case True
    have "listeners_of E s domain (w_db w) =
        map dev_id (filter (\<lambda>d. dev_id d \<noteq> [] \<and> dev_id d \<noteq> st_talker s \<and> (domain = None \<or> dev_domain d = dm))
          (if domain = None then htsn_db_device_for_each E (w_db w) else htsn_db_device_for_each_in_domain E dm (w_db w)))"
      using True assms(6) by (auto simp: listeners_of_def intro!: arg_cong [where f = "map dev_id"] filter_cong)
    with True d show ?thesis by (simp add: stream_msg_def [abs_def])
  next
    case False
    with d show ?thesis by (simp add: stream_msg_def [abs_def] listeners_of_def)
  qed
qed

definition demo_client :: htsn_mqtt_client where
  "demo_client = htsn_mqtt_client_create\<lparr>mc_client := True\<rparr>"

theorem deploy_messages_witness:
  "\<exists>w'. deploy_scoped sql_run (\<lambda>_ _. True) (demo_tsn [demo_stream]) (Some ''s1'') None (empty_world\<lparr>w_mqtt := Some demo_client\<rparr>) =
      (HTSN_OK, w') \<and>
     map_option mc_calls (w_mqtt w') = Some
      [MPublish ''tsn/cmd/d1/stream'' (stream_payload demo_stream HTSN_STREAM_ROLE_TALKER),
       MPublish ''tsn/cmd/d2/stream'' (stream_payload demo_stream HTSN_STREAM_ROLE_LISTENER),
       MPublish ''tsn/cmd/d3/stream'' (stream_payload demo_stream HTSN_STREAM_ROLE_LISTENER)]"
proof -
  let ?w = "empty_world\<lparr>w_mqtt := Some demo_client\<rparr>"
  have l: "htsn_tsn_manager_load (demo_tsn [demo_stream]) (Some ''s1'') = Inr demo_stream"
    by (simp add: htsn_tsn_manager_load_def demo_tsn_def demo_stream_def)
  have t: "stream_topic ''d1'' = ''tsn/cmd/d1/stream''" "stream_topic ''d2'' = ''tsn/cmd/d2/stream''"
    "stream_topic ''d3'' = ''tsn/cmd/d3/stream''"
    by (simp_all add: stream_topic_def snprintf_buf_def HTSN_MAX_STR_def)
  have s: "st_talker demo_stream = ''d1''" "st_listeners demo_stream = [''d2'', ''d3'']" "\<not> st_listener_all demo_stream"
    by (simp_all add: demo_stream_def)
  obtain e w' where r: "deploy_scoped sql_run (\<lambda>_ _. True) (demo_tsn [demo_stream]) (Some ''s1'') None ?w = (e, w')" by fastforce
  from deploy_messages [OF l _ _ _ _ _ r, of demo_client] show ?thesis
    using r by (simp add: s t) (simp add: demo_tsn_def demo_client_def htsn_mqtt_client_create_def)
qed

text \<open>
  A deployment marks the stream as ready in the database but not in the cache: after a
  successful deployment of a stream on which cache and database agreed, the database answers with
  status ready while the manager still answers with the stream as it was.
\<close>

theorem deploy_leaves_cache_stale:
  assumes "sqlite E tabs" and "\<not> closed (w_db w)"
    and "htsn_tsn_manager_load m (Some k) = Inr s" and "htsn_db_tsn_load E (Some k) (w_db w) = Inr s"
    and "w_mqtt w = Some c" and "mc_client c"
    and "htsn_tsn_manager_deploy E Q m (Some k) w = (HTSN_OK, w')"
  shows "htsn_db_tsn_load E (Some k) (w_db w') = Inr (s\<lparr>st_status := HTSN_STREAM_READY\<rparr>) \<and>
    htsn_tsn_manager_load m (Some k) = Inr s"
proof -
  have m: "tm_mqtt m" using assms(3,7) by (auto simp: htsn_tsn_manager_deploy_def deploy_scoped_def split: if_splits)
  have q: "Q (mc_calls c) (stream_msg s HTSN_STREAM_ROLE_TALKER (st_talker s))"
    using assms(3,7) publish_stream_calls [OF m assms(5,6)]
    by (auto simp: htsn_tsn_manager_deploy_def deploy_scoped_def split: if_splits)
  from deploy_sends(3) [OF assms(3) m assms(5,6) q assms(7) [unfolded htsn_tsn_manager_deploy_def]]
  show ?thesis using sqlite.set_ready_load [OF assms(1,2), of k k] assms(3,4) by simp
qed

theorem deploy_leaves_cache_stale_witness:
  "\<exists>w w'. htsn_tsn_manager_deploy sql_run (\<lambda>_ _. True) (demo_tsn [demo_stream]) (Some ''s1'') w = (HTSN_OK, w') \<and>
     htsn_db_tsn_load sql_run (Some ''s1'') (w_db w') = Inr (demo_stream\<lparr>st_status := HTSN_STREAM_READY\<rparr>) \<and>
     htsn_tsn_manager_load (demo_tsn [demo_stream]) (Some ''s1'') = Inr demo_stream"
proof -
  define db where "db = snd (htsn_db_tsn_save sql_run (Some demo_stream) empty_db)"
  let ?w = "\<lparr>w_db = db, w_bus = None, w_mqtt = Some demo_client\<rparr>"
  have o: "\<not> closed empty_db" by (simp add: closed_def empty_db_def)
  have d: "htsn_db_tsn_load sql_run (Some ''s1'') db = Inr demo_stream" "\<not> closed db"
    using stream_ref.load_save [OF o demo_stream_ok] stream_ref.save_opened [OF o demo_stream_ok]
    by (simp_all add: db_def) (simp add: demo_stream_def)
  have l: "htsn_tsn_manager_load (demo_tsn [demo_stream]) (Some ''s1'') = Inr demo_stream"
    by (simp add: htsn_tsn_manager_load_def demo_tsn_def demo_stream_def)
  obtain e w' where r: "htsn_tsn_manager_deploy sql_run (\<lambda>_ _. True) (demo_tsn [demo_stream]) (Some ''s1'') ?w = (e, w')" by fastforce
  have c: "mc_client demo_client" by (simp add: demo_client_def)
  have e: "e = HTSN_OK"
    using deploy_sends(1) [OF l _ _ c _ r [unfolded htsn_tsn_manager_deploy_def]] by (simp add: demo_tsn_def)
  from deploy_leaves_cache_stale [OF sql_ref.sqlite_axioms _ l _ _ c r [unfolded e]] d show ?thesis
    using r e by auto
qed

text \<open>
  An empty domain is not the global scope for streams to all listeners: the documented meaning of an
  empty domain is every domain, but when no device of the database has an empty domain, deploying such
  a stream with an empty domain sends one message, to the talker, and reports success.
\<close>

theorem deploy_empty_domain_reaches_no_listener:
  assumes "htsn_tsn_manager_load m (Some k) = Inr s" and "tm_mqtt m" and "w_mqtt w = Some c" and "mc_client c"
    and "Q (mc_calls c) (MPublish (stream_topic (st_talker s)) (stream_payload s HTSN_STREAM_ROLE_TALKER))"
    and "st_listener_all s" and "\<forall>d \<in> set (htsn_db_device_for_each E (w_db w)). dev_domain d \<noteq> []"
    and "deploy_scoped E Q m (Some k) (Some []) w = (e, w')"
  shows "e = HTSN_OK \<and> map_option mc_calls (w_mqtt w') = Some (mc_calls c @
    [MPublish (stream_topic (st_talker s)) (stream_payload s HTSN_STREAM_ROLE_TALKER)])"
proof -
  have q: "Q (mc_calls c) (stream_msg s HTSN_STREAM_ROLE_TALKER (st_talker s))" using assms(5) by (simp add: stream_msg_def)
  have "listeners_of E s (Some []) (w_db w) = []"
    using assms(6,7) by (auto simp: listeners_of_def filter_empty_conv)
  with deploy_sends [OF assms(1-4) q assms(8)] show ?thesis by (simp add: stream_msg_def)
qed

theorem deploy_empty_domain_reaches_no_listener_witness:
  "\<exists>w'. deploy_scoped sql_run (\<lambda>_ _. True) (demo_tsn [demo_stream\<lparr>st_listener_all := True\<rparr>]) (Some ''s1'') (Some [])
      (empty_world\<lparr>w_mqtt := Some demo_client\<rparr>) = (HTSN_OK, w') \<and> map_option (\<lambda>c. length (mc_calls c)) (w_mqtt w') = Some 1"
proof -
  let ?s = "demo_stream\<lparr>st_listener_all := True\<rparr>"
  let ?w = "empty_world\<lparr>w_mqtt := Some demo_client\<rparr>"
  have l: "htsn_tsn_manager_load (demo_tsn [?s]) (Some ''s1'') = Inr ?s"
    by (simp add: htsn_tsn_manager_load_def demo_tsn_def demo_stream_def)
  have n: "htsn_db_device_for_each sql_run (w_db ?w) = []"
    unfolding htsn_db_device_for_each_def
    using db_rows_all [OF _ sql_prep_sensor(3), of empty_db empty_tables]
    by (simp add: empty_world_def empty_db_def empty_tables_def)
  obtain e w' where r: "deploy_scoped sql_run (\<lambda>_ _. True) (demo_tsn [?s]) (Some ''s1'') (Some []) ?w = (e, w')" by fastforce
  from deploy_empty_domain_reaches_no_listener [OF l _ _ _ _ _ _ r, of demo_client] n
  show ?thesis using r by (auto simp: demo_tsn_def demo_client_def htsn_mqtt_client_create_def)
qed

end
