(* ===== verification/Trace_Ring.thy ===== *)
theory Trace_Ring
  imports Config_Managers
begin

text \<open>
  The trace (src/src/trace/trace.c): a ring of 1024 entries with the next free position and a count, optionally
  copied to the trace log of the database and published on the bus. The specification is a
  list, newest entry first, cut to 1024; the lemmas show that the ring implements it and what
  a traced frame looks like. \<open>hms\<close> formats a time of the clock \<open>now\<close>; the receiver is not null.
\<close>

definition HTSN_TRACE_MAX :: nat where "HTSN_TRACE_MAX = 1024"
definition HTSN_TRACE_LINE :: nat where "HTSN_TRACE_LINE = 256"

text \<open>\<open>tr_db\<close>: the database pointer is set; the database itself is in the \<open>world\<close>.\<close>

record htsn_trace =
  tr_model :: string
  tr_entries :: "htsn_trace_entry list"
  tr_count :: nat
  tr_head :: nat
  tr_db :: bool
  tr_keep :: nat

definition trace_entry_zero :: htsn_trace_entry where
  "trace_entry_zero = \<lparr>te_timestamp = [], te_type = HTSN_TRACE_COMM, te_source = [], te_line = []\<rparr>"

definition htsn_trace_create_persistent :: "bool \<Rightarrow> nat \<Rightarrow> htsn_trace" where
  "htsn_trace_create_persistent db keep =
     \<lparr>tr_model = htsn_model_init (Some ''trace''), tr_entries = replicate HTSN_TRACE_MAX trace_entry_zero,
      tr_count = 0, tr_head = 0, tr_db = db, tr_keep = keep\<rparr>"

definition htsn_trace_create :: htsn_trace where
  "htsn_trace_create = htsn_trace_create_persistent False 0"

definition stamp :: "(int \<Rightarrow> string option) \<Rightarrow> int \<Rightarrow> string" where
  "stamp hms now = (case hms now of None \<Rightarrow> [] | Some s \<Rightarrow> s)"

definition trace_entry ::
  "(int \<Rightarrow> string option) \<Rightarrow> int \<Rightarrow> htsn_trace_type \<Rightarrow> string option \<Rightarrow> string option \<Rightarrow> htsn_trace_entry" where
  "trace_entry hms now type source line =
     \<lparr>te_timestamp = stamp hms now, te_type = type,
      te_source = cpy HTSN_MAX_STR (Some (case source of Some s \<Rightarrow> s | None \<Rightarrow> ''-'')),
      te_line = cpy HTSN_TRACE_LINE (Some (case line of Some l \<Rightarrow> l | None \<Rightarrow> []))\<rparr>"

definition trace_push ::
  "'h engine \<Rightarrow> (int \<Rightarrow> string option) \<Rightarrow> int \<Rightarrow> htsn_trace_type \<Rightarrow> string option \<Rightarrow> string option \<Rightarrow>
     htsn_trace \<times> 'h world \<Rightarrow> htsn_trace \<times> 'h world" where
  "trace_push E hms now type source line tw =
     (case tw of (t, w) \<Rightarrow>
        (let e = trace_entry hms now type source line;
             w1 = (if tr_db t
                   then (let w1 = w_with_db (htsn_db_trace_log_insert E now (Some e)) w
                         in if tr_keep t > 0 then w_with_db (htsn_db_trace_prune E (int32_wrap (int (tr_keep t)))) w1 else w1)
                   else w);
             t1 = t\<lparr>tr_entries := (tr_entries t)[tr_head t := e], tr_head := (tr_head t + 1) mod HTSN_TRACE_MAX,
                    tr_count := (if tr_count t < HTSN_TRACE_MAX then tr_count t + 1 else tr_count t)\<rparr>
         in (t1, w_notify (tr_model t) ''entry'' (EvTrace e) w1)))"

definition htsn_trace_add_comm ::
  "'h engine \<Rightarrow> (int \<Rightarrow> string option) \<Rightarrow> int \<Rightarrow> string option \<Rightarrow> string option \<Rightarrow>
     htsn_trace \<times> 'h world \<Rightarrow> htsn_error \<times> htsn_trace \<times> 'h world" where
  "htsn_trace_add_comm E hms now source msg tw =
     (case msg of
        None \<Rightarrow> (HTSN_ERR_INVALID_ARG, tw)
      | Some _ \<Rightarrow> (HTSN_OK, trace_push E hms now HTSN_TRACE_COMM source msg tw))"

text \<open>The loop that prints bytes while at least five characters of the line are free.\<close>

fun frame_loop :: "string \<Rightarrow> byte list \<Rightarrow> string" where
  "frame_loop line [] = line"
| "frame_loop line (b # bs) =
     (if length line + 4 < HTSN_TRACE_LINE
      then frame_loop (line @ snprintf_buf (HTSN_TRACE_LINE - length line) (hex2 b @ '' '')) bs
      else line)"

definition htsn_trace_add_frame ::
  "'h engine \<Rightarrow> (int \<Rightarrow> string option) \<Rightarrow> int \<Rightarrow> string option \<Rightarrow> byte list \<Rightarrow>
     htsn_trace \<times> 'h world \<Rightarrow> htsn_error \<times> htsn_trace \<times> 'h world" where
  "htsn_trace_add_frame E hms now source bytes tw =
     (HTSN_OK, trace_push E hms now HTSN_TRACE_FRAME source (Some (frame_loop [] bytes)) tw)"

definition htsn_trace_add_config ::
  "'h engine \<Rightarrow> (int \<Rightarrow> string option) \<Rightarrow> int \<Rightarrow> string option \<Rightarrow> string option \<Rightarrow>
     htsn_trace \<times> 'h world \<Rightarrow> htsn_error \<times> htsn_trace \<times> 'h world" where
  "htsn_trace_add_config E hms now source what tw =
     (case what of
        None \<Rightarrow> (HTSN_ERR_INVALID_ARG, tw)
      | Some _ \<Rightarrow> (HTSN_OK, trace_push E hms now HTSN_TRACE_CONFIG source what tw))"

definition htsn_trace_add_multicast ::
  "'h engine \<Rightarrow> (int \<Rightarrow> string option) \<Rightarrow> int \<Rightarrow> string option \<Rightarrow> string option \<Rightarrow> string option \<Rightarrow>
     htsn_trace \<times> 'h world \<Rightarrow> htsn_error \<times> htsn_trace \<times> 'h world" where
  "htsn_trace_add_multicast E hms now source grp msg tw =
     (case msg of
        None \<Rightarrow> (HTSN_ERR_INVALID_ARG, tw)
      | Some txt \<Rightarrow>
          (let line = snprintf_buf HTSN_TRACE_LINE
                 (''FX mcast -> '' @ (case grp of Some g \<Rightarrow> g | None \<Rightarrow> ''?'') @ '': '' @ txt)
           in (HTSN_OK, trace_push E hms now HTSN_TRACE_MULTICAST source (Some line) tw)))"

definition htsn_trace_entry_at :: "htsn_trace \<Rightarrow> int \<Rightarrow> htsn_trace_entry option" where
  "htsn_trace_entry_at t index =
     (if index < 0 \<or> index \<ge> int (tr_count t) then None
      else Some (tr_entries t ! nat ((int (tr_head t) - 1 - index + int HTSN_TRACE_MAX) mod int HTSN_TRACE_MAX)))"

definition htsn_trace_count :: "htsn_trace \<Rightarrow> nat" where
  "htsn_trace_count t = tr_count t"

definition htsn_trace_clear :: "htsn_trace \<Rightarrow> htsn_trace" where
  "htsn_trace_clear t = t\<lparr>tr_count := 0, tr_head := 0\<rparr>"

section \<open>The ring is a list\<close>

definition ring_ok :: "htsn_trace \<Rightarrow> bool" where
  "ring_ok t \<longleftrightarrow> length (tr_entries t) = HTSN_TRACE_MAX \<and> tr_head t < HTSN_TRACE_MAX \<and> tr_count t \<le> HTSN_TRACE_MAX"

definition slot :: "htsn_trace \<Rightarrow> nat \<Rightarrow> nat" where
  "slot t i = (tr_head t + (HTSN_TRACE_MAX - 1) - i) mod HTSN_TRACE_MAX"

definition recent :: "htsn_trace \<Rightarrow> htsn_trace_entry list" where
  "recent t = map (\<lambda>i. tr_entries t ! slot t i) [0..<tr_count t]"

lemma length_recent [simp]: "length (recent t) = tr_count t"
  by (simp add: recent_def)

lemma entry_at_recent:
  assumes "ring_ok t"
  shows "htsn_trace_entry_at t i = (if 0 \<le> i \<and> nat i < length (recent t) then Some (recent t ! nat i) else None)"
proof (cases "0 \<le> i \<and> i < int (tr_count t)")
  case True
  then obtain n where n: "i = int n" "n < tr_count t" by (metis nonneg_int_cases of_nat_less_iff)
  have eq: "int (tr_head t) - 1 - int n + int HTSN_TRACE_MAX = int (tr_head t + (HTSN_TRACE_MAX - 1) - n)"
    using assms n(2) by (simp add: ring_ok_def HTSN_TRACE_MAX_def of_nat_diff)
  have "nat ((int (tr_head t) - 1 - i + int HTSN_TRACE_MAX) mod int HTSN_TRACE_MAX) = slot t n"
    by (simp only: n(1) eq slot_def of_nat_mod [symmetric] nat_int)
  then show ?thesis using True n by (simp add: htsn_trace_entry_at_def recent_def)
next
  case False
  then show ?thesis by (auto simp: htsn_trace_entry_at_def)
qed

text \<open>A push puts the entry in front and drops the oldest one when the ring is full.\<close>

definition ring_put :: "htsn_trace_entry \<Rightarrow> htsn_trace \<Rightarrow> htsn_trace" where
  "ring_put e t = t\<lparr>tr_entries := (tr_entries t)[tr_head t := e], tr_head := (tr_head t + 1) mod HTSN_TRACE_MAX,
     tr_count := (if tr_count t < HTSN_TRACE_MAX then tr_count t + 1 else tr_count t)\<rparr>"

lemma trace_push_ring: "fst (trace_push E hms now ty src line tw) = ring_put (trace_entry hms now ty src line) (fst tw)"
  by (cases tw) (simp add: trace_push_def ring_put_def Let_def)

lemma ring_put_ok: "ring_ok t \<Longrightarrow> ring_ok (ring_put e t)"
  by (simp add: ring_ok_def ring_put_def HTSN_TRACE_MAX_def)

lemma slot_put:
  assumes "ring_ok t" and "i < HTSN_TRACE_MAX"
  shows "slot (ring_put e t) i = (if i = 0 then tr_head t else slot t (i - 1))"
proof -
  have h: "tr_head t < 1024" using assms(1) by (simp add: ring_ok_def HTSN_TRACE_MAX_def)
  show ?thesis
  proof (cases "tr_head t = 1023")
    case True
    then show ?thesis using assms(2) by (auto simp: slot_def ring_put_def HTSN_TRACE_MAX_def le_mod_geq)
  next
    case False
    then have "(tr_head t + 1) mod 1024 = tr_head t + 1" using h by simp
    then show ?thesis using assms(2) h by (auto simp: slot_def ring_put_def HTSN_TRACE_MAX_def)
  qed
qed

lemma slot_other:
  assumes "ring_ok t" and "i < HTSN_TRACE_MAX - 1"
  shows "slot t i \<noteq> tr_head t" and "slot t i < HTSN_TRACE_MAX"
proof -
  have h: "tr_head t < 1024" and i: "i < 1023" using assms by (simp_all add: ring_ok_def HTSN_TRACE_MAX_def)
  show "slot t i < HTSN_TRACE_MAX" by (simp add: slot_def HTSN_TRACE_MAX_def)
  show "slot t i \<noteq> tr_head t"
  proof (cases "tr_head t \<le> i")
    case True
    then have "tr_head t + 1023 - i < 1024" using i by linarith
    then show ?thesis using h i True by (simp add: slot_def HTSN_TRACE_MAX_def)
  next
    case False
    then have "1024 \<le> tr_head t + 1023 - i" by linarith
    then show ?thesis using h i False by (simp add: slot_def HTSN_TRACE_MAX_def le_mod_geq)
  qed
qed

lemma recent_put:
  assumes "ring_ok t" shows "recent (ring_put e t) = take HTSN_TRACE_MAX (e # recent t)"
proof (rule nth_equalityI)
  have c: "tr_count t \<le> HTSN_TRACE_MAX" "tr_head t < length (tr_entries t)" using assms by (simp_all add: ring_ok_def)
  then show "length (recent (ring_put e t)) = length (take HTSN_TRACE_MAX (e # recent t))"
    by (auto simp: ring_put_def)
  fix i assume "i < length (recent (ring_put e t))"
  then have i: "i < tr_count (ring_put e t)" "i < HTSN_TRACE_MAX"
    using c(1) by (auto simp: ring_put_def split: if_splits)
  have n: "tr_entries (ring_put e t) = (tr_entries t)[tr_head t := e]" by (simp add: ring_put_def)
  show "recent (ring_put e t) ! i = take HTSN_TRACE_MAX (e # recent t) ! i"
  proof (cases i)
    case 0
    then show ?thesis using i c(2) by (simp add: recent_def n slot_put [OF assms])
  next
    case (Suc j)
    then have j: "j < HTSN_TRACE_MAX - 1" "j < tr_count t"
      using i c(1) by (auto simp: ring_put_def HTSN_TRACE_MAX_def split: if_splits)
    then have "recent (ring_put e t) ! i = (tr_entries t)[tr_head t := e] ! slot t j"
      using i Suc slot_put [OF assms i(2), of e] by (simp add: recent_def n)
    also have "\<dots> = recent t ! j" using slot_other [OF assms j(1)] j(2) by (simp add: recent_def)
    finally show ?thesis using i(2) Suc by simp
  qed
qed

section \<open>Frames\<close>

lemma frame_loop_spec:
  "length line = 3 * k \<Longrightarrow> k \<le> 84 \<Longrightarrow> frame_loop line bs = line @ concat (map (\<lambda>b. hex2 b @ '' '') (take (84 - k) bs))"
proof (induction bs arbitrary: line k)
  case (Cons b bs)
  have x: "snprintf_buf (HTSN_TRACE_LINE - length line) (hex2 b @ '' '') = hex2 b @ '' ''" if "k < 84"
    using that Cons.prems by (simp add: snprintf_buf_def HTSN_TRACE_LINE_def hex2_def)
  show ?case
  proof (cases "k < 84")
    case True
    then have "84 - k = Suc (84 - Suc k)" by simp
    with True Cons.IH [of "line @ hex2 b @ '' ''" "Suc k"] Cons.prems x show ?thesis
      by (simp add: HTSN_TRACE_LINE_def hex2_def)
  next
    case False
    then show ?thesis using Cons.prems by (simp add: HTSN_TRACE_LINE_def)
  qed
qed simp

section \<open>Properties\<close>

datatype trace_op =
    Add_comm int "string option" "string option"
  | Add_frame int "string option" "byte list"
  | Add_config int "string option" "string option"
  | Add_multicast int "string option" "string option" "string option"
  | Clear

fun trace_apply :: "'h engine \<Rightarrow> (int \<Rightarrow> string option) \<Rightarrow> htsn_trace \<times> 'h world \<Rightarrow> trace_op \<Rightarrow> htsn_trace \<times> 'h world" where
  "trace_apply E hms tw (Add_comm now s msg) = snd (htsn_trace_add_comm E hms now s msg tw)"
| "trace_apply E hms tw (Add_frame now s bs) = snd (htsn_trace_add_frame E hms now s bs tw)"
| "trace_apply E hms tw (Add_config now s msg) = snd (htsn_trace_add_config E hms now s msg tw)"
| "trace_apply E hms tw (Add_multicast now s g msg) = snd (htsn_trace_add_multicast E hms now s g msg tw)"
| "trace_apply E hms tw Clear = (htsn_trace_clear (fst tw), snd tw)"

text \<open>The specification: the entries an operation leaves, newest first.\<close>

fun trace_spec :: "(int \<Rightarrow> string option) \<Rightarrow> htsn_trace_entry list \<Rightarrow> trace_op \<Rightarrow> htsn_trace_entry list" where
  "trace_spec hms es (Add_comm now s msg) =
     (if msg = None then es else take 1024 (trace_entry hms now HTSN_TRACE_COMM s msg # es))"
| "trace_spec hms es (Add_frame now s bs) =
     take 1024 (trace_entry hms now HTSN_TRACE_FRAME s (Some (concat (map (\<lambda>b. hex2 b @ '' '') (take 84 bs)))) # es)"
| "trace_spec hms es (Add_config now s msg) =
     (if msg = None then es else take 1024 (trace_entry hms now HTSN_TRACE_CONFIG s msg # es))"
| "trace_spec hms es (Add_multicast now s g msg) =
     (case msg of
        None \<Rightarrow> es
      | Some m \<Rightarrow> take 1024 (trace_entry hms now HTSN_TRACE_MULTICAST s
          (Some (take 255 (''FX mcast -> '' @ (case g of Some x \<Rightarrow> x | None \<Rightarrow> ''?'') @ '': '' @ m))) # es))"
| "trace_spec hms es Clear = []"

lemma trace_apply_refines:
  assumes "ring_ok (fst tw)"
  shows "ring_ok (fst (trace_apply E hms tw x)) \<and> recent (fst (trace_apply E hms tw x)) = trace_spec hms (recent (fst tw)) x"
proof -
  note p = ring_put_ok [OF assms] recent_put [OF assms, unfolded HTSN_TRACE_MAX_def]
  show ?thesis
  proof (cases x)
    case (Add_frame now s bs)
    then show ?thesis using p frame_loop_spec [of "[]" 0 bs] by (simp add: htsn_trace_add_frame_def trace_push_ring)
  next
    case Clear
    then show ?thesis using assms by (simp add: htsn_trace_clear_def ring_ok_def recent_def HTSN_TRACE_MAX_def)
  qed (use p assms in \<open>auto simp: htsn_trace_add_comm_def htsn_trace_add_config_def htsn_trace_add_multicast_def
      trace_push_ring snprintf_buf_def HTSN_TRACE_LINE_def split: option.splits\<close>)
qed

lemma trace_history_refines:
  "ring_ok (fst tw) \<Longrightarrow> ring_ok (fst (foldl (trace_apply E hms) tw xs)) \<and>
     recent (fst (foldl (trace_apply E hms) tw xs)) = foldl (trace_spec hms) (recent (fst tw)) xs"
  by (induction xs arbitrary: tw) (simp_all add: trace_apply_refines)

lemma create_ring_ok: "ring_ok (htsn_trace_create_persistent db keep)" "recent (htsn_trace_create_persistent db keep) = []"
  by (simp_all add: ring_ok_def htsn_trace_create_persistent_def recent_def HTSN_TRACE_MAX_def)

text \<open>
  C4. The trace ring holds the latest 1024 entries in order: for every sequence of traced
  messages, frames, configurations, multicasts and clears on a new trace, with or without a database, on any engine,
  the count and the entries \<open>htsn_trace_entry_at\<close> returns are those of a list with the newest entry
  first that is cut to 1024; indices outside the count give null. A frame is shown as the hexadecimal text of its first
  84 bytes, which fits the line.
\<close>

theorem trace_ring_refines_list:
  "\<exists>t w'. foldl (trace_apply E hms) (htsn_trace_create_persistent db keep, w) xs = (t, w') \<and>
     int (htsn_trace_count t) = int (length (foldl (trace_spec hms) [] xs)) \<and>
     htsn_trace_entry_at t i = (if 0 \<le> i \<and> nat i < length (foldl (trace_spec hms) [] xs)
       then Some (foldl (trace_spec hms) [] xs ! nat i) else None)"
proof -
  obtain t w' where r: "foldl (trace_apply E hms) (htsn_trace_create_persistent db keep, w) xs = (t, w')" by fastforce
  have "ring_ok t" "recent t = foldl (trace_spec hms) [] xs"
    using trace_history_refines [of "(htsn_trace_create_persistent db keep, w)" E hms xs] create_ring_ok r by simp_all
  with r entry_at_recent [of t i] show ?thesis
    by (metis htsn_trace_count_def length_recent)
qed

end
