(* ===== verification/Telemetry.thy ===== *)
theory Telemetry
  imports Tsn_Manager Trace_Ring
begin

text \<open>
  Telemetry from the nodes (src/src/telemetry/htsn_telemetry.c) and the radio mapping
  (src/src/radio/htsn_radio.c). A received status message is parsed by a scan of its text, recorded as a
  time synchronisation report and as a heartbeat of the device. The scan is a recursive function with its
  termination proof. The lemmas show which messages have an effect, and that the jitter field is never read.
\<close>

section \<open>Scanning a payload\<close>

datatype tl_kind = TL_NONE | TL_HEARTBEAT | TL_SYNC_REPORT | TL_SENSOR

record tl_state =
  tl_k :: tl_kind
  tl_id :: string
  tl_offset :: int
  tl_jitter :: int
  tl_loss :: int

text \<open>\<open>strchr(p, c)\<close>: the rest of the text from the first \<open>c\<close> on.\<close>

definition strchr :: "string \<Rightarrow> char \<Rightarrow> string option" where
  "strchr p c = (case dropWhile (\<lambda>x. x \<noteq> c) p of [] \<Rightarrow> None | r \<Rightarrow> Some r)"

text \<open>\<open>strncmp(p, lit, n) == 0\<close>; the terminator of both counts as a character.\<close>

definition strncmp_eq :: "string \<Rightarrow> string \<Rightarrow> nat \<Rightarrow> bool" where
  "strncmp_eq p lit n \<longleftrightarrow> take n (p @ [CHR 0x00]) = take n (lit @ [CHR 0x00])"

definition id_cap :: nat where "id_cap = 256"

text \<open>
  One branch of the loop body: \<open>None\<close> when the code breaks out, otherwise the position after the
  branch and the new values.
\<close>

definition tl_branch :: "string \<Rightarrow> tl_state \<Rightarrow> (string \<times> tl_state) option" where
  "tl_branch p s =
     (if strncmp_eq p ''offset_ns'' 9 then
        map_option (\<lambda>q. (tl q, s\<lparr>tl_offset := strtoll (tl q), tl_k := TL_SYNC_REPORT\<rparr>)) (strchr p (CHR '':''))
      else if strncmp_eq p ''jitter_ns'' 10 then
        map_option (\<lambda>q. (tl q, s\<lparr>tl_jitter := strtoll (tl q)\<rparr>)) (strchr p (CHR '':''))
      else if strncmp_eq p ''loss'' 4 then
        map_option (\<lambda>q. (tl q, s\<lparr>tl_loss := atoi (tl q)\<rparr>)) (strchr p (CHR '':''))
      else if strncmp_eq p ''heartbeat'' 9 then Some (p, s\<lparr>tl_k := TL_HEARTBEAT\<rparr>)
      else if strncmp_eq p ''id'' 2 then
        map_option
          (\<lambda>q. (let v = dropWhile (\<lambda>c. c = CHR '' '') (tl q);
                    i = take (id_cap - 1) (takeWhile (\<lambda>c. c \<noteq> CHR '','' \<and> c \<noteq> CHR ''}'') v)
                in (drop (length i) v, s\<lparr>tl_id := i\<rparr>)))
          (strchr p (CHR '':''))
      else Some (p, s))"

lemma strchr_length: "strchr p c = Some q \<Longrightarrow> length q \<le> length p"
  by (auto simp: strchr_def split: list.splits) (metis length_Cons length_dropWhile_le)

lemma strchr_nonempty: "strchr p c = Some q \<Longrightarrow> q \<noteq> []"
  by (auto simp: strchr_def split: list.splits)

lemma strchr_tl_length: "strchr p c = Some q \<Longrightarrow> length (tl q) \<le> length p"
  by (drule strchr_length) simp

lemma strchr_drop_length: "strchr p c = Some q \<Longrightarrow> length (dropWhile f (tl q)) - n \<le> length p"
  using length_dropWhile_le [of f "tl q"] strchr_tl_length [of p c q] by simp

lemma tl_branch_length: "tl_branch p s = Some (q, s') \<Longrightarrow> length q \<le> length p"
  using strchr_tl_length [of p "CHR '':''"]
  by (simp only: tl_branch_def Let_def split: if_splits) (auto intro: strchr_drop_length)

function (sequential) tl_scan :: "string \<Rightarrow> tl_state \<Rightarrow> tl_state" where
  "tl_scan [] s = s"
| "tl_scan (c # p) s =
     (if c = CHR ''{'' \<or> c = CHR ''}'' \<or> c = CHR 0x22 then tl_scan p s
      else
        (case tl_branch (c # p) s of
           None \<Rightarrow> s
         | Some (q, s') \<Rightarrow> (case strchr q (CHR '','') of None \<Rightarrow> s' | Some r \<Rightarrow> tl_scan (tl r) s')))"
  by pat_completeness auto
termination
proof (relation "measure (\<lambda>(p, s). length p)", goal_cases)
  case (3 c p s x2 q s' r)
  then have "length r \<le> length (c # p)" "r \<noteq> []"
    using tl_branch_length [of "c # p" s q s'] strchr_length [of q "CHR '',''" r] strchr_nonempty [of q "CHR '',''" r] by auto
  then show ?case by (cases r) auto
qed auto

definition parse_payload :: "string option \<Rightarrow> tl_state" where
  "parse_payload payload =
     (case payload of
        None \<Rightarrow> \<lparr>tl_k = TL_NONE, tl_id = [], tl_offset = 0, tl_jitter = 0, tl_loss = 0\<rparr>
      | Some t \<Rightarrow> tl_scan (cpy 512 (Some t)) \<lparr>tl_k = TL_NONE, tl_id = [], tl_offset = 0, tl_jitter = 0, tl_loss = 0\<rparr>)"

section \<open>Receiving\<close>

text \<open>The managers a telemetry object points to, and whether it is attached to the client.\<close>

record htsn_telemetry =
  tele_devices :: "htsn_device_manager option"
  tele_timesync :: "htsn_timesync_manager option"
  tele_mqtt :: bool

definition telemetry_on_message ::
  "'h engine \<Rightarrow> int \<Rightarrow> string option \<Rightarrow> string option \<Rightarrow> htsn_telemetry \<times> 'h world \<Rightarrow> htsn_telemetry \<times> 'h world" where
  "telemetry_on_message E now topico payload tw =
     (case (topico, tw) of
        (None, _) \<Rightarrow> tw
      | (Some topic, (t, w)) \<Rightarrow>
          if topic = ''tsn/status'' \<or> strncmp_eq topic ''tsn/status/'' 12 then
            (let s = parse_payload payload;
                 node = (if strncmp_eq topic ''tsn/status/'' 12
                         then take (HTSN_MAX_STR - 1) (takeWhile (\<lambda>c. c \<noteq> CHR ''/'') (drop 11 topic)) else []);
                 dev = (if node \<noteq> [] then node else tl_id s)
             in if dev = [] then tw
                else
                  (let (ts, w1) =
                         (case tele_timesync t of
                            Some m \<Rightarrow>
                              if tl_k s = TL_SYNC_REPORT
                              then map_prod Some (\<lambda>w. w) (snd (htsn_timesync_manager_record_report E now m (Some dev)
                                     (tl_offset s) (tl_jitter s) 0 (tl_loss s) w))
                              else (tele_timesync t, w)
                          | None \<Rightarrow> (None, w));
                       (dm, w2) =
                         (case tele_devices t of
                            Some m \<Rightarrow> map_prod Some (\<lambda>w. w) (snd (htsn_device_manager_record_heartbeat E now (Some dev) (m, w1)))
                          | None \<Rightarrow> (None, w1))
                   in (t\<lparr>tele_timesync := ts, tele_devices := dm\<rparr>, w2)))
          else tw)"

definition htsn_telemetry_create :: "htsn_device_manager option \<Rightarrow> htsn_timesync_manager option \<Rightarrow> htsn_telemetry" where
  "htsn_telemetry_create devices timesync =
     \<lparr>tele_devices = devices, tele_timesync = timesync, tele_mqtt = False\<rparr>"

text \<open>\<open>cb\<close> and \<open>ud\<close> are the handles of the message callback and of the telemetry object.\<close>

definition htsn_telemetry_attach ::
  "mosquitto \<Rightarrow> nat \<Rightarrow> nat \<Rightarrow> htsn_telemetry \<Rightarrow> htsn_mqtt_client option \<Rightarrow> htsn_error \<times> htsn_telemetry \<times> htsn_mqtt_client option" where
  "htsn_telemetry_attach Q cb ud t co =
     (case co of
        None \<Rightarrow> (HTSN_ERR_INVALID_ARG, t, co)
      | Some _ \<Rightarrow>
          (let c1 = htsn_mqtt_client_set_message_cb (Some cb) ud co;
               c2 = snd (htsn_mqtt_client_subscribe Q (Some ''tsn/status/#'') c1);
               c3 = snd (htsn_mqtt_client_subscribe Q (Some ''tsn/telemetry/#'') c2)
           in (HTSN_OK, t\<lparr>tele_mqtt := True\<rparr>, c3)))"

definition htsn_telemetry_detach :: "htsn_telemetry \<Rightarrow> htsn_mqtt_client option \<Rightarrow> htsn_mqtt_client option" where
  "htsn_telemetry_detach t co = (if tele_mqtt t then htsn_mqtt_client_set_message_cb None 0 co else co)"

section \<open>The radio\<close>

datatype htsn_wmm_ac = HTSN_WMM_AC_BK | HTSN_WMM_AC_BE | HTSN_WMM_AC_VI | HTSN_WMM_AC_VO | HTSN_WMM_AC_COUNT

record htsn_radio_flow =
  rf_priority :: int
  rf_ac :: htsn_wmm_ac
  rf_admitted :: bool
  rf_interval_ns :: int
  rf_burst_ns :: int

definition htsn_radio_map_priority :: "int \<Rightarrow> htsn_wmm_ac" where
  "htsn_radio_map_priority priority =
     (if priority = 6 \<or> priority = 7 then HTSN_WMM_AC_VO
      else if priority = 4 \<or> priority = 5 then HTSN_WMM_AC_VI
      else if priority = 2 \<or> priority = 1 then HTSN_WMM_AC_BK
      else HTSN_WMM_AC_BE)"

fun htsn_wmm_ac_str :: "htsn_wmm_ac \<Rightarrow> string" where
  "htsn_wmm_ac_str HTSN_WMM_AC_BK = ''AC_BK''"
| "htsn_wmm_ac_str HTSN_WMM_AC_BE = ''AC_BE''"
| "htsn_wmm_ac_str HTSN_WMM_AC_VI = ''AC_VI''"
| "htsn_wmm_ac_str HTSN_WMM_AC_VO = ''AC_VO''"
| "htsn_wmm_ac_str HTSN_WMM_AC_COUNT = ''AC_UNKNOWN''"

fun htsn_wmm_ac_description :: "htsn_wmm_ac \<Rightarrow> string" where
  "htsn_wmm_ac_description HTSN_WMM_AC_BK = ''background''"
| "htsn_wmm_ac_description HTSN_WMM_AC_BE = ''best effort''"
| "htsn_wmm_ac_description HTSN_WMM_AC_VI = ''video''"
| "htsn_wmm_ac_description HTSN_WMM_AC_VO = ''voice (radio priority)''"
| "htsn_wmm_ac_description HTSN_WMM_AC_COUNT = ''unknown''"

text \<open>\<open>strstr(s, lit) != NULL\<close>.\<close>

fun strstr :: "string \<Rightarrow> string \<Rightarrow> bool" where
  "strstr [] lit = (lit = [])"
| "strstr (c # s) lit = (take (length lit) (c # s) = lit \<or> strstr s lit)"

text \<open>\<open>strstr(s, lit)\<close>: the text from the first occurrence on.\<close>

fun strstr_from :: "string \<Rightarrow> string \<Rightarrow> string option" where
  "strstr_from [] lit = (if lit = [] then Some [] else None)"
| "strstr_from (c # s) lit = (if take (length lit) (c # s) = lit then Some (c # s) else strstr_from s lit)"

definition htsn_radio_feature_supported :: "string option \<Rightarrow> bool" where
  "htsn_radio_feature_supported fo =
     (case fo of
        None \<Rightarrow> False
      | Some feature \<Rightarrow>
          if strstr feature ''gPTP'' \<or> strstr feature ''802.1AS'' then True
          else if strstr feature ''802.1Qbv'' then True
          else if strstr feature ''OPC UA'' \<or> strstr feature ''FX'' then True
          else if strstr feature ''802.1Q'' \<or> strstr feature ''VLAN'' then True
          else if strstr feature ''802.1Qav'' then True
          else if strstr feature ''802.1Qbu'' then False
          else True)"

definition htsn_radio_feature_hint :: "string option \<Rightarrow> string" where
  "htsn_radio_feature_hint fo =
     (case fo of
        None \<Rightarrow> []
      | Some feature \<Rightarrow>
          if strstr feature ''802.1Qbu''
          then ''preemption is wired-only; give the radio stream TSPEC admission control instead'' else [])"

definition htsn_radio_build_flow :: "int \<Rightarrow> int \<Rightarrow> int \<Rightarrow> nat \<Rightarrow> htsn_radio_flow list" where
  "htsn_radio_build_flow priority interval_ns burst_ns cap =
     (if cap = 0 then []
      else
        (let ac = htsn_radio_map_priority priority
         in [\<lparr>rf_priority = priority, rf_ac = ac, rf_admitted = (ac = HTSN_WMM_AC_VO \<or> ac = HTSN_WMM_AC_VI),
              rf_interval_ns = interval_ns, rf_burst_ns = burst_ns\<rparr>]))"

section \<open>Properties\<close>

lemma strncmp_eq_all:
  assumes "CHR 0x00 \<notin> set p" and "n = Suc (length lit)" and "CHR 0x00 \<notin> set lit"
  shows "strncmp_eq p lit n \<longleftrightarrow> p = lit"
proof
  assume "strncmp_eq p lit n"
  then have t: "take n (p @ [CHR 0x00]) = lit @ [CHR 0x00]" using assms(2) by (simp add: strncmp_eq_def)
  show "p = lit"
  proof (cases "length p \<le> length lit")
    case True
    then have "p @ [CHR 0x00] = lit @ [CHR 0x00]" using t assms(2) by simp
    then show ?thesis by simp
  next
    case False
    then have "take n (p @ [CHR 0x00]) = take n p" using assms(2) by simp
    with t have "CHR 0x00 \<in> set (take n p)" by (metis in_set_conv_decomp)
    with assms(1) show ?thesis by (meson in_set_takeD)
  qed
qed (simp add: strncmp_eq_def)

lemma strchr_Some: "strchr p c = Some r \<Longrightarrow> r = dropWhile (\<lambda>x. x \<noteq> c) p"
  by (auto simp: strchr_def split: list.splits)

lemma strchr_set: "strchr p c = Some r \<Longrightarrow> set (tl r) \<subseteq> set p"
  by (drule strchr_Some) (metis list.set_sel(2) set_dropWhileD subsetI tl_Nil)

lemma tl_branch_jitter:
  assumes "CHR 0x00 \<notin> set p" and "tl_branch p s = Some (q, s')"
  shows "tl_jitter s' = tl_jitter s" and "set q \<subseteq> set p"
proof -
  have "strncmp_eq p ''jitter_ns'' 10 \<longleftrightarrow> p = ''jitter_ns''" by (rule strncmp_eq_all [OF assms(1)]) simp_all
  then have n: "strncmp_eq p ''jitter_ns'' 10 \<Longrightarrow> strchr p (CHR '':'') = None" by (simp add: strchr_def)
  show "tl_jitter s' = tl_jitter s"
    using assms(2) n by (auto simp: tl_branch_def Let_def split: if_splits)
  show "set q \<subseteq> set p"
    using assms(2) strchr_set [of p "CHR '':''"]
    by (simp only: tl_branch_def Let_def split: if_splits) (auto dest!: in_set_dropD set_dropWhileD)
qed

lemma tl_scan_jitter: "CHR 0x00 \<notin> set p \<Longrightarrow> tl_jitter (tl_scan p s) = tl_jitter s"
proof (induction p s rule: tl_scan.induct)
  case (2 c p s)
  show ?case
  proof (cases "c = CHR ''{'' \<or> c = CHR ''}'' \<or> c = CHR 0x22")
    case True
    then show ?thesis using 2 by auto
  next
    case False
    show ?thesis
    proof (cases "tl_branch (c # p) s")
      case None
      then show ?thesis using False by simp
    next
      case (Some x)
      obtain q s' where x: "x = (q, s')" by (cases x)
      note b = tl_branch_jitter [OF 2(3) Some [unfolded x]]
      show ?thesis
      proof (cases "strchr q (CHR '','')")
        case None
        then show ?thesis using False Some x b by simp
      next
        case (Some r)
        then have "set (tl r) \<subseteq> set q" by (rule strchr_set)
        then have "CHR 0x00 \<notin> set (tl r)" using b(2) 2(3) by blast
        then show ?thesis
          using 2(2) [OF False \<open>tl_branch (c # p) s = Some x\<close> x [symmetric] Some] False b(1) \<open>tl_branch (c # p) s = Some x\<close> Some
          by (simp add: x)
      qed
    qed
  qed
qed simp

text \<open>
  Status messages on a topic of their node are dropped: the client subscribes to
  \<open>tsn/status/#\<close> and the code means to take the device from the topic suffix, but the comparison
  includes the terminator of the prefix, so a message on \<open>tsn/status/<node>\<close> changes neither the device manager, nor
  the time synchronisation, nor the database, whatever its payload.
\<close>

theorem telemetry_ignores_node_topics:
  assumes "node \<noteq> []" and "CHR 0x00 \<notin> set node"
  shows "telemetry_on_message E now (Some (''tsn/status/'' @ node)) payload tw = tw"
proof -
  have "strncmp_eq (''tsn/status/'' @ node) ''tsn/status/'' 12 \<longleftrightarrow> ''tsn/status/'' @ node = ''tsn/status/''"
    by (rule strncmp_eq_all) (use assms(2) in simp_all)
  then show ?thesis using assms(1) by (cases tw) (simp add: telemetry_on_message_def)
qed

theorem telemetry_ignores_node_topics_witness:
  "telemetry_on_message sql_run 7 (Some ''tsn/status/esp-1'') (Some ''offset_ns:5'')
     (htsn_telemetry_create None None, empty_world) = (htsn_telemetry_create None None, empty_world)"
  using telemetry_ignores_node_topics [of "''esp-1''" sql_run 7] by simp

text \<open>
  The jitter a node reports is never read: whatever the payload, the parsed jitter
  is the initial zero, because the field name is compared over ten characters, its terminator included.
\<close>

theorem telemetry_jitter_never_read:
  assumes "CHR 0x00 \<notin> set payload"
  shows "tl_jitter (parse_payload (Some payload)) = 0"
proof -
  have "CHR 0x00 \<notin> set (cpy 512 (Some payload))" using assms by (auto simp: cpy_Some dest: in_set_takeD)
  then show ?thesis by (simp add: parse_payload_def tl_scan_jitter)
qed

theorem telemetry_jitter_never_read_witness:
  "tl_jitter (parse_payload (Some ''offset_ns:5,jitter_ns:40'')) = 0"
  using telemetry_jitter_never_read [of "''offset_ns:5,jitter_ns:40''"] by simp

lemma take_prefix: "take (length (p @ q)) x = p @ q \<Longrightarrow> take (length p) x = p"
proof -
  assume "take (length (p @ q)) x = p @ q"
  moreover have "take (length p) x = take (length p) (take (length (p @ q)) x)" by (simp add: min_def)
  ultimately show ?thesis by simp
qed

lemma strstr_prefix: "strstr s (p @ q) \<Longrightarrow> strstr s p"
proof (induction s)
  case (Cons c s)
  then show ?case using take_prefix [of p q "c # s"] by auto
qed simp

text \<open>
  Frame preemption passes for a radio feature: the code and its comment reject
  802.1Qbu on a radio link, but the test for 802.1Q comes first, so every feature name is reported as supported, also
  those for which the hint says that preemption is wired-only.
\<close>

theorem radio_supports_every_feature:
  "htsn_radio_feature_supported (Some feature) \<and>
   htsn_radio_feature_hint (Some ''802.1Qbu'') \<noteq> [] \<and> htsn_radio_feature_supported (Some ''802.1Qbu'')"
proof -
  have "strstr f ''802.1Qbu'' \<Longrightarrow> strstr f ''802.1Q''" for f using strstr_prefix [of f "''802.1Q''" "''bu''"] by simp
  then have "htsn_radio_feature_supported (Some f)" for f by (auto simp: htsn_radio_feature_supported_def)
  then show ?thesis by (simp add: htsn_radio_feature_hint_def)
qed

end
