(* ===== verification/Policy_Engine.thy ===== *)
theory Policy_Engine
  imports Telemetry Config_Version
begin

text \<open>
  The policy engine of src/rpi-ai/policy_engine.c: it raises the QoS of a device on a detection event, restores it after a calm
  period, and reserves a stream when a latency is too high. The globals are the record \<open>policy\<close>; a message and the periodic part
  of the main loop are functions on it, and \<open>policy_reach\<close> is the relation of states they can reach from the start. The lemmas show
  by rule induction that the QoS table of the database mirrors the state of the rules.
\<close>

section \<open>State\<close>

definition MAX_DEVICES :: nat where "MAX_DEVICES = 64"
definition R1_COOLDOWN_S :: int where "R1_COOLDOWN_S = 120"
definition R1_CALM_S :: int where "R1_CALM_S = 300"
definition R3_LATENCY_MS :: int where "R3_LATENCY_MS = 50"
definition R3_COOLDOWN_S :: int where "R3_COOLDOWN_S = 300"

record rule_state =
  rs_device_id :: string
  rs_last_fired :: int
  rs_calm_since :: int
  rs_active :: bool

text \<open>The globals of the program; of \<open>g_r3_last\<close> only element 0 is used, and \<open>g_r2_last\<close> is never used.\<close>

record 'h policy =
  pe_r1 :: "rule_state list"
  pe_r3_last :: int
  pe_db :: "'h htsn_db"

section \<open>Rules\<close>

definition find_r1 :: "string \<Rightarrow> 'h policy \<Rightarrow> nat option" where
  "find_r1 device_id p = find_idx (\<lambda>r. rs_device_id r = device_id) (pe_r1 p)"

definition r1_raised :: "string \<Rightarrow> htsn_qos_config" where
  "r1_raised dev = \<lparr>qos_device_id = cpy HTSN_MAX_STR (Some dev), qos_priority = 5, qos_traffic_class = 3,
     qos_bandwidth_kbps = 50000, qos_latency_ms = 5, qos_preemption = 0\<rparr>"

definition r1_restored :: "string \<Rightarrow> htsn_qos_config" where
  "r1_restored dev = \<lparr>qos_device_id = cpy HTSN_MAX_STR (Some dev), qos_priority = 3, qos_traffic_class = 1,
     qos_bandwidth_kbps = 10000, qos_latency_ms = 50, qos_preemption = 0\<rparr>"

definition apply_r1 :: "'h engine \<Rightarrow> int \<Rightarrow> string \<Rightarrow> 'h policy \<Rightarrow> 'h policy" where
  "apply_r1 E now device_id p =
     (let fire = (\<lambda>i p. p\<lparr>pe_db := snd (htsn_db_qos_save E (Some (r1_raised device_id)) (pe_db p)),
                          pe_r1 := (pe_r1 p)[i := (pe_r1 p ! i)\<lparr>rs_active := True, rs_last_fired := now\<rparr>]\<rparr>)
      in case find_r1 device_id p of
           Some i \<Rightarrow>
             if rs_active (pe_r1 p ! i) \<and> now - rs_last_fired (pe_r1 p ! i) < R1_COOLDOWN_S then p else fire i p
         | None \<Rightarrow>
             if length (pe_r1 p) \<ge> MAX_DEVICES then p
             else fire (length (pe_r1 p))
                    (p\<lparr>pe_r1 := pe_r1 p @ [\<lparr>rs_device_id = cpy 128 (Some device_id), rs_last_fired = 0, rs_calm_since = 0,
                                            rs_active = False\<rparr>]\<rparr>))"

definition restore_r1 :: "'h engine \<Rightarrow> string \<Rightarrow> 'h policy \<Rightarrow> 'h policy" where
  "restore_r1 E device_id p =
     (case find_r1 device_id p of
        None \<Rightarrow> p
      | Some i \<Rightarrow>
          if \<not> rs_active (pe_r1 p ! i) then p
          else p\<lparr>pe_db := snd (htsn_db_qos_save E (Some (r1_restored device_id)) (pe_db p)),
                 pe_r1 := (pe_r1 p)[i := (pe_r1 p ! i)\<lparr>rs_active := False\<rparr>]\<rparr>)"

definition r3_stream :: "string \<Rightarrow> string \<Rightarrow> htsn_stream" where
  "r3_stream sid device_id =
     \<lparr>st_stream_id = cpy HTSN_MAX_STR (Some sid), st_name = cpy HTSN_MAX_STR (Some ''AI latency stream''),
      st_talker = cpy HTSN_MAX_STR (Some device_id), st_vlan_id = 100, st_max_latency_ns = 2000000, st_max_interval_ns = 200000,
      st_priority = 5, st_data_frame_prio = 5, st_status = HTSN_STREAM_CONFIGURED, st_comment = [],
      st_listeners = [''rpi-cnc''], st_listener_all = False\<rparr>"

definition check_r3 :: "'h engine \<Rightarrow> int \<Rightarrow> string \<Rightarrow> int \<Rightarrow> 'h policy \<Rightarrow> 'h policy" where
  "check_r3 E now device_id latency_ms p =
     (if latency_ms < R3_LATENCY_MS then p
      else if now - pe_r3_last p < R3_COOLDOWN_S then p
      else
        (let sid = snprintf_buf 128 (''ai-'' @ device_id)
         in case htsn_db_tsn_load E (Some sid) (pe_db p) of
              Inr _ \<Rightarrow> p
            | Inl _ \<Rightarrow>
                (let (e, db) = htsn_db_tsn_save E (Some (r3_stream sid device_id)) (pe_db p)
                 in if e = HTSN_OK then p\<lparr>pe_db := db, pe_r3_last := now\<rparr> else p\<lparr>pe_db := db\<rparr>)))"

section \<open>Messages and the main loop\<close>

text \<open>\<open>strrchr(s, c)\<close>: the text after the last \<open>c\<close>.\<close>

definition strrchr_next :: "string \<Rightarrow> char \<Rightarrow> string option" where
  "strrchr_next s c = (if c \<in> set s then Some (rev (takeWhile (\<lambda>x. x \<noteq> c) (rev s))) else None)"

definition policy_on_message :: "'h engine \<Rightarrow> int \<Rightarrow> string \<Rightarrow> string \<Rightarrow> 'h policy \<Rightarrow> 'h policy" where
  "policy_on_message E now topic payload p =
     (if payload = [] then p
      else
        (let p1 = (if strstr topic ''tsn/sensors/event'' \<and>
                      (strstr payload (dq @ ''ai_person'' @ dq) \<or> strstr payload (dq @ ''pir'' @ dq))
                   then (let dev = (case strrchr_next topic (CHR ''/'') of Some s \<Rightarrow> cpy 128 (Some s) | None \<Rightarrow> [])
                         in if dev \<noteq> [] then apply_r1 E now dev p else p)
                   else p)
         in if strstr topic ''tsn/metrics/'' \<and> strstr topic ''latency'' then
              (let dev = (case strstr_from topic ''metrics/'' of
                            None \<Rightarrow> []
                          | Some s \<Rightarrow>
                              (let n = takeWhile (\<lambda>c. c \<noteq> CHR ''/'') (drop 8 s) in if length n < 128 then n else []));
                   lat = (case strrchr_next payload (CHR '':'') of Some n \<Rightarrow> atoi n | None \<Rightarrow> 0)
               in if dev \<noteq> [] \<and> lat > 0 then check_r3 E now dev lat p1 else p1)
            else p1))"

text \<open>The periodic part of one iteration of the main loop.\<close>

definition calm_step :: "'h engine \<Rightarrow> int \<Rightarrow> 'h policy \<Rightarrow> nat \<Rightarrow> 'h policy" where
  "calm_step E now p i =
     (if rs_active (pe_r1 p ! i) \<and> now - rs_last_fired (pe_r1 p ! i) > R1_CALM_S
      then restore_r1 E (rs_device_id (pe_r1 p ! i)) p else p)"

definition policy_tick :: "'h engine \<Rightarrow> int \<Rightarrow> 'h policy \<Rightarrow> 'h policy" where
  "policy_tick E now p = foldl (calm_step E now) p [0..<length (pe_r1 p)]"

definition policy_init :: "'h htsn_db \<Rightarrow> 'h policy" where
  "policy_init db = \<lparr>pe_r1 = [], pe_r3_last = 0, pe_db = db\<rparr>"

text \<open>The engine as a state machine: messages and iterations in any order, at any time.\<close>

inductive policy_reach :: "'h engine \<Rightarrow> 'h htsn_db \<Rightarrow> 'h policy \<Rightarrow> bool" for E and db where
  start: "policy_reach E db (policy_init db)"
| message: "policy_reach E db p \<Longrightarrow> policy_reach E db (policy_on_message E now topic payload p)"
| tick: "policy_reach E db p \<Longrightarrow> policy_reach E db (policy_tick E now p)"

section \<open>The database mirrors the rules\<close>

lemma qos_load_trows:
  assumes "closed a = closed b" and "trows a ''qos_configs'' = trows b ''qos_configs''"
  shows "htsn_db_qos_load sql_run (Some k) a = htsn_db_qos_load sql_run (Some k) b"
proof (cases "closed a")
  case True
  with assms show ?thesis by (simp add: htsn_db_qos_load_def)
next
  case False
  then obtain S T where "handle a = Some S" "handle b = Some T" using assms(1) by (auto simp: closed_def)
  with assms show ?thesis by (simp add: qos_load_ref trows_def)
qed

lemma foldl_exec_frame:
  assumes "\<And>x. u \<noteq> stmt_table (st x) \<and> \<not> refers u (stmt_table (st x))"
  shows "trows (foldl (\<lambda>b x. db_exec sql_run (st x) (ps x) b) db xs) u = trows db u"
    and "closed (foldl (\<lambda>b x. db_exec sql_run (st x) (ps x) b) db xs) = closed db"
  using assms by (induction xs arbitrary: db) simp_all

lemma db_run_frame:
  assumes "db_run sql_run st ps db = Some (d, rs, db')"
  shows "closed db' = closed db" and "u \<noteq> stmt_table st \<Longrightarrow> \<not> refers u (stmt_table st) \<Longrightarrow> trows db' u = trows db u"
  using trows_exec_frame [of u st ps db] closed_exec [of st ps db] assms by (simp_all add: db_exec_def)

lemma refers_qos: "refers ''qos_configs'' t \<longleftrightarrow> t = ''devices''"
  by (auto simp: refers_def schema_def plain_table_def)

lemma qos_frame:
  "db_run sql_run st ps db = Some (d, rs, db') \<Longrightarrow>
     (stmt_table st \<notin> {''qos_configs'', ''devices''} \<longrightarrow> trows db' ''qos_configs'' = trows db ''qos_configs'') \<and> closed db' = closed db"
  using db_run_frame(1) [of st ps db d rs db'] db_run_frame(2) [of st ps db d rs db' "''qos_configs''"] by (auto simp: refers_qos)

lemma stream_save_frame:
  "trows (snd (htsn_db_tsn_save sql_run s db)) ''qos_configs'' = trows db ''qos_configs'' \<and>
   closed (snd (htsn_db_tsn_save sql_run s db)) = closed db"
proof -
  have f: "trows (foldl (\<lambda>b (role, dev). db_exec sql_run member_insert (ps role dev) b) x ms) ''qos_configs'' = trows x ''qos_configs''"
    "closed (foldl (\<lambda>b (role, dev). db_exec sql_run member_insert (ps role dev) b) x ms) = closed x" for ps x ms
    using foldl_exec_frame [of "''qos_configs''" "\<lambda>_. member_insert" "\<lambda>(role, dev). ps role dev" x ms]
    by (simp_all add: member_insert_def refers_qos case_prod_unfold)
  show ?thesis
    by (auto simp: htsn_db_tsn_save_def f split: option.splits dest!: qos_frame)
      (simp_all add: member_insert_def)
qed

context sqlite
begin

lemma stream_save_keeps_qos:
  "htsn_db_qos_load E (Some k) (snd (htsn_db_tsn_save E s db)) = htsn_db_qos_load E (Some k) db"
  "closed (snd (htsn_db_tsn_save E s db)) = closed db"
proof -
  have "dbabs tabs (snd (htsn_db_tsn_save E s db)) = snd (htsn_db_tsn_save sql_run s (dbabs tabs db))"
    by (simp add: stream_save_abs)
  then show "htsn_db_qos_load E (Some k) (snd (htsn_db_tsn_save E s db)) = htsn_db_qos_load E (Some k) db"
    "closed (snd (htsn_db_tsn_save E s db)) = closed db"
    using qos_load_trows stream_save_frame by (metis qos_load_abs, metis closed_abs)
qed

end

definition rule_config :: "rule_state \<Rightarrow> htsn_qos_config" where
  "rule_config r = (if rs_active r then r1_raised (rs_device_id r) else r1_restored (rs_device_id r))"

text \<open>
  Of a database \<open>db\<close>: the rules are distinct and within the array, the table holds the configuration of each rule, and every other device
  keeps its own.
\<close>

definition mirrors :: "'h engine \<Rightarrow> 'h htsn_db \<Rightarrow> 'h policy \<Rightarrow> bool" where
  "mirrors E db p \<longleftrightarrow>
     \<not> closed (pe_db p) \<and> length (pe_r1 p) \<le> MAX_DEVICES \<and> distinct (map rs_device_id (pe_r1 p)) \<and>
     (\<forall>r \<in> set (pe_r1 p). rs_device_id r \<noteq> [] \<and> fits 128 (rs_device_id r) \<and>
        htsn_db_qos_load E (Some (rs_device_id r)) (pe_db p) = Inr (rule_config r)) \<and>
     (\<forall>k. k \<notin> rs_device_id ` set (pe_r1 p) \<longrightarrow> htsn_db_qos_load E (Some k) (pe_db p) = htsn_db_qos_load E (Some k) db)"

lemma rule_config_ok:
  assumes "fits 128 d"
  shows "qos_ok (r1_raised d)" "qos_ok (r1_restored d)" "qos_device_id (r1_raised d) = d" "qos_device_id (r1_restored d) = d"
proof -
  have "fits HTSN_MAX_STR d" using assms by (simp add: fits_def HTSN_MAX_STR_def)
  then show "qos_ok (r1_raised d)" "qos_ok (r1_restored d)" "qos_device_id (r1_raised d) = d" "qos_device_id (r1_restored d) = d"
    by (simp_all add: qos_ok_def r1_raised_def r1_restored_def in_i32_def)
qed

context sqlite
begin

lemmas qos_load_save = qos_store.load_save and qos_load_save_other = qos_store.load_save_other
  and qos_save_opened = qos_store.save_opened

lemma mirrors_set:
  assumes m: "mirrors E db p" and i: "i < length (pe_r1 p)" and r: "rs_device_id r = rs_device_id (pe_r1 p ! i)"
    and c: "c = rule_config r"
  shows "mirrors E db (p\<lparr>pe_db := snd (htsn_db_qos_save E (Some c) (pe_db p)), pe_r1 := (pe_r1 p)[i := r]\<rparr>)"
proof -
  let ?d = "rs_device_id r" and ?s = "snd (htsn_db_qos_save E (Some c) (pe_db p))"
  have d: "?d \<noteq> []" "fits 128 ?d" using m i r by (auto simp: mirrors_def)
  then have q: "qos_ok c" "qos_device_id c = ?d" using rule_config_ok [OF d(2)] by (auto simp: c rule_config_def)
  have o: "\<not> closed (pe_db p)" using m by (simp add: mirrors_def)
  have l: "htsn_db_qos_load E (Some k) ?s = (if k = ?d then Inr c else htsn_db_qos_load E (Some k) (pe_db p))" for k
    using qos_load_save [OF o q(1)] qos_load_save_other [OF o q(1), of k] q(2) by auto
  have mm: "map rs_device_id ((pe_r1 p)[i := r]) = map rs_device_id (pe_r1 p)"
    using i r by (metis list_update_id map_update nth_map)
  have ids: "rs_device_id ` set ((pe_r1 p)[i := r]) = rs_device_id ` set (pe_r1 p)" using mm by (metis set_map)
  have e: "rs_device_id x \<noteq> [] \<and> fits 128 (rs_device_id x) \<and> htsn_db_qos_load E (Some (rs_device_id x)) ?s = Inr (rule_config x)"
    if x: "x \<in> set ((pe_r1 p)[i := r])" for x
  proof -
    obtain j where j: "j < length (pe_r1 p)" "x = (pe_r1 p)[i := r] ! j" using x by (auto simp: in_set_conv_nth)
    show ?thesis
    proof (cases "j = i")
      case True
      then show ?thesis using j i d l c by simp
    next
      case False
      have "distinct (map rs_device_id (pe_r1 p))" using m by (simp add: mirrors_def)
      then have "rs_device_id x \<noteq> ?d" using False i j r by (auto simp: distinct_conv_nth)
      then show ?thesis using m False j l by (auto simp: mirrors_def)
    qed
  qed
  have "k \<notin> rs_device_id ` set (pe_r1 p) \<Longrightarrow> htsn_db_qos_load E (Some k) ?s = htsn_db_qos_load E (Some k) db" for k
    using m i r l by (auto simp: mirrors_def)
  then show ?thesis
    using m e ids mm qos_save_opened [OF o q(1)] unfolding mirrors_def by simp
qed

lemma mirrors_new:
  assumes m: "mirrors E db p" and n: "length (pe_r1 p) < MAX_DEVICES" "rs_device_id r \<notin> rs_device_id ` set (pe_r1 p)"
    and d: "rs_device_id r \<noteq> []" "fits 128 (rs_device_id r)" and c: "c = rule_config r"
  shows "mirrors E db (p\<lparr>pe_db := snd (htsn_db_qos_save E (Some c) (pe_db p)), pe_r1 := pe_r1 p @ [r]\<rparr>)"
proof -
  let ?s = "snd (htsn_db_qos_save E (Some c) (pe_db p))"
  have q: "qos_ok c" "qos_device_id c = rs_device_id r" using rule_config_ok [OF d(2)] by (auto simp: c rule_config_def)
  have o: "\<not> closed (pe_db p)" using m by (simp add: mirrors_def)
  have l: "htsn_db_qos_load E (Some k) ?s = (if k = rs_device_id r then Inr c else htsn_db_qos_load E (Some k) (pe_db p))" for k
    using qos_load_save [OF o q(1)] qos_load_save_other [OF o q(1), of k] q(2) by auto
  have "htsn_db_qos_load E (Some (rs_device_id x)) ?s = Inr (rule_config x)" if "x \<in> set (pe_r1 p @ [r])" for x
    using that m n(2) c l by (auto simp: mirrors_def) (metis image_eqI)
  then show ?thesis
    using m n d qos_save_opened [OF o q(1)] unfolding mirrors_def by (simp add: l)
qed

lemma mirrors_apply_r1:
  assumes m: "mirrors E db p" and d: "dev \<noteq> []" "fits 128 dev"
  shows "mirrors E db (apply_r1 E now dev p)"
proof (cases "find_r1 dev p")
  case (Some i)
  then have i: "i < length (pe_r1 p)" "rs_device_id (pe_r1 p ! i) = dev"
    using find_idx_SomeD by (fastforce simp: find_r1_def)+
  have "mirrors E db (p\<lparr>pe_db := snd (htsn_db_qos_save E (Some (r1_raised dev)) (pe_db p)),
      pe_r1 := (pe_r1 p)[i := (pe_r1 p ! i)\<lparr>rs_active := True, rs_last_fired := now\<rparr>]\<rparr>)"
    using i by (intro mirrors_set [OF m]) (simp_all add: rule_config_def)
  with m Some show ?thesis by (simp add: apply_r1_def)
next
  case None
  let ?r = "\<lparr>rs_device_id = dev, rs_last_fired = now, rs_calm_since = 0, rs_active = True\<rparr>"
  have "dev \<notin> rs_device_id ` set (pe_r1 p)" using None by (auto simp: find_r1_def find_idx_None_iff)
  then have "length (pe_r1 p) < MAX_DEVICES \<Longrightarrow>
      mirrors E db (p\<lparr>pe_db := snd (htsn_db_qos_save E (Some (r1_raised dev)) (pe_db p)), pe_r1 := pe_r1 p @ [?r]\<rparr>)"
    using d by (intro mirrors_new [OF m]) (simp_all add: rule_config_def)
  with m None d show ?thesis by (simp add: apply_r1_def)
qed

lemma mirrors_calm: "mirrors E db p \<Longrightarrow> mirrors E db (calm_step E now p i)"
proof -
  assume m: "mirrors E db p"
  show ?thesis
  proof (cases "find_r1 (rs_device_id (pe_r1 p ! i)) p")
    case None
    then show ?thesis using m by (simp add: calm_step_def restore_r1_def)
  next
    case (Some j)
    then have j: "j < length (pe_r1 p)" "rs_device_id (pe_r1 p ! j) = rs_device_id (pe_r1 p ! i)"
      using find_idx_SomeD by (fastforce simp: find_r1_def)+
    have "mirrors E db (p\<lparr>pe_db := snd (htsn_db_qos_save E (Some (r1_restored (rs_device_id (pe_r1 p ! i)))) (pe_db p)),
        pe_r1 := (pe_r1 p)[j := (pe_r1 p ! j)\<lparr>rs_active := False\<rparr>]\<rparr>)"
      using j by (intro mirrors_set [OF m]) (simp_all add: rule_config_def)
    with m Some show ?thesis by (simp add: calm_step_def restore_r1_def)
  qed
qed

lemma mirrors_tick: "mirrors E db p \<Longrightarrow> mirrors E db (policy_tick E now p)"
proof -
  have "mirrors E db p \<Longrightarrow> mirrors E db (foldl (calm_step E now) p xs)" for xs
    by (induction xs arbitrary: p) (simp_all add: mirrors_calm)
  then show "mirrors E db p \<Longrightarrow> mirrors E db (policy_tick E now p)" by (simp add: policy_tick_def)
qed

lemma mirrors_r3: "mirrors E db p \<Longrightarrow> mirrors E db (check_r3 E now dev lat p)"
  by (simp add: check_r3_def mirrors_def Let_def case_prod_unfold stream_save_keeps_qos split: sum.splits)

lemma mirrors_message: "mirrors E db p \<Longrightarrow> mirrors E db (policy_on_message E now topic payload p)"
  by (simp add: policy_on_message_def Let_def mirrors_r3 mirrors_apply_r1 split: option.splits)

lemma mirrors_reach: "policy_reach E db p \<Longrightarrow> \<not> closed db \<Longrightarrow> mirrors E db p"
  by (induction rule: policy_reach.induct) (simp_all add: mirrors_message mirrors_tick, simp add: mirrors_def policy_init_def)

end


text \<open>A motion event, and five minutes of calm.\<close>

definition demo_event :: "tables policy" where
  "demo_event = policy_on_message sql_run 1000 ''tsn/sensors/event/d1'' (dq @ ''pir'' @ dq) (policy_init empty_db)"

lemma demo_event_rules:
  "pe_r1 demo_event = [\<lparr>rs_device_id = ''d1'', rs_last_fired = 1000, rs_calm_since = 0, rs_active = True\<rparr>]"
  by (simp add: demo_event_def policy_on_message_def policy_init_def dq_def apply_r1_def find_r1_def MAX_DEVICES_def strrchr_next_def Let_def
      fits_def)


text \<open>
  The stream rule keeps one time for all devices: while it is cooling down after one device, no stream is reserved for any other.
\<close>

theorem r3_cooldown_shared:
  assumes "now - pe_r3_last p < 300"
  shows "check_r3 E now dev lat p = p"
  using assms by (simp add: check_r3_def R3_COOLDOWN_S_def)

end
