(* ===== verification/Agent.thy ===== *)
theory Agent
  imports Telemetry
begin

text \<open>
  The host agent that runs on Linux and Raspberry Pi nodes (src/src/agent/agent.c, agent_providers.c and
  platform/agent_platform.c): it receives commands over MQTT, reads its own minimal JSON and applies
  the settings with shell commands. Commands passed to \<open>system\<close> are kept in order in \<open>ag_cmds\<close>. The search
  \<open>json_val\<close> is a \<open>partial_function (option)\<close>: \<open>None\<close> means that it does not return, and
  every function that calls it returns an option as well. The lemmas show what the agent makes
  of the messages the stream manager sends.
\<close>

section \<open>Platforms\<close>

datatype agent_platform =
    AGENT_PLATFORM_LINUX | AGENT_PLATFORM_RASPBERRY_PI | AGENT_PLATFORM_ESP32 | AGENT_PLATFORM_STM32 | AGENT_PLATFORM_NXP

definition agt_platform_from_string :: "string option \<Rightarrow> agent_platform" where
  "agt_platform_from_string so =
     (case so of
        None \<Rightarrow> AGENT_PLATFORM_LINUX
      | Some s \<Rightarrow>
          if s = ''esp32'' then AGENT_PLATFORM_ESP32
          else if s = ''raspberry_pi'' \<or> s = ''rpi'' then AGENT_PLATFORM_RASPBERRY_PI
          else if s = ''stm32'' then AGENT_PLATFORM_STM32
          else if s = ''nxp'' then AGENT_PLATFORM_NXP
          else AGENT_PLATFORM_LINUX)"

definition native :: "agent_platform \<Rightarrow> bool" where
  "native p \<longleftrightarrow> p = AGENT_PLATFORM_LINUX \<or> p = AGENT_PLATFORM_RASPBERRY_PI"

record htsn_agent =
  ag_device_id :: string
  ag_platform_str :: string
  ag_platform :: agent_platform
  ag_iface :: string
  ag_mqtt_host :: string
  ag_mqtt_port :: int
  ag_mqtt :: "htsn_mqtt_client option"
  ag_cmds :: "string list"

section \<open>The Linux provider\<close>

text \<open>A failing command is only logged.\<close>

definition run :: "string \<Rightarrow> htsn_agent \<Rightarrow> htsn_agent" where
  "run cmd a = a\<lparr>ag_cmds := ag_cmds a @ [snprintf_buf 512 cmd]\<rparr>"

definition linux_apply_qos :: "int \<Rightarrow> int \<Rightarrow> int \<Rightarrow> int \<Rightarrow> int \<Rightarrow> htsn_agent \<Rightarrow> htsn_error \<times> htsn_agent" where
  "linux_apply_qos priority tc bw lat preempt a =
     (let a1 = (if bw > 0
                then run (''tc class add dev wlan0 parent 1: classid 1:1 htb rate '' @ dec_int bw @ ''kbit'')
                       (run (''tc qdisc replace dev wlan0 root handle 1: htb default '' @ dec_int tc) a)
                else a)
      in (HTSN_OK, run ''tc qdisc add dev wlan0 parent 1:1 handle 10: prio'' a1))"

definition linux_apply_vlan :: "int \<Rightarrow> string \<Rightarrow> htsn_agent \<Rightarrow> htsn_error \<times> htsn_agent" where
  "linux_apply_vlan vlan_id grp a =
     (HTSN_OK, run (''ip link set vlan'' @ dec_int vlan_id @ '' up'')
        (run (''ip link add link wlan0 name vlan'' @ dec_int vlan_id @ '' type vlan id '' @ dec_int vlan_id @
              '' 2>/dev/null || true'') a))"

definition linux_apply_timesync :: "int \<Rightarrow> string option \<Rightarrow> htsn_agent \<Rightarrow> htsn_error \<times> htsn_agent" where
  "linux_apply_timesync mode gm a =
     (HTSN_OK,
      if mode = 1 then
        run (''phc2sys -s '' @ ag_iface a @ '' -c CLOCK_REALTIME -O 0 -w &'')
          (run (''ptp4l -i '' @ ag_iface a @ '' -m -f /etc/linuxptp/gptp_master.cfg &'') (run ''pkill -f ptp4l'' a))
      else if mode = 2 \<or> mode = 3 then
        run (''phc2sys -s CLOCK_REALTIME -c '' @ ag_iface a @ '' -O 0 -w &'')
          (run (''ptp4l -i '' @ ag_iface a @ '' -m -s -f /etc/linuxptp/gptp.cfg &'') (run ''pkill -f ptp4l'' a))
      else run ''pkill -f ptp4l; pkill -f phc2sys'' a)"

text \<open>Truncating division of C; the text built from the entries is discarded by the code.\<close>

definition c_div :: "int \<Rightarrow> int \<Rightarrow> int" where
  "c_div x y = (if x < 0 then - ((- x) div y) else x div y)"

definition linux_apply_tas :: "int \<Rightarrow> int \<Rightarrow> htsn_agent \<Rightarrow> htsn_error \<times> htsn_agent" where
  "linux_apply_tas cycle_ns entries a =
     (if entries \<le> 0 then (HTSN_ERR_INVALID_ARG, a)
      else
        (HTSN_OK, run (snprintf_buf 768
          (''tc qdisc replace dev '' @ ag_iface a @
           '' root handle 100 taprio num_tc 8 map 0 1 2 3 4 5 6 7 queues 1@0 1@1 1@2 1@3 2@4 2@6 3@8 3@11 base-time 0 clockid CLOCK_TAI sched-entry S 0x01 '' @
           dec_int (c_div cycle_ns 2) @ '' sched-entry S 0x03 '' @ dec_int (c_div cycle_ns 4) @ '' sched-entry S 0x04 '' @
           dec_int (c_div cycle_ns 4))) a))"

definition linux_read_sensors :: "htsn_agent \<Rightarrow> htsn_error \<times> htsn_agent" where
  "linux_read_sensors a = (HTSN_OK, run ''cat /sys/class/thermal/thermal_zone0/temp'' a)"

text \<open>
  The sockets of the operating system: whether \<open>socket\<close> succeeds, whether a text is a multicast
  address, and whether \<open>sendto\<close> succeeds.
\<close>

record net =
  net_socket :: bool
  net_multicast :: "string \<Rightarrow> bool"
  net_sendto :: "string \<Rightarrow> string \<Rightarrow> bool"

definition agt_linux_send_fx_multicast :: "net \<Rightarrow> string option \<Rightarrow> string \<Rightarrow> htsn_error" where
  "agt_linux_send_fx_multicast N grpo data =
     (case grpo of
        None \<Rightarrow> HTSN_ERR_INVALID_ARG
      | Some grp \<Rightarrow>
          if \<not> net_socket N then HTSN_ERR_IO
          else if \<not> net_multicast N grp then HTSN_ERR_INVALID_ARG
          else if net_sendto N grp data then HTSN_OK else HTSN_ERR_IO)"

text \<open>\<open>client\<close> is the client of the adapter's own state; \<open>htsn_agent_create\<close> passes none.\<close>

definition linux_send ::
  "mosquitto \<Rightarrow> string option \<Rightarrow> string \<Rightarrow> htsn_mqtt_client option \<Rightarrow> htsn_error \<times> htsn_mqtt_client option" where
  "linux_send Q topico data client =
     (case topico of
        None \<Rightarrow> (HTSN_ERR_INVALID_ARG, client)
      | Some topic \<Rightarrow>
          (case client of
             None \<Rightarrow> (HTSN_ERR_NOT_READY, client)
           | Some _ \<Rightarrow> htsn_mqtt_client_publish Q (Some topic) (takeWhile (\<lambda>c. c \<noteq> CHR 0x00) data) client))"

section \<open>The embedded adapters\<close>

fun embedded_name :: "agent_platform \<Rightarrow> string" where
  "embedded_name AGENT_PLATFORM_ESP32 = ''esp32''"
| "embedded_name AGENT_PLATFORM_STM32 = ''stm32''"
| "embedded_name AGENT_PLATFORM_NXP = ''nxp''"
| "embedded_name AGENT_PLATFORM_LINUX = ''embedded''"
| "embedded_name AGENT_PLATFORM_RASPBERRY_PI = ''embedded''"

text \<open>They only log and report success.\<close>

definition emb_apply_qos :: "int \<Rightarrow> int \<Rightarrow> int \<Rightarrow> int \<Rightarrow> int \<Rightarrow> htsn_agent \<Rightarrow> htsn_error \<times> htsn_agent" where
  "emb_apply_qos p t b l pr a = (HTSN_OK, a)"

definition emb_apply_vlan :: "int \<Rightarrow> string \<Rightarrow> htsn_agent \<Rightarrow> htsn_error \<times> htsn_agent" where
  "emb_apply_vlan vid g a = (HTSN_OK, a)"

definition emb_apply_timesync :: "int \<Rightarrow> string option \<Rightarrow> htsn_agent \<Rightarrow> htsn_error \<times> htsn_agent" where
  "emb_apply_timesync mode gm a = (HTSN_OK, a)"

definition emb_apply_tas :: "int \<Rightarrow> int \<Rightarrow> htsn_agent \<Rightarrow> htsn_error \<times> htsn_agent" where
  "emb_apply_tas cycle entries a = (HTSN_OK, a)"

definition emb_read_sensors :: "htsn_agent \<Rightarrow> htsn_error \<times> htsn_agent" where
  "emb_read_sensors a = (HTSN_OK, a)"

definition emb_send :: "string option \<Rightarrow> string \<Rightarrow> htsn_error" where
  "emb_send topic data = HTSN_ERR_NOT_IMPLEMENTED"

text \<open>The calls through \<open>agent_platform_ops\<close>, with the operations \<open>htsn_agent_create\<close> selects by platform.\<close>

definition apply_qos :: "int \<Rightarrow> int \<Rightarrow> int \<Rightarrow> int \<Rightarrow> int \<Rightarrow> htsn_agent \<Rightarrow> htsn_error \<times> htsn_agent" where
  "apply_qos p t bw lat pr a =
     (if native (ag_platform a) then linux_apply_qos p t bw lat pr a else emb_apply_qos p t bw lat pr a)"

definition apply_vlan :: "int \<Rightarrow> string \<Rightarrow> htsn_agent \<Rightarrow> htsn_error \<times> htsn_agent" where
  "apply_vlan vid grp a = (if native (ag_platform a) then linux_apply_vlan vid grp a else emb_apply_vlan vid grp a)"

definition apply_timesync :: "int \<Rightarrow> string option \<Rightarrow> htsn_agent \<Rightarrow> htsn_error \<times> htsn_agent" where
  "apply_timesync mode gm a = (if native (ag_platform a) then linux_apply_timesync mode gm a else emb_apply_timesync mode gm a)"

definition apply_tas :: "int \<Rightarrow> int \<Rightarrow> htsn_agent \<Rightarrow> htsn_error \<times> htsn_agent" where
  "apply_tas cycle entries a =
     (if native (ag_platform a) then linux_apply_tas cycle entries a else emb_apply_tas cycle entries a)"

definition read_sensors :: "htsn_agent \<Rightarrow> htsn_error \<times> htsn_agent" where
  "read_sensors a = (if native (ag_platform a) then linux_read_sensors a else emb_read_sensors a)"

section \<open>Reading JSON\<close>

definition js_blank :: "char \<Rightarrow> bool" where
  "js_blank c \<longleftrightarrow> c = CHR '' '' \<or> c = CHR 0x09 \<or> c = CHR 0x0A \<or> c = CHR 0x0D"

definition js_stop :: "char \<Rightarrow> bool" where
  "js_stop c \<longleftrightarrow> c = CHR '','' \<or> c = CHR ''{'' \<or> c = CHR ''}''"

text \<open>
  \<open>Some (Some v)\<close>: the text from the value on; \<open>Some None\<close>: a null pointer; \<open>None\<close>: the loop
  does not end.
\<close>

partial_function (option) json_val :: "string \<Rightarrow> string \<Rightarrow> string option option" where
  "json_val p key =
     (case dropWhile (\<lambda>c. js_blank c \<or> c = CHR ''{'' \<or> c = CHR '','') p of
        [] \<Rightarrow> Some None
      | c # r \<Rightarrow>
          if c \<noteq> CHR 0x22 then json_val (dropWhile (\<lambda>x. \<not> js_stop x) (c # r)) key
          else
            (case strchr r (CHR 0x22) of
               None \<Rightarrow> Some None
             | Some ke \<Rightarrow>
                 if takeWhile (\<lambda>x. x \<noteq> CHR 0x22) r = key
                 then (case dropWhile (\<lambda>x. x \<noteq> CHR '':'') (tl ke) of
                         [] \<Rightarrow> Some None
                       | _ # v \<Rightarrow> Some (Some (dropWhile js_blank v)))
                 else json_val (dropWhile (\<lambda>x. \<not> js_stop x) (tl ke)) key))"

definition json_val_opt :: "string option \<Rightarrow> string \<Rightarrow> string option option" where
  "json_val_opt json key = (case json of None \<Rightarrow> Some None | Some p \<Rightarrow> json_val p key)"

text \<open>\<open>json_get_int\<close>: \<open>Some None\<close> when it returns 0. At most 15 characters reach \<open>atoi\<close>.\<close>

definition json_int_text :: "string \<Rightarrow> string" where
  "json_int_text v =
     (case v of
        CHR ''-'' # r \<Rightarrow> CHR ''-'' # take 14 (takeWhile is_digit r)
      | _ \<Rightarrow> take 15 (takeWhile is_digit v))"

definition json_get_int :: "string option \<Rightarrow> string \<Rightarrow> int option option" where
  "json_get_int json key =
     map_option
       (\<lambda>vo. case vo of
          None \<Rightarrow> None
        | Some v \<Rightarrow>
            if v \<noteq> [] \<and> hd v = CHR 0x22 then None
            else (let b = json_int_text v in if b = [] then None else Some (atoi b)))
       (json_val_opt json key)"

definition json_get_str :: "string option \<Rightarrow> string \<Rightarrow> nat \<Rightarrow> string option" where
  "json_get_str json key sz =
     map_option
       (\<lambda>vo. case vo of
          None \<Rightarrow> []
        | Some v \<Rightarrow>
            if v = [] \<or> hd v \<noteq> CHR 0x22 then []
            else (case strchr (tl v) (CHR 0x22) of
                    None \<Rightarrow> []
                  | Some _ \<Rightarrow> take (sz - 1) (takeWhile (\<lambda>x. x \<noteq> CHR 0x22) (tl v))))
       (json_val_opt json key)"

section \<open>Commands\<close>

definition send_ack :: "mosquitto \<Rightarrow> bool \<Rightarrow> htsn_agent \<Rightarrow> htsn_agent" where
  "send_ack Q ok a =
     (case ag_mqtt a of
        None \<Rightarrow> a
      | Some _ \<Rightarrow>
          a\<lparr>ag_mqtt := snd (htsn_mqtt_client_publish Q (Some (snprintf_buf 64 (''tsn/ack/'' @ ag_device_id a)))
              (snprintf_buf 96 (''{'' @ js_str ''id'' (ag_device_id a) @ '','' @ dq @ ''ok'' @ dq @ '':'' @
                 (if ok then ''true'' else ''false'') @ ''}''))
              (ag_mqtt a))\<rparr>)"

text \<open>\<open>None\<close>: the function does not return. \<open>atoll\<close> reads like \<open>strtoll\<close>.\<close>

definition apply_snapshot :: "string option \<Rightarrow> htsn_agent \<Rightarrow> (htsn_error \<times> htsn_agent) option" where
  "apply_snapshot payload a =
     (case json_get_int payload ''priority'' of None \<Rightarrow> None | Some po \<Rightarrow>
     (case json_get_int payload ''traffic_class'' of None \<Rightarrow> None | Some t \<Rightarrow>
     (case json_get_int payload ''bandwidth_kbps'' of None \<Rightarrow> None | Some bw \<Rightarrow>
     (case json_get_int payload ''latency_ms'' of None \<Rightarrow> None | Some lat \<Rightarrow>
     (case json_get_int payload ''preemption'' of None \<Rightarrow> None | Some pr \<Rightarrow>
     (case json_get_int payload ''vlan_id'' of None \<Rightarrow> None | Some vid \<Rightarrow>
     (case json_get_int payload ''timesync_mode'' of None \<Rightarrow> None | Some tsmode \<Rightarrow>
     (case json_get_str payload ''group'' 32 of None \<Rightarrow> None | Some grp \<Rightarrow>
     (case json_get_str payload ''grandmaster'' 32 of None \<Rightarrow> None | Some gm \<Rightarrow>
     (case json_val_opt payload ''tas_cycle_ns'' of None \<Rightarrow> None | Some cv \<Rightarrow>
        (let dflt = (\<lambda>x. case x of None \<Rightarrow> 0 | Some i \<Rightarrow> i);
             a1 = (case po of
                     Some p \<Rightarrow> snd (apply_qos p (dflt t) (dflt bw) (dflt lat) (dflt pr) a)
                   | None \<Rightarrow> a);
             a2 = (if dflt vid > 0 then snd (apply_vlan (dflt vid) grp a1) else a1);
             a3 = snd (apply_timesync (dflt tsmode) (if gm \<noteq> [] then Some gm else None) a2);
             cycle = (case cv of Some v \<Rightarrow> if v \<noteq> [] \<and> hd v = CHR 0x22 then 0 else strtoll v | None \<Rightarrow> 0)
         in Some (HTSN_OK, snd (apply_tas cycle 0 a3)))))))))))))"

text \<open>
  \<open>token_at\<close> returns a pointer into its own frame. \<open>stale\<close> is what the caller reads through it: the token only
  as long as nothing has overwritten the frame. The empty string it returns for a missing token is static.
\<close>

definition token_at :: "(string \<Rightarrow> string) \<Rightarrow> string option \<Rightarrow> nat \<Rightarrow> string" where
  "token_at stale payload index =
     (let parts = take 8 (strtok_all (CHR '':'') (cpy HTSN_MAX_STR (Some (case payload of Some p \<Rightarrow> p | None \<Rightarrow> []))))
      in if index \<ge> length parts then [] else stale (parts ! index))"

definition htsn_agent_handle_command ::
  "mosquitto \<Rightarrow> net \<Rightarrow> (string \<Rightarrow> string) \<Rightarrow> string option \<Rightarrow> string option \<Rightarrow> htsn_agent \<Rightarrow> (htsn_error \<times> htsn_agent) option" where
  "htsn_agent_handle_command Q N stale commando payload a =
     (case commando of
        None \<Rightarrow> Some (HTSN_ERR_INVALID_ARG, a)
      | Some command \<Rightarrow>
          (let tok = token_at stale payload
           in if command = ''qos'' then Some (apply_qos (atoi (tok 0)) (atoi (tok 1)) (atoi (tok 2)) (atoi (tok 3)) (atoi (tok 4)) a)
              else if command = ''vlan'' then Some (apply_vlan (atoi (tok 0)) (tok 1) a)
              else if command = ''timesync'' then Some (apply_timesync (atoi (tok 0)) (Some (tok 1)) a)
              else if command = ''tas'' then Some (apply_tas (strtoll (case payload of Some p \<Rightarrow> p | None \<Rightarrow> ''0'')) 0 a)
              else if command = ''stream'' then apply_snapshot payload a
              else if command = ''status'' then
                Some (HTSN_OK, case ag_mqtt a of
                    None \<Rightarrow> a
                  | Some _ \<Rightarrow> a\<lparr>ag_mqtt := snd (htsn_mqtt_client_publish Q (Some ''tsn/status'') (ag_device_id a) (ag_mqtt a))\<rparr>)
              else if command = ''fx'' then
                (let g = (if tok 0 = [] then ''239.255.0.1'' else tok 0); d = (if tok 1 = [] then ''htsnData'' else tok 1)
                 in Some (if native (ag_platform a) then agt_linux_send_fx_multicast N (Some g) d else HTSN_OK, a))
              else Some (HTSN_ERR_NOT_FOUND, a)))"

text \<open>\<open>strrchr(topic, '/') + 1\<close>, or the whole topic.\<close>

definition last_level :: "string \<Rightarrow> string" where
  "last_level topic = rev (takeWhile (\<lambda>c. c \<noteq> CHR ''/'') (rev topic))"

definition agent_on_message ::
  "mosquitto \<Rightarrow> net \<Rightarrow> (string \<Rightarrow> string) \<Rightarrow> string \<Rightarrow> string \<Rightarrow> htsn_agent \<Rightarrow> htsn_agent option" where
  "agent_on_message Q N stale topic payload a =
     (if strstr topic ''/apply'' then
        (if payload \<noteq> [] \<and> hd payload = CHR ''{''
         then map_option (\<lambda>(e, a'). send_ack Q True a') (apply_snapshot (Some payload) a)
         else Some (send_ack Q False a))
      else
        map_option (\<lambda>(e, a'). send_ack Q (e = HTSN_OK) a')
          (htsn_agent_handle_command Q N stale (Some (last_level topic)) (Some payload) a))"

definition htsn_agent_create :: "string option \<Rightarrow> string option \<Rightarrow> string option \<Rightarrow> int \<Rightarrow> htsn_agent option" where
  "htsn_agent_create devo plato hosto port =
     (case (devo, plato) of
        (Some device_id, Some platform_str) \<Rightarrow>
          Some \<lparr>ag_device_id = cpy HTSN_MAX_STR (Some device_id), ag_platform_str = cpy HTSN_MAX_STR (Some platform_str),
                ag_platform = agt_platform_from_string (Some platform_str), ag_iface = ''wlan0'',
                ag_mqtt_host = cpy 128 (Some (case hosto of Some h \<Rightarrow> h | None \<Rightarrow> ''localhost'')), ag_mqtt_port = port,
                ag_mqtt = None, ag_cmds = []\<rparr>
      | _ \<Rightarrow> None)"

definition htsn_agent_start :: "mosquitto \<Rightarrow> nat \<Rightarrow> nat \<Rightarrow> htsn_agent \<Rightarrow> htsn_error \<times> htsn_agent" where
  "htsn_agent_start Q cb ud a =
     (if ag_mqtt_host a = [] then (HTSN_OK, a)
      else
        (let c0 = Some htsn_mqtt_client_create;
             c1 = snd (htsn_mqtt_client_connect Q (Some (ag_mqtt_host a)) (ag_mqtt_port a) (Some (ag_device_id a)) None None c0);
             c2 = snd (htsn_mqtt_client_subscribe Q (Some ''tsn/cmd/#'') c1);
             c3 = snd (htsn_mqtt_client_subscribe Q (Some ''tsn/fx/#'') c2);
             c4 = htsn_mqtt_client_loop_start Q (htsn_mqtt_client_set_message_cb (Some cb) ud c3);
             c5 = snd (htsn_mqtt_client_publish Q (Some ''tsn/discover'')
                    (snprintf_buf 64 (''{'' @ js_str ''id'' (ag_device_id a) @ ''}'')) c4)
         in (HTSN_OK, a\<lparr>ag_mqtt := c5\<rparr>)))"

section \<open>Searching an object\<close>

text \<open>A member of an object, and an object without blanks.\<close>

definition js_member :: "string \<times> string \<Rightarrow> string" where
  "js_member f = dq @ fst f @ dq @ '':'' @ snd f"

definition js_object :: "(string \<times> string) list \<Rightarrow> string" where
  "js_object fs = ''{'' @ join '','' (map js_member fs) @ ''}''"

definition js_member_ok :: "string \<times> string \<Rightarrow> bool" where
  "js_member_ok f \<longleftrightarrow> CHR 0x22 \<notin> set (fst f) \<and> list_all (\<lambda>c. \<not> js_stop c) (snd f)"

text \<open>At a closing brace the loop makes no progress.\<close>

lemma json_val_stuck: "json_val (CHR ''}'' # r) key = None"
proof (cases "json_val (CHR ''}'' # r) key")
  case (Some y)
  have "\<not> (\<exists>t. p = CHR ''}'' # t)" if "json_val p k = Some z" for p k z
  proof (rule json_val.raw_induct [where P = "\<lambda>p k z. \<not> (\<exists>t. p = CHR ''}'' # t)", OF _ that])
    fix f p k z
    assume IH: "\<And>p k z. f p k = Some z \<Longrightarrow> \<not> (\<exists>t. p = CHR ''}'' # t)"
      and b: "(case dropWhile (\<lambda>c. js_blank c \<or> c = CHR ''{'' \<or> c = CHR '','') p of
        [] \<Rightarrow> Some None
      | c # r \<Rightarrow>
          if c \<noteq> CHR 0x22 then f (dropWhile (\<lambda>x. \<not> js_stop x) (c # r)) k
          else
            (case strchr r (CHR 0x22) of
               None \<Rightarrow> Some None
             | Some ke \<Rightarrow>
                 if takeWhile (\<lambda>x. x \<noteq> CHR 0x22) r = k
                 then (case dropWhile (\<lambda>x. x \<noteq> CHR '':'') (tl ke) of
                         [] \<Rightarrow> Some None
                       | _ # v \<Rightarrow> Some (Some (dropWhile js_blank v)))
                 else f (dropWhile (\<lambda>x. \<not> js_stop x) (tl ke)) k)) = Some z"
    show "\<not> (\<exists>t. p = CHR ''}'' # t)"
    proof
      assume "\<exists>t. p = CHR ''}'' # t"
      then obtain t where t: "p = CHR ''}'' # t" by blast
      with b have "f (CHR ''}'' # t) k = Some z" by (simp add: js_blank_def js_stop_def)
      with IH show False by blast
    qed
  qed
  with Some show ?thesis by blast
qed

lemma json_val_skip:
  "json_val (CHR '','' # p) key = json_val p key" "json_val (CHR ''{'' # p) key = json_val p key"
  by (subst (1 2) json_val.simps, simp add: js_blank_def)+

lemma strchr_quote: "CHR 0x22 \<notin> set k \<Longrightarrow> strchr (k @ CHR 0x22 # r) (CHR 0x22) = Some (CHR 0x22 # r)"
proof -
  assume "CHR 0x22 \<notin> set k"
  then have "dropWhile (\<lambda>x. x \<noteq> CHR 0x22) (k @ CHR 0x22 # r) = CHR 0x22 # r" by (induction k) auto
  then show ?thesis by (simp add: strchr_def)
qed

lemma takeWhile_quote: "CHR 0x22 \<notin> set k \<Longrightarrow> takeWhile (\<lambda>x. x \<noteq> CHR 0x22) (k @ CHR 0x22 # r) = k"
  by (induction k) auto

lemma dropWhile_value: "list_all (\<lambda>c. \<not> js_stop c) v \<Longrightarrow> js_stop d \<Longrightarrow> dropWhile (\<lambda>x. \<not> js_stop x) (v @ d # r) = d # r"
  by (induction v) auto

lemma json_val_member:
  assumes "js_member_ok f" and "js_stop d"
  shows "json_val (js_member f @ d # r) key =
    (if fst f = key then Some (Some (dropWhile js_blank (snd f @ d # r))) else json_val (d # r) key)"
proof -
  have m: "js_member f @ d # r = CHR 0x22 # fst f @ CHR 0x22 # CHR '':'' # snd f @ d # r" by (simp add: js_member_def dq_def)
  have k: "CHR 0x22 \<notin> set (fst f)" and v: "list_all (\<lambda>c. \<not> js_stop c) (snd f)" using assms(1) by (simp_all add: js_member_ok_def)
  have "list_all (\<lambda>c. \<not> js_stop c) (CHR '':'' # snd f)" using v by (simp add: js_stop_def)
  from dropWhile_value [OF this assms(2)] show ?thesis
    by (subst json_val.simps) (simp add: m js_blank_def strchr_quote [OF k] takeWhile_quote [OF k] js_stop_def)
qed

text \<open>In an object, the first member with the key is found; without one the search does not end.\<close>

lemma json_val_members:
  assumes "fs \<noteq> []" and "list_all js_member_ok fs"
  shows "case map_of fs key of
      None \<Rightarrow> json_val (join '','' (map js_member fs) @ CHR ''}'' # r) key = None
    | Some v \<Rightarrow> \<exists>d t. js_stop d \<and>
        json_val (join '','' (map js_member fs) @ CHR ''}'' # r) key = Some (Some (dropWhile js_blank (v @ d # t)))"
  using assms
proof (induction fs rule: list_nonempty_induct)
  case (single f)
  have "js_stop (CHR ''}'')" by (simp add: js_stop_def)
  with single json_val_member [of f "CHR ''}''" r key]
  have "json_val (js_member f @ CHR ''}'' # r) key =
      (if fst f = key then Some (Some (dropWhile js_blank (snd f @ CHR ''}'' # r))) else None)"
    by (simp add: json_val_stuck)
  with \<open>js_stop (CHR ''}'')\<close> show ?case
    by (cases "fst f = key"; cases f) (simp_all, blast)
next
  case (cons f fs)
  have j: "join '','' (map js_member (f # fs)) @ CHR ''}'' # r =
      js_member f @ CHR '','' # (join '','' (map js_member fs) @ CHR ''}'' # r)"
    using cons(1) by (cases fs) simp_all
  have e: "json_val (join '','' (map js_member (f # fs)) @ CHR ''}'' # r) key =
      (if fst f = key then Some (Some (dropWhile js_blank (snd f @ CHR '','' # (join '','' (map js_member fs) @ CHR ''}'' # r))))
       else json_val (join '','' (map js_member fs) @ CHR ''}'' # r) key)"
    unfolding j using cons.prems json_val_member [of f "CHR '',''" _ key] by (simp add: js_stop_def json_val_skip)
  have "js_stop (CHR '','')" by (simp add: js_stop_def)
  then show ?case
    unfolding e using cons.IH cons.prems by (cases "fst f = key"; cases f) (simp_all, blast)
qed

lemma json_val_object_missing:
  assumes "list_all js_member_ok fs" and "fs \<noteq> []" and "map_of fs key = None"
  shows "json_val (js_object fs) key = None"
  using json_val_members [OF assms(2,1), where key = key and r = "[]"] assms(3) by (simp add: js_object_def json_val_skip)

lemma json_val_object_found:
  assumes "list_all js_member_ok fs" and "map_of fs key = Some v"
  obtains d t where "js_stop d" and "json_val (js_object fs) key = Some (Some (dropWhile js_blank (v @ d # t)))"
proof -
  have "fs \<noteq> []" using assms(2) by auto
  from json_val_members [OF this assms(1), where key = key and r = "[]"] assms(2) that show thesis
    by (auto simp: js_object_def json_val_skip)
qed

section \<open>Numbers and strings of an object\<close>

lemma digit_not_stop: "is_digit c \<Longrightarrow> \<not> js_stop c \<and> \<not> js_blank c \<and> c \<noteq> CHR 0x22 \<and> c \<noteq> CHR ''-''"
  by (auto simp: is_digit_def js_stop_def js_blank_def)

lemma dec_int_no_stop: "list_all (\<lambda>c. \<not> js_stop c) (dec_int i)"
  by (auto simp: list_all_iff dec_int_def js_stop_def split: if_splits dest: dec_nat_digits digit_not_stop) (auto simp: is_digit_def dest!: dec_nat_digits)

lemma takeWhile_digits: "\<not> is_digit d \<Longrightarrow> takeWhile is_digit (dec_nat n @ d # r) = dec_nat n"
  using dec_nat_digits [of _ n] by (subst takeWhile_append2) auto

lemma json_int_text_dec:
  assumes "in_i32 i" and "\<not> is_digit d"
  shows "json_int_text (dropWhile js_blank (dec_int i @ d # t)) = dec_int i" and "hd (dropWhile js_blank (dec_int i @ d # t)) \<noteq> CHR 0x22"
proof (atomize (full), cases "i < 0")
  case True
  have "length (dec_nat (nat (- i))) \<le> 10" using assms(1) True by (intro length_dec_nat_i32) (simp add: in_i32_def)
  then show "json_int_text (dropWhile js_blank (dec_int i @ d # t)) = dec_int i \<and> hd (dropWhile js_blank (dec_int i @ d # t)) \<noteq> CHR 0x22"
    using True takeWhile_digits [OF assms(2), of "nat (- i)" t] by (simp add: dec_int_def json_int_text_def js_blank_def)
next
  case False
  obtain c s where c: "dec_nat (nat i) = c # s" "is_digit c" by (rule dec_nat_Cons)
  have "length (dec_nat (nat i)) \<le> 10" using assms(1) False by (intro length_dec_nat_i32) (simp add: in_i32_def)
  moreover have "takeWhile is_digit (c # s @ d # t) = c # s" using takeWhile_digits [OF assms(2), of "nat i" t] c by simp
  moreover have "json_int_text (c # s @ d # t) = take 15 (takeWhile is_digit (c # s @ d # t))"
    using digit_not_stop [OF c(2)] unfolding json_int_text_def by (split list.split) (auto split: char.splits bool.splits)
  ultimately show "json_int_text (dropWhile js_blank (dec_int i @ d # t)) = dec_int i \<and> hd (dropWhile js_blank (dec_int i @ d # t)) \<noteq> CHR 0x22"
    using False c digit_not_stop [OF c(2)] by (simp add: dec_int_def)
qed

text \<open>The description of a stream is such an object.\<close>

definition stream_json :: "htsn_stream \<Rightarrow> htsn_stream_role \<Rightarrow> (string \<times> string) list" where
  "stream_json s role =
     [(''stream'', dq @ st_stream_id s @ dq), (''name'', dq @ st_name s @ dq), (''role'', dq @ htsn_stream_role_str role @ dq),
      (''talker'', dq @ st_talker s @ dq), (''vlan_id'', dec_int (st_vlan_id s)), (''latency_ns'', dec_int (st_max_latency_ns s)),
      (''interval_ns'', dec_int (st_max_interval_ns s)), (''priority'', dec_int (st_priority s)),
      (''dfprio'', dec_int (st_data_frame_prio s)), (''status'', dq @ htsn_stream_status_str (st_status s) @ dq)]"

lemma stream_fields_members: "stream_fields s role = map js_member (stream_json s role)"
  by (simp add: stream_fields_def stream_json_def js_member_def js_str_def js_num_def)

definition plain :: "string \<Rightarrow> bool" where
  "plain x \<longleftrightarrow> list_all (\<lambda>c. \<not> js_stop c) x"

lemma stream_json_ok:
  assumes "plain (st_stream_id s)" "plain (st_name s)" "plain (st_talker s)"
  shows "list_all js_member_ok (stream_json s role)"
proof -
  have d: "list_all (\<lambda>c. \<not> js_stop c) dq" by (simp add: dq_def js_stop_def)
  have r: "list_all (\<lambda>c. \<not> js_stop c) (htsn_stream_role_str role)"
    by (cases role) (simp_all add: js_stop_def)
  have t: "list_all (\<lambda>c. \<not> js_stop c) (htsn_stream_status_str (st_status s))"
    by (cases "st_status s") (simp_all add: js_stop_def)
  show ?thesis
    using assms d r t dec_int_no_stop by (simp add: stream_json_def js_member_ok_def plain_def)
qed



text \<open>A description never exceeds the buffer of \<open>publish_stream\<close>.\<close>

lemma stream_payload_object:
  assumes "stream_ok s" and "in_i64 (st_max_latency_ns s)" and "in_i64 (st_max_interval_ns s)"
  shows "stream_payload s role = js_object (stream_json s role)"
proof -
  have "length (st_stream_id s) \<le> 255" "length (st_name s) \<le> 255" "length (st_talker s) \<le> 255"
    using assms by (auto simp: stream_ok_def fits_def HTSN_MAX_STR_def)
  moreover have "length (htsn_stream_role_str role) \<le> 8" by (cases role) simp_all
  moreover have "length (htsn_stream_status_str (st_status s)) \<le> 10" by (cases "st_status s") simp_all
  moreover have "length (dec_int (st_vlan_id s)) \<le> 11" "length (dec_int (st_priority s)) \<le> 11"
    "length (dec_int (st_data_frame_prio s)) \<le> 11"
    "length (dec_int (st_max_latency_ns s)) \<le> 20" "length (dec_int (st_max_interval_ns s)) \<le> 20"
    using assms by (auto simp: stream_ok_def intro: length_dec_i32 length_dec_i64)
  ultimately have "length (js_object (stream_json s role)) \<le> 1023"
    by (simp add: js_object_def stream_json_def js_member_def dq_def)
  then show ?thesis
    by (simp add: stream_payload_def snprintf_buf_def js_object_def stream_fields_members)
qed

lemma apply_snapshot_stuck:
  assumes "map_of fs key = None" and "list_all js_member_ok fs" and "fs \<noteq> []"
    and "key \<in> {''priority'', ''traffic_class'', ''bandwidth_kbps'', ''latency_ms'', ''preemption'', ''vlan_id'', ''timesync_mode'',
      ''group'', ''grandmaster'', ''tas_cycle_ns''}"
  shows "apply_snapshot (Some (js_object fs)) a = None"
proof -
  have "json_get_int (Some (js_object fs)) key = None" "json_get_str (Some (js_object fs)) key 32 = None"
    "json_val_opt (Some (js_object fs)) key = None"
    using json_val_object_missing [OF assms(2,3,1)] by (simp_all add: json_get_int_def json_get_str_def json_val_opt_def)
  with assms(4) show ?thesis by (auto simp: apply_snapshot_def split: option.splits)
qed

lemma last_level_append: "CHR ''/'' \<notin> set x \<Longrightarrow> last_level (p @ CHR ''/'' # x) = x"
proof -
  assume "CHR ''/'' \<notin> set x"
  then have "takeWhile (\<lambda>c. c \<noteq> CHR ''/'') (rev x @ CHR ''/'' # rev p) = rev x" by (subst takeWhile_append2) auto
  then show ?thesis by (simp add: last_level_def)
qed

text \<open>
  C37. A stream description that the stream manager sends stops a host agent for good: whenever the names of
  the stream contain no comma or brace and the topic is not truncated, the handler of the message
  never returns, because the description has no \<open>traffic_class\<close> and the search for a missing key loops at
  the closing brace.
\<close>

theorem stream_deploy_hangs_agent:
  assumes "stream_ok s" and "in_i64 (st_max_latency_ns s)" and "in_i64 (st_max_interval_ns s)"
    and "plain (st_stream_id s)" and "plain (st_name s)" and "plain (st_talker s)"
    and "length device \<le> 240"
  shows "agent_on_message Q N stale (stream_topic device) (stream_payload s role) a = None"
proof -
  have p: "stream_payload s role = js_object (stream_json s role)" by (rule stream_payload_object [OF assms(1-3)])
  have m: "list_all js_member_ok (stream_json s role)" by (rule stream_json_ok [OF assms(4-6)])
  have "map_of (stream_json s role) ''traffic_class'' = None" by (simp add: stream_json_def)
  from apply_snapshot_stuck [OF this m] have s: "apply_snapshot (Some (js_object (stream_json s role))) b = None" for b
    by (simp add: stream_json_def)
  have t: "stream_topic device = (''tsn/cmd/'' @ device) @ CHR ''/'' # ''stream''"
    using assms(7) by (simp add: stream_topic_def snprintf_buf_def HTSN_MAX_STR_def)
  have l: "last_level (stream_topic device) = ''stream''" unfolding t by (rule last_level_append) simp
  have h: "js_object fs \<noteq> [] \<and> hd (js_object fs) = CHR ''{''" for fs by (simp add: js_object_def)
  show ?thesis unfolding agent_on_message_def p using h s l by (simp add: htsn_agent_handle_command_def)
qed

definition demo_net :: net where
  "demo_net = \<lparr>net_socket = True, net_multicast = (\<lambda>_. True), net_sendto = (\<lambda>_ _. True)\<rparr>"

theorem stream_deploy_hangs_agent_witness:
  "agent_on_message (\<lambda>_ _. True) demo_net (\<lambda>t. t)
     (stream_topic ''d1'') (stream_payload demo_stream HTSN_STREAM_ROLE_TALKER)
     (the (htsn_agent_create (Some ''d1'') (Some ''rpi'') None 1883)) = None"
  by (rule stream_deploy_hangs_agent [OF demo_stream_ok])
    (simp_all add: demo_stream_def in_i64_def plain_def js_stop_def)

text \<open>A complete snapshot is read back value by value.\<close>

lemma json_get_int_object:
  assumes "list_all js_member_ok fs" and "map_of fs key = Some (dec_int i)" and "in_i32 i"
  shows "json_get_int (Some (js_object fs)) key = Some (Some i)"
proof -
  obtain d t where d: "js_stop d" "json_val (js_object fs) key = Some (Some (dropWhile js_blank (dec_int i @ d # t)))"
    by (rule json_val_object_found [OF assms(1,2)])
  have "\<not> is_digit d" using d(1) by (auto simp: js_stop_def is_digit_def)
  note j = json_int_text_dec [OF assms(3) this, of t]
  have "dec_int i \<noteq> []" by (simp add: dec_int_def)
  moreover have "atoi (dec_int i) = i" using atoi_dec_int [OF assms(3), of "[]"] by (simp add: no_digit_ahead_def)
  ultimately show ?thesis using d(2) j by (simp add: json_get_int_def json_val_opt_def)
qed

lemma json_get_str_object:
  assumes "list_all js_member_ok fs" and "map_of fs key = Some (dq @ v @ dq)" and "CHR 0x22 \<notin> set v"
  shows "json_get_str (Some (js_object fs)) key sz = Some (take (sz - 1) v)"
proof -
  obtain d t where d: "js_stop d" "json_val (js_object fs) key = Some (Some (dropWhile js_blank ((dq @ v @ dq) @ d # t)))"
    by (rule json_val_object_found [OF assms(1,2)])
  then have "json_val (js_object fs) key = Some (Some (CHR 0x22 # v @ CHR 0x22 # d # t))" by (simp add: dq_def js_blank_def)
  then show ?thesis
    using strchr_quote [OF assms(3)] takeWhile_quote [OF assms(3)] by (simp add: json_get_str_def json_val_opt_def)
qed

lemma json_val_object_some:
  assumes "list_all js_member_ok fs" and "map_of fs key = Some v"
  shows "\<exists>x. json_val_opt (Some (js_object fs)) key = Some (Some x)"
  using json_val_object_found [OF assms] unfolding json_val_opt_def by (metis option.simps(5))

lemma apply_tas_nothing: "snd (apply_tas cycle 0 a) = a"
  by (simp add: apply_tas_def linux_apply_tas_def emb_apply_tas_def)


definition demo_snapshot :: "(string \<times> string) list" where
  "demo_snapshot =
     [(''group'', dq @ ''eno1'' @ dq), (''priority'', dec_int 5), (''traffic_class'', dec_int 6), (''bandwidth_kbps'', dec_int 0),
      (''latency_ms'', dec_int 2), (''preemption'', dec_int 1), (''vlan_id'', dec_int 10), (''timesync_mode'', dec_int 0),
      (''grandmaster'', dq @ dq), (''tas_cycle_ns'', dec_int 1000)]"


text \<open>
  The agent obeys commands that are addressed to other devices: it subscribes to all of \<open>tsn/cmd/#\<close> and its handler
  looks only at the last level of the topic, so the effect of a command does not depend on the addressee
  in the topic.
\<close>

theorem agent_ignores_addressee:
  assumes "CHR ''/'' \<notin> set cmd" and "\<not> strstr (''tsn/cmd/'' @ d1 @ ''/'' @ cmd) ''/apply''"
    and "\<not> strstr (''tsn/cmd/'' @ d2 @ ''/'' @ cmd) ''/apply''"
  shows "agent_on_message Q N stale (''tsn/cmd/'' @ d1 @ ''/'' @ cmd) payload a =
    agent_on_message Q N stale (''tsn/cmd/'' @ d2 @ ''/'' @ cmd) payload a"
  using assms last_level_append [OF assms(1), of "''tsn/cmd/'' @ d1"] last_level_append [OF assms(1), of "''tsn/cmd/'' @ d2"]
  by (simp add: agent_on_message_def)

theorem agent_ignores_addressee_witness:
  "\<exists>a. htsn_agent_create (Some ''d1'') (Some ''rpi'') None 1883 = Some a \<and>
    agent_on_message (\<lambda>_ _. True) demo_net (\<lambda>t. t) ''tsn/cmd/d2/timesync'' ''0:'' a = agent_on_message (\<lambda>_ _. True) demo_net (\<lambda>t. t) ''tsn/cmd/d1/timesync'' ''0:'' a"
  using agent_ignores_addressee [of "''timesync''" "''d2''" "''d1''" "\<lambda>_ _. True" demo_net "\<lambda>t. t" "''0:''"]
  by (simp add: htsn_agent_create_def)

end
