(* ===== verification/Esp_Json.thy ===== *)
theory Esp_Json
  imports Agent
begin

text \<open>
  The JSON reader of the ESP32 agent (esp32-agent/components/htsn_agent/htsn_json.c). The search \<open>probe_value\<close> returns \<open>Some None\<close> for the null
  pointer and \<open>None\<close> when it steps over the terminating character of the text, which the code does for some inputs; every reader returns an
  option for that reason. The lemmas show that the readers return what was printed into an object.
\<close>

section \<open>Searching\<close>

text \<open>\<open>skipws\<close>, and the end of a value that is not wanted.\<close>

fun json_nest :: "char \<Rightarrow> char \<Rightarrow> nat \<Rightarrow> string \<Rightarrow> string" where
  "json_nest op cl 0 p = p"
| "json_nest op cl (Suc d) [] = []"
| "json_nest op cl (Suc d) (x # p) =
     (if x = op then json_nest op cl (Suc (Suc d)) p else if x = cl then json_nest op cl d p else json_nest op cl (Suc d) p)"

definition json_plain_end :: "char \<Rightarrow> bool" where
  "json_plain_end c \<longleftrightarrow> c = CHR '','' \<or> c = CHR ''}'' \<or> c = CHR '' ''"

definition json_skip_value :: "string \<Rightarrow> string" where
  "json_skip_value val =
     (case val of
        [] \<Rightarrow> []
      | c # v \<Rightarrow>
          if c = CHR 0x22 then (case strchr v (CHR 0x22) of Some qe \<Rightarrow> tl qe | None \<Rightarrow> v)
          else if c = CHR ''{'' then json_nest (CHR ''{'') (CHR ''}'') 1 v
          else if c = CHR ''['' then json_nest (CHR ''['') (CHR '']'') 1 v
          else dropWhile (\<lambda>x. \<not> json_plain_end x) val)"

lemma json_nest_length: "length (json_nest op cl d p) \<le> length p"
  by (induction op cl d p rule: json_nest.induct) auto

lemma json_skip_value_length: "length (json_skip_value val) \<le> length val"
proof (cases val)
  case (Cons c v)
  have n: "length (json_nest x y (Suc 0) v) \<le> Suc (length v)" for x y using json_nest_length [of x y "Suc 0" v] by simp
  have "length (tl q) \<le> Suc (length v)" if "strchr v (CHR 0x22) = Some q" for q using strchr_length [OF that] by simp
  moreover have "length (dropWhile (\<lambda>x. \<not> json_plain_end x) v) \<le> Suc (length v)"
    by (rule le_SucI) (rule length_dropWhile_le)
  ultimately show ?thesis
    using Cons n by (simp add: json_skip_value_def split: option.split)
qed (simp add: json_skip_value_def)

text \<open>
  \<open>Some None\<close> is the null pointer, \<open>None\<close> a step behind the terminating character: after \<open>skipws\<close>
  the code tests \<open>*p != '\"'\<close> (and \<open>*p != ':'\<close>) and increments without looking for the end.
\<close>

function probe_value :: "string \<Rightarrow> string \<Rightarrow> string option option" where
  "probe_value p key =
     (if p = [] then Some None
      else
        (case dropWhile js_blank p of
           [] \<Rightarrow> None
         | c # ks \<Rightarrow>
             if c \<noteq> CHR 0x22 then probe_value ks key
             else
               (case strchr ks (CHR 0x22) of
                  None \<Rightarrow> Some None
                | Some ke \<Rightarrow>
                    (case dropWhile js_blank (tl ke) of
                       [] \<Rightarrow> None
                     | c2 # p2 \<Rightarrow>
                         if c2 \<noteq> CHR '':'' then probe_value p2 key
                         else
                           (let val = dropWhile js_blank p2
                            in if takeWhile (\<lambda>x. x \<noteq> CHR 0x22) ks = key then Some (Some val)
                               else probe_value (json_skip_value val) key)))))"
  by pat_completeness auto

lemma dropWhile_Cons_length: "dropWhile f xs = y # ys \<Longrightarrow> length ys < length xs"
  using length_dropWhile_le [of f xs] by simp

termination probe_value
proof (relation "measure (length \<circ> fst)", goal_cases)
  case (2 p key c ks)
  then show ?case using dropWhile_Cons_length [of js_blank p] by auto
next
  case (3 p key c ks ke c2 p2)
  then show ?case
    using dropWhile_Cons_length [of js_blank p] dropWhile_Cons_length [of js_blank "tl ke"] strchr_length [of ks "CHR 0x22" ke] by auto
next
  case (4 p key c ks ke c2 p2 val)
  have "length (json_skip_value val) \<le> length p2"
    using 4 json_skip_value_length [of val] length_dropWhile_le [of js_blank p2] by simp
  then show ?case
    using 4 dropWhile_Cons_length [of js_blank p] dropWhile_Cons_length [of js_blank "tl ke"] strchr_length [of ks "CHR 0x22" ke] by auto
qed simp

declare probe_value.simps [simp del]

section \<open>Reading a value\<close>

text \<open>\<open>atoi\<close> of the 32-bit C library saturates.\<close>

definition esp_atoi :: "string \<Rightarrow> int" where
  "esp_atoi s = (case scan_int s of None \<Rightarrow> 0 | Some (i, _) \<Rightarrow> max (- (2 ^ 31)) (min (2 ^ 31 - 1) i))"

text \<open>The digits copied to \<open>tmp[32]\<close>.\<close>

definition json_tmp :: "string \<Rightarrow> string" where
  "json_tmp v =
     (if v \<noteq> [] \<and> hd v = CHR ''-'' then CHR ''-'' # take 30 (takeWhile is_digit (tl v)) else take 31 (takeWhile is_digit v))"

text \<open>The result, and what is stored through \<open>out\<close> (nothing, \<open>None\<close>, when the function leaves it alone).\<close>

definition htsn_json_get_int :: "string \<Rightarrow> string \<Rightarrow> (bool \<times> int option) option" where
  "htsn_json_get_int json key =
     map_option (\<lambda>r. case r of
         None \<Rightarrow> (False, None)
       | Some v \<Rightarrow> if v \<noteq> [] \<and> hd v = CHR 0x22 then (False, None) else (json_tmp v \<noteq> [], Some (esp_atoi (json_tmp v))))
       (probe_value json key)"

definition htsn_json_get_i64 :: "string \<Rightarrow> string \<Rightarrow> (bool \<times> int option) option" where
  "htsn_json_get_i64 json key =
     map_option (\<lambda>r. case r of
         None \<Rightarrow> (False, None)
       | Some v \<Rightarrow> if v \<noteq> [] \<and> hd v = CHR 0x22 then (False, None) else (json_tmp v \<noteq> [], Some (strtoll (json_tmp v))))
       (probe_value json key)"

definition htsn_json_get_str :: "string \<Rightarrow> string \<Rightarrow> nat \<Rightarrow> string option option" where
  "htsn_json_get_str json key sz =
     map_option (\<lambda>r. case r of
         Some (c # s) \<Rightarrow>
           if c = CHR 0x22 \<and> CHR 0x22 \<in> set s then Some (take (sz - 1) (takeWhile (\<lambda>x. x \<noteq> CHR 0x22) s)) else None
       | _ \<Rightarrow> None)
       (probe_value json key)"

definition htsn_json_get_root_array :: "string \<Rightarrow> string \<Rightarrow> string option option" where
  "htsn_json_get_root_array json key =
     map_option (\<lambda>r. case r of Some (c # s) \<Rightarrow> if c = CHR ''['' then Some (c # s) else None | _ \<Rightarrow> None) (probe_value json key)"

section \<open>Reading arrays\<close>

definition arr_blank :: "char \<Rightarrow> bool" where
  "arr_blank c \<longleftrightarrow> js_blank c \<or> c = CHR '',''"

text \<open>\<open>m\<close> is the room left, \<open>max_entries - n\<close>.\<close>

fun str_array_loop :: "string \<Rightarrow> nat \<Rightarrow> string list" where
  "str_array_loop p 0 = []"
| "str_array_loop p (Suc m) =
     (if p = [] \<or> hd p = CHR '']'' then []
      else
        (case dropWhile arr_blank p of
           [] \<Rightarrow> []
         | c # s \<Rightarrow>
             if c = CHR 0x22
             then (case strchr s (CHR 0x22) of
                     None \<Rightarrow> []
                   | Some e \<Rightarrow> take 63 (takeWhile (\<lambda>x. x \<noteq> CHR 0x22) s) # str_array_loop (tl e) m)
             else []))"

definition htsn_json_parse_str_array :: "string \<Rightarrow> int \<Rightarrow> string list" where
  "htsn_json_parse_str_array arr max_entries = (if max_entries \<le> 0 then [] else str_array_loop (tl arr) (nat max_entries))"

text \<open>
  The objects of a gate control list: how many were counted, and what is stored in the two arrays (\<open>None\<close>: the
  element keeps its value).
\<close>

fun gcl_loop :: "string \<Rightarrow> nat \<Rightarrow> (int option \<times> int option) list option" where
  "gcl_loop p 0 = Some []"
| "gcl_loop p (Suc m) =
     (if p = [] \<or> hd p = CHR '']'' then Some []
      else
        (let q = dropWhile (\<lambda>c. arr_blank c \<or> c = CHR ''{'') p
         in if q = [] \<or> hd q = CHR '']'' then Some []
            else
              (case (htsn_json_get_int q ''gate_state'', htsn_json_get_i64 q ''duration_ns'') of
                 (Some gs, Some du) \<Rightarrow>
                   map_option (\<lambda>r. (if fst gs then snd gs else None, if fst du then snd du else None) # r)
                     (case strchr q (CHR ''}'') of None \<Rightarrow> Some [] | Some e \<Rightarrow> gcl_loop (tl e) m)
               | _ \<Rightarrow> None)))"

definition store_at :: "int option list \<Rightarrow> int list \<Rightarrow> int list" where
  "store_at vs xs = map (\<lambda>i. if i < length vs then (case vs ! i of Some v \<Rightarrow> v | None \<Rightarrow> xs ! i) else xs ! i) [0..<length xs]"

definition htsn_json_parse_gcl :: "string \<Rightarrow> int list \<Rightarrow> int list \<Rightarrow> int \<Rightarrow> (nat \<times> int list \<times> int list) option" where
  "htsn_json_parse_gcl arr gates durations max_entries =
     (if max_entries \<le> 0 then Some (0, gates, durations)
      else map_option (\<lambda>es. (length es, store_at (map fst es) gates, store_at (map snd es) durations))
             (gcl_loop (tl arr) (nat max_entries)))"

section \<open>Printed objects\<close>

text \<open>The values the readers are made for, as the senders write them.\<close>

datatype jv = JInt int | JStr string | JStrs "string list" | JGcl "(int \<times> int) list"

definition jquote :: "string \<Rightarrow> string" where
  "jquote s = CHR 0x22 # s @ [CHR 0x22]"

definition jgate :: "int \<times> int \<Rightarrow> string" where
  "jgate e = js_object [(''gate_state'', dec_int (fst e)), (''duration_ns'', dec_int (snd e))]"

fun jtext :: "jv \<Rightarrow> string" where
  "jtext (JInt i) = dec_int i"
| "jtext (JStr s) = jquote s"
| "jtext (JStrs xs) = CHR ''['' # join '','' (map jquote xs) @ '']''"
| "jtext (JGcl es) = CHR ''['' # join '','' (map jgate es) @ '']''"

definition no_bracket :: "string \<Rightarrow> bool" where
  "no_bracket s \<longleftrightarrow> CHR ''['' \<notin> set s \<and> CHR '']'' \<notin> set s"

fun jv_ok :: "jv \<Rightarrow> bool" where
  "jv_ok (JInt i) = in_i64 i"
| "jv_ok (JStr s) = (CHR 0x22 \<notin> set s)"
| "jv_ok (JStrs xs) = (\<forall>s \<in> set xs. CHR 0x22 \<notin> set s \<and> no_bracket s)"
| "jv_ok (JGcl es) = (\<forall>e \<in> set es. in_i32 (fst e) \<and> in_i64 (snd e))"

definition obj_end :: "char \<Rightarrow> bool" where
  "obj_end d \<longleftrightarrow> d = CHR '','' \<or> d = CHR ''}''"

lemma dec_int_chars: "c \<in> set (dec_int i) \<Longrightarrow> is_digit c \<or> c = CHR ''-''"
  by (auto simp: dec_int_def dest: dec_nat_digits split: if_splits)

lemma dec_int_head: "\<exists>c s. dec_int i = c # s"
  by (cases "dec_nat (nat i)") (auto simp: dec_int_def)

lemma dec_int_Cons:
  obtains c s where "dec_int i = c # s" "\<not> js_blank c" "c \<noteq> CHR 0x22" "c \<noteq> CHR ''{''" "c \<noteq> CHR ''[''"
proof -
  obtain c s where e: "dec_int i = c # s" using dec_int_head by blast
  then have "is_digit c \<or> c = CHR ''-''" using dec_int_chars [of c i] by simp
  then have "\<not> js_blank c \<and> c \<noteq> CHR 0x22 \<and> c \<noteq> CHR ''{'' \<and> c \<noteq> CHR ''[''"
    by (auto simp: js_blank_def is_digit_def)
  then show ?thesis using that [OF e] by blast
qed

lemma dec_int_not_end: "c \<in> set (dec_int i) \<Longrightarrow> \<not> json_plain_end c"
  using dec_int_chars [of c i] by (auto simp: json_plain_end_def is_digit_def)

lemma dec_int_no_bracket [simp]: "no_bracket (dec_int i)"
  using dec_int_chars by (fastforce simp: no_bracket_def is_digit_def)

lemma no_bracket_append [simp]: "no_bracket (x @ y) \<longleftrightarrow> no_bracket x \<and> no_bracket y"
  by (auto simp: no_bracket_def)

lemma no_bracket_Cons [simp]: "no_bracket (c # x) \<longleftrightarrow> c \<noteq> CHR ''['' \<and> c \<noteq> CHR '']'' \<and> no_bracket x"
  by (auto simp: no_bracket_def)

lemma no_bracket_Nil [simp]: "no_bracket []"
  by (simp add: no_bracket_def)

lemma no_bracket_join: "list_all no_bracket xs \<Longrightarrow> no_bracket (join '','' xs)"
proof (induction xs)
  case (Cons x xs)
  then show ?case by (cases xs) simp_all
qed simp

lemma no_bracket_jgate [simp]: "no_bracket (jgate e)"
  by (simp add: jgate_def js_object_def js_member_def dq_def)

lemma json_nest_one: "no_bracket s \<Longrightarrow> json_nest (CHR ''['') (CHR '']'') (Suc 0) (s @ CHR '']'' # r) = r"
  by (induction s) simp_all

lemma jtext_start:
  assumes "obj_end d"
  shows "dropWhile js_blank (jtext v @ d # r) = jtext v @ d # r"
proof (cases v)
  case (JInt i)
  then show ?thesis by (cases rule: dec_int_Cons [of i]) simp
qed (simp_all add: js_blank_def jquote_def)

lemma json_skip_jtext:
  assumes "jv_ok v" and "obj_end d"
  shows "json_skip_value (jtext v @ d # r) = d # r"
proof (cases v)
  case (JInt i)
  obtain c s where c: "dec_int i = c # s" "c \<noteq> CHR 0x22" "c \<noteq> CHR ''{''" "c \<noteq> CHR ''[''" by (rule dec_int_Cons)
  have "dropWhile (\<lambda>x. \<not> json_plain_end x) (dec_int i @ d # r) = d # r"
    using dec_int_not_end assms(2) by (subst dropWhile_append2) (auto simp: json_plain_end_def obj_end_def)
  then show ?thesis using JInt c by (simp add: json_skip_value_def)
next
  case (JStr s)
  then show ?thesis using assms by (simp add: json_skip_value_def jquote_def strchr_quote)
next
  case (JStrs xs)
  have "no_bracket (join '','' (map jquote xs))"
    using assms JStrs by (intro no_bracket_join) (auto simp: list_all_iff jquote_def)
  then show ?thesis using JStrs by (simp add: json_skip_value_def json_nest_one)
next
  case (JGcl es)
  have "no_bracket (join '','' (map jgate es))" by (intro no_bracket_join) (simp add: list_all_iff)
  then show ?thesis using JGcl by (simp add: json_skip_value_def json_nest_one)
qed

section \<open>Searching a printed object\<close>

definition jobject :: "(string \<times> jv) list \<Rightarrow> string" where
  "jobject fs = js_object (map (map_prod (\<lambda>k. k) jtext) fs)"

definition jfield_ok :: "string \<times> jv \<Rightarrow> bool" where
  "jfield_ok f \<longleftrightarrow> CHR 0x22 \<notin> set (fst f) \<and> jv_ok (snd f)"

lemma probe_value_step:
  "c \<noteq> CHR 0x22 \<Longrightarrow> \<not> js_blank c \<Longrightarrow> probe_value (c # p) key = probe_value p key"
  by (subst probe_value.simps) simp

lemma probe_value_Nil [simp]: "probe_value [] key = Some None"
  by (simp add: probe_value.simps)

lemma probe_value_punct [simp]:
  "probe_value (CHR '','' # p) key = probe_value p key" "probe_value (CHR ''{'' # p) key = probe_value p key"
  "probe_value (CHR ''}'' # p) key = probe_value p key"
  by (simp_all add: probe_value_step js_blank_def)

lemma probe_value_member:
  assumes "CHR 0x22 \<notin> set k" and "dropWhile js_blank (v @ r) = v @ r"
  shows "probe_value (js_member (k, v) @ r) key = (if k = key then Some (Some (v @ r)) else probe_value (json_skip_value (v @ r)) key)"
  using assms by (subst probe_value.simps) (simp add: js_member_def dq_def js_blank_def strchr_quote takeWhile_quote)

lemma probe_value_members:
  assumes "list_all jfield_ok fs"
  shows "case map_of fs key of
      None \<Rightarrow> probe_value (join '','' (map (\<lambda>f. js_member (fst f, jtext (snd f))) fs) @ CHR ''}'' # r) key = probe_value r key
    | Some v \<Rightarrow> \<exists>d t. obj_end d \<and>
        probe_value (join '','' (map (\<lambda>f. js_member (fst f, jtext (snd f))) fs) @ CHR ''}'' # r) key = Some (Some (jtext v @ d # t))"
  using assms
proof (induction fs)
  case (Cons f fs)
  obtain k v where f: "f = (k, v)" by (cases f)
  then have ok: "CHR 0x22 \<notin> set k" "jv_ok v" using Cons.prems by (simp_all add: jfield_ok_def)
  define rest where "rest = (if fs = [] then [] else CHR '','' # join '','' (map (\<lambda>f. js_member (fst f, jtext (snd f))) fs)) @ CHR ''}'' # r"
  obtain d t where d: "rest = d # t" "obj_end d" by (cases fs) (auto simp: rest_def obj_end_def)
  have j: "join '','' (map (\<lambda>f. js_member (fst f, jtext (snd f))) (f # fs)) @ CHR ''}'' # r = js_member (k, jtext v) @ rest"
    using f by (cases fs) (simp_all add: rest_def)
  have s: "probe_value rest key = probe_value (join '','' (map (\<lambda>f. js_member (fst f, jtext (snd f))) fs) @ CHR ''}'' # r) key"
    by (simp add: rest_def)
  have m: "probe_value (js_member (k, jtext v) @ rest) key = (if k = key then Some (Some (jtext v @ rest)) else probe_value rest key)"
    using probe_value_member [OF ok(1), where v = "jtext v" and r = rest and key = key] jtext_start [OF d(2), of v t] json_skip_jtext [OF ok(2) d(2), of t] d(1)
    by simp
  show ?case
  proof (cases "k = key")
    case True
    with m d show ?thesis unfolding j by (auto simp: f)
  next
    case False
    with m s show ?thesis using Cons.IH Cons.prems unfolding j by (cases "map_of fs key") (simp_all add: f)
  qed
qed simp

lemma jobject_members: "jobject fs = CHR ''{'' # join '','' (map (\<lambda>f. js_member (fst f, jtext (snd f))) fs) @ ''}''"
  by (simp add: jobject_def js_object_def comp_def map_prod_def case_prod_unfold)

lemma probe_jobject_found:
  assumes "list_all jfield_ok fs" and "map_of fs key = Some v"
  obtains d t where "obj_end d" and "probe_value (jobject fs) key = Some (Some (jtext v @ d # t))"
  using probe_value_members [OF assms(1), where key = key and r = "[]"] assms(2) by (auto simp: jobject_members)

lemma probe_jobject_missing:
  assumes "list_all jfield_ok fs" and "map_of fs key = None"
  shows "probe_value (jobject fs) key = Some None"
  using probe_value_members [OF assms(1), where key = key and r = "[]"] assms(2) by (simp add: jobject_members)

section \<open>The readers return what was printed\<close>

lemma json_tmp_dec:
  assumes "in_i64 i" and "\<not> is_digit d"
  shows "json_tmp (dec_int i @ d # t) = dec_int i"
proof (cases "i < 0")
  case True
  have "length (dec_int i) \<le> 20" by (rule length_dec_i64 [OF assms(1)])
  then show ?thesis
    using True takeWhile_digits [OF assms(2), of "nat (- i)" t] by (simp add: dec_int_def json_tmp_def)
next
  case False
  have "length (dec_int i) \<le> 20" by (rule length_dec_i64 [OF assms(1)])
  moreover obtain c s where c: "dec_nat (nat i) = c # s" "is_digit c" by (rule dec_nat_Cons)
  moreover have "c \<noteq> CHR ''-''" using digit_no_space_sign [OF c(2)] by simp
  moreover have "takeWhile is_digit (c # s @ d # t) = c # s" using takeWhile_digits [OF assms(2), of "nat i" t] c by simp
  ultimately show ?thesis using False by (simp add: dec_int_def json_tmp_def)
qed

lemma scan_int_dec: "scan_int (dec_int i) = Some (i, [])"
  using scan_int_dec_int [of "[]" i] by (simp add: no_digit_ahead_def)

lemma obj_end_no_digit [simp]: "obj_end d \<Longrightarrow> \<not> is_digit d"
  by (auto simp: obj_end_def is_digit_def)

lemma get_int_at:
  assumes "probe_value json key = Some (Some (dec_int i @ d # t))" and "in_i32 i" and "\<not> is_digit d"
  shows "htsn_json_get_int json key = Some (True, Some i)"
proof -
  obtain c s where c: "dec_int i = c # s" "c \<noteq> CHR 0x22" by (rule dec_int_Cons)
  have "json_tmp (dec_int i @ d # t) = dec_int i" by (rule json_tmp_dec [OF in_i32_i64 [OF assms(2)] assms(3)])
  moreover have "esp_atoi (dec_int i) = i" using assms(2) by (simp add: esp_atoi_def scan_int_dec in_i32_def)
  ultimately show ?thesis using assms(1) c by (simp add: htsn_json_get_int_def)
qed

lemma get_i64_at:
  assumes "probe_value json key = Some (Some (dec_int i @ d # t))" and "in_i64 i" and "\<not> is_digit d"
  shows "htsn_json_get_i64 json key = Some (True, Some i)"
proof -
  obtain c s where c: "dec_int i = c # s" "c \<noteq> CHR 0x22" by (rule dec_int_Cons)
  have "json_tmp (dec_int i @ d # t) = dec_int i" by (rule json_tmp_dec [OF assms(2,3)])
  moreover have "strtoll (dec_int i) = i" using assms(2) by (simp add: strtoll_def scan_int_dec)
  ultimately show ?thesis using assms(1) c by (simp add: htsn_json_get_i64_def)
qed

lemma get_int_jobject:
  assumes "list_all jfield_ok fs" and "map_of fs key = Some (JInt i)" and "in_i32 i"
  shows "htsn_json_get_int (jobject fs) key = Some (True, Some i)"
  using probe_jobject_found [OF assms(1,2)] get_int_at [OF _ assms(3)] by (metis jtext.simps(1) obj_end_no_digit)

lemma get_i64_jobject:
  assumes "list_all jfield_ok fs" and "map_of fs key = Some (JInt i)" and "in_i64 i"
  shows "htsn_json_get_i64 (jobject fs) key = Some (True, Some i)"
  using probe_jobject_found [OF assms(1,2)] get_i64_at [OF _ assms(3)] by (metis jtext.simps(1) obj_end_no_digit)

lemma jfield_ok_map_of: "list_all jfield_ok fs \<Longrightarrow> map_of fs key = Some v \<Longrightarrow> jv_ok v"
  by (auto simp: list_all_iff jfield_ok_def dest!: map_of_SomeD)

lemma get_str_jobject:
  assumes "list_all jfield_ok fs" and "map_of fs key = Some (JStr s)"
  shows "htsn_json_get_str (jobject fs) key sz = Some (Some (take (sz - 1) s))"
proof -
  obtain d t where "probe_value (jobject fs) key = Some (Some (jtext (JStr s) @ d # t))" by (rule probe_jobject_found [OF assms])
  moreover have "CHR 0x22 \<notin> set s" using jfield_ok_map_of [OF assms] by simp
  ultimately show ?thesis by (simp add: htsn_json_get_str_def jquote_def takeWhile_quote)
qed

lemma get_missing_jobject:
  assumes "list_all jfield_ok fs" and "map_of fs key = None"
  shows "htsn_json_get_int (jobject fs) key = Some (False, None)" "htsn_json_get_i64 (jobject fs) key = Some (False, None)"
    "htsn_json_get_str (jobject fs) key sz = Some None" "htsn_json_get_root_array (jobject fs) key = Some None"
  using probe_jobject_missing [OF assms]
  by (simp_all add: htsn_json_get_int_def htsn_json_get_i64_def htsn_json_get_str_def htsn_json_get_root_array_def)

text \<open>Arrays.\<close>

lemma str_array_loop_skip: "str_array_loop (CHR '','' # CHR 0x22 # p) m = str_array_loop (CHR 0x22 # p) m"
  by (cases m) (simp_all add: arr_blank_def js_blank_def)

lemma str_array_loop_join:
  assumes "\<forall>s \<in> set xs. CHR 0x22 \<notin> set s"
  shows "str_array_loop (join '','' (map jquote xs) @ CHR '']'' # r) m = take m (map (take 63) xs)"
  using assms
proof (induction xs arbitrary: m)
  case Nil
  then show ?case by (cases m) simp_all
next
  case (Cons x xs)
  define rest where "rest = (if xs = [] then [] else CHR '','' # join '','' (map jquote xs)) @ CHR '']'' # r"
  have j: "join '','' (map jquote (x # xs)) @ CHR '']'' # r = CHR 0x22 # x @ CHR 0x22 # rest"
    by (cases xs) (simp_all add: rest_def jquote_def)
  have s: "str_array_loop rest m = str_array_loop (join '','' (map jquote xs) @ CHR '']'' # r) m" for m
  proof (cases xs)
    case (Cons y ys)
    then show ?thesis by (cases ys) (simp_all add: rest_def jquote_def str_array_loop_skip)
  qed (simp add: rest_def)
  show ?case
    using Cons.prems Cons.IH unfolding j
    by (cases m) (simp_all add: s arr_blank_def js_blank_def strchr_quote takeWhile_quote)
qed

lemma str_array_jobject:
  assumes "list_all jfield_ok fs" and "map_of fs key = Some (JStrs xs)"
  shows "\<exists>a. htsn_json_get_root_array (jobject fs) key = Some (Some a) \<and>
    (\<forall>n. htsn_json_parse_str_array a n = take (nat n) (map (take 63) xs))"
proof -
  obtain d t where p: "probe_value (jobject fs) key = Some (Some (jtext (JStrs xs) @ d # t))" by (rule probe_jobject_found [OF assms])
  have "\<forall>s \<in> set xs. CHR 0x22 \<notin> set s" using jfield_ok_map_of [OF assms] by simp
  from str_array_loop_join [OF this] p show ?thesis
    by (simp add: htsn_json_get_root_array_def htsn_json_parse_str_array_def)
qed

lemma gcl_step:
  assumes "in_i32 g" and "in_i64 u"
  shows "gcl_loop (jgate (g, u) @ r) (Suc m) = map_option (\<lambda>es. (Some g, Some u) # es) (gcl_loop r m)"
proof -
  define q where "q = js_member (''gate_state'', dec_int g) @ CHR '','' # js_member (''duration_ns'', dec_int u) @ CHR ''}'' # r"
  have j: "jgate (g, u) @ r = CHR ''{'' # q" by (simp add: jgate_def js_object_def q_def)
  have start: "dropWhile js_blank (dec_int i @ d # t) = dec_int i @ d # t" for i d t
    by (cases rule: dec_int_Cons [of i]) simp
  have e: "obj_end (CHR '','')" "obj_end (CHR ''}'')" by (simp_all add: obj_end_def)
  have "probe_value q ''gate_state'' = Some (Some (dec_int g @ CHR '','' # js_member (''duration_ns'', dec_int u) @ CHR ''}'' # r))"
    unfolding q_def by (subst probe_value_member) (simp_all add: start)
  from get_int_at [OF this assms(1)] have a: "htsn_json_get_int q ''gate_state'' = Some (True, Some g)" using e by simp
  have "probe_value q ''duration_ns'' = probe_value (js_member (''duration_ns'', dec_int u) @ CHR ''}'' # r) ''duration_ns''"
    unfolding q_def using json_skip_jtext [of "JInt g", OF _ e(1)] assms(1) by (subst probe_value_member) (simp_all add: start in_i32_i64)
  also have "\<dots> = Some (Some (dec_int u @ CHR ''}'' # r))" by (subst probe_value_member) (simp_all add: start)
  finally have b: "htsn_json_get_i64 q ''duration_ns'' = Some (True, Some u)" using get_i64_at assms(2) e by simp
  have n: "CHR ''}'' \<notin> set (dec_int i)" for i using dec_int_not_end [of "CHR ''}''" i] by (auto simp: json_plain_end_def)
  have "q = (js_member (''gate_state'', dec_int g) @ CHR '','' # js_member (''duration_ns'', dec_int u)) @ CHR ''}'' # r"
    by (simp add: q_def)
  moreover have "CHR ''}'' \<notin> set (js_member (''gate_state'', dec_int g) @ CHR '','' # js_member (''duration_ns'', dec_int u))"
    using n by (simp add: js_member_def dq_def)
  then have "dropWhile (\<lambda>x. x \<noteq> CHR ''}'')
      ((js_member (''gate_state'', dec_int g) @ CHR '','' # js_member (''duration_ns'', dec_int u)) @ CHR ''}'' # r) = CHR ''}'' # r"
    by (subst dropWhile_append2) auto
  ultimately have c: "strchr q (CHR ''}'') = Some (CHR ''}'' # r)" by (simp only: strchr_def) simp
  have h: "q \<noteq> []" "hd q = CHR 0x22" by (simp_all add: q_def js_member_def dq_def)
  have w: "dropWhile (\<lambda>c. arr_blank c \<or> c = CHR ''{'') (CHR ''{'' # q) = q"
    by (simp add: q_def js_member_def dq_def arr_blank_def js_blank_def)
  show ?thesis unfolding j gcl_loop.simps w Let_def using h by (simp add: a b c)
qed

lemma gcl_loop_skip: "gcl_loop (CHR '','' # CHR ''{'' # p) m = gcl_loop (CHR ''{'' # p) m"
  by (cases m) (simp_all add: arr_blank_def js_blank_def Let_def)

lemma jgate_Cons: "\<exists>p. jgate e = CHR ''{'' # p"
  by (simp add: jgate_def js_object_def)

lemma gcl_loop_join:
  assumes "\<forall>e \<in> set es. in_i32 (fst e) \<and> in_i64 (snd e)"
  shows "gcl_loop (join '','' (map jgate es) @ CHR '']'' # r) m = Some (take m (map (map_prod Some Some) es))"
  using assms
proof (induction es arbitrary: m)
  case Nil
  then show ?case by (cases m) simp_all
next
  case (Cons x xs)
  define rest where "rest = (if xs = [] then [] else CHR '','' # join '','' (map jgate xs)) @ CHR '']'' # r"
  have j: "join '','' (map jgate (x # xs)) @ CHR '']'' # r = jgate (fst x, snd x) @ rest"
    by (cases xs) (simp_all add: rest_def)
  have s: "gcl_loop rest m = gcl_loop (join '','' (map jgate xs) @ CHR '']'' # r) m" for m
  proof (cases xs)
    case (Cons y ys)
    obtain p where "jgate y = CHR ''{'' # p" using jgate_Cons by blast
    then show ?thesis using Cons by (cases ys) (simp_all add: rest_def gcl_loop_skip)
  qed (simp add: rest_def)
  show ?case
    using Cons.prems Cons.IH unfolding j
    by (cases m) (simp_all add: gcl_step [of "fst x" "snd x", unfolded prod.collapse] s map_prod_def case_prod_unfold del: gcl_loop.simps(2))
qed

lemma store_at_Some:
  assumes "length vs \<le> length xs"
  shows "store_at (map Some vs) xs = vs @ drop (length vs) xs"
  using assms by (intro nth_equalityI) (auto simp: store_at_def nth_append)

lemma gcl_jobject:
  assumes "list_all jfield_ok fs" and "map_of fs key = Some (JGcl es)"
  shows "\<exists>a. htsn_json_get_root_array (jobject fs) key = Some (Some a) \<and>
    (\<forall>gates durs n. nat n \<le> length gates \<longrightarrow> nat n \<le> length durs \<longrightarrow>
       htsn_json_parse_gcl a gates durs n =
         Some (length (take (nat n) es), map fst (take (nat n) es) @ drop (length (take (nat n) es)) gates,
           map snd (take (nat n) es) @ drop (length (take (nat n) es)) durs))"
proof -
  obtain d t where p: "probe_value (jobject fs) key = Some (Some (jtext (JGcl es) @ d # t))" by (rule probe_jobject_found [OF assms])
  have "\<forall>e \<in> set es. in_i32 (fst e) \<and> in_i64 (snd e)" using jfield_ok_map_of [OF assms] by simp
  note gl = gcl_loop_join [OF this]
  have "htsn_json_parse_gcl (CHR ''['' # join '','' (map jgate es) @ CHR '']'' # r) gates durs n =
      Some (length (take (nat n) es), map fst (take (nat n) es) @ drop (length (take (nat n) es)) gates,
           map snd (take (nat n) es) @ drop (length (take (nat n) es)) durs)"
    if "nat n \<le> length gates" "nat n \<le> length durs" for gates durs n r
  proof -
    have m: "map fst (take (nat n) (map (map_prod Some Some) es)) = map Some (map fst (take (nat n) es))"
      "map snd (take (nat n) (map (map_prod Some Some) es)) = map Some (map snd (take (nat n) es))"
      by (simp_all add: take_map comp_def)
    have l: "length (map fst (take (nat n) es)) \<le> length gates" "length (map snd (take (nat n) es)) \<le> length durs"
      using that by simp_all
    show ?thesis
      unfolding htsn_json_parse_gcl_def using gl [of r "nat n"] store_at_Some [OF l(1)] store_at_Some [OF l(2)]
      by (simp add: m del: map_map)
  qed
  then show ?thesis using p by (simp add: htsn_json_get_root_array_def)
qed

text \<open>
  C13. The readers of the endpoint return what was printed: in an object of numbers, strings, lists of strings and gate control lists, each
  reader returns the value of the first member with the wanted key (numbers in the range of the type, strings cut to the buffer, as many
  elements as fit), and a key that no member has is reported as missing by every reader, without leaving the text.
\<close>

theorem json_reads_printed:
  assumes "list_all jfield_ok fs"
  shows "case map_of fs key of
      None \<Rightarrow> htsn_json_get_int (jobject fs) key = Some (False, None) \<and> htsn_json_get_i64 (jobject fs) key = Some (False, None) \<and>
        htsn_json_get_str (jobject fs) key sz = Some None \<and> htsn_json_get_root_array (jobject fs) key = Some None
    | Some (JInt i) \<Rightarrow> htsn_json_get_i64 (jobject fs) key = Some (True, Some i) \<and>
        (in_i32 i \<longrightarrow> htsn_json_get_int (jobject fs) key = Some (True, Some i))
    | Some (JStr s) \<Rightarrow> htsn_json_get_str (jobject fs) key sz = Some (Some (take (sz - 1) s))
    | Some (JStrs xs) \<Rightarrow> (\<exists>a. htsn_json_get_root_array (jobject fs) key = Some (Some a) \<and>
        (\<forall>n. htsn_json_parse_str_array a n = take (nat n) (map (take 63) xs)))
    | Some (JGcl es) \<Rightarrow> (\<exists>a. htsn_json_get_root_array (jobject fs) key = Some (Some a) \<and>
        (\<forall>gates durs n. nat n \<le> length gates \<longrightarrow> nat n \<le> length durs \<longrightarrow>
           htsn_json_parse_gcl a gates durs n =
             Some (length (take (nat n) es), map fst (take (nat n) es) @ drop (length (take (nat n) es)) gates,
               map snd (take (nat n) es) @ drop (length (take (nat n) es)) durs)))"
proof (cases "map_of fs key")
  case None
  with get_missing_jobject [OF assms None] show ?thesis by simp
next
  case (Some v)
  show ?thesis
  proof (cases v)
    case (JInt i)
    with Some jfield_ok_map_of [OF assms Some] show ?thesis by (simp add: get_int_jobject [OF assms] get_i64_jobject [OF assms])
  next
    case (JStr s)
    with Some show ?thesis by (simp add: get_str_jobject [OF assms])
  next
    case (JStrs xs)
    with Some show ?thesis using str_array_jobject [OF assms] by simp
  next
    case (JGcl es)
    with Some show ?thesis using gcl_jobject [OF assms] by simp
  qed
qed

definition demo_fields :: "(string \<times> jv) list" where
  "demo_fields = [(''priority'', JInt 5), (''group'', JStr ''a,b''), (''gcl'', JGcl [(1, 500000), (2, 500000)])]"

lemma demo_fields_ok: "list_all jfield_ok demo_fields"
  by (simp add: demo_fields_def jfield_ok_def in_i32_def in_i64_def)

theorem json_reads_printed_witness:
  "htsn_json_get_int (jobject demo_fields) ''priority'' = Some (True, Some 5) \<and>
   htsn_json_get_str (jobject demo_fields) ''group'' 32 = Some (Some ''a,b'') \<and>
   htsn_json_get_int (jobject demo_fields) ''vlan_id'' = Some (False, None)"
  using json_reads_printed [OF demo_fields_ok, where key = "''priority''"] json_reads_printed [OF demo_fields_ok, where key = "''group''" and sz = 32]
    json_reads_printed [OF demo_fields_ok, where key = "''vlan_id''"]
  by (simp add: demo_fields_def in_i32_def)

text \<open>
  With a blank after the object, the search for a missing key steps over the end of the text.
\<close>

lemma probe_blank_end: "js_blank c \<Longrightarrow> probe_value [c] key = None"
  by (simp add: probe_value.simps)

theorem probe_overruns:
  assumes "list_all jfield_ok fs" and "map_of fs key = None"
  shows "probe_value (jobject fs @ [CHR 0x0A]) key = None"
  using probe_value_members [OF assms(1), where key = key and r = "[CHR 0x0A]"] assms(2)
  by (simp add: jobject_members probe_blank_end js_blank_def)

end
