(* ===== verification/Esp_Cfg.thy ===== *)
theory Esp_Cfg
  imports Esp_Json
begin

text \<open>
  The persistent configuration of the ESP32 agent (htsn_cfg.c). The storage library of the vendor is the parameter \<open>N\<close> with the calls the code makes; the locale
  \<open>nvs_flash\<close> states what its documentation promises and is interpreted on a storage that loses uncommitted values on a restart. The lemmas show that
  the list of networks is the list a user expects.
\<close>

section \<open>The non-volatile storage\<close>

text \<open>
  One entry of the list of networks, and the values kept in the namespace \<open>htsn\<close>. A blob is kept as the array that the
  code casts it to: entries of 98 bytes for networks, numbers for gate control lists.
\<close>

record net_entry =
  ne_ssid :: string
  ne_pass :: string

datatype nvs_val = NI32 int | NI64 int | NStr string | NNets "net_entry list" | NNums "int list"

text \<open>
  The calls of the storage library (ESP-IDF): opening for reading (whether the namespace exists) and for writing (\<open>None\<close> on an error), reading and
  writing a key, erasing, \<open>nvs_commit\<close> with its success, and what a restart of the chip leaves.
\<close>

record 'n nvs =
  nvs_open_ro :: "'n \<Rightarrow> bool"
  nvs_open_rw :: "'n \<Rightarrow> 'n option"
  nvs_get :: "'n \<Rightarrow> string \<Rightarrow> nvs_val option"
  nvs_set :: "'n \<Rightarrow> string \<Rightarrow> nvs_val \<Rightarrow> 'n"
  nvs_erase_key :: "'n \<Rightarrow> string \<Rightarrow> 'n"
  nvs_erase_all :: "'n \<Rightarrow> 'n"
  nvs_commit :: "'n \<Rightarrow> bool \<times> 'n"
  nvs_restart :: "'n \<Rightarrow> 'n"

text \<open>Typed reads; a string has to fit the buffer with its terminating character.\<close>

definition nvs_get_i32 :: "'n nvs \<Rightarrow> string \<Rightarrow> 'n \<Rightarrow> int option" where
  "nvs_get_i32 N key n = (case nvs_get N n key of Some (NI32 i) \<Rightarrow> Some i | _ \<Rightarrow> None)"

definition nvs_get_i64 :: "'n nvs \<Rightarrow> string \<Rightarrow> 'n \<Rightarrow> int option" where
  "nvs_get_i64 N key n = (case nvs_get N n key of Some (NI64 i) \<Rightarrow> Some i | _ \<Rightarrow> None)"

definition nvs_get_str :: "'n nvs \<Rightarrow> string \<Rightarrow> nat \<Rightarrow> 'n \<Rightarrow> string option" where
  "nvs_get_str N key sz n = (case nvs_get N n key of Some (NStr s) \<Rightarrow> if length s < sz then Some s else None | _ \<Rightarrow> None)"

definition nvs_get_nets :: "'n nvs \<Rightarrow> string \<Rightarrow> 'n \<Rightarrow> net_entry list option" where
  "nvs_get_nets N key n = (case nvs_get N n key of Some (NNets l) \<Rightarrow> Some l | _ \<Rightarrow> None)"

definition nvs_get_nums :: "'n nvs \<Rightarrow> string \<Rightarrow> nat \<Rightarrow> 'n \<Rightarrow> int list option" where
  "nvs_get_nums N key len n = (case nvs_get N n key of Some (NNums l) \<Rightarrow> if length l \<le> len then Some l else None | _ \<Rightarrow> None)"

section \<open>Single values\<close>

definition htsn_nvs_get_str :: "'n nvs \<Rightarrow> string \<Rightarrow> nat \<Rightarrow> string \<Rightarrow> 'n \<Rightarrow> bool \<times> string" where
  "htsn_nvs_get_str N key sz dflt n =
     (if \<not> nvs_open_ro N n then (False, cpy sz (Some dflt))
      else (case nvs_get_str N key sz n of None \<Rightarrow> (False, cpy sz (Some dflt)) | Some s \<Rightarrow> (True, s)))"

definition htsn_nvs_get_int :: "'n nvs \<Rightarrow> string \<Rightarrow> int \<Rightarrow> 'n \<Rightarrow> int" where
  "htsn_nvs_get_int N key dflt n =
     (if \<not> nvs_open_ro N n then dflt else (case nvs_get_i32 N key n of Some v \<Rightarrow> v | None \<Rightarrow> dflt))"

definition nvs_put :: "'n nvs \<Rightarrow> string \<Rightarrow> nvs_val \<Rightarrow> 'n \<Rightarrow> 'n" where
  "nvs_put N key v n = (case nvs_open_rw N n of None \<Rightarrow> n | Some h \<Rightarrow> snd (nvs_commit N (nvs_set N h key v)))"

definition htsn_nvs_set_str :: "'n nvs \<Rightarrow> string \<Rightarrow> string \<Rightarrow> 'n \<Rightarrow> 'n" where
  "htsn_nvs_set_str N key val = nvs_put N key (NStr val)"

definition htsn_nvs_set_int :: "'n nvs \<Rightarrow> string \<Rightarrow> int \<Rightarrow> 'n \<Rightarrow> 'n" where
  "htsn_nvs_set_int N key val = nvs_put N key (NI32 val)"

definition set_opt :: "'n nvs \<Rightarrow> string \<Rightarrow> string option \<Rightarrow> 'n \<Rightarrow> 'n" where
  "set_opt N key val n = (case val of None \<Rightarrow> n | Some s \<Rightarrow> htsn_nvs_set_str N key s n)"

definition htsn_cfg_set_device_id :: "'n nvs \<Rightarrow> string option \<Rightarrow> 'n \<Rightarrow> 'n" where
  "htsn_cfg_set_device_id N device_id = set_opt N ''device_id'' device_id"

text \<open>The result, and what is stored in \<open>out\<close> (nothing when the key is missing or too long).\<close>

definition htsn_cfg_load_device_id :: "'n nvs \<Rightarrow> nat \<Rightarrow> 'n \<Rightarrow> bool \<times> string option" where
  "htsn_cfg_load_device_id N sz n =
     (if \<not> nvs_open_ro N n then (False, None)
      else (case nvs_get_str N ''device_id'' sz n of None \<Rightarrow> (False, None) | Some s \<Rightarrow> (s \<noteq> [], Some s)))"

text \<open>The buffers of \<open>htsn_cfg_load\<close>; \<open>device_id\<close> may be a null pointer.\<close>

record net_cfg =
  nc_device_id :: "string option"
  nc_ssid :: string
  nc_pass :: string
  nc_host :: string
  nc_port :: int

definition htsn_cfg_load :: "'n nvs \<Rightarrow> nat \<Rightarrow> nat \<Rightarrow> nat \<Rightarrow> nat \<Rightarrow> 'n \<Rightarrow> net_cfg \<Rightarrow> bool \<times> net_cfg" where
  "htsn_cfg_load N id_sz ssid_sz pass_sz host_sz n c =
     (let c1 = (if id_sz = 0 then c else c\<lparr>nc_device_id := map_option (\<lambda>_. []) (nc_device_id c)\<rparr>)
      in if \<not> nvs_open_ro N n then (False, c1)
         else
           (let i = htsn_nvs_get_str N ''device_id'' 32 [] n;
                c2 = (if id_sz = 0 \<or> \<not> fst i then c1 else c1\<lparr>nc_device_id := map_option (\<lambda>_. cpy id_sz (Some (snd i))) (nc_device_id c1)\<rparr>);
                h = htsn_nvs_get_str N ''mqtt_host'' host_sz [] n
            in (True, c2\<lparr>nc_ssid := snd (htsn_nvs_get_str N ''wifi_ssid'' ssid_sz [] n),
                  nc_pass := snd (htsn_nvs_get_str N ''wifi_pass'' pass_sz [] n),
                  nc_host := (if \<not> fst h \<or> snd h = [] then cpy host_sz (Some ''htsn-broker.local'') else snd h),
                  nc_port := htsn_nvs_get_int N ''mqtt_port'' 1883 n\<rparr>)))"

definition htsn_cfg_save ::
  "'n nvs \<Rightarrow> string option \<Rightarrow> string option \<Rightarrow> string option \<Rightarrow> string option \<Rightarrow> int \<Rightarrow> 'n \<Rightarrow> 'n" where
  "htsn_cfg_save N device_id wifi_ssid wifi_pass mqtt_host mqtt_port n =
     htsn_nvs_set_int N ''mqtt_port'' mqtt_port
       (set_opt N ''mqtt_host'' mqtt_host (set_opt N ''wifi_pass'' wifi_pass (set_opt N ''wifi_ssid'' wifi_ssid (set_opt N ''device_id'' device_id n))))"

record broker_auth =
  ba_user :: string
  ba_pass :: string
  ba_tls :: bool
  ba_tls_ca :: string
  ba_insecure :: bool

definition htsn_cfg_get_broker_auth :: "'n nvs \<Rightarrow> nat \<Rightarrow> nat \<Rightarrow> nat \<Rightarrow> 'n \<Rightarrow> broker_auth" where
  "htsn_cfg_get_broker_auth N user_sz pass_sz ca_sz n =
     \<lparr>ba_user = snd (htsn_nvs_get_str N ''muser'' user_sz [] n), ba_pass = snd (htsn_nvs_get_str N ''mpass'' pass_sz [] n),
      ba_tls = (htsn_nvs_get_int N ''mtls'' 0 n \<noteq> 0), ba_tls_ca = snd (htsn_nvs_get_str N ''mtls_ca'' ca_sz [] n),
      ba_insecure = (htsn_nvs_get_int N ''minsec'' 0 n \<noteq> 0)\<rparr>"

definition htsn_cfg_set_broker_auth ::
  "'n nvs \<Rightarrow> string option \<Rightarrow> string option \<Rightarrow> bool \<Rightarrow> string option \<Rightarrow> bool \<Rightarrow> 'n \<Rightarrow> 'n" where
  "htsn_cfg_set_broker_auth N user pass tls tls_ca insecure n =
     htsn_nvs_set_int N ''minsec'' (if insecure then 1 else 0) (htsn_nvs_set_int N ''mtls'' (if tls then 1 else 0)
       (set_opt N ''mtls_ca'' tls_ca (set_opt N ''mpass'' pass (set_opt N ''muser'' user n))))"

definition htsn_cfg_set_wifi :: "'n nvs \<Rightarrow> string option \<Rightarrow> string option \<Rightarrow> 'n \<Rightarrow> 'n" where
  "htsn_cfg_set_wifi N ssid pass n = set_opt N ''wifi_pass'' pass (set_opt N ''wifi_ssid'' ssid n)"

definition htsn_cfg_get_wifi_pass :: "'n nvs \<Rightarrow> nat \<Rightarrow> 'n \<Rightarrow> bool \<times> string" where
  "htsn_cfg_get_wifi_pass N sz n = (if sz = 0 then (False, []) else htsn_nvs_get_str N ''wifi_pass'' sz [] n)"

section \<open>The list of networks\<close>

definition HTSN_NET_MAX :: nat where "HTSN_NET_MAX = 10"

definition no_net :: net_entry where
  "no_net = \<lparr>ne_ssid = [], ne_pass = []\<rparr>"

definition htsn_cfg_net_count :: "'n nvs \<Rightarrow> 'n \<Rightarrow> nat" where
  "htsn_cfg_net_count N n =
     (if \<not> nvs_open_ro N n then 0
      else (case nvs_get_nets N ''net_list'' n of None \<Rightarrow> 0 | Some l \<Rightarrow> min (length l) HTSN_NET_MAX))"

text \<open>The blob of \<open>HTSN_NET_MAX\<close> entries, zeroed behind what was read; a longer stored blob is not read.\<close>

definition net_load_blob :: "'n nvs \<Rightarrow> 'n \<Rightarrow> net_entry list" where
  "net_load_blob N n =
     (if \<not> nvs_open_ro N n then replicate HTSN_NET_MAX no_net
      else (case nvs_get_nets N ''net_list'' n of
              None \<Rightarrow> replicate HTSN_NET_MAX no_net
            | Some l \<Rightarrow> if length l \<le> HTSN_NET_MAX then l @ replicate (HTSN_NET_MAX - length l) no_net else replicate HTSN_NET_MAX no_net))"

definition net_save_blob :: "'n nvs \<Rightarrow> net_entry list \<Rightarrow> nat \<Rightarrow> 'n \<Rightarrow> 'n" where
  "net_save_blob N blob cnt n =
     (case nvs_open_rw N n of
        None \<Rightarrow> n
      | Some h \<Rightarrow> snd (nvs_commit N (if cnt = 0 then nvs_erase_key N h ''net_list'' else nvs_set N h ''net_list'' (NNets (take cnt blob)))))"

definition htsn_cfg_net_get :: "'n nvs \<Rightarrow> int \<Rightarrow> nat \<Rightarrow> nat \<Rightarrow> 'n \<Rightarrow> (bool \<times> string \<times> string) option" where
  "htsn_cfg_net_get N idx ssid_sz pass_sz n =
     (if idx < 0 \<or> idx \<ge> int (htsn_cfg_net_count N n) then None
      else (let e = net_load_blob N n ! nat idx
            in Some (ne_ssid e \<noteq> [], cpy ssid_sz (Some (ne_ssid e)), cpy pass_sz (Some (ne_pass e)))))"

definition htsn_cfg_net_add :: "'n nvs \<Rightarrow> string option \<Rightarrow> string option \<Rightarrow> 'n \<Rightarrow> bool \<times> 'n" where
  "htsn_cfg_net_add N ssido pass n0 =
     (case ssido of
        None \<Rightarrow> (False, n0)
      | Some ssid \<Rightarrow>
          if ssid = [] then (False, n0)
          else
            (let n = htsn_nvs_set_str N ''wifi_ssid'' ssid (set_opt N ''wifi_pass'' pass n0);
                 cnt = htsn_cfg_net_count N n;
                 blob = net_load_blob N n;
                 pw = cpy 65 (Some (case pass of Some p \<Rightarrow> p | None \<Rightarrow> []))
             in case find_idx (\<lambda>e. ne_ssid e = ssid) (take cnt blob) of
                  Some i \<Rightarrow> (False, net_save_blob N (blob[i := (blob ! i)\<lparr>ne_pass := pw\<rparr>]) cnt n)
                | None \<Rightarrow>
                    (let (blob1, c) = (if cnt \<ge> HTSN_NET_MAX then (tl blob @ [last blob], HTSN_NET_MAX - 1) else (blob, cnt))
                     in (True, net_save_blob N (blob1[c := \<lparr>ne_ssid = cpy 33 (Some ssid), ne_pass = pw\<rparr>]) (c + 1) n))))"

text \<open>Entries in front of the ones removed move down; the tail of the array is not saved.\<close>

definition htsn_cfg_net_remove :: "'n nvs \<Rightarrow> string option \<Rightarrow> 'n \<Rightarrow> 'n" where
  "htsn_cfg_net_remove N ssido n =
     (case ssido of
        None \<Rightarrow> n
      | Some ssid \<Rightarrow>
          if ssid = [] then n
          else
            (let cnt = htsn_cfg_net_count N n
             in if cnt = 0 then n
                else
                  (let kept = filter (\<lambda>e. ne_ssid e \<noteq> ssid) (take cnt (net_load_blob N n))
                   in net_save_blob N (kept @ drop (length kept) (net_load_blob N n)) (length kept) n)))"

definition htsn_cfg_net_clear :: "'n nvs \<Rightarrow> 'n \<Rightarrow> 'n" where
  "htsn_cfg_net_clear N n = net_save_blob N [] 0 n"

section \<open>The applied configuration\<close>

definition HTSN_GCL_MAX :: nat where "HTSN_GCL_MAX = 32"

record tsn_saved =
  sv_priority :: int
  sv_traffic_class :: int
  sv_vlan_id :: int
  sv_preemption :: int
  sv_timesync_mode :: int
  sv_tas_cycle_ns :: int
  sv_gates :: "int list"
  sv_durations :: "int list"
  sv_gcl_entries :: int

definition pad_entries :: "int \<Rightarrow> int list \<Rightarrow> int list" where
  "pad_entries entries xs = map (\<lambda>i. if int i < entries then xs ! i else 0) [0..<HTSN_GCL_MAX]"

definition htsn_cfg_save_tsn_state ::
  "'n nvs \<Rightarrow> int \<Rightarrow> int \<Rightarrow> int \<Rightarrow> int \<Rightarrow> int \<Rightarrow> int \<Rightarrow> int list option \<Rightarrow> int list option \<Rightarrow> int \<Rightarrow> 'n \<Rightarrow> bool \<times> 'n" where
  "htsn_cfg_save_tsn_state N priority traffic_class vlan_id preemption timesync_mode tas_cycle_ns gates durations entries n =
     (case nvs_open_rw N n of
        None \<Rightarrow> (False, n)
      | Some h0 \<Rightarrow>
          (let h1 = nvs_set N h0 ''tsn_prio'' (NI32 priority); h2 = nvs_set N h1 ''tsn_tc'' (NI32 traffic_class);
               h3 = nvs_set N h2 ''tsn_vlan'' (NI32 vlan_id); h4 = nvs_set N h3 ''tsn_pre'' (NI32 preemption);
               h5 = nvs_set N h4 ''tsn_tmode'' (NI32 timesync_mode); h6 = nvs_set N h5 ''tsn_cycle'' (NI64 tas_cycle_ns);
               h7 = nvs_set N h6 ''tsn_gcl_cnt'' (NI32 entries);
               h8 = (case (gates, durations) of
                       (Some g, Some d) \<Rightarrow>
                         if entries > 0
                         then nvs_set N (nvs_set N h7 ''tsn_gates'' (NNums (pad_entries entries g))) ''tsn_durs'' (NNums (pad_entries entries d))
                         else h7
                     | _ \<Rightarrow> h7)
           in nvs_commit N h8))"

text \<open>The outputs are the ones given in \<open>s\<close> where nothing is read; of the two arrays the first \<open>cnt\<close> elements are stored.\<close>

definition opt_get :: "'a option \<Rightarrow> 'a \<Rightarrow> 'a" where
  "opt_get v x = (case v of Some y \<Rightarrow> y | None \<Rightarrow> x)"

definition htsn_cfg_load_tsn_state :: "'n nvs \<Rightarrow> 'n \<Rightarrow> tsn_saved \<Rightarrow> bool \<times> tsn_saved" where
  "htsn_cfg_load_tsn_state N n s =
     (if \<not> nvs_open_ro N n then (False, s)
      else
        (let s1 = s\<lparr>sv_priority := opt_get (nvs_get_i32 N ''tsn_prio'' n) (sv_priority s),
                sv_traffic_class := opt_get (nvs_get_i32 N ''tsn_tc'' n) (sv_traffic_class s),
                sv_vlan_id := opt_get (nvs_get_i32 N ''tsn_vlan'' n) (sv_vlan_id s),
                sv_preemption := opt_get (nvs_get_i32 N ''tsn_pre'' n) (sv_preemption s),
                sv_timesync_mode := opt_get (nvs_get_i32 N ''tsn_tmode'' n) (sv_timesync_mode s),
                sv_tas_cycle_ns := opt_get (nvs_get_i64 N ''tsn_cycle'' n) (sv_tas_cycle_ns s)\<rparr>;
             s2 = (case nvs_get_i32 N ''tsn_gcl_cnt'' n of
                     None \<Rightarrow> s1
                   | Some cnt \<Rightarrow>
                       if cnt > 0 \<and> cnt \<le> int HTSN_GCL_MAX
                       then (case (nvs_get_nums N ''tsn_gates'' HTSN_GCL_MAX n, nvs_get_nums N ''tsn_durs'' HTSN_GCL_MAX n) of
                               (Some g, Some d) \<Rightarrow>
                                 s1\<lparr>sv_gates := take (nat cnt) g @ drop (nat cnt) (sv_gates s1),
                                   sv_durations := take (nat cnt) d @ drop (nat cnt) (sv_durations s1), sv_gcl_entries := cnt\<rparr>
                             | _ \<Rightarrow> s1)
                       else s1)
         in (nvs_get_i32 N ''tsn_prio'' n \<noteq> None, s2)))"

section \<open>The contract of the storage\<close>

text \<open>
  The documented behaviour of a partition that has room: a namespace that was never written reads as empty, a write is
  seen by the reads that follow, and what was committed survives a restart. \<open>flash\<close> is what a restart would find; between a write and its
  commit nothing is known of it.
\<close>

locale nvs_flash =
  fixes N :: "'n nvs" and flash :: "'n \<Rightarrow> string \<Rightarrow> nvs_val option"
  assumes absent: "nvs_open_ro N n \<or> nvs_get N n = (\<lambda>_. None)"
    and opens: "\<exists>h. nvs_open_rw N n = Some h \<and> nvs_get N h = nvs_get N n"
    and get_set: "nvs_get N (nvs_set N n key v) = (nvs_get N n)(key \<mapsto> v)"
    and get_erase: "nvs_get N (nvs_erase_key N n key) = (nvs_get N n)(key := None)"
    and get_erase_all: "nvs_get N (nvs_erase_all N n) = (\<lambda>_. None)"
    and commit_ok: "fst (nvs_commit N n)"
    and get_commit: "nvs_get N (snd (nvs_commit N n)) = nvs_get N n"
    and flash_commit: "flash (snd (nvs_commit N n)) = nvs_get N n"
    and get_restart: "nvs_get N (nvs_restart N n) = flash n"
    and flash_restart: "flash (nvs_restart N n) = flash n"
begin

definition settled :: "'n \<Rightarrow> bool" where
  "settled n \<longleftrightarrow> flash n = nvs_get N n"

lemma settled_restart: "settled (nvs_restart N n)"
  by (simp add: settled_def get_restart flash_restart)

lemma restart_settled: "settled n \<Longrightarrow> nvs_get N (nvs_restart N n) = nvs_get N n"
  by (simp add: settled_def get_restart)

lemma open_rw_cases: obtains h where "nvs_open_rw N n = Some h" and "nvs_get N h = nvs_get N n"
  using opens [of n] by blast

lemma get_put: "nvs_get N (nvs_put N key v n) = (nvs_get N n)(key \<mapsto> v)"
proof -
  obtain h where "nvs_open_rw N n = Some h" "nvs_get N h = nvs_get N n" by (rule open_rw_cases)
  then show ?thesis by (simp add: nvs_put_def get_commit get_set)
qed

lemma settled_put: "settled (nvs_put N key v n)"
proof -
  obtain h where "nvs_open_rw N n = Some h" by (rule open_rw_cases)
  then show ?thesis by (simp add: nvs_put_def settled_def get_commit flash_commit)
qed

lemma get_set_opt: "nvs_get N (set_opt N key vo n) = (case vo of None \<Rightarrow> nvs_get N n | Some v \<Rightarrow> (nvs_get N n)(key \<mapsto> NStr v))"
  by (simp add: set_opt_def htsn_nvs_set_str_def get_put split: option.split)

lemma not_ro: "\<not> nvs_open_ro N n \<Longrightarrow> nvs_get N n = (\<lambda>_. None)"
  using absent [of n] by blast

lemma get_str_simp:
  "htsn_nvs_get_str N key sz dflt n =
     (case nvs_get N n key of
        Some (NStr s) \<Rightarrow> if length s < sz then (True, s) else (False, cpy sz (Some dflt))
      | _ \<Rightarrow> (False, cpy sz (Some dflt)))"
  by (auto simp: htsn_nvs_get_str_def nvs_get_str_def not_ro split: option.split nvs_val.split)

text \<open>The list of networks as a list.\<close>

definition nets :: "'n \<Rightarrow> net_entry list" where
  "nets n = (case nvs_get_nets N ''net_list'' n of Some l \<Rightarrow> l | None \<Rightarrow> [])"

lemma nets_cong: "nvs_get N n ''net_list'' = nvs_get N m ''net_list'' \<Longrightarrow> nets n = nets m"
  by (simp add: nets_def nvs_get_nets_def)

lemma net_count_nets: "length (nets n) \<le> HTSN_NET_MAX \<Longrightarrow> htsn_cfg_net_count N n = length (nets n)"
  by (cases "nvs_open_ro N n") (auto simp: htsn_cfg_net_count_def nets_def nvs_get_nets_def not_ro split: option.split nvs_val.split)

lemma load_blob_nets: "length (nets n) \<le> HTSN_NET_MAX \<Longrightarrow> net_load_blob N n = nets n @ replicate (HTSN_NET_MAX - length (nets n)) no_net"
  by (cases "nvs_open_ro N n") (auto simp: net_load_blob_def nets_def nvs_get_nets_def not_ro split: option.split nvs_val.split)

lemma save_blob:
  "nets (net_save_blob N blob cnt n) = take cnt blob" "settled (net_save_blob N blob cnt n)"
  "key \<noteq> ''net_list'' \<Longrightarrow> nvs_get N (net_save_blob N blob cnt n) key = nvs_get N n key"
proof -
  obtain h where h: "nvs_open_rw N n = Some h" "nvs_get N h = nvs_get N n" by (rule open_rw_cases)
  show "nets (net_save_blob N blob cnt n) = take cnt blob"
    using h by (simp add: net_save_blob_def nets_def nvs_get_nets_def get_commit get_set get_erase)
  show "settled (net_save_blob N blob cnt n)"
    using h by (simp add: net_save_blob_def settled_def get_commit flash_commit)
  show "nvs_get N (net_save_blob N blob cnt n) key = nvs_get N n key" if "key \<noteq> ''net_list''"
    using h that by (simp add: net_save_blob_def get_commit get_set get_erase)
qed

end

section \<open>Adding and removing networks\<close>

text \<open>
  The list a user would expect: a known network gets the new password in its place, a new one goes to the end, and the oldest leaves when ten are known.
\<close>

definition spec_net_add :: "string \<Rightarrow> string \<Rightarrow> net_entry list \<Rightarrow> net_entry list" where
  "spec_net_add ssid pass l =
     (if ssid \<in> ne_ssid ` set l then map (\<lambda>e. if ne_ssid e = ssid then e\<lparr>ne_pass := pass\<rparr> else e) l
      else (if length l \<ge> HTSN_NET_MAX then tl l else l) @ [\<lparr>ne_ssid = ssid, ne_pass = pass\<rparr>])"

definition nets_ok :: "net_entry list \<Rightarrow> bool" where
  "nets_ok l \<longleftrightarrow> length l \<le> HTSN_NET_MAX \<and> distinct (map ne_ssid l) \<and> list_all (\<lambda>e. ne_ssid e \<noteq> [] \<and> fits 33 (ne_ssid e) \<and> fits 65 (ne_pass e)) l"

datatype net_op = NetAdd string string | NetRemove string | NetClear | NetRestart

definition net_op_ok :: "net_op \<Rightarrow> bool" where
  "net_op_ok op = (case op of NetAdd s p \<Rightarrow> s \<noteq> [] \<and> fits 33 s \<and> fits 65 p | NetRemove s \<Rightarrow> s \<noteq> [] | _ \<Rightarrow> True)"

definition net_apply :: "'n nvs \<Rightarrow> net_op \<Rightarrow> 'n \<Rightarrow> 'n" where
  "net_apply N op n =
     (case op of
        NetAdd s p \<Rightarrow> snd (htsn_cfg_net_add N (Some s) (Some p) n)
      | NetRemove s \<Rightarrow> htsn_cfg_net_remove N (Some s) n
      | NetClear \<Rightarrow> htsn_cfg_net_clear N n
      | NetRestart \<Rightarrow> nvs_restart N n)"

definition net_spec :: "net_op \<Rightarrow> net_entry list \<Rightarrow> net_entry list" where
  "net_spec op l =
     (case op of
        NetAdd s p \<Rightarrow> spec_net_add s p l
      | NetRemove s \<Rightarrow> filter (\<lambda>e. ne_ssid e \<noteq> s) l
      | NetClear \<Rightarrow> []
      | NetRestart \<Rightarrow> l)"

lemma map_ssid_upd: "map ne_ssid (map (\<lambda>e. if ne_ssid e = s then e\<lparr>ne_pass := p\<rparr> else e) l) = map ne_ssid l"
  by (induction l) auto

lemma distinct_upd:
  assumes "distinct (map f l)" and "find_idx (\<lambda>e. f e = s) l = Some i"
  shows "l[i := g (l ! i)] = map (\<lambda>e. if f e = s then g e else e) l"
  using assms
proof (induction l arbitrary: i)
  case (Cons x l)
  show ?case
  proof (cases "f x = s")
    case True
    then have "map (\<lambda>e. if f e = s then g e else e) l = l" using Cons.prems by (intro map_idI) (auto simp: image_iff)
    then show ?thesis using True Cons.prems by simp
  qed (use Cons in auto)
qed simp

lemma nets_ok_spec: "nets_ok l \<Longrightarrow> net_op_ok op \<Longrightarrow> nets_ok (net_spec op l)"
proof (cases op)
  case (NetAdd s p)
  assume a: "nets_ok l" "net_op_ok op"
  show ?thesis
  proof (cases "s \<in> ne_ssid ` set l")
    case True
    then show ?thesis
      using a NetAdd by (auto simp: nets_ok_def net_spec_def spec_net_add_def net_op_ok_def list_all_iff map_ssid_upd simp del: map_map)
  next
    case False
    have t: "\<forall>e \<in> set (tl l). e \<in> set l" by (cases l) auto
    moreover have "distinct (map ne_ssid (tl l))" "s \<notin> ne_ssid ` set (tl l)"
      using a(1) False t by (auto simp: nets_ok_def map_tl distinct_tl image_iff)
    ultimately show ?thesis
      using a NetAdd False by (auto simp: nets_ok_def net_spec_def spec_net_add_def net_op_ok_def list_all_iff HTSN_NET_MAX_def)
  qed
next
  case (NetRemove s)
  assume "nets_ok l"
  then have "length (filter (\<lambda>e. ne_ssid e \<noteq> s) l) \<le> HTSN_NET_MAX"
    by (intro le_trans [OF length_filter_le]) (simp add: nets_ok_def)
  then show ?thesis using NetRemove \<open>nets_ok l\<close> by (simp add: nets_ok_def net_spec_def list_all_iff distinct_map_filter)
qed (simp_all add: net_spec_def, simp add: nets_ok_def)

context nvs_flash
begin

lemma net_add_ref:
  assumes "nets_ok (nets n)" and "s \<noteq> []" and "fits 33 s" and "fits 65 p"
  shows "nets (snd (htsn_cfg_net_add N (Some s) (Some p) n)) = spec_net_add s p (nets n)"
    and "settled (snd (htsn_cfg_net_add N (Some s) (Some p) n))"
    and "fst (htsn_cfg_net_add N (Some s) (Some p) n) \<longleftrightarrow> s \<notin> ne_ssid ` set (nets n)"
proof -
  define m where "m = htsn_nvs_set_str N ''wifi_ssid'' s (set_opt N ''wifi_pass'' (Some p) n)"
  have nm: "nets m = nets n" by (rule nets_cong) (simp add: m_def htsn_nvs_set_str_def get_put get_set_opt)
  have len: "length (nets n) \<le> 10" using assms(1) by (simp add: nets_ok_def HTSN_NET_MAX_def)
  have cnt: "htsn_cfg_net_count N m = length (nets n)" and blob: "net_load_blob N m = nets n @ replicate (10 - length (nets n)) no_net"
    using net_count_nets [of m] load_blob_nets [of m] len by (simp_all add: nm HTSN_NET_MAX_def)
  note un = htsn_cfg_net_add_def m_def [symmetric] cnt blob
  have "nets (snd (htsn_cfg_net_add N (Some s) (Some p) n)) = spec_net_add s p (nets n) \<and>
    settled (snd (htsn_cfg_net_add N (Some s) (Some p) n)) \<and>
    (fst (htsn_cfg_net_add N (Some s) (Some p) n) \<longleftrightarrow> s \<notin> ne_ssid ` set (nets n))"
  proof (cases "find_idx (\<lambda>e. ne_ssid e = s) (nets n)")
    case None
    then have "s \<notin> ne_ssid ` set (nets n)" by (auto simp: find_idx_None_iff)
    then show ?thesis
      using None assms(2-4) len
      by (cases "10 - length (nets n)")
         (auto simp: un Let_def save_blob spec_net_add_def HTSN_NET_MAX_def list_update_append take_append butlast_append)
  next
    case (Some i)
    then have i: "i < length (nets n)" "s \<in> ne_ssid ` set (nets n)" by (auto dest!: find_idx_SomeD simp: image_iff)
    have "(nets n)[i := (nets n ! i)\<lparr>ne_pass := p\<rparr>] = map (\<lambda>e. if ne_ssid e = s then e\<lparr>ne_pass := p\<rparr> else e) (nets n)"
      using assms(1) by (intro distinct_upd [OF _ Some]) (simp add: nets_ok_def)
    then show ?thesis
      using Some assms(2-4) i by (simp add: un Let_def save_blob spec_net_add_def list_update_append nth_append)
  qed
  then show "nets (snd (htsn_cfg_net_add N (Some s) (Some p) n)) = spec_net_add s p (nets n)"
    and "settled (snd (htsn_cfg_net_add N (Some s) (Some p) n))"
    and "fst (htsn_cfg_net_add N (Some s) (Some p) n) \<longleftrightarrow> s \<notin> ne_ssid ` set (nets n)" by simp_all
qed

lemma net_remove_ref:
  assumes "nets_ok (nets n)" and "s \<noteq> []" and "settled n"
  shows "nets (htsn_cfg_net_remove N (Some s) n) = filter (\<lambda>e. ne_ssid e \<noteq> s) (nets n)" "settled (htsn_cfg_net_remove N (Some s) n)"
proof -
  have len: "length (nets n) \<le> 10" using assms(1) by (simp add: nets_ok_def HTSN_NET_MAX_def)
  have c: "htsn_cfg_net_count N n = length (nets n)" and b: "net_load_blob N n = nets n @ replicate (10 - length (nets n)) no_net"
    using net_count_nets [of n] load_blob_nets [of n] len by (simp_all add: HTSN_NET_MAX_def)
  show "nets (htsn_cfg_net_remove N (Some s) n) = filter (\<lambda>e. ne_ssid e \<noteq> s) (nets n)"
    using assms(2) by (auto simp: htsn_cfg_net_remove_def c b Let_def save_blob)
  show "settled (htsn_cfg_net_remove N (Some s) n)"
    using assms(2,3) by (simp add: htsn_cfg_net_remove_def c Let_def save_blob)
qed

lemma net_apply_ref:
  assumes "nets_ok (nets n)" and "settled n" and "net_op_ok op"
  shows "nets (net_apply N op n) = net_spec op (nets n) \<and> settled (net_apply N op n)"
proof (cases op)
  case NetRestart
  have "nets (nvs_restart N n) = nets n" by (rule nets_cong) (simp add: restart_settled [OF assms(2)])
  then show ?thesis using NetRestart by (simp add: net_apply_def net_spec_def settled_restart)
qed (use assms in \<open>simp_all add: net_apply_def net_spec_def net_op_ok_def net_add_ref net_remove_ref htsn_cfg_net_clear_def save_blob\<close>)

lemma net_history_ref:
  assumes "nets_ok (nets n)" and "settled n" and "list_all net_op_ok ops"
  shows "nets (foldl (\<lambda>n op. net_apply N op n) n ops) = foldl (\<lambda>l op. net_spec op l) (nets n) ops \<and>
    nets_ok (foldl (\<lambda>l op. net_spec op l) (nets n) ops)"
  using assms
proof (induction ops arbitrary: n)
  case (Cons op ops)
  then have a: "nets (net_apply N op n) = net_spec op (nets n)" "settled (net_apply N op n)" "nets_ok (net_spec op (nets n))"
    using net_apply_ref [of n op] nets_ok_spec [of "nets n" op] by simp_all
  with Cons.IH [of "net_apply N op n"] Cons.prems(3) show ?case by simp
qed simp

lemma net_get_ref:
  assumes "nets_ok (nets n)" and "i < length (nets n)"
  shows "htsn_cfg_net_get N (int i) 64 64 n = Some (True, ne_ssid (nets n ! i), take 63 (ne_pass (nets n ! i)))"
proof -
  have e: "nets n ! i \<in> set (nets n)" using assms(2) by simp
  then have "ne_ssid (nets n ! i) \<noteq> [] \<and> fits 33 (ne_ssid (nets n ! i))" using assms(1) by (simp add: nets_ok_def list_all_iff)
  moreover have "length (nets n) \<le> HTSN_NET_MAX" using assms(1) by (simp add: nets_ok_def)
  ultimately show ?thesis
    using assms(2) net_count_nets [of n] load_blob_nets [of n]
    by (simp add: htsn_cfg_net_get_def Let_def nth_append cpy_Some fits_def)
qed

end

text \<open>A storage that loses on a restart what was not committed.\<close>

record flash_ref =
  fr_exists :: bool
  fr_ram :: "string \<Rightarrow> nvs_val option"
  fr_flash :: "string \<Rightarrow> nvs_val option"

definition fr_get :: "flash_ref \<Rightarrow> string \<Rightarrow> nvs_val option" where
  "fr_get n = (if fr_exists n then fr_ram n else (\<lambda>_. None))"

definition fr_put :: "flash_ref \<Rightarrow> (string \<Rightarrow> nvs_val option) \<Rightarrow> flash_ref" where
  "fr_put n m = \<lparr>fr_exists = True, fr_ram = m, fr_flash = fr_flash n\<rparr>"

definition flash_nvs :: "flash_ref nvs" where
  "flash_nvs = \<lparr>nvs_open_ro = fr_exists, nvs_open_rw = (\<lambda>n. Some (fr_put n (fr_get n))), nvs_get = fr_get,
     nvs_set = (\<lambda>n k v. fr_put n ((fr_get n)(k \<mapsto> v))), nvs_erase_key = (\<lambda>n k. fr_put n ((fr_get n)(k := None))),
     nvs_erase_all = (\<lambda>n. fr_put n (\<lambda>_. None)), nvs_commit = (\<lambda>n. (True, n\<lparr>fr_flash := fr_get n\<rparr>)),
     nvs_restart = (\<lambda>n. fr_put n (fr_flash n))\<rparr>"

definition blank_flash :: flash_ref where
  "blank_flash = \<lparr>fr_exists = False, fr_ram = (\<lambda>_. None), fr_flash = (\<lambda>_. None)\<rparr>"

interpretation nvs_ref: nvs_flash flash_nvs fr_flash
  by unfold_locales (auto simp: flash_nvs_def fr_put_def fr_get_def)

text \<open>
  C11. The list of networks behaves as the list a user expects. After any sequence of additions, removals, clearings and restarts of the device the
  number of networks and each of them are those of the same sequence on a plain list in which a known network gets the new password in place, a
  new one goes to the end and the oldest of ten leaves; there are never more than ten and never two of the same name. (A password of
  64 characters is read back cut to 63 by the buffers of main.c.)
\<close>

theorem net_list_refines:
  assumes "nvs_flash N flash" and "nvs_get N n0 ''net_list'' = None" and "flash n0 = nvs_get N n0" and "list_all net_op_ok ops"
  defines "n \<equiv> foldl (\<lambda>n op. net_apply N op n) n0 ops" and "l \<equiv> foldl (\<lambda>l op. net_spec op l) [] ops"
  shows "htsn_cfg_net_count N n = length l \<and> length l \<le> 10 \<and> distinct (map ne_ssid l) \<and>
    (\<forall>i < length l. htsn_cfg_net_get N (int i) 64 64 n = Some (True, ne_ssid (l ! i), take 63 (ne_pass (l ! i))))"
proof -
  have e: "nvs_flash.nets N n0 = []" using assms(2) by (simp add: nvs_flash.nets_def [OF assms(1)] nvs_get_nets_def)
  have s: "nvs_flash.settled N flash n0" using assms(3) by (simp add: nvs_flash.settled_def [OF assms(1)])
  have l: "nvs_flash.nets N n = l" and ok: "nets_ok l"
    using nvs_flash.net_history_ref [OF assms(1) _ s assms(4)] by (simp_all add: e n_def l_def nets_ok_def)
  then show ?thesis
    using nvs_flash.net_count_nets [OF assms(1), of n] nvs_flash.net_get_ref [OF assms(1), of n]
    by (simp add: nets_ok_def HTSN_NET_MAX_def)
qed

theorem net_list_refines_witness:
  "htsn_cfg_net_get flash_nvs 0 64 64
     (foldl (\<lambda>n op. net_apply flash_nvs op n) blank_flash [NetAdd ''home'' ''pw1'', NetAdd ''lab'' ''pw2'', NetAdd ''home'' ''pw3'', NetRestart]) =
   Some (True, ''home'', ''pw3'')"
proof -
  have "nvs_get flash_nvs blank_flash ''net_list'' = None" "fr_flash blank_flash = nvs_get flash_nvs blank_flash"
    by (simp_all add: flash_nvs_def blank_flash_def fr_get_def)
  from net_list_refines [OF nvs_ref.nvs_flash_axioms this, of "[NetAdd ''home'' ''pw1'', NetAdd ''lab'' ''pw2'', NetAdd ''home'' ''pw3'', NetRestart]"]
  show ?thesis by (simp add: net_op_ok_def fits_def net_spec_def spec_net_add_def HTSN_NET_MAX_def All_less_Suc2)
qed

end
