(* ===== verification/Frame_Codec.thy ===== *)
theory Frame_Codec
  imports Htsn_Prelude
begin

text \<open>
  The deterministic wire format between the RPi controller and the STM32 endpoint
  (\<open>stm32-tsn/tsn/htsn_frame.h\<close>, \<open>stm32-tsn/tsn/eth_proto.c\<close>; the controller has a
  second, textually equal copy in \<open>rpi-tsn/htsn_frame.h\<close>): CRC16-CCITT,
  \<open>htsn_frame_pack\<close> and \<open>htsn_frame_unpack\<close>. The lemmas show that a packed frame
  unpacks to what was packed, that a frame which unpacks is the packing of its contents, and that
  the checksum rejects every corruption that touches at most two adjacent bytes.
\<close>

section \<open>Constants of the wire format\<close>

definition HTSN_FRAME_MAGIC :: byte where "HTSN_FRAME_MAGIC = 0xA5"
definition HTSN_FRAME_HDR :: nat where "HTSN_FRAME_HDR = 5"
definition HTSN_FRAME_CRC :: nat where "HTSN_FRAME_CRC = 2"
definition HTSN_FRAME_MAXPLEN :: nat where "HTSN_FRAME_MAXPLEN = 384"
definition HTSN_FRAME_MAX :: nat where
  "HTSN_FRAME_MAX = HTSN_FRAME_HDR + HTSN_FRAME_MAXPLEN + HTSN_FRAME_CRC"

lemmas frame_consts = HTSN_FRAME_MAGIC_def HTSN_FRAME_HDR_def HTSN_FRAME_CRC_def
  HTSN_FRAME_MAXPLEN_def HTSN_FRAME_MAX_def

section \<open>CRC16-CCITT\<close>

text \<open>One iteration of the inner loop of \<open>htsn_crc16\<close>.\<close>

definition crc_bit :: "u16 \<Rightarrow> u16" where
  "crc_bit crc = (if crc AND 0x8000 \<noteq> 0 then push_bit 1 crc XOR 0x1021 else push_bit 1 crc)"

text \<open>One iteration of the outer loop: the byte goes into the high half, then eight shifts.\<close>

definition crc_byte :: "u16 \<Rightarrow> byte \<Rightarrow> u16" where
  "crc_byte crc d = (crc_bit ^^ 8) (crc XOR push_bit 8 (ucast d))"

definition htsn_crc16 :: "byte list \<Rightarrow> u16" where
  "htsn_crc16 data = foldl crc_byte 0xFFFF data"

section \<open>Packing and unpacking\<close>

text \<open>
  \<open>htsn_frame_pack(out, type, kind, payload, len)\<close>: the return value and the output
  buffer. \<open>out\<close> is the caller's array; \<open>payload\<close> may be the null pointer, and then the
  payload bytes of the buffer stay as they were.
\<close>

definition htsn_frame_pack ::
  "byte list \<Rightarrow> byte \<Rightarrow> byte \<Rightarrow> byte list option \<Rightarrow> u16 \<Rightarrow> int \<times> byte list" where
  "htsn_frame_pack out ty kd payload len =
     (if unat len > HTSN_FRAME_MAXPLEN then (- 1, out)
      else
        (let n = HTSN_FRAME_HDR + unat len;
             b1 = out[0 := HTSN_FRAME_MAGIC, 1 := ty, 2 := kd, 3 := ucast (len AND 0xFF),
                      4 := ucast (drop_bit 8 len AND 0xFF)];
             b2 = (case payload of
                     Some p \<Rightarrow> if len \<noteq> 0 then memcpy b1 HTSN_FRAME_HDR p (unat len) else b1
                   | None \<Rightarrow> b1);
             crc = htsn_crc16 (take n b2);
             b3 = b2[n := ucast (crc AND 0xFF), n + 1 := ucast (drop_bit 8 crc)]
         in (int (n + HTSN_FRAME_CRC), b3)))"

text \<open>
  \<open>htsn_frame_unpack(in, in_len, ...)\<close> with a payload buffer: \<open>None\<close> is the return value
  \<open>-1\<close>, \<open>Some (type, kind, payload)\<close> is \<open>0\<close> with the three outputs.
\<close>

definition htsn_frame_unpack :: "byte list \<Rightarrow> nat \<Rightarrow> (byte \<times> byte \<times> byte list) option" where
  "htsn_frame_unpack inb in_len =
     (if in_len < HTSN_FRAME_HDR + HTSN_FRAME_CRC then None
      else if inb ! 0 \<noteq> HTSN_FRAME_MAGIC then None
      else
        (let len = (ucast (inb ! 3) :: u16) OR push_bit 8 (ucast (inb ! 4))
         in if unat len > HTSN_FRAME_MAXPLEN then None
            else if in_len < HTSN_FRAME_HDR + unat len + HTSN_FRAME_CRC then None
            else
              (let crc = htsn_crc16 (take (HTSN_FRAME_HDR + unat len) inb);
                   got = (ucast (inb ! (HTSN_FRAME_HDR + unat len)) :: u16) OR
                         push_bit 8 (ucast (inb ! (HTSN_FRAME_HDR + unat len + 1)))
               in if crc \<noteq> got then None
                  else Some (inb ! 1, inb ! 2, take (unat len) (drop HTSN_FRAME_HDR inb)))))"

section \<open>Bytes of a 16-bit word\<close>

lemma bit_255 [bytes_simps]: "bit (0xFF :: int) n \<longleftrightarrow> n < 8"
proof -
  have "(0xFF :: int) = mask 8" by (simp add: mask_eq_exp_minus_1)
  then show ?thesis by (simp only: bit_mask_iff) simp
qed

lemma u16_of_bytes [bytes_simps]:
  "(ucast (ucast (w AND 0xFF) :: byte) :: u16) OR push_bit 8 (ucast (ucast (drop_bit 8 w) :: byte)) = w"
  by (rule bit_word_eqI) (auto simp: bit_simps bit_255)

lemma u16_of_masked_bytes [bytes_simps]:
  "(ucast (ucast (w AND 0xFF) :: byte) :: u16) OR
     push_bit 8 (ucast (ucast (drop_bit 8 w AND 0xFF) :: byte)) = w"
  by (rule bit_word_eqI) (auto simp: bit_simps bit_255)

lemma u16_bytes_inject:
  "(ucast (a :: byte) :: u16) OR push_bit 8 (ucast (b :: byte)) = ucast c OR push_bit 8 (ucast d) \<longleftrightarrow>
     a = c \<and> b = d"
proof
  assume eq: "(ucast a :: u16) OR push_bit 8 (ucast b) = ucast c OR push_bit 8 (ucast d)"
  have "bit a n = bit c n \<and> bit b n = bit d n" if "n < 8" for n
    using that arg_cong [OF eq, of "\<lambda>w. bit w n"] arg_cong [OF eq, of "\<lambda>w. bit w (n + 8)"]
    by (auto simp: bit_simps dest: bit_imp_le_length)
  then show "a = c \<and> b = d" by (auto intro!: bit_word_eqI)
qed simp

section \<open>The checksum step is linear and injective\<close>

lemma top_bit_and: "(x :: u16) AND 0x8000 \<noteq> 0 \<longleftrightarrow> bit x 15"
proof -
  have "(0x8000 :: u16) = push_bit 15 1" by simp
  then show ?thesis by (simp add: bit_iff_and_push_bit_not_eq_0)
qed

lemma crc_bit_alt: "crc_bit x = push_bit 1 x XOR (if bit x 15 then 0x1021 else 0)"
  by (simp add: crc_bit_def top_bit_and)

lemma crc_bit_xor: "crc_bit (a XOR b) = crc_bit a XOR crc_bit b"
  by (simp add: crc_bit_alt bit_xor_iff push_bit_xor ac_simps xor.assoc)

lemma crc_bit_zero:
  assumes "crc_bit x = 0" shows "x = 0"
proof -
  have "\<not> bit (push_bit 1 x) 0" by (simp add: bit_0)
  moreover have "bit (0x1021 :: u16) 0" by (simp add: bit_0)
  ultimately have "bit (crc_bit x) 0 = bit x 15"
    unfolding crc_bit_alt by (simp only: bit_xor_iff split: if_split) simp
  with assms have t: "\<not> bit x 15" by simp
  with assms have z: "push_bit 1 x = 0" by (simp add: crc_bit_alt)
  have "bit x n = bit 0 n" if "n < LENGTH(16)" for n
  proof (cases "n = 15")
    case True
    with t show ?thesis by simp
  next
    case False
    with that have "bit (push_bit 1 x) (Suc n) = bit x n"
      by (simp only: bit_push_bit_iff) auto
    then show ?thesis unfolding z by simp
  qed
  then show ?thesis by (rule bit_word_eqI)
qed

lemma crc_bit_pow_xor: "(crc_bit ^^ k) (a XOR b) = (crc_bit ^^ k) a XOR (crc_bit ^^ k) b"
  by (induction k) (simp_all add: crc_bit_xor)

lemma crc_bit_pow_zero: "(crc_bit ^^ k) x = 0 \<Longrightarrow> x = 0"
  by (induction k) (auto dest: crc_bit_zero)

lemma crc_bit_pow_inject: "(crc_bit ^^ k) x = (crc_bit ^^ k) y \<longleftrightarrow> x = y"
proof
  assume "(crc_bit ^^ k) x = (crc_bit ^^ k) y"
  then have "(crc_bit ^^ k) (x XOR y) = 0" by (simp add: crc_bit_pow_xor)
  then have "x XOR y = 0" by (rule crc_bit_pow_zero)
  then show "x = y" by (metis xor.right_neutral xor.left_commute xor_self_eq)
qed simp

text \<open>While no bit reaches the top, the step is a plain shift.\<close>

lemma crc_bit_pow_shift:
  assumes "\<And>n. 16 - k \<le> n \<Longrightarrow> \<not> bit x n"
  shows "(crc_bit ^^ k) x = push_bit k x"
  using assms
proof (induction k)
  case 0
  then show ?case by simp
next
  case (Suc k)
  then have "(crc_bit ^^ k) x = push_bit k x" by simp
  moreover have "\<not> bit (push_bit k x) 15"
    using Suc.prems [of "15 - k"] by (auto simp: bit_push_bit_iff)
  ultimately have "(crc_bit ^^ Suc k) x = push_bit 1 (push_bit k x)"
    by (simp add: crc_bit_alt [of "push_bit k x"])
  also have "\<dots> = push_bit (1 + k) x" by (rule push_bit_push_bit)
  finally show ?case by simp
qed

lemma crc_two_bytes:
  "crc_byte (crc_byte s a) b = (crc_bit ^^ 16) (s XOR (push_bit 8 (ucast a) XOR ucast b))"
proof -
  have "(crc_bit ^^ 8) (ucast b) = push_bit 8 (ucast b :: u16)"
    by (rule crc_bit_pow_shift) (auto simp: bit_simps dest: bit_imp_le_length)
  then have "crc_byte (crc_byte s a) b =
      (crc_bit ^^ 8) ((crc_bit ^^ 8) (s XOR push_bit 8 (ucast a)) XOR (crc_bit ^^ 8) (ucast b))"
    by (simp add: crc_byte_def)
  also have "\<dots> = (crc_bit ^^ (8 + 8)) (s XOR push_bit 8 (ucast a) XOR ucast b)"
    by (simp only: crc_bit_pow_xor funpow_add o_apply xor.assoc)
  finally show ?thesis by (simp add: xor.assoc)
qed

lemma crc_byte_state_inject: "crc_byte s d = crc_byte t d \<longleftrightarrow> s = t"
proof -
  have "s XOR e = t XOR e \<longleftrightarrow> s = t" for e :: u16
    by (metis xor.assoc xor.right_neutral xor_self_eq)
  then show ?thesis by (simp add: crc_byte_def crc_bit_pow_inject)
qed

lemma crc_fold_state_inject: "foldl crc_byte s ds = foldl crc_byte t ds \<longleftrightarrow> s = t"
  by (induction ds arbitrary: s t) (simp_all add: crc_byte_state_inject)

lemma crc_two_bytes_inject:
  "crc_byte (crc_byte s a) b = crc_byte (crc_byte s c) d \<longleftrightarrow> a = c \<and> b = d"
proof -
  have x: "s XOR u = s XOR v \<longleftrightarrow> u = v" for u v :: u16
    by (metis xor.assoc xor.left_neutral xor_self_eq)
  have "push_bit 8 (ucast y) XOR ucast z = (ucast z :: u16) OR push_bit 8 (ucast y)" for y z :: byte
    by (rule bit_word_eqI) (auto simp: bit_simps dest: bit_imp_le_length)
  then show ?thesis
    by (auto simp: crc_two_bytes crc_bit_pow_inject x u16_bytes_inject)
qed

lemma crc_byte_inject: "crc_byte s a = crc_byte s c \<longleftrightarrow> a = c"
  using crc_two_bytes_inject [of s a 0 c 0] by (auto simp: crc_byte_state_inject)

text \<open>The checksum separates messages that differ in one byte, or in two adjacent bytes.\<close>

lemma htsn_crc16_one_byte:
  "htsn_crc16 (xs @ a # ys) = htsn_crc16 (xs @ c # ys) \<longleftrightarrow> a = c"
  by (simp add: htsn_crc16_def crc_fold_state_inject crc_byte_inject)

lemma htsn_crc16_two_bytes:
  "htsn_crc16 (xs @ a # b # ys) = htsn_crc16 (xs @ c # d # ys) \<longleftrightarrow> a = c \<and> b = d"
  by (simp add: htsn_crc16_def crc_fold_state_inject crc_two_bytes_inject)

section \<open>The frame a packer must produce\<close>

text \<open>The wire image of a frame, as the table at the head of \<open>htsn_frame.h\<close> lays it out.\<close>

definition frame_body :: "byte \<Rightarrow> byte \<Rightarrow> byte list \<Rightarrow> byte list" where
  "frame_body ty kd p =
     [HTSN_FRAME_MAGIC, ty, kd, ucast (word_of_nat (length p) AND 0xFF :: u16),
      ucast (drop_bit 8 (word_of_nat (length p) :: u16))] @ p"

definition frame_image :: "byte \<Rightarrow> byte \<Rightarrow> byte list \<Rightarrow> byte list" where
  "frame_image ty kd p =
     frame_body ty kd p @
     [ucast (htsn_crc16 (frame_body ty kd p) AND 0xFF), ucast (drop_bit 8 (htsn_crc16 (frame_body ty kd p)))]"

lemma length_frame_body [simp]: "length (frame_body ty kd p) = 5 + length p"
  by (simp add: frame_body_def)

lemma length_frame_image [simp]: "length (frame_image ty kd p) = 7 + length p"
  by (simp add: frame_image_def)

lemma ucast_high_byte [bytes_simps]:
  "(ucast (drop_bit 8 w AND 0xFF) :: byte) = ucast (drop_bit 8 (w :: u16))"
  by (rule bit_word_eqI) (auto simp: bit_simps bit_255)

lemma take_update_beyond [simp]: "n \<le> i \<Longrightarrow> take n (xs[i := v]) = take n xs"
  by simp

lemma header_written:
  assumes "5 \<le> length out"
  shows "take 5 (out[0 := a, Suc 0 := b, 2 := c, 3 := d, 4 := e]) = [a, b, c, d, e]"
proof -
  obtain x0 x1 x2 x3 x4 r where "out = x0 # x1 # x2 # x3 # x4 # r"
    using assms by (auto simp: numeral_eq_Suc Suc_le_length_iff)
  then show ?thesis by simp
qed

lemma take_two_written:
  "n + 2 \<le> length b \<Longrightarrow> take (n + 2) (b[n := x, n + 1 := y]) = take n b @ [x, y]"
  by (simp add: take_Suc_conv_app_nth nth_list_update)

lemma take_two_more: "k + 2 \<le> length f \<Longrightarrow> take (k + 2) f = take k f @ [f ! k, f ! (k + 1)]"
  by (simp add: take_Suc_conv_app_nth)

lemma htsn_frame_pack_image:
  assumes "unat len + 7 \<le> length out" and "unat len \<le> HTSN_FRAME_MAXPLEN"
    and "unat len \<le> length p"
  obtains out' where "htsn_frame_pack out ty kd (Some p) len = (int (unat len) + 7, out')"
    and "length out' = length out"
    and "take (unat len + 7) out' = frame_image ty kd (take (unat len) p)"
proof -
  let ?h = "out[0 := HTSN_FRAME_MAGIC, 1 := ty, 2 := kd, 3 := ucast (len AND 0xFF),
                4 := ucast (drop_bit 8 len)]"
  let ?b = "memcpy ?h 5 p (unat len)"
  let ?q = "take (unat len) p"
  have l: "length ?b = length out"
    using assms by (simp add: frame_consts)
  have wl: "word_of_nat (length ?q) = len"
    using assms(3) by simp
  have "take (5 + unat len) ?b = take 5 ?h @ take (unat len) p"
    by (rule take_memcpy_whole) (use assms in \<open>simp_all add: frame_consts\<close>)
  also have "\<dots> = frame_body ty kd ?q"
    using assms by (simp add: frame_body_def header_written frame_consts wl del: length_take)
  finally have body: "take (5 + unat len) ?b = frame_body ty kd ?q" .
  have nz: "(if len \<noteq> 0 then ?b else ?h) = ?b"
    by (cases "len = 0") simp_all
  let ?c = "htsn_crc16 (frame_body ty kd ?q)"
  let ?o = "?b[5 + unat len := ucast (?c AND 0xFF), 5 + unat len + 1 := ucast (drop_bit 8 ?c)]"
  have "htsn_frame_pack out ty kd (Some p) len = (int (unat len) + 7, ?o)"
  proof -
    let ?e = "\<lambda>b. let c = htsn_crc16 (take (5 + unat len) b)
      in (int (unat len) + 7, b[5 + unat len := ucast (c AND 0xFF), 5 + unat len + 1 := ucast (drop_bit 8 c)])"
    have "htsn_frame_pack out ty kd (Some p) len = ?e (if len \<noteq> 0 then ?b else ?h)"
      using assms(2) by (simp add: htsn_frame_pack_def HTSN_FRAME_HDR_def HTSN_FRAME_CRC_def
          HTSN_FRAME_MAXPLEN_def Let_def bytes_simps)
    also have "\<dots> = ?e ?b" by (simp only: nz)
    finally show ?thesis by (simp only: body Let_def)
  qed
  moreover have "take (unat len + 7) ?o = frame_image ty kd ?q"
    using take_two_written [of "5 + unat len" ?b] l assms body
    by (simp add: frame_consts frame_image_def ac_simps)
  ultimately show thesis using l that [of ?o] by simp
qed

section \<open>What the unpacker accepts\<close>

lemma frame_body_nth:
  "frame_body ty kd p ! 0 = HTSN_FRAME_MAGIC" "frame_body ty kd p ! Suc 0 = ty"
  "frame_body ty kd p ! 2 = kd"
  "frame_body ty kd p ! 3 = ucast (word_of_nat (length p) AND 0xFF :: u16)"
  "frame_body ty kd p ! 4 = ucast (drop_bit 8 (word_of_nat (length p) :: u16))"
  by (simp_all add: frame_body_def nth_append)

lemma frame_image_nth:
  "i < 5 + length p \<Longrightarrow> frame_image ty kd p ! i = frame_body ty kd p ! i"
  "frame_image ty kd p ! (5 + length p) = ucast (htsn_crc16 (frame_body ty kd p) AND 0xFF)"
  "frame_image ty kd p ! (6 + length p) = ucast (drop_bit 8 (htsn_crc16 (frame_body ty kd p)))"
  by (simp_all add: frame_image_def nth_append)

text \<open>The length field as the unpacker reads it.\<close>

definition frame_len :: "byte list \<Rightarrow> nat" where
  "frame_len f = unat ((ucast (f ! 3) :: u16) OR push_bit 8 (ucast (f ! 4)))"

definition frame_crc :: "byte list \<Rightarrow> u16" where
  "frame_crc f = ucast (f ! (5 + frame_len f)) OR push_bit 8 (ucast (f ! (5 + frame_len f + 1)))"

lemma htsn_frame_unpack_iff:
  "htsn_frame_unpack f n = Some (ty, kd, p) \<longleftrightarrow>
     7 + frame_len f \<le> n \<and> f ! 0 = HTSN_FRAME_MAGIC \<and> frame_len f \<le> HTSN_FRAME_MAXPLEN \<and>
     htsn_crc16 (take (5 + frame_len f) f) = frame_crc f \<and>
     ty = f ! 1 \<and> kd = f ! 2 \<and> p = take (frame_len f) (drop 5 f)"
  unfolding htsn_frame_unpack_def Let_def frame_len_def frame_crc_def frame_consts
  by (auto split: if_splits)

lemma htsn_frame_unpack_rejects:
  "htsn_frame_unpack f n = None \<longleftrightarrow>
     \<not> (7 + frame_len f \<le> n \<and> f ! 0 = HTSN_FRAME_MAGIC \<and> frame_len f \<le> HTSN_FRAME_MAXPLEN \<and>
        htsn_crc16 (take (5 + frame_len f) f) = frame_crc f)"
  using htsn_frame_unpack_iff [of f n]
  by (cases "htsn_frame_unpack f n") auto

lemma frame_len_image: "length p \<le> HTSN_FRAME_MAXPLEN \<Longrightarrow> frame_len (frame_image ty kd p @ r) = length p"
  by (simp add: frame_len_def nth_append frame_image_nth frame_body_nth bytes_simps
      frame_consts unat_of_nat)

lemma htsn_frame_unpack_image:
  assumes "length p \<le> HTSN_FRAME_MAXPLEN" and "7 + length p \<le> n"
  shows "htsn_frame_unpack (frame_image ty kd p @ r) n = Some (ty, kd, p)"
proof -
  let ?f = "frame_image ty kd p @ r"
  have len: "frame_len ?f = length p" using assms(1) by (rule frame_len_image)
  have "take (5 + length p) ?f = frame_body ty kd p"
    by (simp add: frame_image_def)
  moreover have "frame_crc ?f = htsn_crc16 (frame_body ty kd p)"
    by (simp add: frame_crc_def len nth_append frame_image_nth bytes_simps)
  moreover have "take (length p) (drop 5 ?f) = p"
    by (simp add: frame_image_def frame_body_def)
  ultimately show ?thesis
    using assms by (simp add: htsn_frame_unpack_iff len nth_append frame_image_nth frame_body_nth)
qed

text \<open>Conversely a frame that unpacks starts with the image of its contents.\<close>

text \<open>Frames are a code with an inverse on payloads that fit.\<close>

interpretation frame: codec
  "\<lambda>(ty, kd, p). frame_image ty kd p" "\<lambda>f. htsn_frame_unpack f (length f)"
  "\<lambda>(ty, kd, p). length p \<le> HTSN_FRAME_MAXPLEN"
  by unfold_locales (use htsn_frame_unpack_image [where r = "[]"] in \<open>auto split: prod.splits\<close>)

lemma htsn_frame_unpack_canonical:
  assumes "htsn_frame_unpack f n = Some (ty, kd, p)" and "n \<le> length f"
  shows "length p \<le> HTSN_FRAME_MAXPLEN" and "take (7 + length p) f = frame_image ty kd p"
proof -
  have u: "7 + frame_len f \<le> n" "f ! 0 = HTSN_FRAME_MAGIC" "frame_len f \<le> HTSN_FRAME_MAXPLEN"
    "htsn_crc16 (take (5 + frame_len f) f) = frame_crc f" "ty = f ! 1" "kd = f ! 2"
    "p = take (frame_len f) (drop 5 f)"
    using assms(1) by (auto simp: htsn_frame_unpack_iff)
  have lp: "length p = frame_len f" using u(1,7) assms(2) by simp
  then show "length p \<le> HTSN_FRAME_MAXPLEN" using u(3) by simp
  have "5 \<le> length f" using u(1) assms(2) by linarith
  then obtain x0 x1 x2 x3 x4 r where f: "f = x0 # x1 # x2 # x3 # x4 # r"
    by (auto simp: numeral_eq_Suc Suc_le_length_iff)
  have w: "word_of_nat (length p) = (ucast x3 :: u16) OR push_bit 8 (ucast x4)"
    unfolding lp by (simp add: frame_len_def f)
  have b: "(ucast (((ucast x3 :: u16) OR push_bit 8 (ucast x4)) AND 0xFF) :: byte) = x3"
    "(ucast (drop_bit 8 ((ucast x3 :: u16) OR push_bit 8 (ucast x4))) :: byte) = x4"
    by (rule bit_word_eqI; auto simp: bit_simps bit_255 dest: bit_imp_le_length)+
  have t: "take (5 + k) (x0 # x1 # x2 # x3 # x4 # r) = [x0, x1, x2, x3, x4] @ take k r" for k
    by (simp add: eval_nat_numeral)
  have "[x0, x1, x2, x3, x4] @ p = frame_body ty kd p"
    using u(2,5,6) unfolding frame_body_def w b by (simp add: f)
  moreover have "p = take (frame_len f) r" using u(7) by (simp add: f)
  ultimately have body: "take (5 + frame_len f) f = frame_body ty kd p"
    using t [of "frame_len f"] by (simp only: f [symmetric])
  have "take (7 + length p) f =
      take (5 + frame_len f) f @ [f ! (5 + frame_len f), f ! (5 + frame_len f + 1)]"
    using u(1) assms(2) take_two_more [of "5 + frame_len f" f] by (simp add: lp ac_simps)
  moreover have "frame_crc f = htsn_crc16 (frame_body ty kd p)" using u(4) body by simp
  then have "f ! (5 + frame_len f) = ucast (htsn_crc16 (frame_body ty kd p) AND 0xFF)"
    and "f ! (5 + frame_len f + 1) = ucast (drop_bit 8 (htsn_crc16 (frame_body ty kd p)))"
    unfolding frame_crc_def by (metis u16_of_bytes u16_bytes_inject)+
  ultimately show "take (7 + length p) f = frame_image ty kd p"
    by (simp add: frame_image_def body)
qed

section \<open>Corruption\<close>

lemma take_two_updated:
  assumes "i + 1 < n" and "n \<le> length f"
  shows "take n (f[i := a, i + 1 := b]) = take i f @ a # b # drop (i + 2) (take n f)"
proof (rule nth_equalityI)
  show "length (take n (f[i := a, i + 1 := b])) = length (take i f @ a # b # drop (i + 2) (take n f))"
    using assms by simp
  fix j assume "j < length (take n (f[i := a, i + 1 := b]))"
  then have j: "j < n" by simp
  consider "j < i" | "j = i" | "j = i + 1" | "i + 2 \<le> j" by linarith
  then show "take n (f[i := a, i + 1 := b]) ! j = (take i f @ a # b # drop (i + 2) (take n f)) ! j"
  proof cases
    case 4
    then obtain k where "j = i + 2 + k" using le_Suc_ex by blast
    with assms j show ?thesis by (simp add: nth_append)
  qed (use assms j in \<open>auto simp: nth_append nth_list_update\<close>)
qed

lemma frame_len_unchanged: "i \<noteq> 3 \<Longrightarrow> i \<noteq> 4 \<Longrightarrow> frame_len (f[i := a]) = frame_len f"
  by (simp add: frame_len_def)

lemma frame_crc_unchanged:
  "i \<noteq> 3 \<Longrightarrow> i \<noteq> 4 \<Longrightarrow> i < 5 + frame_len f \<Longrightarrow> frame_crc (f[i := a]) = frame_crc f"
  by (simp add: frame_crc_def frame_len_unchanged)

lemma body_corruption_changes_crc:
  assumes "i = 1 \<or> 5 \<le> i" and "i + 1 < 5 + frame_len f" and "5 + frame_len f \<le> length f"
    and "(a, b) \<noteq> (f ! i, f ! (i + 1))"
  shows "htsn_crc16 (take (5 + frame_len f) (f[i := a, i + 1 := b])) \<noteq>
         htsn_crc16 (take (5 + frame_len f) f)"
proof -
  let ?n = "5 + frame_len f"
  let ?r = "drop (i + 2) (take ?n f)"
  have "take ?n (f[i := f ! i, i + 1 := f ! (i + 1)]) = take i f @ f ! i # f ! (i + 1) # ?r"
    using assms by (intro take_two_updated) auto
  then have e: "take ?n f = take i f @ f ! i # f ! (i + 1) # ?r"
    by (simp add: list_update_id)
  have "take ?n (f[i := a, i + 1 := b]) = take i f @ a # b # ?r"
    using assms by (intro take_two_updated) auto
  moreover have "htsn_crc16 (take i f @ a # b # ?r) \<noteq> htsn_crc16 (take i f @ f ! i # f ! (i + 1) # ?r)"
    using assms(4) by (auto simp only: htsn_crc16_two_bytes)
  ultimately show ?thesis using e by metis
qed

section \<open>Properties\<close>

text \<open>
  C1. Packing and unpacking are inverse: for every frame type, kind and payload of at most
  \<open>HTSN_FRAME_MAXPLEN\<close> bytes, \<open>htsn_frame_pack\<close> into a buffer with room for the frame
  returns the frame length \<open>len + 7\<close>, and \<open>htsn_frame_unpack\<close> of that many bytes of the
  buffer returns the type, the kind and the payload.
\<close>

theorem htsn_frame_roundtrip:
  assumes "unat len + 7 \<le> length out" and "unat len \<le> HTSN_FRAME_MAXPLEN"
    and "unat len \<le> length p"
  shows "\<exists>out'. htsn_frame_pack out ty kd (Some p) len = (int (unat len) + 7, out') \<and>
           length out' = length out \<and>
           htsn_frame_unpack out' (unat len + 7) = Some (ty, kd, take (unat len) p)"
proof -
  let ?q = "take (unat len) p"
  obtain out' where o: "htsn_frame_pack out ty kd (Some p) len = (int (unat len) + 7, out')"
    "length out' = length out" "take (unat len + 7) out' = frame_image ty kd ?q"
    using htsn_frame_pack_image assms by blast
  have "out' = frame_image ty kd ?q @ drop (unat len + 7) out'"
    by (simp flip: o(3))
  moreover have "htsn_frame_unpack (frame_image ty kd ?q @ drop (unat len + 7) out') (unat len + 7)
      = Some (ty, kd, ?q)"
    using assms by (intro htsn_frame_unpack_image) (auto simp: frame_consts)
  ultimately show ?thesis using o(1,2) by metis
qed

theorem htsn_frame_roundtrip_witness:
  "\<exists>out'. htsn_frame_pack (replicate 391 0) 1 3 (Some [7, 9]) 2 = (9, out') \<and>
     length out' = 391 \<and> htsn_frame_unpack out' 9 = Some (1, 3, [7, 9])"
  using htsn_frame_roundtrip [of 2 "replicate 391 0" "[7, 9]" 1 3] by (simp add: frame_consts)

text \<open>
  C2. The unpacker accepts nothing the packer does not produce: if \<open>htsn_frame_unpack\<close>
  accepts a received buffer, then packing the returned type, kind and payload gives the very bytes
  that were received.
\<close>

theorem htsn_frame_unpack_is_pack:
  assumes "htsn_frame_unpack f n = Some (ty, kd, p)" and "n \<le> length f"
    and "HTSN_FRAME_MAX \<le> length out"
  shows "\<exists>out'. htsn_frame_pack out ty kd (Some p) (word_of_nat (length p)) = (int (length p) + 7, out') \<and>
           take (length p + 7) out' = take (length p + 7) f"
proof -
  have lp: "length p \<le> HTSN_FRAME_MAXPLEN" and im: "take (7 + length p) f = frame_image ty kd p"
    using htsn_frame_unpack_canonical [OF assms(1,2)] by auto
  have u: "unat (word_of_nat (length p) :: u16) = length p"
    using lp by (simp add: unat_of_nat frame_consts)
  obtain out' where "htsn_frame_pack out ty kd (Some p) (word_of_nat (length p)) = (int (length p) + 7, out')"
    and "take (length p + 7) out' = frame_image ty kd p"
    using htsn_frame_pack_image [of "word_of_nat (length p)" out p ty kd] assms(3) lp
    by (auto simp: u frame_consts)
  then show ?thesis using im by (auto simp: add.commute)
qed

theorem htsn_frame_unpack_is_pack_witness:
  "\<exists>out'. htsn_frame_pack (replicate 391 0) 0 2 (Some []) (word_of_nat (length ([] :: byte list)))
       = (int (length ([] :: byte list)) + 7, out') \<and>
     take (length ([] :: byte list) + 7) out' = take (length ([] :: byte list) + 7) (frame_image 0 2 [])"
  by (rule htsn_frame_unpack_is_pack [of _ 7])
     (use htsn_frame_unpack_image [of "[]" 7 0 2 "[]"] in \<open>simp_all add: frame_consts\<close>)

text \<open>
  C23. The checksum catches burst errors: if a received frame is accepted, then the same
  frame with any change confined to two adjacent bytes (the type and kind, two neighbouring payload
  bytes, or the two checksum bytes) is rejected.
\<close>

theorem htsn_frame_detects_burst:
  assumes "htsn_frame_unpack f n = Some (ty, kd, p)" and "n \<le> length f"
    and "i = 1 \<or> (5 \<le> i \<and> i + 1 < 5 + length p) \<or> i = 5 + length p"
    and "(a, b) \<noteq> (f ! i, f ! (i + 1))"
  shows "htsn_frame_unpack (f[i := a, i + 1 := b]) n = None"
proof -
  let ?g = "f[i := a, i + 1 := b]"
  have u: "7 + frame_len f \<le> n" "htsn_crc16 (take (5 + frame_len f) f) = frame_crc f"
    "length p = frame_len f"
    using assms(1,2) by (auto simp: htsn_frame_unpack_iff)
  have len: "frame_len ?g = frame_len f"
    using assms(3) by (auto simp: frame_len_unchanged)
  have "htsn_crc16 (take (5 + frame_len f) ?g) \<noteq> frame_crc ?g"
  proof (cases "i = 5 + frame_len f")
    case True
    have "frame_crc ?g = ucast a OR push_bit 8 (ucast b)"
      unfolding frame_crc_def len using True u(1) assms(2) by (simp add: nth_list_update)
    moreover have "take (5 + frame_len f) ?g = take (5 + frame_len f) f" using True by simp
    ultimately show ?thesis
      using u(2) assms(4) True
      by (auto simp only: frame_crc_def [of f] u16_bytes_inject)
  next
    case False
    with assms(3) u(3) have i: "i = 1 \<or> 5 \<le> i" "i + 1 < 5 + frame_len f" by auto
    then have "frame_crc ?g = frame_crc f"
      by (subst frame_crc_unchanged; auto simp: frame_len_unchanged frame_crc_unchanged)
    then show ?thesis
      using body_corruption_changes_crc [OF i, of a b] u assms(2,4) by auto
  qed
  then show ?thesis by (simp only: htsn_frame_unpack_rejects len) blast
qed

theorem htsn_frame_detects_burst_witness:
  "htsn_frame_unpack ((frame_image 0 1 [90, 0])[5 := 0, 5 + 1 := 0]) 9 = None"
proof (rule htsn_frame_detects_burst)
  show "htsn_frame_unpack (frame_image 0 1 [90, 0]) 9 = Some (0, 1, [90, 0])"
    using htsn_frame_unpack_image [of "[90, 0]" 9 0 1 "[]"] by (simp add: frame_consts)
  show "(0, 0) \<noteq> (frame_image 0 1 [90, 0] ! 5, frame_image 0 1 [90, 0] ! (5 + 1))"
    by (simp add: frame_image_def frame_body_def)
qed simp_all

end
