(* ===== verification/Eth_Endpoint.thy ===== *)
theory Eth_Endpoint
  imports Frame_Codec C_Text
begin

text \<open>
  The STM32 endpoint's transport (\<open>stm32-tsn/tsn/eth_proto.c\<close>): 802.1Q-tagged egress
  with its IPv4 and UDP headers, the telemetry publishers, the TSN configuration it stores,
  enforces and reports, the 802.3br preemption sequence, and the command thread's decoder.
  The state record holds the file's static variables; \<open>sent\<close> is the sequence of
  datagrams handed to the sockets. Socket creation (\<open>htsn_net_init\<close>) is not modelled: the
  socket descriptors are part of the state.
\<close>

section \<open>State\<close>

datatype dgram =
    Udp "byte list"     \<comment> \<open>\<open>sendto\<close> on the UDP socket, to the controller\<close>
  | Raw "byte list"     \<comment> \<open>\<open>zsock_sendto\<close> on the AF\_PACKET socket, type 0x8100\<close>

record eth =
  g_sock :: int
  g_raw_sock :: int
  g_vlan_id :: u16
  g_pcp :: byte
  g_preempt :: byte
  g_tsn_payload :: "byte list"
  g_tsn_payload_len :: u16
  g_tsn_valid :: bool
  g_preempt_seq :: u32
  g_cmd_cb :: bool
  sent :: "dgram list"

definition emit :: "dgram \<Rightarrow> eth \<Rightarrow> eth" where
  "emit d s = s\<lparr>sent := sent s @ [d]\<rparr>"

definition HTSN_TYPE_CMD :: byte where "HTSN_TYPE_CMD = 0"
definition HTSN_TYPE_TELEM :: byte where "HTSN_TYPE_TELEM = 1"
definition STM32_CMD_PORT :: u16 where "STM32_CMD_PORT = 4000"
definition CNC_TELEM_PORT :: u16 where "CNC_TELEM_PORT = 4001"

section \<open>The IPv4 header checksum\<close>

text \<open>The first loop of \<open>ipv4_hdr_sum\<close> with its treatment of an odd last byte.\<close>

fun ipv4_sum_words :: "u32 \<Rightarrow> byte list \<Rightarrow> u32" where
  "ipv4_sum_words s (a # b # r) = ipv4_sum_words (s + ucast (push_bit 8 (ucast a) OR ucast b :: u16)) r"
| "ipv4_sum_words s [a] = s + ucast (push_bit 8 (ucast a) :: u16)"
| "ipv4_sum_words s [] = s"

text \<open>\<open>while (s >> 16) s = (s & 0xffff) + (s >> 16);\<close>\<close>

lemma unat_and_0xffff: "unat ((s :: u32) AND 0xffff) = unat s mod 65536"
proof -
  have "(0xffff :: u32) = mask 16" by (simp add: mask_eq_exp_minus_1)
  then have "s AND 0xffff = take_bit 16 s" by (simp only: take_bit_eq_mask)
  then show ?thesis by (simp add: unsigned_take_bit_eq take_bit_eq_mod unat_mod)
qed

lemma unat_drop_16: "unat (drop_bit 16 (s :: u32)) = unat s div 65536"
  unfolding unat_drop_bit_eq by (simp add: drop_bit_eq_div)

lemma unat_fold16:
  "unat ((s AND 0xffff) + drop_bit 16 (s :: u32)) = unat s mod 65536 + unat s div 65536"
proof -
  have "unat s < 4294967296" using unsigned_less [of s, where ?'a = nat] by simp
  then have "unat s div 65536 < 65536" by simp
  moreover have "unat s mod 65536 < 65536" by simp
  ultimately have "unat s mod 65536 + unat s div 65536 < 4294967296" by linarith
  then show ?thesis by (simp add: unat_word_ariths unat_and_0xffff unat_drop_16)
qed

lemma fold16_decreases:
  assumes "drop_bit 16 (s :: u32) \<noteq> 0"
  shows "unat ((s AND 0xffff) + drop_bit 16 s) < unat s"
proof -
  have "unat s div 65536 > 0" using assms unat_drop_16 [of s] by (metis unat_eq_zero gr0I)
  moreover have "unat s = 65536 * (unat s div 65536) + unat s mod 65536" by simp
  ultimately show ?thesis unfolding unat_fold16 by linarith
qed

function ipv4_fold :: "u32 \<Rightarrow> u32" where
  "ipv4_fold s = (if drop_bit 16 s \<noteq> 0 then ipv4_fold ((s AND 0xffff) + drop_bit 16 s) else s)"
  by pat_completeness auto
termination
  by (relation "measure unat") (auto intro: fold16_decreases)

declare ipv4_fold.simps [simp del]

definition ipv4_hdr_sum :: "byte list \<Rightarrow> u16" where
  "ipv4_hdr_sum h = ucast (NOT (ipv4_fold (ipv4_sum_words 0 h)) AND 0xffff)"

section \<open>Tagged egress\<close>

text \<open>
  \<open>build_tagged_pcp\<close>: the \<open>32 + flen\<close> bytes it writes, every one of them assigned.
  The addresses are the results of the two \<open>sscanf\<close> calls on the constants
  \<open>"192.168.1.20"\<close> and \<open>CNC_TAG_IP\<close> (\<open>"192.168.1.11"\<close>).
\<close>

definition ip_header :: "u16 \<Rightarrow> u16 \<Rightarrow> byte list" where
  "ip_header ip_len cs =
     [0x45, 0, ucast (drop_bit 8 ip_len), ucast (ip_len AND 0xff), 0, 0, 0, 0, 64, 17,
      ucast (drop_bit 8 cs), ucast (cs AND 0xff), 192, 168, 1, 20, 192, 168, 1, 11]"

definition udp_header :: "u16 \<Rightarrow> byte list" where
  "udp_header udp_len =
     [ucast (drop_bit 8 STM32_CMD_PORT), ucast (STM32_CMD_PORT AND 0xff),
      ucast (drop_bit 8 CNC_TELEM_PORT), ucast (CNC_TELEM_PORT AND 0xff),
      ucast (drop_bit 8 udp_len), ucast (udp_len AND 0xff), 0, 0]"

definition build_tagged_pcp :: "u16 \<Rightarrow> byte list \<Rightarrow> u16 \<Rightarrow> byte \<Rightarrow> byte list" where
  "build_tagged_pcp vlan frame flen pcp =
     (let udp_len = 8 + flen;
          ip_len = 20 + udp_len;
          tci = push_bit 13 (ucast (pcp AND 0x07) :: u16) OR (vlan AND 0x0fff);
          cs = ipv4_hdr_sum (ip_header ip_len 0)
      in [ucast (drop_bit 8 tci), ucast (tci AND 0xff), 0x08, 0x00] @
         ip_header ip_len cs @ udp_header udp_len @ take (unat flen) frame)"

definition build_tagged :: "eth \<Rightarrow> byte list \<Rightarrow> u16 \<Rightarrow> byte list" where
  "build_tagged s frame flen = build_tagged_pcp (g_vlan_id s) frame flen (g_pcp s)"

definition send_frame_tagged :: "byte list \<Rightarrow> int \<Rightarrow> eth \<Rightarrow> eth" where
  "send_frame_tagged frame flen s =
     (let b = build_tagged s frame (word_of_int flen)
      in if g_raw_sock s < 0 then s else emit (Raw b) s)"

text \<open>\<open>send_frame\<close>: pack, then the tagged socket when a VLAN is set and the raw socket is open.\<close>

definition send_frame :: "byte \<Rightarrow> byte list \<Rightarrow> u16 \<Rightarrow> eth \<Rightarrow> eth" where
  "send_frame kind payload len s =
     (let (flen, frame) = htsn_frame_pack (replicate HTSN_FRAME_MAX 0) HTSN_TYPE_TELEM kind (Some payload) len
      in if flen \<le> 0 then s
         else if g_vlan_id s > 0 \<and> g_raw_sock s \<ge> 0 then send_frame_tagged frame flen s
         else if g_sock s \<ge> 0 then emit (Udp (take (nat flen) frame)) s
         else s)"

section \<open>Publishers\<close>

text \<open>The four little-endian bytes of a 32-bit value, the two of a 16-bit value.\<close>

definition le32 :: "u32 \<Rightarrow> byte list" where
  "le32 w = [ucast (w AND 0xFF), ucast (drop_bit 8 w AND 0xFF), ucast (drop_bit 16 w AND 0xFF),
             ucast (drop_bit 24 w AND 0xFF)]"

definition le16 :: "u16 \<Rightarrow> byte list" where
  "le16 w = [ucast (w AND 0xFF), ucast (drop_bit 8 w AND 0xFF)]"

text \<open>
  The sample loop of \<open>htsn_net_publish_sweep\<close>: it stops at the end of the sweep or when two
  more bytes do not fit.
\<close>

fun sweep_loop :: "byte list \<Rightarrow> u16 list \<Rightarrow> byte list" where
  "sweep_loop pl [] = pl"
| "sweep_loop pl (v # vs) =
     (if length pl + 1 < HTSN_FRAME_MAXPLEN then sweep_loop (pl @ le16 v) vs else pl)"

definition htsn_net_publish_sweep :: "u32 \<Rightarrow> u16 list \<Rightarrow> int \<Rightarrow> eth \<Rightarrow> eth" where
  "htsn_net_publish_sweep sid sweep n s =
     (let pl = sweep_loop (le32 sid) (take (nat n) sweep)
      in send_frame 2 pl (word_of_nat (length pl)) s)"

definition htsn_net_publish_buttons :: "int \<Rightarrow> int \<Rightarrow> int \<Rightarrow> int \<Rightarrow> eth \<Rightarrow> eth" where
  "htsn_net_publish_buttons k1 k2 k3 k4 s =
     (let mask = word_of_int ((k1 AND 1) OR push_bit 1 (k2 AND 1) OR push_bit 2 (k3 AND 1) OR
                              push_bit 3 (k4 AND 1))
      in send_frame 3 [mask] 1 s)"

definition telem_kind :: "string option \<Rightarrow> byte" where
  "telem_kind kind =
     (if kind = Some ''sonar'' then 2
      else if kind = Some ''buttons'' then 3
      else if kind = Some ''ptp'' then 5
      else 4)"

definition htsn_net_publish_telemetry :: "string option \<Rightarrow> string \<Rightarrow> eth \<Rightarrow> eth" where
  "htsn_net_publish_telemetry kind payload s =
     send_frame (telem_kind kind) (map byte_of payload) (word_of_nat (length payload)) s"

section \<open>TSN configuration\<close>

definition HTSN_TSN_F_VLAN :: u32 where "HTSN_TSN_F_VLAN = push_bit 0 1"
definition HTSN_TSN_F_PCP :: u32 where "HTSN_TSN_F_PCP = push_bit 1 1"
definition HTSN_TSN_F_PREEMPT :: u32 where "HTSN_TSN_F_PREEMPT = push_bit 2 1"
definition HTSN_TSN_F_PTP :: u32 where "HTSN_TSN_F_PTP = push_bit 5 1"

definition tsn_features :: "eth \<Rightarrow> u32" where
  "tsn_features s =
     (let f0 = HTSN_TSN_F_PTP;
          f1 = (if g_vlan_id s > 0 then f0 OR (HTSN_TSN_F_VLAN OR HTSN_TSN_F_PCP) else f0)
      in if g_preempt s \<noteq> 0 \<and> g_vlan_id s > 0 then f1 OR HTSN_TSN_F_PREEMPT else f1)"

text \<open>\<open>sizeof(htsn_tsn_cfg_t)\<close>: the structure is packed.\<close>

definition sizeof_tsn_cfg :: nat where
  "sizeof_tsn_cfg = 1 + 1 + 2 + 1 + 1 + 1 + 2 + 1 + 1 + 8 + 2"

record tsn_cfg =
  priority :: byte
  traffic_class :: byte
  vlan_id :: u16
  preemption :: byte
  timesync_mode :: byte
  stream_role :: byte
  stream_vlan_id :: u16
  stream_priority :: byte
  reserved :: byte
  tas_cycle_ns :: u64
  gcl_count :: u16

definition le_u16 :: "byte list \<Rightarrow> nat \<Rightarrow> u16" where
  "le_u16 b i = ucast (b ! i) OR push_bit 8 (ucast (b ! (i + 1)))"

fun le_u64 :: "byte list \<Rightarrow> u64" where
  "le_u64 [] = 0"
| "le_u64 (b # bs) = ucast b OR push_bit 8 (le_u64 bs)"

text \<open>\<open>memcpy(&cfg, p, sizeof(cfg))\<close> into the packed little-endian structure.\<close>

definition load_tsn_cfg :: "byte list \<Rightarrow> tsn_cfg" where
  "load_tsn_cfg b =
     \<lparr> priority = b ! 0, traffic_class = b ! 1, vlan_id = le_u16 b 2, preemption = b ! 4,
       timesync_mode = b ! 5, stream_role = b ! 6, stream_vlan_id = le_u16 b 7,
       stream_priority = b ! 9, reserved = b ! 10,
       tas_cycle_ns = le_u64 (take 8 (drop 11 b)), gcl_count = le_u16 b 19 \<rparr>"

definition tsn_report_applied :: "eth \<Rightarrow> eth" where
  "tsn_report_applied s =
     (let s1 = (if unat (g_tsn_payload_len s) + 4 > HTSN_FRAME_MAXPLEN
                then s\<lparr>g_tsn_payload_len := word_of_nat (HTSN_FRAME_MAXPLEN - 4)\<rparr> else s);
          n = unat (g_tsn_payload_len s1);
          pl = take n (g_tsn_payload s1) @ le32 (tsn_features s1)
      in send_frame 6 pl (word_of_nat (n + 4)) s1)"

definition tsn_handle_cfg :: "byte list \<Rightarrow> u16 \<Rightarrow> eth \<Rightarrow> eth" where
  "tsn_handle_cfg p len s =
     (if unat len < sizeof_tsn_cfg \<or> unat len > HTSN_FRAME_MAXPLEN - 4 then s
      else if g_tsn_valid s \<and> g_tsn_payload_len s = len \<and>
              take (unat len) (g_tsn_payload s) = take (unat len) p then s
      else
        (let cfg = load_tsn_cfg p;
             s1 = s\<lparr>g_tsn_payload := memcpy (g_tsn_payload s) 0 p (unat len),
                    g_tsn_payload_len := len, g_tsn_valid := True,
                    g_vlan_id := vlan_id cfg, g_pcp := priority cfg,
                    g_preempt := preemption cfg\<rparr>
         in tsn_report_applied s1))"

text \<open>\<open>htsn_net_tsn_cfg(out)\<close> with a non-null \<open>out\<close>: \<open>None\<close> is the return value \<open>-1\<close>.\<close>

definition htsn_net_tsn_cfg :: "eth \<Rightarrow> tsn_cfg option" where
  "htsn_net_tsn_cfg s = (if \<not> g_tsn_valid s then None else Some (load_tsn_cfg (g_tsn_payload s)))"

section \<open>The preemption demonstration\<close>

definition preempt_cut :: "nat \<Rightarrow> nat" where
  "preempt_cut full_len =
     (let c = (if full_len < 8 + 32 then 32 else full_len - 8) in if c + 2 > 80 then 80 - 2 else c)"

definition send_preempt_seq :: "eth \<Rightarrow> eth" where
  "send_preempt_seq s =
     (if g_raw_sock s < 0 \<or> g_vlan_id s = 0 then s
      else
        (let seq = g_preempt_seq s + 1;
             s1 = s\<lparr>g_preempt_seq := seq\<rparr>;
             pl = snprintf_buf 24 (''PREEMPTIBLE '' @ dec_nat4 (unat (seq AND 0xffff)));
             (flen, fbuf) = htsn_frame_pack (replicate 48 0) HTSN_TYPE_TELEM 7 (Some (map byte_of pl))
                              (word_of_nat (length pl))
         in if flen \<le> 0 then s1
            else
              (let full = build_tagged_pcp (g_vlan_id s1) fbuf (word_of_int flen) (g_pcp s1);
                   cut = preempt_cut (length full);
                   s2 = emit (Raw (take cut full @ [0xFF, 0xFF])) s1;
                   (uflen, ubuf) = htsn_frame_pack fbuf HTSN_TYPE_TELEM 8
                                     (Some (map byte_of ''PREEMPTING!'')) 11;
                   s3 = (if uflen > 0
                         then emit (Raw (build_tagged_pcp (g_vlan_id s2) ubuf (word_of_int uflen) 7)) s2
                         else s2)
               in emit (Raw full) s3)))"

definition preempt_work_fn :: "eth \<Rightarrow> eth" where
  "preempt_work_fn s = (if g_preempt s \<noteq> 0 \<and> g_vlan_id s > 0 then send_preempt_seq s else s)"

section \<open>The command thread\<close>

text \<open>The text in a zeroed buffer after \<open>memcpy\<close> of the payload: up to the first zero byte.\<close>

definition text_of :: "byte list \<Rightarrow> string" where
  "text_of bs = map (\<lambda>b. char_of (unat b)) (takeWhile (\<lambda>b. b \<noteq> 0) bs)"

definition arg_i16 :: "byte list \<Rightarrow> int" where
  "arg_i16 p = (if length p \<ge> 2 then sint (le_u16 p 0) else 0)"

text \<open>The verb and argument of a command frame; \<open>None\<close> is the \<open>default: continue\<close>.\<close>

definition decode_cmd :: "byte \<Rightarrow> byte list \<Rightarrow> (string \<times> string) option" where
  "decode_cmd kind p =
     (if kind = 1 then Some (''servo'', dec_int (arg_i16 p))
      else if kind = 2 then Some (''sonar'', [])
      else if kind = 3 then Some (''relay'', dec_int (if length p \<ge> 1 then int (unat (p ! 0)) else 0))
      else if kind = 4 then Some (''beep'', dec_int (arg_i16 p))
      else if kind = 5 then Some (''hud'', text_of p)
      else if kind = 6 then Some (''reboot'', [])
      else None)"

text \<open>
  One turn of the loop of \<open>cmd_task_fn\<close> for a received datagram of \<open>n\<close> bytes: the new
  state and the callback invocation, if any.
\<close>

definition cmd_step :: "byte list \<Rightarrow> nat \<Rightarrow> eth \<Rightarrow> eth \<times> (string \<times> string) option" where
  "cmd_step buf n s =
     (case htsn_frame_unpack buf n of
        None \<Rightarrow> (s, None)
      | Some (ty, kind, pl) \<Rightarrow>
          if ty \<noteq> HTSN_TYPE_CMD then (s, None)
          else if kind = 7 then (tsn_handle_cfg pl (word_of_nat (length pl)) s, None)
          else (case decode_cmd kind pl of
                  None \<Rightarrow> (s, None)
                | Some c \<Rightarrow> (s, if g_cmd_cb s then Some c else None)))"

section \<open>The checksum verifies\<close>

lemma ipv4_fold_spec:
  "unat (ipv4_fold s) < 65536 \<and> unat (ipv4_fold s) mod 65535 = unat s mod 65535 \<and>
     (ipv4_fold s = 0 \<longleftrightarrow> s = 0)"
proof (induction s rule: ipv4_fold.induct)
  case (1 s)
  show ?case
  proof (cases "drop_bit 16 s = 0")
    case True
    then have "unat s div 65536 = 0" using unat_drop_16 [of s] by simp
    then have "unat s < 65536" by (simp add: div_eq_0_iff)
    with True show ?thesis by (simp add: ipv4_fold.simps [of s])
  next
    case False
    let ?t = "(s AND 0xffff) + drop_bit 16 s"
    have pos: "0 < unat s div 65536" using False unat_drop_16 [of s] by (metis unat_eq_zero gr0I)
    have t: "unat ?t = unat s mod 65536 + unat s div 65536" by (rule unat_fold16)
    have "(unat s mod 65536 + unat s div 65536) mod 65535 =
        (unat s mod 65536 + unat s div 65536 + 65535 * (unat s div 65536)) mod 65535"
      by (simp only: mod_mult_self2)
    also have "unat s mod 65536 + unat s div 65536 + 65535 * (unat s div 65536) = unat s"
      by (simp add: mult.commute)
    finally have m: "unat ?t mod 65535 = unat s mod 65535" using t by simp
    have "?t \<noteq> 0" using pos t by (metis add_is_0 unat_0 less_numeral_extra(3))
    moreover have "s \<noteq> 0" using False by auto
    ultimately show ?thesis
      using 1 [OF False] False m by (simp add: ipv4_fold.simps [of s])
  qed
qed

lemma u16_be_bytes [bytes_simps]:
  "push_bit 8 (ucast (ucast (drop_bit 8 w) :: byte)) OR ucast (ucast (w AND 0xff) :: byte) = (w :: u16)"
  using u16_of_bytes [of w] by (simp add: or.commute)

lemma unat_ipv4_hdr_sum: "unat (ipv4_hdr_sum h) = 65535 - unat (ipv4_fold (ipv4_sum_words 0 h))"
proof -
  let ?f = "ipv4_fold (ipv4_sum_words 0 h)"
  have f: "unat ?f < 65536" using ipv4_fold_spec by blast
  have "NOT ?f = - 1 - ?f" by (simp add: not_eq_complement)
  then have "unat (NOT ?f) = 4294967295 - unat ?f"
    by (simp add: unat_sub word_order.extremum unsigned_minus_1_eq_mask mask_eq_exp_minus_1)
  then have "unat (NOT ?f AND 0xffff) = (4294967295 - unat ?f) mod 65536"
    by (simp only: unat_and_0xffff)
  also have "4294967295 - unat ?f = 65535 - unat ?f + 65536 * 65535" using f by simp
  also have "\<dots> mod 65536 = 65535 - unat ?f" using f by (simp only: mod_mult_self2) simp
  finally show ?thesis
    unfolding ipv4_hdr_sum_def by (simp add: unsigned_ucast_eq take_bit_eq_mod)
qed

lemma ip_header_sum:
  "ipv4_sum_words 0 (ip_header l c) = 0x20880 + ucast l + ucast c"
  by (simp add: ip_header_def bytes_simps)

text \<open>A receiver's checksum over the header as sent is zero.\<close>

lemma ip_header_verifies: "ipv4_hdr_sum (ip_header l (ipv4_hdr_sum (ip_header l 0))) = 0"
proof -
  let ?s = "ipv4_sum_words 0 (ip_header l 0)"
  let ?c = "ipv4_hdr_sum (ip_header l 0)"
  let ?t = "ipv4_sum_words 0 (ip_header l ?c)"
  have l: "unat l < 65536" using unsigned_less [of l, where ?'a = nat] by simp
  have c: "unat ?c < 65536" using unsigned_less [of ?c, where ?'a = nat] by simp
  have s: "unat ?s = 0x20880 + unat l"
    unfolding ip_header_sum using l by (simp add: unat_word_ariths unsigned_ucast_eq take_bit_eq_mod)
  have t: "unat ?t = 0x20880 + unat l + unat ?c"
    unfolding ip_header_sum [of l ?c] using l c by (simp add: unat_word_ariths unsigned_ucast_eq take_bit_eq_mod)
  have f: "unat (ipv4_fold ?s) < 65536" "unat (ipv4_fold ?s) mod 65535 = (0x20880 + unat l) mod 65535"
    using ipv4_fold_spec [of ?s] s by auto
  have e: "unat ?c + unat (ipv4_fold ?s) = 65535"
    using f(1) by (simp add: unat_ipv4_hdr_sum)
  have "unat ?t mod 65535 = (unat ?c + (0x20880 + unat l) mod 65535) mod 65535"
    unfolding t by (simp add: mod_simps ac_simps)
  also have "\<dots> = (unat ?c + unat (ipv4_fold ?s)) mod 65535"
    unfolding f(2) [symmetric] by (simp add: mod_simps)
  also have "\<dots> = 0" by (simp add: e)
  finally have "unat (ipv4_fold ?t) mod 65535 = 0" using ipv4_fold_spec [of ?t] by simp
  moreover have "?t \<noteq> 0" using t by auto
  then have "unat (ipv4_fold ?t) \<noteq> 0" using ipv4_fold_spec [of ?t] by (simp add: unat_eq_zero)
  moreover have "unat (ipv4_fold ?t) < 65536" using ipv4_fold_spec [of ?t] by blast
  ultimately have "unat (ipv4_fold ?t) = 65535" by (auto simp: mod_eq_0_iff_dvd elim!: dvdE)
  then have "unat (ipv4_hdr_sum (ip_header l ?c)) = 0" by (simp add: unat_ipv4_hdr_sum)
  then show ?thesis by (simp only: unat_eq_zero)
qed

lemma tci_fields:
  defines "tci p v \<equiv> push_bit 13 (ucast ((p :: byte) AND 0x07) :: u16) OR (v AND 0x0fff)"
  shows "drop_bit 13 (tci p v) = ucast (p AND 0x07)" and "tci p v AND 0x0fff = v AND 0x0fff"
proof -
  have m: "(0x07 :: byte) = mask 3" "(0x0fff :: u16) = mask 12" by (simp_all add: mask_eq_exp_minus_1)
  show "drop_bit 13 (tci p v) = ucast (p AND 0x07)"
    unfolding tci_def m by (rule bit_word_eqI) (auto simp: bit_simps)
  show "tci p v AND 0x0fff = v AND 0x0fff"
    unfolding tci_def m by (rule bit_word_eqI) (auto simp: bit_simps)
qed


lemma length_ip_header [simp]: "length (ip_header l c) = 20"
  by (simp add: ip_header_def)

lemma length_udp_header [simp]: "length (udp_header l) = 8"
  by (simp add: udp_header_def)

lemma length_build_tagged_pcp [simp]:
  "unat flen \<le> length frame \<Longrightarrow> length (build_tagged_pcp v frame flen pcp) = 32 + unat flen"
  by (simp add: build_tagged_pcp_def Let_def)

lemma build_tagged_pcp_payload:
  "drop 32 (build_tagged_pcp v frame flen pcp) = take (unat flen) frame"
  by (simp add: build_tagged_pcp_def Let_def)

text \<open>A 16-bit big-endian field.\<close>

definition be16_at :: "byte list \<Rightarrow> nat \<Rightarrow> u16" where
  "be16_at b i = push_bit 8 (ucast (b ! i)) OR ucast (b ! (i + 1))"

lemma be16_at_head:
  "be16_at (ucast (drop_bit 8 w) # ucast (w AND 0xff) # r) 0 = w"
  by (simp add: be16_at_def bytes_simps)

section \<open>What a send puts on the wire\<close>

text \<open>The application frame in a datagram: tagged egress has 32 bytes of headers before it.\<close>

definition dgram_frame :: "dgram \<Rightarrow> byte list" where
  "dgram_frame d = (case d of Udp b \<Rightarrow> b | Raw b \<Rightarrow> drop 32 b)"

definition tagged_mode :: "eth \<Rightarrow> bool" where
  "tagged_mode s \<longleftrightarrow> g_vlan_id s > 0 \<and> g_raw_sock s \<ge> 0"

definition can_send :: "eth \<Rightarrow> bool" where
  "can_send s \<longleftrightarrow> tagged_mode s \<or> g_sock s \<ge> 0"

definition is_raw :: "dgram \<Rightarrow> bool" where
  "is_raw d \<longleftrightarrow> (case d of Udp _ \<Rightarrow> False | Raw _ \<Rightarrow> True)"

text \<open>
  \<open>delivers s t kind p\<close>: between \<open>s\<close> and \<open>t\<close> exactly one telemetry frame of that kind and
  payload left, tagged if and only if \<open>t\<close> has a VLAN and the raw socket, and nothing was lost.
\<close>

definition delivers :: "eth \<Rightarrow> eth \<Rightarrow> byte \<Rightarrow> byte list \<Rightarrow> bool" where
  "delivers s t kind p \<longleftrightarrow>
     length (sent t) = Suc (length (sent s)) \<and> butlast (sent t) = sent s \<and>
     (is_raw (last (sent t)) \<longleftrightarrow> tagged_mode t) \<and>
     htsn_frame_unpack (dgram_frame (last (sent t))) (length (dgram_frame (last (sent t)))) =
       Some (HTSN_TYPE_TELEM, kind, p)"

lemma send_frame_alt:
  assumes "length p \<le> HTSN_FRAME_MAXPLEN"
  shows "send_frame kind p (word_of_nat (length p)) s =
    (if tagged_mode s
     then emit (Raw (build_tagged s (frame_image HTSN_TYPE_TELEM kind p) (word_of_nat (7 + length p)))) s
     else if g_sock s \<ge> 0 then emit (Udp (frame_image HTSN_TYPE_TELEM kind p)) s else s)"
proof -
  have u: "unat (word_of_nat (length p) :: u16) = length p"
    using assms by (simp add: unat_of_nat frame_consts)
  have u7: "unat (word_of_nat (7 + length p) :: u16) = 7 + length p"
    using assms unfolding unat_of_nat by (simp add: frame_consts)
  obtain out where o: "htsn_frame_pack (replicate HTSN_FRAME_MAX 0) HTSN_TYPE_TELEM kind (Some p)
      (word_of_nat (length p)) = (int (length p) + 7, out)"
    "take (length p + 7) out = frame_image HTSN_TYPE_TELEM kind p"
    using htsn_frame_pack_image
      [of "word_of_nat (length p)" "replicate HTSN_FRAME_MAX 0" p HTSN_TYPE_TELEM kind] assms
    by (auto simp: u frame_consts)
  have b: "build_tagged s out (word_of_nat (7 + length p)) =
      build_tagged s (frame_image HTSN_TYPE_TELEM kind p) (word_of_nat (7 + length p))"
    unfolding build_tagged_def build_tagged_pcp_def u7 Let_def using o(2) by (simp add: add.commute)
  show ?thesis
    using o b by (simp add: send_frame_def send_frame_tagged_def tagged_mode_def Let_def
        nat_add_distrib add.commute)
qed

lemma send_frame_delivers:
  assumes "length p \<le> HTSN_FRAME_MAXPLEN" and "can_send s"
  shows "delivers s (send_frame kind p (word_of_nat (length p)) s) kind p"
proof -
  have "htsn_frame_unpack (frame_image HTSN_TYPE_TELEM kind p) (7 + length p) = Some (HTSN_TYPE_TELEM, kind, p)"
    using htsn_frame_unpack_image [of p "7 + length p" HTSN_TYPE_TELEM kind "[]"] assms by simp
  moreover have "unat (7 + word_of_nat (length p) :: u16) = 7 + length p"
    using assms unat_of_nat [of "7 + length p", where ?'a = 16] by (simp add: frame_consts)
  ultimately show ?thesis
    using assms
    by (auto simp: delivers_def send_frame_alt can_send_def emit_def is_raw_def dgram_frame_def
        build_tagged_def build_tagged_pcp_payload tagged_mode_def)
qed

lemma send_frame_fields [simp]:
  "g_sock (send_frame kind p len s) = g_sock s" "g_raw_sock (send_frame kind p len s) = g_raw_sock s"
  "g_vlan_id (send_frame kind p len s) = g_vlan_id s" "g_pcp (send_frame kind p len s) = g_pcp s"
  "g_preempt (send_frame kind p len s) = g_preempt s"
  "g_tsn_payload (send_frame kind p len s) = g_tsn_payload s"
  "g_tsn_payload_len (send_frame kind p len s) = g_tsn_payload_len s"
  "g_tsn_valid (send_frame kind p len s) = g_tsn_valid s"
  by (simp_all add: send_frame_def send_frame_tagged_def emit_def Let_def split: prod.splits)

section \<open>Properties\<close>

text \<open>
  C25. Every tagged egress frame is a well-formed 802.1Q, IPv4 and UDP datagram: for each
  application frame that fits, \<open>build_tagged_pcp\<close> writes \<open>32 + flen\<close> bytes whose tag carries the
  three low bits of the priority and the twelve low bits of the VLAN, whose IPv4 header has the right total
  length and a checksum that verifies, whose UDP length is right, and whose tail is the frame.
\<close>

theorem tagged_egress_wellformed:
  assumes "unat flen \<le> HTSN_FRAME_MAX" and "unat flen \<le> length frame"
  shows "let b = build_tagged_pcp vlan frame flen pcp in
    length b = 32 + unat flen \<and>
    drop_bit 13 (be16_at b 0) = ucast (pcp AND 7) \<and> be16_at b 0 AND 0x0fff = vlan AND 0x0fff \<and>
    ipv4_hdr_sum (take 20 (drop 4 b)) = 0 \<and>
    unat (be16_at b 6) = length b - 4 \<and> unat (be16_at b 28) = length b - 24 \<and>
    drop 32 b = take (unat flen) frame"
proof -
  define b where "b = build_tagged_pcp vlan frame flen pcp"
  have u: "unat (28 + flen) = 28 + unat flen" "unat (8 + flen) = 8 + unat flen"
    using assms(1) by (simp_all add: unat_word_ariths frame_consts)
  have "take 20 (drop 4 b) = ip_header (28 + flen) (ipv4_hdr_sum (ip_header (28 + flen) 0))"
    by (simp add: b_def build_tagged_pcp_def Let_def)
  then have "ipv4_hdr_sum (take 20 (drop 4 b)) = 0" by (simp add: ip_header_verifies)
  moreover have t: "be16_at b 0 = push_bit 13 (ucast (pcp AND 0x07)) OR (vlan AND 0x0fff)"
    unfolding b_def build_tagged_pcp_def Let_def append_Cons by (rule be16_at_head)
  moreover have "be16_at b 6 = 28 + flen" "be16_at b 28 = 8 + flen"
    by (simp_all add: b_def build_tagged_pcp_def be16_at_def Let_def nth_append ip_header_def
        udp_header_def bytes_simps)
  moreover have "length b = 32 + unat flen" "drop 32 b = take (unat flen) frame"
    using assms(2) by (simp_all add: b_def build_tagged_pcp_payload)
  moreover have "drop_bit 13 (be16_at b 0) = ucast (pcp AND 7)"
    "be16_at b 0 AND 0x0fff = vlan AND 0x0fff"
    unfolding t by (rule tci_fields)+
  ultimately show ?thesis
    using u by (simp only: Let_def flip: b_def) simp
qed

theorem tagged_egress_wellformed_witness:
  "length (build_tagged_pcp 0x1064 [1, 2, 3] 3 13) = 35 \<and>
   ipv4_hdr_sum (take 20 (drop 4 (build_tagged_pcp 0x1064 [1, 2, 3] 3 13))) = 0 \<and>
   be16_at (build_tagged_pcp 0x1064 [1, 2, 3] 3 13) 0 AND 0x0fff = 100"
  using tagged_egress_wellformed [of 3 "[1, 2, 3]" "0x1064" "13"]
  by (simp add: frame_consts Let_def)

text \<open>The array that holds the stored configuration has \<open>HTSN_FRAME_MAXPLEN\<close> bytes.\<close>

definition eth_inv :: "eth \<Rightarrow> bool" where
  "eth_inv s \<longleftrightarrow> length (g_tsn_payload s) = HTSN_FRAME_MAXPLEN \<and>
     unat (g_tsn_payload_len s) \<le> HTSN_FRAME_MAXPLEN - 4"

lemma load_tsn_cfg_take: "21 \<le> n \<Longrightarrow> 21 \<le> length p \<Longrightarrow> load_tsn_cfg (take n p @ r) = load_tsn_cfg p"
  by (auto simp: load_tsn_cfg_def le_u16_def nth_append take_drop min_absorb2)

lemma tsn_report_applied_alt:
  assumes "eth_inv s"
  shows "tsn_report_applied s =
    (let pl = take (unat (g_tsn_payload_len s)) (g_tsn_payload s) @ le32 (tsn_features s)
     in send_frame 6 pl (word_of_nat (length pl)) s)"
  using assms by (simp add: tsn_report_applied_def eth_inv_def frame_consts Let_def le32_def
      add.commute)

lemma tsn_features_send [simp]: "tsn_features (send_frame k p l s) = tsn_features s"
  by (simp add: tsn_features_def Let_def)

lemma delivers_state_cong:
  "delivers s t k p \<Longrightarrow> sent s = sent s' \<Longrightarrow> delivers s' t k p"
  by (simp add: delivers_def)

lemma tsn_report_applied_fields [simp]:
  assumes "eth_inv s"
  shows "eth_inv (tsn_report_applied s)" and "g_vlan_id (tsn_report_applied s) = g_vlan_id s"
    and "g_pcp (tsn_report_applied s) = g_pcp s" and "g_preempt (tsn_report_applied s) = g_preempt s"
    and "g_tsn_payload (tsn_report_applied s) = g_tsn_payload s"
    and "g_tsn_payload_len (tsn_report_applied s) = g_tsn_payload_len s"
    and "g_tsn_valid (tsn_report_applied s) = g_tsn_valid s"
    and "tsn_features (tsn_report_applied s) = tsn_features s"
  using assms by (simp_all add: tsn_report_applied_alt Let_def) (simp add: eth_inv_def)

lemma tsn_report_applied_delivers:
  assumes "eth_inv s" and "can_send s"
  shows "delivers s (tsn_report_applied s) 6
    (take (unat (g_tsn_payload_len s)) (g_tsn_payload s) @ le32 (tsn_features s))"
  unfolding tsn_report_applied_alt [OF assms(1)] Let_def
  using assms by (intro send_frame_delivers) (auto simp: eth_inv_def frame_consts le32_def)

lemma tsn_handle_cfg_new:
  assumes "eth_inv s" and "can_send (s\<lparr>g_vlan_id := le_u16 p 2\<rparr>)"
    and "sizeof_tsn_cfg \<le> length p" and "length p \<le> HTSN_FRAME_MAXPLEN - 4"
    and "\<not> (g_tsn_valid s \<and> take (unat (g_tsn_payload_len s)) (g_tsn_payload s) = p)"
  defines "t \<equiv> tsn_handle_cfg p (word_of_nat (length p)) s"
  shows "eth_inv t" and "g_vlan_id t = le_u16 p 2" and "g_pcp t = p ! 0" and "g_preempt t = p ! 4"
    and "htsn_net_tsn_cfg t = Some (load_tsn_cfg p)" and "delivers s t 6 (p @ le32 (tsn_features t))"
    and "tsn_handle_cfg p (word_of_nat (length p)) t = t"
proof -
  let ?len = "word_of_nat (length p) :: u16"
  have u: "unat ?len = length p" using assms(4) by (simp add: unat_of_nat frame_consts)
  let ?s1 = "s\<lparr>g_tsn_payload := memcpy (g_tsn_payload s) 0 p (length p), g_tsn_payload_len := ?len,
      g_tsn_valid := True, g_vlan_id := le_u16 p 2, g_pcp := p ! 0, g_preempt := p ! 4\<rparr>"
  have inv: "eth_inv ?s1" using assms(1,4) u by (simp add: eth_inv_def frame_consts)
  have pl: "take (length p) (memcpy (g_tsn_payload s) 0 p (length p)) = p"
    using take_memcpy_whole [of 0 "g_tsn_payload s" "length p" p] by simp
  have lens: "\<not> unat ?len < sizeof_tsn_cfg" "\<not> unat ?len > HTSN_FRAME_MAXPLEN - 4"
    using assms(3,4) u by auto
  have new: "\<not> (g_tsn_valid s \<and> g_tsn_payload_len s = ?len \<and>
      take (unat ?len) (g_tsn_payload s) = take (unat ?len) p)"
    using assms(5) u by auto
  have t: "t = tsn_report_applied ?s1"
    unfolding t_def tsn_handle_cfg_def using lens new u
    by (simp only: if_False Let_def simp_thms) (simp add: load_tsn_cfg_def)
  show "eth_inv t" "g_vlan_id t = le_u16 p 2" "g_pcp t = p ! 0" "g_preempt t = p ! 4"
    using inv by (simp_all add: t)
  show "tsn_handle_cfg p (word_of_nat (length p)) t = t"
    unfolding tsn_handle_cfg_def t using inv pl u by simp
  show "delivers s t 6 (p @ le32 (tsn_features t))"
    using tsn_report_applied_delivers [OF inv] assms(2) pl u inv
    by (auto simp: t can_send_def tagged_mode_def elim!: delivers_state_cong)
  show "htsn_net_tsn_cfg t = Some (load_tsn_cfg p)"
    using inv assms(3) load_tsn_cfg_take [of "length p" p]
    by (simp add: t htsn_net_tsn_cfg_def memcpy_def sizeof_tsn_cfg_def)
qed

text \<open>
  C24. A TSN configuration frame takes effect and is acknowledged once: when a command datagram
  carries a configuration of legal length that differs from the stored one, the endpoint's VLAN,
  priority and preemption flag become the ones of the frame, \<open>htsn_net_tsn_cfg\<close> returns the
  configuration, exactly one telemetry frame of kind 6 leaves (tagged according to the new VLAN) with the
  configuration bytes and the feature bits then enforced, and the keepalive re-push of the same datagram
  changes nothing.
\<close>

theorem tsn_cfg_applied_and_reported:
  assumes "eth_inv s" and "can_send (s\<lparr>g_vlan_id := le_u16 p 2\<rparr>)"
    and "htsn_frame_unpack buf n = Some (HTSN_TYPE_CMD, 7, p)"
    and "sizeof_tsn_cfg \<le> length p" and "length p \<le> HTSN_FRAME_MAXPLEN - 4"
    and "\<not> (g_tsn_valid s \<and> take (unat (g_tsn_payload_len s)) (g_tsn_payload s) = p)"
  shows "\<exists>t. cmd_step buf n s = (t, None) \<and> eth_inv t \<and>
    g_vlan_id t = le_u16 p 2 \<and> g_pcp t = p ! 0 \<and> g_preempt t = p ! 4 \<and>
    htsn_net_tsn_cfg t = Some (load_tsn_cfg p) \<and>
    delivers s t 6 (p @ le32 (tsn_features t)) \<and> cmd_step buf n t = (t, None)"
proof -
  let ?t = "tsn_handle_cfg p (word_of_nat (length p)) s"
  note t = tsn_handle_cfg_new [OF assms(1,2,4,5,6)]
  have "cmd_step buf n s = (?t, None)" "cmd_step buf n ?t = (?t, None)"
    using assms(3) t(7) by (simp_all add: cmd_step_def)
  then show ?thesis using t by blast
qed

theorem tsn_cfg_applied_and_reported_witness:
  "\<exists>s p t. eth_inv s \<and> length p = 21 \<and> cmd_step (frame_image 0 7 p) 28 s = (t, None) \<and>
     g_vlan_id t = 100 \<and> g_pcp t = 5 \<and> delivers s t 6 (p @ le32 (tsn_features t))"
proof -
  define s where "s = \<lparr>g_sock = 3, g_raw_sock = 4, g_vlan_id = 0, g_pcp = 0, g_preempt = 0,
    g_tsn_payload = replicate 384 0, g_tsn_payload_len = 0, g_tsn_valid = False,
    g_preempt_seq = 0, g_cmd_cb = False, sent = []\<rparr>"
  define p :: "byte list" where "p = [5, 0, 100, 0, 1] @ replicate 16 0"
  have "length p = 21" "eth_inv s" "le_u16 p 2 = 100" "p ! 0 = 5"
    by (simp_all add: s_def p_def eth_inv_def frame_consts le_u16_def)
  moreover have "htsn_frame_unpack (frame_image 0 7 p) 28 = Some (HTSN_TYPE_CMD, 7, p)"
    using htsn_frame_unpack_image [of p 28 0 7 "[]"]
    by (simp add: p_def frame_consts HTSN_TYPE_CMD_def)
  moreover have "can_send (s\<lparr>g_vlan_id := le_u16 p 2\<rparr>)"
    by (simp add: s_def can_send_def)
  ultimately show ?thesis
    using tsn_cfg_applied_and_reported [of s p "frame_image 0 7 p" 28]
    by (fastforce simp: sizeof_tsn_cfg_def frame_consts s_def)
qed

lemma sweep_loop_alt:
  "even (length pl) \<Longrightarrow> sweep_loop pl vs = pl @ concat (map le16 (take ((HTSN_FRAME_MAXPLEN - length pl) div 2) vs))"
proof (induction pl vs rule: sweep_loop.induct)
  case (1 pl)
  then show ?case by simp
next
  case (2 pl v vs)
  have l: "length (le16 v) = 2" by (simp add: le16_def)
  show ?case
  proof (cases "length pl + 1 < HTSN_FRAME_MAXPLEN")
    case True
    then have "(HTSN_FRAME_MAXPLEN - length pl) div 2 = Suc ((HTSN_FRAME_MAXPLEN - (length pl + 2)) div 2)"
      by (simp add: frame_consts)
    with True 2 l show ?thesis by simp
  next
    case False
    with "2.prems" have "HTSN_FRAME_MAXPLEN - length pl = 0" by (auto simp: frame_consts elim!: evenE)
    with False show ?thesis by simp
  qed
qed

lemma length_concat_le16 [simp]: "length (concat (map le16 vs)) = 2 * length vs"
  by (induction vs) (simp_all add: le16_def)

text \<open>
  A sonar sweep is published without overrunning the payload buffer: for every sweep,
  \<open>htsn_net_publish_sweep\<close> sends one telemetry frame of kind 2 whose payload is the sweep's id and its
  first samples, all of them up to 190, in little-endian order.
\<close>

theorem sweep_published:
  assumes "can_send s" and "0 \<le> n" and "n \<le> int (length sweep)"
  shows "delivers s (htsn_net_publish_sweep sid sweep n s) 2
           (le32 sid @ concat (map le16 (take (min (nat n) 190) sweep)))"
proof -
  have "sweep_loop (le32 sid) (take (nat n) sweep) =
      le32 sid @ concat (map le16 (take (min (nat n) 190) sweep))"
    using sweep_loop_alt [of "le32 sid" "take (nat n) sweep"]
    by (simp add: le32_def frame_consts min.commute)
  then show ?thesis
    unfolding htsn_net_publish_sweep_def Let_def
    using assms by (simp only:) (rule send_frame_delivers, simp_all add: le32_def frame_consts)
qed

theorem sweep_published_witness:
  "\<exists>s. delivers s (htsn_net_publish_sweep 7 [300] 1 s) 2 [7, 0, 0, 0, 44, 1]"
proof -
  define s where "s = \<lparr>g_sock = 3, g_raw_sock = - 1, g_vlan_id = 0, g_pcp = 0, g_preempt = 0,
    g_tsn_payload = replicate 384 0, g_tsn_payload_len = 0, g_tsn_valid = False,
    g_preempt_seq = 0, g_cmd_cb = False, sent = []\<rparr>"
  have "can_send s" by (simp add: s_def can_send_def)
  then show ?thesis
    using sweep_published [of s 1 "[300]" 7] by (auto simp: le32_def le16_def)
qed

lemma length_dec_nat4: "n < 65536 \<Longrightarrow> 4 \<le> length (dec_nat4 n) \<and> length (dec_nat4 n) \<le> 5"
  using length_dec_nat [of n 5] unfolding dec_nat4_def length_append length_replicate by simp arith

text \<open>The text of the preemptible frame.\<close>

definition preempt_text :: "u32 \<Rightarrow> byte list" where
  "preempt_text seq = map byte_of (''PREEMPTIBLE '' @ dec_nat4 (unat (seq AND 0xffff)))"

lemma length_preempt_text: "16 \<le> length (preempt_text q) \<and> length (preempt_text q) \<le> 17"
  using length_dec_nat4 [of "unat (q AND 0xffff)"]
  by (simp add: preempt_text_def unat_and_0xffff)

lemma pack_tagged:
  assumes "length p + 7 \<le> length out" and "length p \<le> HTSN_FRAME_MAXPLEN"
  obtains out' where
    "htsn_frame_pack out ty kd (Some p) (word_of_nat (length p)) = (int (length p) + 7, out')"
    "length out' = length out"
    "build_tagged_pcp v out' (word_of_int (int (length p) + 7)) c =
       build_tagged_pcp v (frame_image ty kd p) (word_of_nat (7 + length p)) c"
proof -
  have u: "unat (word_of_nat (length p) :: u16) = length p"
    using assms by (simp add: unat_of_nat frame_consts)
  have w: "(word_of_int (int (length p) + 7) :: u16) = word_of_nat (7 + length p)"
    by (simp add: add.commute)
  have u7: "unat (word_of_nat (7 + length p) :: u16) = 7 + length p"
    using assms unfolding unat_of_nat by (simp add: frame_consts)
  obtain out' where o: "htsn_frame_pack out ty kd (Some p) (word_of_nat (length p)) = (int (length p) + 7, out')"
    "length out' = length out" "take (length p + 7) out' = frame_image ty kd p"
    using htsn_frame_pack_image [of "word_of_nat (length p)" out p ty kd] assms u by auto
  have "build_tagged_pcp v out' (word_of_int (int (length p) + 7)) c =
       build_tagged_pcp v (frame_image ty kd p) (word_of_nat (7 + length p)) c"
    unfolding w build_tagged_pcp_def u7 Let_def using o(3) by (simp add: add.commute)
  with o that show ?thesis by blast
qed

text \<open>
  The preemption demonstration stays inside its buffers and has the 802.3br order: with the raw
  socket open and a VLAN set, \<open>send_preempt_seq\<close> sends the preemptible frame without its last
  eight bytes and with the two-byte fragment marker, then the urgent frame at priority 7, then the
  whole preemptible frame; the packed frame fits its 48-byte buffer and every datagram its 80 bytes.
\<close>

theorem preempt_sequence:
  assumes "g_raw_sock s \<ge> 0" and "g_vlan_id s \<noteq> 0"
  shows "let m = preempt_text (g_preempt_seq s + 1);
             full = build_tagged_pcp (g_vlan_id s) (frame_image HTSN_TYPE_TELEM 7 m)
                      (word_of_nat (7 + length m)) (g_pcp s);
             urg = build_tagged_pcp (g_vlan_id s)
                     (frame_image HTSN_TYPE_TELEM 8 (map byte_of ''PREEMPTING!'')) 18 7
         in sent (send_preempt_seq s) =
              sent s @ [Raw (take (length full - 8) full @ [0xFF, 0xFF]), Raw urg, Raw full] \<and>
            7 + length m \<le> 48 \<and> length full \<le> 80 \<and> length urg \<le> 80"
proof -
  define m where "m = preempt_text (g_preempt_seq s + 1)"
  have lm: "16 \<le> length m" "length m \<le> 17" using length_preempt_text by (auto simp: m_def)
  have sn: "map byte_of (snprintf_buf 24 (''PREEMPTIBLE '' @
      dec_nat4 (unat ((g_preempt_seq s + 1) AND 0xffff)))) = m"
    using lm by (simp add: m_def preempt_text_def snprintf_buf_def)
  obtain b where b: "htsn_frame_pack (replicate 48 0) HTSN_TYPE_TELEM 7 (Some m) (word_of_nat (length m))
      = (int (length m) + 7, b)" "length b = length (replicate 48 (0 :: byte))"
    "build_tagged_pcp (g_vlan_id s) b (word_of_int (int (length m) + 7)) (g_pcp s) =
       build_tagged_pcp (g_vlan_id s) (frame_image HTSN_TYPE_TELEM 7 m) (word_of_nat (7 + length m)) (g_pcp s)"
    by (rule pack_tagged [of m "replicate 48 0"]) (use lm in \<open>simp_all add: frame_consts\<close>)
  let ?p = "map byte_of ''PREEMPTING!''"
  obtain b' where b': "htsn_frame_pack b HTSN_TYPE_TELEM 8 (Some ?p) (word_of_nat (length ?p))
      = (int (length ?p) + 7, b')"
    "build_tagged_pcp (g_vlan_id s) b' (word_of_int (int (length ?p) + 7)) 7 =
       build_tagged_pcp (g_vlan_id s) (frame_image HTSN_TYPE_TELEM 8 ?p) (word_of_nat (7 + length ?p)) 7"
    by (rule pack_tagged [of ?p b]) (use b(2) in \<open>simp_all add: frame_consts\<close>)
  let ?full = "build_tagged_pcp (g_vlan_id s) (frame_image HTSN_TYPE_TELEM 7 m)
      (word_of_nat (7 + length m)) (g_pcp s)"
  have u7: "unat (word_of_nat (7 + length m) :: u16) = 7 + length m"
    using lm unfolding unat_of_nat by simp
  have lf: "length ?full = 39 + length m"
    using u7 by (subst length_build_tagged_pcp) simp_all
  have len: "length (snprintf_buf 24 (''PREEMPTIBLE '' @
      dec_nat4 (unat ((g_preempt_seq s + 1) AND 0xffff)))) = length m"
    using sn by (metis length_map)
  have "sent (send_preempt_seq s) = sent s @
      [Raw (take (preempt_cut (length ?full)) ?full @ [0xFF, 0xFF]),
       Raw (build_tagged_pcp (g_vlan_id s) (frame_image HTSN_TYPE_TELEM 8 ?p) 18 7), Raw ?full]"
    unfolding send_preempt_seq_def Let_def len sn using assms b b'
    by (simp add: emit_def)
  moreover have "preempt_cut (length ?full) = length ?full - 8"
    using lm unfolding lf by (auto simp: preempt_cut_def Let_def)
  ultimately show ?thesis
    using lm lf unfolding Let_def m_def [symmetric] by simp
qed

theorem preempt_sequence_witness:
  "\<exists>s. length (sent (send_preempt_seq s)) = 3 \<and> g_vlan_id s = 100"
proof -
  define s where "s = \<lparr>g_sock = 3, g_raw_sock = 4, g_vlan_id = 100, g_pcp = 0, g_preempt = 1,
    g_tsn_payload = replicate 384 0, g_tsn_payload_len = 0, g_tsn_valid = False,
    g_preempt_seq = 0, g_cmd_cb = False, sent = []\<rparr>"
  have "g_raw_sock s \<ge> 0" "g_vlan_id s \<noteq> 0" "g_vlan_id s = 100" "sent s = []" by (simp_all add: s_def)
  then show ?thesis using preempt_sequence [of s] unfolding Let_def by (intro exI [of _ s]) simp
qed

end
