(* ===== verification/Ptp_Slave.thy ===== *)
theory Ptp_Slave
  imports Eth_Endpoint "HOL-Library.Signed_Division"
begin

text \<open>
  The PTP v2 slave of the STM32 endpoint (\<open>stm32-tsn/tsn/ptp.c\<close>): its local clock, the
  packet accessors, the clock servo, the packet handler and one turn of the task loop. The record
  \<open>ptp\<close> holds the file's static variables; readings of the cycle counter, received packets
  and the processor clock \<open>SystemCoreClock\<close> are inputs. The lemmas show that header timestamps read
  back, that the servo steps or converges, and how the exchange flags evolve over the task loop.
\<close>

section \<open>State\<close>

type_synonym sockaddr = "u32 \<times> u16"

record ptp =
  raw_base :: u64
  raw_base_cycles :: u32
  g_c_ns :: u64
  g_locked :: bool
  g_last_offset_ns :: i64
  g_have_s2 :: bool
  g_s2 :: u64
  g_have_t1 :: bool
  g_t1 :: u64
  g_s3 :: u64
  g_domain :: byte
  g_ev_sock :: int
  g_ge_sock :: int
  g_gm :: sockaddr
  g_gm_known :: bool
  iters :: u32
  ptp_sent :: "(sockaddr \<times> byte list) list"

definition PTP_SYNC :: byte where "PTP_SYNC = 0x0"
definition PTP_DELAY_REQ :: byte where "PTP_DELAY_REQ = 0x1"
definition PTP_FOLLOW_UP :: byte where "PTP_FOLLOW_UP = 0x8"
definition PTP_DELAY_RESP :: byte where "PTP_DELAY_RESP = 0x9"
definition PTP_ANNOUNCE :: byte where "PTP_ANNOUNCE = 0xB"
definition PTP_HDR_LEN :: nat where "PTP_HDR_LEN = 44"

lemmas ptp_types = PTP_SYNC_def PTP_DELAY_REQ_def PTP_FOLLOW_UP_def PTP_DELAY_RESP_def
  PTP_ANNOUNCE_def

section \<open>The local clock\<close>

text \<open>\<open>raw_ns()\<close> when the cycle counter reads \<open>c\<close>.\<close>

definition raw_ns :: "u32 \<Rightarrow> u32 \<Rightarrow> ptp \<Rightarrow> u64 \<times> ptp" where
  "raw_ns clk c s =
     (let s1 = (if c < raw_base_cycles s
                then s\<lparr>raw_base := raw_base s + ucast ((0xFFFFFFFF - raw_base_cycles s) + 1),
                       raw_base_cycles := 0\<rparr>
                else s);
          cycles = raw_base s1 + ucast (c - raw_base_cycles s1)
      in ((cycles * 1000000000) div ucast clk, s1))"

definition htsn_ptp_time_ns :: "u32 \<Rightarrow> u32 \<Rightarrow> ptp \<Rightarrow> u64 \<times> ptp" where
  "htsn_ptp_time_ns clk c s = (let (r, s1) = raw_ns clk c s in (r + g_c_ns s1, s1))"

definition htsn_ptp_is_locked :: "ptp \<Rightarrow> bool" where
  "htsn_ptp_is_locked s = g_locked s"

definition htsn_ptp_offset_ns :: "ptp \<Rightarrow> i64" where
  "htsn_ptp_offset_ns s = g_last_offset_ns s"

section \<open>Packet accessors\<close>

definition ptp_type :: "byte list \<Rightarrow> byte" where "ptp_type b = b ! 1"
definition ptp_version :: "byte list \<Rightarrow> byte" where "ptp_version b = b ! 2"
definition ptp_domain :: "byte list \<Rightarrow> byte" where "ptp_domain b = b ! 10"

definition ptp_hdr_time_ns :: "byte list \<Rightarrow> u64" where
  "ptp_hdr_time_ns b =
     (let sec = push_bit 32 (ucast (push_bit 8 (ucast (b ! 12)) OR ucast (b ! 13) :: u16) :: u64) OR
                ucast (push_bit 24 (ucast (b ! 14)) OR push_bit 16 (ucast (b ! 15)) OR
                       push_bit 8 (ucast (b ! 16)) OR ucast (b ! 17) :: u32);
          ns = push_bit 24 (ucast (b ! 18)) OR push_bit 16 (ucast (b ! 19)) OR
               push_bit 8 (ucast (b ! 20)) OR ucast (b ! 21) :: u32
      in sec * 1000000000 + ucast ns)"

definition ptp_ts64 :: "byte list \<Rightarrow> nat \<Rightarrow> u64" where
  "ptp_ts64 b off = foldl (\<lambda>v x. push_bit 8 v OR ucast x) 0 (map (\<lambda>i. b ! (off + i)) [0..<8])"

definition ptp_write_hdr_time :: "byte list \<Rightarrow> u64 \<Rightarrow> byte list" where
  "ptp_write_hdr_time b ns =
     (let sec = ns div 1000000000; fns = ucast (ns mod 1000000000) :: u32
      in b[12 := ucast (drop_bit 40 sec), 13 := ucast (drop_bit 32 sec),
           14 := ucast (drop_bit 24 sec), 15 := ucast (drop_bit 16 sec),
           16 := ucast (drop_bit 8 sec), 17 := ucast sec,
           18 := ucast (drop_bit 24 fns), 19 := ucast (drop_bit 16 fns),
           20 := ucast (drop_bit 8 fns), 21 := ucast fns])"

section \<open>The clock servo\<close>

definition steer :: "u64 \<Rightarrow> ptp \<Rightarrow> ptp" where
  "steer c_new s =
     (let delta = sint (c_new - g_c_ns s);
          s1 = (if delta > 50000000 \<or> delta < - 50000000
                then s\<lparr>g_c_ns := c_new, g_last_offset_ns := word_of_int delta\<rparr>
                else if delta \<noteq> 0
                then s\<lparr>g_c_ns := g_c_ns s + word_of_int (delta sdiv 5),
                       g_last_offset_ns := word_of_int (delta sdiv 5)\<rparr>
                else s)
      in s1\<lparr>g_locked := True\<rparr>)"

section \<open>The exchange\<close>

text \<open>
  \<open>send_delay_req()\<close>: \<open>c1\<close> and \<open>c2\<close> are the cycle counter at its two clock readings.
\<close>

definition send_delay_req :: "u32 \<Rightarrow> u32 \<Rightarrow> u32 \<Rightarrow> ptp \<Rightarrow> u64 \<times> ptp" where
  "send_delay_req clk c1 c2 s =
     (let m0 = replicate PTP_HDR_LEN 0;
          m1 = m0[1 := PTP_DELAY_REQ, 2 := 2, 4 := 0, 5 := 0, 6 := 0,
                  7 := word_of_nat PTP_HDR_LEN, 10 := g_domain s];
          (now, s1) = htsn_ptp_time_ns clk c1 s;
          m = ptp_write_hdr_time m1 now;
          (s3, s2) = raw_ns clk c2 s1
      in (s3, if g_ev_sock s2 \<ge> 0 \<and> g_gm_known s2
              then s2\<lparr>ptp_sent := ptp_sent s2 @ [(g_gm s2, m)]\<rparr> else s2))"

text \<open>
  \<open>handle_packet(buf, len)\<close>: \<open>buf\<close> is the whole 128-byte receive buffer, of which \<open>len\<close>
  bytes were received.
\<close>

definition handle_packet :: "u32 \<Rightarrow> u32 \<Rightarrow> byte list \<Rightarrow> int \<Rightarrow> ptp \<Rightarrow> ptp" where
  "handle_packet clk c buf len s =
     (if len < 32 then s
      else if ptp_version buf \<noteq> 2 then s
      else if ptp_type buf = PTP_SYNC then
        (let (r, s1) = raw_ns clk c s;
             s2 = s1\<lparr>g_s2 := r, g_have_s2 := True\<rparr>;
             t = ptp_ts64 buf 40
         in if t > 0 then s2\<lparr>g_t1 := t, g_have_t1 := True\<rparr> else s2)
      else if ptp_type buf = PTP_FOLLOW_UP then
        s\<lparr>g_t1 := ptp_ts64 buf 40, g_have_t1 := True\<rparr>
      else if ptp_type buf = PTP_ANNOUNCE then s\<lparr>g_domain := ptp_domain buf\<rparr>
      else if ptp_type buf = PTP_DELAY_RESP then
        (let t4 = ptp_hdr_time_ns buf;
             s1 = (if g_have_t1 s \<and> g_have_s2 s
                   then steer (((t4 + g_t1 s) - (g_s2 s + g_s3 s)) div 2) s else s)
         in s1\<lparr>g_have_t1 := False, g_have_s2 := False\<rparr>)
      else s)"

section \<open>The task loop\<close>

text \<open>
  What one turn of the loop observes: the packet on the event port with its source, the packet on
  the general port (\<open>None\<close>: the receive timed out), and the cycle counter at its readings.
\<close>

record ptp_in =
  ev_pkt :: "(sockaddr \<times> byte list \<times> int) option"
  ge_pkt :: "(byte list \<times> int) option"
  cyc_ev :: u32
  cyc_req :: u32
  cyc_s3 :: u32
  cyc_ge :: u32

definition ptp_event_port :: "u32 \<Rightarrow> ptp_in \<Rightarrow> ptp \<Rightarrow> ptp" where
  "ptp_event_port clk inp s =
     (if g_ev_sock s \<ge> 0 then
        (let s1 = (case ev_pkt inp of
                     Some (src, buf, n) \<Rightarrow>
                       if n > 0 then
                         handle_packet clk (cyc_ev inp) buf n
                           (if \<not> g_gm_known s then s\<lparr>g_gm := src, g_gm_known := True\<rparr> else s)
                       else s
                   | None \<Rightarrow> s)
         in if g_have_t1 s1 \<and> g_have_s2 s1 \<and> g_gm_known s1 then
              (let (s3, s2) = send_delay_req clk (cyc_req inp) (cyc_s3 inp) s1
               in s2\<lparr>g_s3 := s3, g_have_t1 := False\<rparr>)
            else s1)
      else s)"

definition ptp_general_port :: "u32 \<Rightarrow> ptp_in \<Rightarrow> ptp \<Rightarrow> ptp" where
  "ptp_general_port clk inp s =
     (if g_ge_sock s \<ge> 0 then
        (case ge_pkt inp of
           Some (buf, n) \<Rightarrow> if n > 0 then handle_packet clk (cyc_ge inp) buf n s else s
         | None \<Rightarrow> s)
      else s)"

definition ptp_status :: "ptp \<Rightarrow> string" where
  \<open>ptp_status s =
     snprintf_buf 72 (''{"offset_ns":'' @ dec_int (sint (htsn_ptp_offset_ns s)) @
       '',"jitter_ns":0,"state":'' @ dec_int (if htsn_ptp_is_locked s then 0 else 2) @ ''}'')\<close>

definition ptp_report :: "ptp \<Rightarrow> eth \<Rightarrow> ptp \<times> eth" where
  "ptp_report s e =
     (let s1 = s\<lparr>iters := iters s + 1\<rparr>
      in if iters s1 \<ge> 1000
         then (s1\<lparr>iters := 0\<rparr>, htsn_net_publish_telemetry (Some ''ptp'') (ptp_status s1) e)
         else (s1, e))"

definition ptp_task_step :: "u32 \<Rightarrow> ptp_in \<Rightarrow> ptp \<times> eth \<Rightarrow> ptp \<times> eth" where
  "ptp_task_step clk inp se =
     (let (s, e) = se; s1 = ptp_event_port clk inp s; s2 = ptp_general_port clk inp s1
      in ptp_report s2 e)"

text \<open>The state at the head of the loop, with the descriptors the two \<open>socket()\<close> calls gave.\<close>

definition ptp_start :: "int \<Rightarrow> int \<Rightarrow> ptp" where
  "ptp_start ev ge =
     \<lparr> raw_base = 0, raw_base_cycles = 0, g_c_ns = 0, g_locked = False, g_last_offset_ns = 0,
       g_have_s2 = False, g_s2 = 0, g_have_t1 = False, g_t1 = 0, g_s3 = 0, g_domain = 0,
       g_ev_sock = ev, g_ge_sock = ge, g_gm = (0, 0), g_gm_known = False, iters = 0, ptp_sent = [] \<rparr>"

text \<open>States the task reaches on a sequence of observations that each satisfy a traffic predicate.\<close>

inductive ptp_reach :: "(ptp_in \<Rightarrow> bool) \<Rightarrow> u32 \<Rightarrow> ptp \<times> eth \<Rightarrow> ptp \<times> eth \<Rightarrow> bool"
  for traffic clk start where
  start: "ptp_reach traffic clk start start"
| turn: "ptp_reach traffic clk start se \<Longrightarrow> traffic inp \<Longrightarrow>
           ptp_reach traffic clk start (ptp_task_step clk inp se)"

section \<open>Header timestamps\<close>

text \<open>A byte cut out of a word and put back in place has the word's bits at that place.\<close>

lemma bit_byte_in_place:
  "bit (push_bit k (ucast (ucast (drop_bit k (w :: 'a::len word)) :: byte)) :: 'b::len word) n \<longleftrightarrow>
     k \<le> n \<and> n < k + 8 \<and> n < LENGTH('b) \<and> bit w n"
  by (auto simp: bit_simps)

lemma bit_byte_low:
  "bit (ucast (ucast (w :: 'a::len word) :: byte) :: 'b::len word) n \<longleftrightarrow> n < 8 \<and> n < LENGTH('b) \<and> bit w n"
  by (auto simp: bit_simps)

lemma join_four_bytes:
  "push_bit 24 (ucast (ucast (drop_bit 24 w) :: byte)) OR push_bit 16 (ucast (ucast (drop_bit 16 w) :: byte)) OR
   push_bit 8 (ucast (ucast (drop_bit 8 w) :: byte)) OR ucast (ucast w :: byte) =
   (ucast (w :: 'a::len word) :: u32)"
proof (rule bit_word_eqI)
  fix n assume "n < LENGTH(32)"
  then consider "n < 8" | "8 \<le> n \<and> n < 16" | "16 \<le> n \<and> n < 24" | "24 \<le> n \<and> n < 32" by force
  then show "bit (push_bit 24 (ucast (ucast (drop_bit 24 w) :: byte)) OR
      push_bit 16 (ucast (ucast (drop_bit 16 w) :: byte)) OR
      push_bit 8 (ucast (ucast (drop_bit 8 w) :: byte)) OR ucast (ucast w :: byte) :: u32) n =
      bit (ucast w :: u32) n"
    unfolding bit_or_iff bit_byte_in_place bit_byte_low by cases (simp_all add: bit_ucast_iff)
qed

lemma join_two_bytes:
  "push_bit 8 (ucast (ucast (drop_bit 40 w) :: byte)) OR ucast (ucast (drop_bit 32 w) :: byte) =
   (ucast (drop_bit 32 (w :: u64)) :: u16)"
proof -
  have d: "drop_bit 40 w = drop_bit 8 (drop_bit 32 w)" by simp
  show ?thesis unfolding d
    by (rule bit_word_eqI, unfold bit_or_iff bit_byte_in_place bit_byte_low) (auto simp: bit_ucast_iff)
qed

lemma join_seconds:
  assumes "\<And>n. 48 \<le> n \<Longrightarrow> \<not> bit (sec :: u64) n"
  shows "push_bit 32 (ucast (ucast (drop_bit 32 sec) :: u16)) OR ucast (ucast sec :: u32) = sec"
proof (rule bit_word_eqI)
  fix n assume "n < LENGTH(64)"
  then show "bit (push_bit 32 (ucast (ucast (drop_bit 32 sec) :: u16)) OR ucast (ucast sec :: u32) :: u64) n =
      bit sec n"
    using assms [of n] by (cases "n < 32"; cases "48 \<le> n") (auto simp: bit_simps)
qed

lemma u64_less_no_bit:
  assumes "unat (x :: u64) < 2 ^ k" and "k \<le> n" shows "\<not> bit x n"
proof -
  have "unat x < 2 ^ n" by (rule less_le_trans [OF assms(1)]) (simp add: assms(2))
  then have "take_bit n (unat x) = unat x" by (simp add: take_bit_nat_eq_self_iff)
  then have "\<not> bit (unat x) n" by (metis bit_take_bit_iff less_irrefl)
  then show ?thesis by (simp add: bit_unsigned_iff)
qed

lemma ptp_hdr_time_fields:
  assumes "22 \<le> length b"
  shows "map ((!) (ptp_write_hdr_time b ns)) [12..<22] =
    (let sec = ns div 1000000000; fns = ucast (ns mod 1000000000) :: u32
     in [ucast (drop_bit 40 sec), ucast (drop_bit 32 sec), ucast (drop_bit 24 sec),
         ucast (drop_bit 16 sec), ucast (drop_bit 8 sec), ucast sec, ucast (drop_bit 24 fns),
         ucast (drop_bit 16 fns), ucast (drop_bit 8 fns), ucast fns])"
  using assms by (simp add: ptp_write_hdr_time_def Let_def upt_rec)

text \<open>
  The time a \<open>DELAY_REQ\<close> header carries is the time that was written: for every
  64-bit nanosecond value, reading the 48-bit seconds and 32-bit nanoseconds fields written by
  \<open>ptp_write_hdr_time\<close> with \<open>ptp_hdr_time_ns\<close> gives the value back.
\<close>

theorem ptp_hdr_time_roundtrip:
  assumes "22 \<le> length b"
  shows "ptp_hdr_time_ns (ptp_write_hdr_time b ns) = ns"
proof -
  let ?sec = "ns div 1000000000" and ?f = "ucast (ns mod 1000000000) :: u32"
  have n: "unat ns < 18446744073709551616" using unsigned_less [of ns, where ?'a = nat] by simp
  have "unat ?sec = unat ns div 1000000000" by (simp add: unat_div)
  also have "\<dots> < 2 ^ 48" using n by simp
  finally have hi: "\<not> bit ?sec k" if "48 \<le> k" for k using that u64_less_no_bit by blast
  have "unat (ns mod 1000000000) < 1000000000" by (simp add: unat_mod)
  then have f: "unat ?f = unat (ns mod 1000000000)" by (simp add: unsigned_ucast_eq take_bit_eq_mod)
  have "(ucast ?f :: u64) = ns mod 1000000000"
    by (rule word_unat_eq_iff [THEN iffD2]) (use f in \<open>simp add: unsigned_ucast_eq take_bit_eq_mod unat_mod\<close>)
  moreover have "ptp_hdr_time_ns (ptp_write_hdr_time b ns) = ?sec * 1000000000 + ucast ?f"
    using ptp_hdr_time_fields [OF assms, of ns] join_seconds [OF hi]
    by (simp add: ptp_hdr_time_ns_def Let_def upt_rec join_four_bytes join_two_bytes)
  ultimately show ?thesis by (simp add: word_mod_div_equality)
qed

theorem ptp_hdr_time_roundtrip_witness:
  "ptp_hdr_time_ns (ptp_write_hdr_time (replicate PTP_HDR_LEN 0) 1700000000123456789) = 1700000000123456789"
  by (rule ptp_hdr_time_roundtrip) (simp add: PTP_HDR_LEN_def)

section \<open>The servo\<close>

text \<open>The distance of the clock mapping from a target, as the servo computes it.\<close>

definition clock_error :: "u64 \<Rightarrow> ptp \<Rightarrow> int" where
  "clock_error c s = sint (c - g_c_ns s)"

lemma steer_step:
  "50000000 < \<bar>clock_error c s\<bar> \<Longrightarrow> g_c_ns (steer c s) = c"
  by (auto simp: steer_def clock_error_def Let_def)

lemma sint_small: "\<bar>i\<bar> < 2 ^ 63 \<Longrightarrow> sint (word_of_int i :: i64) = i"
  by (simp add: sint_sbintrunc' signed_take_bit_int_eq_self)

lemma steer_slew:
  assumes "\<bar>clock_error c s\<bar> \<le> 50000000"
  shows "clock_error c (steer c s) = clock_error c s - clock_error c s sdiv 5"
proof -
  let ?d = "clock_error c s"
  have "\<bar>?d - ?d sdiv 5\<bar> < 2 ^ 63" using assms by (auto simp: signed_divide_int_def sgn_if)
  moreover have "c - (g_c_ns s + word_of_int (?d sdiv 5)) = word_of_int (?d - ?d sdiv 5)"
    by (simp add: clock_error_def algebra_simps)
  ultimately have "sint (c - (g_c_ns s + word_of_int (?d sdiv 5))) = ?d - ?d sdiv 5"
    by (simp only: sint_small)
  with assms show ?thesis
    by (auto simp: steer_def clock_error_def Let_def)
qed

lemma abs_minus_sdiv_5: "\<bar>e - e sdiv 5\<bar> = \<bar>e\<bar> - \<bar>e\<bar> div (5 :: int)"
  by (auto simp: signed_divide_int_def sgn_if)

lemma steer_contracts:
  assumes "\<bar>clock_error c s\<bar> \<le> 50000000"
  shows "5 * \<bar>clock_error c (steer c s)\<bar> \<le> 4 * \<bar>clock_error c s\<bar> + 4"
    and "\<bar>clock_error c (steer c s)\<bar> \<le> \<bar>clock_error c s\<bar>"
  unfolding steer_slew [OF assms] abs_minus_sdiv_5 by simp_all

lemma steer_small: "\<bar>clock_error c s\<bar> \<le> 4 \<Longrightarrow> \<bar>clock_error c (steer c s)\<bar> \<le> 4"
  using steer_contracts(2) [of c s] by simp

lemma steer_pow_small: "\<bar>clock_error c s\<bar> \<le> 4 \<Longrightarrow> \<bar>clock_error c ((steer c ^^ k) s)\<bar> \<le> 4"
  by (induction k) (simp_all add: steer_small)

lemma steer_pow_bound:
  assumes "\<bar>clock_error c s\<bar> \<le> 50000000"
  shows "\<bar>clock_error c ((steer c ^^ k) s)\<bar> \<le> 50000000 \<and>
    5 ^ k * (\<bar>clock_error c ((steer c ^^ k) s)\<bar> - 4) \<le> 4 ^ k * 50000000"
proof (induction k)
  case 0
  with assms show ?case by simp
next
  case (Suc k)
  let ?t = "(steer c ^^ k) s"
  have a: "\<bar>clock_error c ?t\<bar> \<le> 50000000" using Suc by simp
  have "5 * (\<bar>clock_error c (steer c ?t)\<bar> - 4) \<le> 4 * (\<bar>clock_error c ?t\<bar> - 4)"
    using steer_contracts(1) [OF a] by simp
  then have "5 ^ k * (5 * (\<bar>clock_error c (steer c ?t)\<bar> - 4)) \<le> 5 ^ k * (4 * (\<bar>clock_error c ?t\<bar> - 4))"
    by (rule mult_left_mono) simp
  also have "\<dots> = 4 * (5 ^ k * (\<bar>clock_error c ?t\<bar> - 4))" by simp
  also have "\<dots> \<le> 4 * (4 ^ k * 50000000)" using Suc by simp
  finally have "5 ^ Suc k * (\<bar>clock_error c (steer c ?t)\<bar> - 4) \<le> 4 ^ Suc k * 50000000"
    by (simp only: power_Suc ac_simps)
  with steer_contracts(2) [OF a] a show ?case by simp
qed

text \<open>
  The clock servo converges: whatever the initial mapping, after 80 or more completed
  exchanges with the same target the mapping is within 4 nanoseconds of it, and the clock is
  locked. (A larger error is removed by one step; a smaller one shrinks by a fifth each time.)
\<close>

theorem steer_converges:
  "\<bar>clock_error c ((steer c ^^ (80 + k)) s)\<bar> \<le> 4 \<and> g_locked ((steer c ^^ (80 + k)) s)"
proof -
  have "\<bar>clock_error c ((steer c ^^ 80) s)\<bar> \<le> 4"
  proof (cases "\<bar>clock_error c s\<bar> \<le> 50000000")
    case True
    have "5 ^ 80 * (\<bar>clock_error c ((steer c ^^ 80) s)\<bar> - 4) \<le> (4 :: int) ^ 80 * 50000000"
      using steer_pow_bound [OF True] by blast
    also have "\<dots> < 5 ^ 80 * 1" by simp
    finally have "\<bar>clock_error c ((steer c ^^ 80) s)\<bar> - 4 < 1"
      by (simp only: mult_less_cancel_left_pos zero_less_power zero_less_numeral)
    then show ?thesis by simp
  next
    case False
    then have "clock_error c (steer c s) = 0" using steer_step [of c s] by (simp add: clock_error_def)
    then have "\<bar>clock_error c ((steer c ^^ 79) (steer c s))\<bar> \<le> 4" by (intro steer_pow_small) simp
    then show ?thesis using funpow_Suc_right [of 79 "steer c"] by simp
  qed
  moreover have "(steer c ^^ (80 + k)) s = (steer c ^^ k) ((steer c ^^ 80) s)"
    by (simp only: add.commute [of 80] funpow_add o_apply)
  moreover have "g_locked ((steer c ^^ Suc n) s)" for n by (simp add: steer_def Let_def)
  then have "g_locked ((steer c ^^ (80 + k)) s)"
    by (metis add_Suc numeral_eq_Suc)
  ultimately show ?thesis by (simp only: steer_pow_small)
qed

section \<open>The exchange over the task loop\<close>

text \<open>
  IEEE 1588 over UDP: delay responses travel on the general port, \<open>SYNC\<close> on the event port.
\<close>

definition conforming :: "ptp_in \<Rightarrow> bool" where
  "conforming inp \<longleftrightarrow>
     (case ev_pkt inp of Some (_, buf, _) \<Rightarrow> ptp_type buf \<noteq> PTP_DELAY_RESP | None \<Rightarrow> True) \<and>
     (case ge_pkt inp of Some (buf, _) \<Rightarrow> ptp_type buf \<noteq> PTP_SYNC | None \<Rightarrow> True)"

definition unlocked :: "ptp \<Rightarrow> bool" where
  "unlocked s \<longleftrightarrow> \<not> g_locked s \<and> g_c_ns s = 0 \<and> (g_have_s2 s \<longrightarrow> g_gm_known s) \<and>
     raw_base s = 0 \<and> raw_base_cycles s = 0"

lemma raw_ns_plain:
  assumes "raw_base s = 0" and "raw_base_cycles s = 0"
  shows "raw_ns clk c s = ((ucast c * 1000000000) div ucast clk, s)"
  using assms by (simp add: raw_ns_def Let_def)

lemma handle_packet_unlocked:
  assumes "unlocked s" and "ptp_type buf = PTP_SYNC \<Longrightarrow> g_gm_known s"
    and "ptp_type buf = PTP_DELAY_RESP \<Longrightarrow> \<not> (g_have_t1 s \<and> g_have_s2 s)"
  shows "unlocked (handle_packet clk c buf n s)"
  using assms by (auto simp: handle_packet_def unlocked_def raw_ns_plain Let_def)

lemma handle_packet_gm [simp]: "g_gm_known (handle_packet clk c buf n s) = g_gm_known s"
  by (auto simp: handle_packet_def raw_ns_def steer_def Let_def)

lemma ptp_event_port_unlocked:
  assumes "unlocked s" and "conforming inp"
  shows "unlocked (ptp_event_port clk inp s)"
proof -
  have req: "unlocked (snd (send_delay_req clk c1 c2 t) \<lparr>g_s3 := x, g_have_t1 := False\<rparr>)" if "unlocked t"
    for t c1 c2 x
    using that by (auto simp: send_delay_req_def htsn_ptp_time_ns_def unlocked_def raw_ns_plain Let_def)
  have gm: "unlocked (if \<not> g_gm_known s then s\<lparr>g_gm := src, g_gm_known := True\<rparr> else s)" for src
    using assms(1) by (simp add: unlocked_def)
  have "unlocked (case ev_pkt inp of
      Some (src, buf, n) \<Rightarrow>
        if n > 0 then
          handle_packet clk (cyc_ev inp) buf n
            (if \<not> g_gm_known s then s\<lparr>g_gm := src, g_gm_known := True\<rparr> else s)
        else s
    | None \<Rightarrow> s)"
    using assms gm by (auto simp: conforming_def split: option.splits intro!: handle_packet_unlocked)
  with assms(1) req show ?thesis
    by (auto simp: ptp_event_port_def Let_def case_prod_beta)
qed

text \<open>After the event port has been served, no complete pair of timestamps is left waiting.\<close>

lemma ptp_event_port_pair:
  assumes "unlocked s" and "conforming inp" and "0 \<le> g_ev_sock s"
  shows "\<not> (g_have_t1 (ptp_event_port clk inp s) \<and> g_have_s2 (ptp_event_port clk inp s))"
proof -
  let ?r = "case ev_pkt inp of
      Some (src, buf, n) \<Rightarrow>
        if n > 0 then
          handle_packet clk (cyc_ev inp) buf n
            (if \<not> g_gm_known s then s\<lparr>g_gm := src, g_gm_known := True\<rparr> else s)
        else s
    | None \<Rightarrow> s"
  have "g_have_s2 ?r \<longrightarrow> g_gm_known ?r"
    using assms(1) by (auto simp: unlocked_def split: option.splits)
  then show ?thesis
    using assms(3) by (auto simp: ptp_event_port_def Let_def case_prod_beta)
qed


lemma raw_ns_sock [simp]: "g_ev_sock (snd (raw_ns clk c s)) = g_ev_sock s"
  by (simp add: raw_ns_def Let_def)

lemma handle_packet_sock [simp]: "g_ev_sock (handle_packet clk c buf n s) = g_ev_sock s"
  by (simp add: handle_packet_def case_prod_beta steer_def Let_def)

lemma send_delay_req_sock [simp]: "g_ev_sock (snd (send_delay_req clk c1 c2 s)) = g_ev_sock s"
  by (simp add: send_delay_req_def htsn_ptp_time_ns_def case_prod_beta Let_def)

lemma ptp_event_port_sock [simp]: "g_ev_sock (ptp_event_port clk inp s) = g_ev_sock s"
  by (simp add: ptp_event_port_def Let_def case_prod_beta split: option.splits)

lemma ptp_general_port_sock [simp]: "g_ev_sock (ptp_general_port clk inp s) = g_ev_sock s"
  by (simp add: ptp_general_port_def Let_def split: option.splits)

lemma ptp_report_fields:
  assumes "ptp_report s e = (t, e')"
  shows "unlocked t = unlocked s" and "g_ev_sock t = g_ev_sock s"
  using assms by (auto simp: ptp_report_def unlocked_def Let_def split: if_splits)

lemma ptp_task_step_unlocked:
  assumes "unlocked (fst se)" and "0 \<le> g_ev_sock (fst se)" and "conforming inp"
  shows "unlocked (fst (ptp_task_step clk inp se)) \<and> 0 \<le> g_ev_sock (fst (ptp_task_step clk inp se))"
proof -
  obtain s e where se: "se = (s, e)" by (cases se)
  let ?u = "ptp_event_port clk inp s" and ?v = "ptp_general_port clk inp (ptp_event_port clk inp s)"
  have "unlocked ?u" "\<not> (g_have_t1 ?u \<and> g_have_s2 ?u)"
    using ptp_event_port_unlocked ptp_event_port_pair assms se by auto
  then have "unlocked ?v"
    using assms(3)
    by (auto simp: ptp_general_port_def conforming_def split: option.splits intro!: handle_packet_unlocked)
  moreover have "0 \<le> g_ev_sock ?v" using assms(2) se by simp
  moreover obtain t e' where "ptp_report ?v e = (t, e')" by (cases "ptp_report ?v e")
  ultimately show ?thesis using ptp_report_fields [of ?v e t e'] by (simp add: ptp_task_step_def se Let_def)
qed

lemma ptp_reach_unlocked:
  assumes "ptp_reach conforming clk (ptp_start ev ge, e) se" and "0 \<le> ev"
  shows "unlocked (fst se) \<and> 0 \<le> g_ev_sock (fst se)"
  using assms(1)
proof induction
  case start
  with assms(2) show ?case by (simp add: ptp_start_def unlocked_def)
next
  case (turn se inp)
  then show ?case using ptp_task_step_unlocked by blast
qed

text \<open>
  With a grandmaster that follows IEEE 1588 (delay responses on the general port,
  \<open>SYNC\<close> on the event port) the slave never locks: sending the \<open>DELAY_REQ\<close> clears
  \<open>g_have_t1\<close>, which the handler of the \<open>DELAY_RESP\<close> requires. In every reachable state the clock
  mapping is still zero, the reported time is the raw cycle counter scaled by the processor clock, and
  the lock flag is false.
\<close>

theorem ptp_never_locks:
  assumes "ptp_reach conforming clk (ptp_start ev ge, e) (s, e')" and "0 \<le> ev"
  shows "\<not> htsn_ptp_is_locked s \<and> g_c_ns s = 0 \<and>
    htsn_ptp_time_ns clk c s = ((ucast c * 1000000000) div ucast clk, s)"
  using ptp_reach_unlocked [OF assms]
  by (simp add: htsn_ptp_is_locked_def unlocked_def htsn_ptp_time_ns_def raw_ns_plain)

text \<open>A two-step exchange: \<open>SYNC\<close> on the event port, \<open>FOLLOW_UP\<close>, then \<open>DELAY_RESP\<close>.\<close>

definition ptp_msg :: "byte \<Rightarrow> byte list" where
  "ptp_msg ty = (replicate 128 0)[1 := ty, 2 := 2, 47 := 9]"

definition ptp_turn :: "byte option \<Rightarrow> byte option \<Rightarrow> ptp_in" where
  "ptp_turn ev ge = \<lparr> ev_pkt = map_option (\<lambda>t. ((1, 319), ptp_msg t, 48)) ev,
     ge_pkt = map_option (\<lambda>t. (ptp_msg t, 54)) ge, cyc_ev = 10, cyc_req = 20, cyc_s3 = 30, cyc_ge = 40 \<rparr>"

theorem ptp_never_locks_witness:
  "\<forall>e. \<exists>s e'. ptp_reach conforming 216000000 (ptp_start 3 4, e) (s, e') \<and> \<not> htsn_ptp_is_locked s"
proof
  fix e
  let ?i = "ptp_turn (Some PTP_SYNC) (Some PTP_FOLLOW_UP)" and ?j = "ptp_turn None (Some PTP_DELAY_RESP)"
  have c: "conforming ?i" "conforming ?j"
    by (simp_all add: conforming_def ptp_turn_def ptp_msg_def ptp_type_def ptp_types)
  let ?se = "ptp_task_step 216000000 ?j (ptp_task_step 216000000 ?i (ptp_start 3 4, e))"
  have r: "ptp_reach conforming 216000000 (ptp_start 3 4, e) (fst ?se, snd ?se)"
    using c by (auto intro!: ptp_reach.intros)
  have "\<not> htsn_ptp_is_locked (fst ?se)"
    using ptp_never_locks [OF r] by simp
  with r show "\<exists>s e'. ptp_reach conforming 216000000 (ptp_start 3 4, e) (s, e') \<and> \<not> htsn_ptp_is_locked s"
    by blast
qed

end
