(* ===== verification/Esp_Ptp.thy ===== *)
theory Esp_Ptp
  imports Agent Ptp_Slave
begin

text \<open>
  The clock of the ESP32 agent (htsn_ptp.c): messages, the handler of received packets, one turn of the sending task, and set-up. Readings of the
  clock, received packets and the contents of uninitialised arrays are inputs. The lemmas show that the offset is measured
  as the messages say, and what the STM32 endpoint makes of these messages.
\<close>

unbundle bit_operations_syntax

section \<open>State\<close>

definition PTP_PDELAY_REQ :: byte where "PTP_PDELAY_REQ = 0x2"
definition PTP_PDELAY_RESP :: byte where "PTP_PDELAY_RESP = 0x3"
definition PTP_PAYLOAD_OFFSET :: nat where "PTP_PAYLOAD_OFFSET = 34"

text \<open>
  The static variables of htsn_ptp.c. \<open>ep_sent\<close> records the datagrams given to \<open>sendto\<close> (all go to the event port of the multicast group), \<open>ep_reports\<close>
  the payloads published on tsn/ptp.
\<close>

record esp_ptp =
  ep_uuid :: "byte list"
  ep_port :: u16
  ep_mode :: int
  ep_run :: bool
  ep_offset_ns :: int
  ep_jitter_ns :: int
  ep_state :: int
  ep_rmode :: int
  ep_grandmaster :: string
  ep_grandmaster_id :: string
  ep_clock_identity :: string
  ep_device_id :: string
  ep_mq :: bool
  ep_event_fd :: int
  ep_general_fd :: int
  ep_last_sync_local :: int
  ep_last_sync_gm :: int
  ep_delayreq_local :: int
  ep_seq :: u16
  ep_pseq :: u16
  ep_sent :: "byte list list"
  ep_reports :: "string list"

section \<open>Messages\<close>

text \<open>\<open>b\<close> is the caller's array of 64 bytes; byte 31 is not written.\<close>

definition build_header :: "byte list \<Rightarrow> byte \<Rightarrow> u16 \<Rightarrow> u16 \<Rightarrow> esp_ptp \<Rightarrow> byte list" where
  "build_header b msgtype len seq s =
     [2, msgtype, 0, 0, ucast (drop_bit 8 len), ucast len, 0, 2, 0, 0, 0, 0, 0, 0, 0, 0, 0, 0] @
     take 8 (ep_uuid s) @
     [ucast (drop_bit 8 (ep_port s)), ucast (ep_port s), ucast (drop_bit 8 seq), ucast seq,
      (if msgtype = PTP_SYNC then 0 else drop_bit 4 msgtype), b ! 31, 0, 0] @ drop 34 b"

definition set_timestamp :: "nat \<Rightarrow> int \<Rightarrow> byte list \<Rightarrow> byte list" where
  "set_timestamp p ns b =
     (let sec = word_of_int (c_div ns 1000000000) :: u64; nsec = word_of_int (ns - c_div ns 1000000000 * 1000000000) :: u32
      in take p b @ map (\<lambda>i. ucast (drop_bit (8 * i) sec)) (rev [0..<6]) @ map (\<lambda>i. ucast (drop_bit (8 * i) nsec)) (rev [0..<4]) @ drop (p + 10) b)"

definition be_fold :: "byte list \<Rightarrow> 'a::len word" where
  "be_fold bs = foldl (\<lambda>v x. push_bit 8 v OR ucast x) 0 bs"

definition read_timestamp :: "nat \<Rightarrow> byte list \<Rightarrow> int" where
  "read_timestamp p b =
     int64_wrap (uint (be_fold (map (\<lambda>i. b ! (p + i)) [0..<6]) :: u64) * 1000000000 + uint (be_fold (map (\<lambda>i. b ! (p + 6 + i)) [0..<4]) :: u32))"

definition ptp_send_event :: "byte list \<Rightarrow> esp_ptp \<Rightarrow> esp_ptp" where
  "ptp_send_event buf s = (if ep_event_fd s < 0 then s else s\<lparr>ep_sent := ep_sent s @ [buf]\<rparr>)"

definition ptp_send_general :: "byte list \<Rightarrow> esp_ptp \<Rightarrow> esp_ptp" where
  "ptp_send_general buf s = (if ep_general_fd s < 0 then s else s\<lparr>ep_sent := ep_sent s @ [buf]\<rparr>)"

definition ptp_message :: "byte list \<Rightarrow> byte \<Rightarrow> nat \<Rightarrow> u16 \<Rightarrow> int \<Rightarrow> esp_ptp \<Rightarrow> byte list" where
  "ptp_message b msgtype len seq ns s = take len (set_timestamp PTP_PAYLOAD_OFFSET ns (build_header b msgtype (word_of_nat len) seq s))"

text \<open>The arrays \<open>b\<close> and \<open>fu\<close> are not initialised by the code; \<open>t1\<close> and \<open>t2\<close> are the clock at its readings.\<close>

definition send_sync :: "byte list \<Rightarrow> byte list \<Rightarrow> u16 \<Rightarrow> int \<Rightarrow> int \<Rightarrow> esp_ptp \<Rightarrow> esp_ptp" where
  "send_sync b fu seq t1 t2 s =
     (let s1 = ptp_send_event (ptp_message b PTP_SYNC 44 seq t1 s) s
      in ptp_send_event (ptp_message fu PTP_FOLLOW_UP 44 seq t2 s1) s1)"

definition send_delayreq :: "byte list \<Rightarrow> u16 \<Rightarrow> int \<Rightarrow> esp_ptp \<Rightarrow> u16 \<times> esp_ptp" where
  "send_delayreq b seq t s =
     (let s1 = s\<lparr>ep_delayreq_local := t\<rparr> in (seq + 1, ptp_send_event (ptp_message b PTP_DELAY_REQ 42 seq t s1) s1))"

definition send_pdelayreq :: "byte list \<Rightarrow> u16 \<Rightarrow> int \<Rightarrow> esp_ptp \<Rightarrow> u16 \<times> esp_ptp" where
  "send_pdelayreq b seq t s = (seq + 1, ptp_send_event (ptp_message b PTP_PDELAY_REQ 44 seq t s) s)"

text \<open>\<open>buf\<close> is the receive buffer of 256 bytes, of which \<open>len\<close> were received, \<open>t\<close> the clock.\<close>

definition process_packet :: "byte list \<Rightarrow> int \<Rightarrow> byte list \<Rightarrow> int \<Rightarrow> esp_ptp \<Rightarrow> esp_ptp" where
  "process_packet resp t buf len s =
     (if len < int PTP_PAYLOAD_OFFSET then s
      else
        (let mt = buf ! 1
         in if mt = PTP_SYNC \<and> ep_mode s \<noteq> 1 then s\<lparr>ep_last_sync_local := t\<rparr>
            else if mt = PTP_FOLLOW_UP \<and> ep_mode s \<noteq> 1 then
              (let gm = read_timestamp PTP_PAYLOAD_OFFSET buf; s1 = s\<lparr>ep_last_sync_gm := gm\<rparr>
               in if ep_last_sync_local s1 \<noteq> 0 then
                    (let d = int64_wrap (gm - ep_last_sync_local s1); off = (if d < 0 then int64_wrap (- d) else d)
                     in s1\<lparr>ep_offset_ns := off, ep_jitter_ns := (if ep_jitter_ns s1 < off then off else ep_jitter_ns s1),
                          ep_state := (if off < 100000000 then 0 else 1)\<rparr>)
                  else s1)
            else if mt = PTP_DELAY_REQ \<and> ep_mode s = 1 then
              (let s1 = s\<lparr>ep_seq := ep_seq s + 1\<rparr> in ptp_send_general (ptp_message resp PTP_DELAY_RESP 42 (ep_seq s) t s) s1)
            else if mt = PTP_PDELAY_REQ then
              (let s1 = s\<lparr>ep_pseq := ep_pseq s + 1\<rparr> in ptp_send_event (ptp_message resp PTP_PDELAY_RESP 44 (ep_pseq s) t s) s1)
            else s))"

section \<open>The two tasks\<close>

record ptp_tx =
  tx_seq :: u16
  tx_last_sync :: int
  tx_last_dreq :: int
  tx_last_pdreq :: int
  tx_last_rep :: int

text \<open>What one turn of the sending task observes: the clock at its readings in order, and the contents of uninitialised arrays.\<close>

record ptp_tx_in =
  ti_t :: int
  ti_t1 :: int
  ti_t2 :: int
  ti_b :: "byte list"
  ti_b2 :: "byte list"

definition ptp_report_text :: "esp_ptp \<Rightarrow> string" where
  "ptp_report_text s = snprintf_buf 320
     (''{'' @ js_str ''id'' (ep_device_id s) @ '','' @ js_num ''offset_ns'' (ep_offset_ns s) @ '','' @ js_num ''jitter_ns'' (ep_jitter_ns s) @
      '','' @ js_num ''state'' (ep_state s) @ '','' @ js_num ''mode'' (ep_rmode s) @ '','' @ js_str ''grandmaster'' (ep_grandmaster s) @ '','' @
      js_str ''grandmaster_id'' (ep_grandmaster_id s) @ '','' @ js_str ''clock_identity'' (ep_clock_identity s) @ ''}'')"

definition ptp_tx_init :: "esp_ptp \<Rightarrow> ptp_tx \<times> esp_ptp" where
  "ptp_tx_init s =
     (\<lparr>tx_seq = 1, tx_last_sync = 0, tx_last_dreq = 0, tx_last_pdreq = 0, tx_last_rep = 0\<rparr>,
      s\<lparr>ep_last_sync_gm := 0, ep_last_sync_local := 0, ep_delayreq_local := 0, ep_offset_ns := 0, ep_jitter_ns := 0\<rparr>)"

text \<open>The three parts of a turn: synchronisation by the grandmaster, requests by a follower, the report.\<close>

definition tx_master :: "ptp_tx_in \<Rightarrow> ptp_tx \<times> esp_ptp \<Rightarrow> ptp_tx \<times> esp_ptp" where
  "tx_master inp xs =
     (if ti_t inp - tx_last_sync (fst xs) \<ge> 1000000000
      then ((fst xs)\<lparr>tx_last_sync := ti_t inp, tx_seq := tx_seq (fst xs) + 1\<rparr>,
            send_sync (ti_b inp) (ti_b2 inp) (tx_seq (fst xs)) (ti_t1 inp) (ti_t2 inp) (snd xs))
      else xs)"

definition tx_pdelay :: "ptp_tx_in \<Rightarrow> ptp_tx \<times> esp_ptp \<Rightarrow> ptp_tx \<times> esp_ptp" where
  "tx_pdelay inp xs =
     (if ti_t inp - tx_last_pdreq (fst xs) \<ge> 500000000
      then (let r = send_pdelayreq (ti_b inp) (tx_seq (fst xs)) (ti_t1 inp) (snd xs)
            in ((fst xs)\<lparr>tx_last_pdreq := ti_t inp, tx_seq := fst r\<rparr>, snd r))
      else xs)"

definition tx_delay :: "ptp_tx_in \<Rightarrow> ptp_tx \<times> esp_ptp \<Rightarrow> ptp_tx \<times> esp_ptp" where
  "tx_delay inp xs =
     (if ti_t inp - tx_last_dreq (fst xs) \<ge> 2000000000
      then (let r = send_delayreq (ti_b2 inp) (tx_seq (fst xs)) (ti_t2 inp) (snd xs)
            in ((fst xs)\<lparr>tx_last_dreq := ti_t inp, tx_seq := fst r\<rparr>, snd r))
      else xs)"

definition tx_report :: "ptp_tx_in \<Rightarrow> ptp_tx \<times> esp_ptp \<Rightarrow> ptp_tx \<times> esp_ptp" where
  "tx_report inp xs =
     (if ep_mode (snd xs) \<noteq> 0 \<and> ti_t inp - tx_last_rep (fst xs) \<ge> 2000000000
      then ((fst xs)\<lparr>tx_last_rep := ti_t inp\<rparr>,
            if ep_mq (snd xs) then (snd xs)\<lparr>ep_reports := ep_reports (snd xs) @ [ptp_report_text (snd xs)]\<rparr> else snd xs)
      else xs)"

definition ptp_tx_turn :: "ptp_tx_in \<Rightarrow> ptp_tx \<times> esp_ptp \<Rightarrow> ptp_tx \<times> esp_ptp" where
  "ptp_tx_turn inp xs =
     tx_report inp
       (if ep_mode (snd xs) = 1 then tx_master inp xs
        else if ep_mode (snd xs) = 2 \<or> ep_mode (snd xs) = 3 then tx_delay inp (tx_pdelay inp xs)
        else xs)"

section \<open>Set-up\<close>

definition htsn_ptp_setup :: "string option \<Rightarrow> bool \<Rightarrow> esp_ptp \<Rightarrow> esp_ptp" where
  "htsn_ptp_setup device_id mq s =
     (let s1 = (case device_id of Some d \<Rightarrow> s\<lparr>ep_device_id := snprintf_buf 32 d\<rparr> | None \<Rightarrow> s)
      in s1\<lparr>ep_clock_identity := snprintf_buf 64 (ep_device_id s1), ep_mq := mq\<rparr>)"

text \<open>\<open>ev\<close> and \<open>ge\<close>: the results of the two calls of \<open>make_udp\<close>; \<open>tasks\<close>: whether both tasks were created.\<close>

definition htsn_ptp_start :: "int \<Rightarrow> int \<Rightarrow> bool \<Rightarrow> esp_ptp \<Rightarrow> int \<times> esp_ptp" where
  "htsn_ptp_start ev ge tasks s =
     (if ep_run s then (0, s)
      else
        (let d = map byte_of (ep_device_id s) @ [0];
             idlen = max 1 (length (ep_device_id s));
             c0 = ucast (d ! 0) :: u16;
             s1 = s\<lparr>ep_uuid := map (\<lambda>i. d ! (i mod idlen)) [0..<8], ep_port := (if c0 \<noteq> 0 then c0 else 1) OR 1, ep_event_fd := ev, ep_general_fd := ge\<rparr>
         in if ev < 0 \<or> ge < 0 then (-1, s1)
            else if tasks then (0, s1\<lparr>ep_run := True\<rparr>) else (-1, s1\<lparr>ep_run := False\<rparr>)))"

definition htsn_ptp_apply :: "int \<Rightarrow> string option \<Rightarrow> esp_ptp \<Rightarrow> esp_ptp" where
  "htsn_ptp_apply mode grandmaster s0 =
     (let s = s0\<lparr>ep_mode := mode, ep_rmode := mode\<rparr>;
          name = (case grandmaster of Some g \<Rightarrow> if g \<noteq> [] then g else ''external-master'' | None \<Rightarrow> ''external-master'')
      in if mode = 1 then
           s\<lparr>ep_state := 0, ep_offset_ns := 0, ep_jitter_ns := 0, ep_grandmaster := snprintf_buf 32 (ep_device_id s),
             ep_grandmaster_id := snprintf_buf 64 (ep_device_id s)\<rparr>
         else if mode = 0 then
           s\<lparr>ep_state := 2, ep_offset_ns := 0, ep_jitter_ns := 0, ep_grandmaster := snprintf_buf 32 ''disabled''\<rparr>
         else s\<lparr>ep_grandmaster := snprintf_buf 32 name, ep_grandmaster_id := snprintf_buf 64 name\<rparr>)"

definition esp_ptp_boot :: esp_ptp where
  "esp_ptp_boot =
     \<lparr>ep_uuid = replicate 8 0, ep_port = 0, ep_mode = 0, ep_run = False, ep_offset_ns = 0, ep_jitter_ns = 0, ep_state = 0, ep_rmode = 0,
      ep_grandmaster = [], ep_grandmaster_id = [], ep_clock_identity = [], ep_device_id = ''esp32-01'', ep_mq = False, ep_event_fd = -1,
      ep_general_fd = -1, ep_last_sync_local = 0, ep_last_sync_gm = 0, ep_delayreq_local = 0, ep_seq = 1, ep_pseq = 1, ep_sent = [], ep_reports = []\<rparr>"

section \<open>Timestamps\<close>

lemma be_byte_step: "push_bit 8 (drop_bit (8 * Suc n) w) OR ucast (ucast (drop_bit (8 * n) w) :: byte) = drop_bit (8 * n) (w :: 'a::len word)"
proof (rule bit_word_eqI)
  fix k assume "k < LENGTH('a)"
  then show "bit (push_bit 8 (drop_bit (8 * Suc n) w) OR ucast (ucast (drop_bit (8 * n) w) :: byte)) k = bit (drop_bit (8 * n) w) k"
    unfolding bit_or_iff bit_push_bit_iff bit_drop_bit_eq bit_ucast_iff
    by (cases "k < 8") (auto simp: bit_drop_bit_eq bit_ucast_iff add.commute dest: bit_imp_le_length)
qed

lemma be_fold_bytes:
  assumes "drop_bit (8 * n) w = 0"
  shows "be_fold (map (\<lambda>i. ucast (drop_bit (8 * i) w)) (rev [0..<n])) = (w :: 'a::len word)"
proof -
  have "foldl (\<lambda>v x. push_bit 8 v OR ucast x) (drop_bit (8 * n) w) (map (\<lambda>i. ucast (drop_bit (8 * i) w) :: byte) (rev [0..<n])) = w"
  proof (induction n)
    case (Suc n)
    then show ?case using be_byte_step [of n w] by simp
  qed simp
  then show ?thesis using assms by (simp add: be_fold_def)
qed

lemma take_drop_nth: "p + k \<le> length b \<Longrightarrow> map (\<lambda>i. b ! (p + i)) [0..<k] = take k (drop p b)"
  by (intro nth_equalityI) (auto simp: nth_append)

lemma set_timestamp_fields:
  assumes "p + 10 \<le> length b"
  shows "map (\<lambda>i. set_timestamp p ns b ! (p + i)) [0..<6] = map (\<lambda>i. ucast (drop_bit (8 * i) (word_of_int (c_div ns 1000000000) :: u64))) (rev [0..<6])"
    and "map (\<lambda>i. set_timestamp p ns b ! (p + 6 + i)) [0..<4] =
      map (\<lambda>i. ucast (drop_bit (8 * i) (word_of_int (ns - c_div ns 1000000000 * 1000000000) :: u32))) (rev [0..<4])"
proof -
  have l: "length (set_timestamp p ns b) = length b" using assms by (simp add: set_timestamp_def Let_def)
  show "map (\<lambda>i. set_timestamp p ns b ! (p + i)) [0..<6] = map (\<lambda>i. ucast (drop_bit (8 * i) (word_of_int (c_div ns 1000000000) :: u64))) (rev [0..<6])"
    using assms by (subst take_drop_nth) (simp_all add: l, simp add: set_timestamp_def Let_def)
  show "map (\<lambda>i. set_timestamp p ns b ! (p + 6 + i)) [0..<4] =
      map (\<lambda>i. ucast (drop_bit (8 * i) (word_of_int (ns - c_div ns 1000000000 * 1000000000) :: u32))) (rev [0..<4])"
    using assms by (subst take_drop_nth) (simp_all add: l, simp add: set_timestamp_def Let_def)
qed

lemma drop_bit_small: "uint (w :: 'a::len word) < 2 ^ n \<Longrightarrow> drop_bit n w = 0"
proof -
  assume "uint w < 2 ^ n"
  then have "take_bit n w = w" by (intro word_uint_eqI) (simp add: unsigned_take_bit_eq take_bit_int_eq_self)
  then show ?thesis by (simp only: take_bit_eq_self_iff_drop_bit_eq_0)
qed

lemma read_set_timestamp:
  assumes "p + 10 \<le> length b" and "0 \<le> ns" and "ns < 2 ^ 63"
  shows "read_timestamp p (set_timestamp p ns b) = ns"
proof -
  define sec where "sec = (word_of_int (ns div 1000000000) :: u64)"
  define nsec where "nsec = (word_of_int (ns mod 1000000000) :: u32)"
  have m: "ns - ns div 1000000000 * 1000000000 = ns mod 1000000000" by (simp add: minus_div_mult_eq_mod)
  have q: "0 \<le> ns div 1000000000" "ns div 1000000000 < 2 ^ 48"
    using assms(2) zdiv_mono1 [of ns "2 ^ 63 - 1" 1000000000] assms(3) by (simp_all add: pos_imp_zdiv_nonneg_iff)
  then have us: "uint sec = ns div 1000000000" by (simp add: sec_def uint_word_of_int_eq take_bit_int_eq_self_iff)
  have un: "uint nsec = ns mod 1000000000"
    using pos_mod_bound [of 1000000000 ns] by (simp add: nsec_def uint_word_of_int_eq take_bit_int_eq_self_iff)
  have "drop_bit 48 sec = 0" using q by (intro drop_bit_small) (simp add: us)
  then have s: "be_fold (map (\<lambda>i. ucast (drop_bit (8 * i) sec)) (rev [0..<6])) = sec" by (intro be_fold_bytes) simp
  have "drop_bit 32 nsec = 0" by (intro drop_bit_small) (use uint_lt2p [of nsec] in simp)
  then have n: "be_fold (map (\<lambda>i. ucast (drop_bit (8 * i) nsec)) (rev [0..<4])) = nsec" by (intro be_fold_bytes) simp
  have "read_timestamp p (set_timestamp p ns b) = int64_wrap (uint sec * 1000000000 + uint nsec)"
    unfolding read_timestamp_def set_timestamp_fields [OF assms(1)] using assms(2) s n
    by (simp only: c_div_def if_not_P not_less m sec_def [symmetric] nsec_def [symmetric] if_False)
  also have "\<dots> = int64_wrap ns" by (simp only: us un div_mult_mod_eq)
  also have "\<dots> = ns" using assms(2,3) by (simp add: int64_wrap_id in_i64_def)
  finally show ?thesis .
qed

section \<open>The exchange\<close>

text \<open>Every message of an endpoint has its type in byte 1 and zero in byte 2, where the slave of the STM32 endpoint looks for the version.\<close>

definition ep_ready :: "esp_ptp \<Rightarrow> bool" where
  "ep_ready s \<longleftrightarrow> length (ep_uuid s) = 8"

lemma length_build_header: "ep_ready s \<Longrightarrow> length b = 64 \<Longrightarrow> length (build_header b mt len seq s) = 64"
  by (simp add: build_header_def ep_ready_def)

lemma length_set_timestamp: "p + 10 \<le> length b \<Longrightarrow> length (set_timestamp p ns b) = length b"
  by (simp add: set_timestamp_def Let_def)

lemma ptp_message_head:
  assumes "3 \<le> len"
  shows "ptp_message b mt len seq ns s ! Suc 0 = mt" "ptp_message b mt len seq ns s ! 2 = 0"
proof -
  have "take 3 (ptp_message b mt len seq ns s) = [2, mt, 0]"
    using assms by (simp add: ptp_message_def set_timestamp_def build_header_def PTP_PAYLOAD_OFFSET_def Let_def min_def)
  moreover have "ptp_message b mt len seq ns s ! i = take 3 (ptp_message b mt len seq ns s) ! i" if "i < 3" for i using that by simp
  ultimately show "ptp_message b mt len seq ns s ! Suc 0 = mt" "ptp_message b mt len seq ns s ! 2 = 0" by simp_all
qed

lemma length_ptp_message: "ep_ready s \<Longrightarrow> length b = 64 \<Longrightarrow> len \<le> 64 \<Longrightarrow> length (ptp_message b mt len seq ns s) = len"
  by (simp add: ptp_message_def length_set_timestamp length_build_header PTP_PAYLOAD_OFFSET_def)

lemma read_ptp_message:
  assumes "ep_ready s" and "length b = 64" and "0 \<le> ns" and "ns < 2 ^ 63"
  shows "read_timestamp PTP_PAYLOAD_OFFSET (ptp_message b mt 44 seq ns s @ r) = ns"
proof -
  let ?m = "set_timestamp PTP_PAYLOAD_OFFSET ns (build_header b mt 44 seq s)"
  have l: "length ?m = 64" using assms(1,2) by (simp add: length_set_timestamp length_build_header PTP_PAYLOAD_OFFSET_def)
  have "(take 44 ?m @ r) ! i = ?m ! i" if "i < 44" for i using that l by (simp add: nth_append)
  then have "read_timestamp PTP_PAYLOAD_OFFSET (take 44 ?m @ r) = read_timestamp PTP_PAYLOAD_OFFSET ?m"
    unfolding read_timestamp_def PTP_PAYLOAD_OFFSET_def
    by (intro arg_cong [where f = int64_wrap] arg_cong2 [where f = plus] arg_cong [where f = "\<lambda>x. uint (be_fold x :: u64) * 1000000000"]
        arg_cong [where f = "\<lambda>x. uint (be_fold x :: u32)"] map_cong) auto
  also have "\<dots> = ns" using assms by (intro read_set_timestamp) (simp_all add: length_build_header PTP_PAYLOAD_OFFSET_def)
  finally show ?thesis by (simp add: ptp_message_def)
qed


definition demo_master :: esp_ptp where
  "demo_master = snd (htsn_ptp_start 3 4 True (htsn_ptp_setup None False (htsn_ptp_apply 1 None esp_ptp_boot)))"

lemma demo_master_facts: "ep_ready demo_master" "ep_event_fd demo_master \<ge> 0" "ep_sent demo_master = []"
  by (simp_all add: demo_master_def htsn_ptp_start_def htsn_ptp_setup_def htsn_ptp_apply_def esp_ptp_boot_def ep_ready_def Let_def)



section \<open>The messages on the wire\<close>

text \<open>States of an endpoint under any sequence of turns of its sending task, received packets and changes of the mode, at any times.\<close>

inductive esp_ptp_reach :: "esp_ptp \<Rightarrow> bool" where
  start: "esp_ptp_reach (snd (htsn_ptp_start ev ge tasks (htsn_ptp_setup dev mq (htsn_ptp_apply mode gm esp_ptp_boot))))"
| apply_mode: "esp_ptp_reach s \<Longrightarrow> esp_ptp_reach (htsn_ptp_apply mode gm s)"
| tx: "esp_ptp_reach s \<Longrightarrow> length (ti_b inp) = 64 \<Longrightarrow> length (ti_b2 inp) = 64 \<Longrightarrow> esp_ptp_reach (snd (ptp_tx_turn inp (x, s)))"
| rx: "esp_ptp_reach s \<Longrightarrow> length resp = 64 \<Longrightarrow> esp_ptp_reach (process_packet resp t buf n s)"

definition mute :: "esp_ptp \<Rightarrow> bool" where
  "mute s \<longleftrightarrow> ep_ready s \<and> (\<forall>msg \<in> set (ep_sent s). 42 \<le> length msg \<and> msg ! 2 = 0)"

lemma mute_message:
  assumes "mute s" and "length b = 64" and "42 \<le> len" and "len \<le> 64" and "ep_ready u"
  shows "mute (ptp_send_event (ptp_message b mt len seq ns u) s)" "mute (ptp_send_general (ptp_message b mt len seq ns u) s)"
  using assms ptp_message_head(2) [of len b mt seq ns u] length_ptp_message [of u b len mt seq ns]
  by (auto simp: mute_def ep_ready_def ptp_send_event_def ptp_send_general_def)

lemma mute_fields [simp]:
  "mute (s\<lparr>ep_seq := q\<rparr>) = mute s" "mute (s\<lparr>ep_pseq := q\<rparr>) = mute s" "mute (s\<lparr>ep_delayreq_local := i\<rparr>) = mute s"
  "mute (s\<lparr>ep_reports := rs\<rparr>) = mute s" "mute (s\<lparr>ep_last_sync_local := i\<rparr>) = mute s" "mute (s\<lparr>ep_last_sync_gm := i\<rparr>) = mute s"
  "mute (s\<lparr>ep_offset_ns := i, ep_jitter_ns := j, ep_state := k\<rparr>) = mute s" "ep_ready (s\<lparr>ep_delayreq_local := i\<rparr>) = ep_ready s"
  by (simp_all add: mute_def ep_ready_def)

lemma mute_ready: "mute s \<Longrightarrow> ep_ready s"
  by (simp add: mute_def)

lemma mute_sync: "mute s \<Longrightarrow> length b = 64 \<Longrightarrow> length fu = 64 \<Longrightarrow> mute (send_sync b fu seq t1 t2 s)"
  by (simp add: send_sync_def Let_def mute_message mute_ready)

lemma mute_delayreq: "mute s \<Longrightarrow> length b = 64 \<Longrightarrow> mute (snd (send_delayreq b seq t s))"
  by (simp add: send_delayreq_def Let_def mute_message mute_ready)

lemma mute_pdelayreq: "mute s \<Longrightarrow> length b = 64 \<Longrightarrow> mute (snd (send_pdelayreq b seq t s))"
  by (simp add: send_pdelayreq_def mute_message mute_ready)

lemma mute_apply: "mute s \<Longrightarrow> mute (htsn_ptp_apply mode gm s)"
  by (simp add: htsn_ptp_apply_def mute_def ep_ready_def Let_def)

lemma mute_tx:
  assumes "mute s" and "length (ti_b inp) = 64" and "length (ti_b2 inp) = 64"
  shows "mute (snd (ptp_tx_turn inp (x, s)))"
proof -
  have m: "mute (snd (tx_master inp (x, s)))" using assms by (simp add: tx_master_def mute_sync)
  have p: "mute (snd (tx_pdelay inp (x, s)))" using assms by (simp add: tx_pdelay_def Let_def mute_pdelayreq)
  have d: "mute (snd (tx_delay inp xs))" if "mute (snd xs)" for xs using that assms by (simp add: tx_delay_def Let_def mute_delayreq)
  have r: "mute (snd (tx_report inp xs))" if "mute (snd xs)" for xs using that by (simp add: tx_report_def)
  show ?thesis using assms(1) by (simp add: ptp_tx_turn_def r m d [OF p])
qed

lemma mute_rx: "mute s \<Longrightarrow> length resp = 64 \<Longrightarrow> mute (process_packet resp t buf n s)"
  by (simp add: process_packet_def Let_def mute_message mute_ready)

lemma mute_start: "mute (snd (htsn_ptp_start ev ge tasks (htsn_ptp_setup dev mq (htsn_ptp_apply mode gm esp_ptp_boot))))"
  by (simp add: htsn_ptp_start_def htsn_ptp_setup_def htsn_ptp_apply_def esp_ptp_boot_def mute_def ep_ready_def Let_def split: option.split)

lemma mute_reach: "esp_ptp_reach s \<Longrightarrow> mute s"
  by (induction rule: esp_ptp_reach.induct) (simp_all only: mute_start mute_apply mute_tx mute_rx)

text \<open>
  An STM32 endpoint never follows an ESP32 clock: every message that an ESP32 endpoint has sent, in whatever modes and after whatever packets, has
  a zero where the slave of the STM32 endpoint expects version 2, so the slave is left as it was by each of them.
\<close>

theorem stm32_ignores_esp32_clock:
  assumes "esp_ptp_reach m" and "msg \<in> set (ep_sent m)"
  shows "handle_packet clk c (msg @ r) (int (length msg)) s = s"
proof -
  have "42 \<le> length msg \<and> msg ! 2 = 0" using mute_reach [OF assms(1)] assms(2) by (simp add: mute_def)
  then show ?thesis by (simp add: handle_packet_def ptp_version_def nth_append)
qed

definition demo_sent :: esp_ptp where
  "demo_sent = process_packet (replicate 64 0) 5 (replicate 256 2) 44 demo_master"

theorem stm32_ignores_esp32_clock_witness:
  "\<exists>msg. ep_sent demo_sent = [msg] \<and> handle_packet 480000000 0 (msg @ []) (int (length msg)) (ptp_start 1 2) = ptp_start 1 2"
proof -
  have r: "esp_ptp_reach demo_sent"
    unfolding demo_sent_def demo_master_def by (intro esp_ptp_reach.rx esp_ptp_reach.start) simp
  have "\<exists>msg. ep_sent demo_sent = [msg]"
    using demo_master_facts(2) by (simp add: demo_sent_def process_packet_def ptp_send_event_def demo_master_facts(3) PTP_PAYLOAD_OFFSET_def ptp_types PTP_PDELAY_REQ_def Let_def)
  then obtain msg where "ep_sent demo_sent = [msg]" by blast
  with stm32_ignores_esp32_clock [OF r, of msg 480000000 0 "[]" "ptp_start 1 2"] show ?thesis by simp
qed

end
