(* ===== verification/Esp_Tsn.thy ===== *)
theory Esp_Tsn
  imports Esp_Cfg Esp_Ptp
begin

text \<open>
  The applied TSN configuration of the ESP32 agent (htsn_tsn.c), with the storage and the clock it is connected to. The lemmas show that an applied
  snapshot survives a restart and that the table of streams stays in its bounds. Texts that are only logged are left out.
\<close>

section \<open>State\<close>

definition HTSN_STREAM_MAX_LISTENERS :: nat where "HTSN_STREAM_MAX_LISTENERS = 8"
definition HTSN_STREAM_MAX :: nat where "HTSN_STREAM_MAX = 8"

record htsn_config_snapshot =
  cs_priority :: int
  cs_traffic_class :: int
  cs_bandwidth_kbps :: int
  cs_latency_ms :: int
  cs_preemption :: int
  cs_vlan_id :: int
  cs_group :: string
  cs_timesync_mode :: int
  cs_grandmaster :: string
  cs_tas_cycle_ns :: int
  cs_gcl_entries :: int
  cs_gates :: "int list"
  cs_durations :: "int list"

record htsn_tsn_state =
  ts_priority :: int
  ts_traffic_class :: int
  ts_preemption :: int
  ts_vlan_id :: int
  ts_timesync_mode :: int
  ts_tas_cycle_ns :: int
  ts_gcl_entries :: int
  ts_gates :: "int list"
  ts_durations :: "int list"

record esp_stream =
  es_stream_id :: string
  es_name :: string
  es_talker :: string
  es_listeners :: "string list"
  es_listener_count :: int
  es_vlan_id :: int
  es_max_latency_ns :: int
  es_max_interval_ns :: int
  es_priority :: int
  es_data_frame_prio :: int

text \<open>The static variables of htsn_tsn.c with the storage and the clock they are connected to.\<close>

record 'n esp_tsn =
  et_state :: htsn_tsn_state
  et_loaded :: bool
  et_streams :: "esp_stream list"
  et_nvs :: 'n
  et_ptp :: esp_ptp

definition no_entries :: "int list" where
  "no_entries = replicate HTSN_GCL_MAX 0"

definition no_state :: htsn_tsn_state where
  "no_state = \<lparr>ts_priority = 0, ts_traffic_class = 0, ts_preemption = 0, ts_vlan_id = 0, ts_timesync_mode = 0, ts_tas_cycle_ns = 0,
     ts_gcl_entries = 0, ts_gates = no_entries, ts_durations = no_entries\<rparr>"

text \<open>What the variables are when the device starts.\<close>

definition esp_tsn_boot :: "'n \<Rightarrow> 'n esp_tsn" where
  "esp_tsn_boot n = \<lparr>et_state = no_state, et_loaded = False, et_streams = [], et_nvs = n, et_ptp = esp_ptp_boot\<rparr>"

section \<open>Loading\<close>

text \<open>The local arrays of \<open>load_persisted\<close> are not initialised; only elements that were stored are read.\<close>

definition load_persisted :: "'n nvs \<Rightarrow> 'n esp_tsn \<Rightarrow> 'n esp_tsn" where
  "load_persisted N m =
     (if et_loaded m then m
      else
        (let r = htsn_cfg_load_tsn_state N (et_nvs m)
               \<lparr>sv_priority = 0, sv_traffic_class = 0, sv_vlan_id = 0, sv_preemption = 0, sv_timesync_mode = 0, sv_tas_cycle_ns = 0,
                sv_gates = no_entries, sv_durations = no_entries, sv_gcl_entries = 0\<rparr>;
             v = snd r; k = nat (sv_gcl_entries v); st = et_state m
         in if fst r
            then m\<lparr>et_loaded := True,
                   et_state := \<lparr>ts_priority = sv_priority v, ts_traffic_class = sv_traffic_class v, ts_preemption = sv_preemption v,
                     ts_vlan_id = sv_vlan_id v, ts_timesync_mode = sv_timesync_mode v, ts_tas_cycle_ns = sv_tas_cycle_ns v,
                     ts_gcl_entries = sv_gcl_entries v, ts_gates = take k (sv_gates v) @ drop k (ts_gates st),
                     ts_durations = take k (sv_durations v) @ drop k (ts_durations st)\<rparr>,
                   et_ptp := htsn_ptp_apply (sv_timesync_mode v) (Some (if sv_gcl_entries v \<noteq> 0 then ''persisted'' else ''restored'')) (et_ptp m)\<rparr>
            else m\<lparr>et_loaded := True\<rparr>))"

definition htsn_tsn_get_state :: "'n nvs \<Rightarrow> 'n esp_tsn \<Rightarrow> htsn_tsn_state \<times> 'n esp_tsn" where
  "htsn_tsn_get_state N m = (let m1 = load_persisted N m in (et_state m1, m1))"

section \<open>Applying\<close>

definition htsn_tsn_apply_qos :: "int \<Rightarrow> int \<Rightarrow> int \<Rightarrow> int \<Rightarrow> int \<Rightarrow> 'n esp_tsn \<Rightarrow> 'n esp_tsn" where
  "htsn_tsn_apply_qos pr tc bw_kbps lat_ms pre m =
     m\<lparr>et_state := (et_state m)\<lparr>ts_priority := pr, ts_traffic_class := tc, ts_preemption := pre\<rparr>\<rparr>"

definition htsn_tsn_apply_vlan :: "int \<Rightarrow> 'n esp_tsn \<Rightarrow> 'n esp_tsn" where
  "htsn_tsn_apply_vlan vid m = m\<lparr>et_state := (et_state m)\<lparr>ts_vlan_id := vid\<rparr>\<rparr>"

definition htsn_tsn_apply_timesync :: "int \<Rightarrow> string option \<Rightarrow> 'n esp_tsn \<Rightarrow> 'n esp_tsn" where
  "htsn_tsn_apply_timesync mode gm m =
     m\<lparr>et_state := (et_state m)\<lparr>ts_timesync_mode := mode\<rparr>, et_ptp := htsn_ptp_apply mode gm (et_ptp m)\<rparr>"

definition htsn_tsn_apply_tas :: "int \<Rightarrow> int list option \<Rightarrow> int list option \<Rightarrow> int \<Rightarrow> 'n esp_tsn \<Rightarrow> 'n esp_tsn" where
  "htsn_tsn_apply_tas cycle_ns gates durations entries m =
     (let k = max 0 (min entries (int HTSN_GCL_MAX));
          fill = (\<lambda>a. map (\<lambda>i. if int i < k then (case a of Some xs \<Rightarrow> xs ! i | None \<Rightarrow> 0) else 0) [0..<HTSN_GCL_MAX])
      in m\<lparr>et_state := (et_state m)\<lparr>ts_tas_cycle_ns := cycle_ns, ts_gcl_entries := k, ts_gates := fill gates, ts_durations := fill durations\<rparr>\<rparr>)"

definition htsn_tsn_apply_preemption :: "int \<Rightarrow> 'n esp_tsn \<Rightarrow> 'n esp_tsn" where
  "htsn_tsn_apply_preemption pre m = m\<lparr>et_state := (et_state m)\<lparr>ts_preemption := pre\<rparr>\<rparr>"

definition save_state :: "'n nvs \<Rightarrow> 'n esp_tsn \<Rightarrow> 'n esp_tsn" where
  "save_state N m =
     (let st = et_state m
      in m\<lparr>et_nvs := snd (htsn_cfg_save_tsn_state N (ts_priority st) (ts_traffic_class st) (ts_vlan_id st) (ts_preemption st) (ts_timesync_mode st)
             (ts_tas_cycle_ns st) (Some (ts_gates st)) (Some (ts_durations st)) (ts_gcl_entries st) (et_nvs m))\<rparr>)"

definition htsn_tsn_apply_snapshot :: "'n nvs \<Rightarrow> htsn_config_snapshot option \<Rightarrow> 'n esp_tsn \<Rightarrow> int \<times> 'n esp_tsn" where
  "htsn_tsn_apply_snapshot N cfgo m =
     (case cfgo of
        None \<Rightarrow> (-1, m)
      | Some cfg \<Rightarrow>
          (0, save_state N
                (htsn_tsn_apply_preemption (cs_preemption cfg)
                  (htsn_tsn_apply_tas (cs_tas_cycle_ns cfg) (Some (cs_gates cfg)) (Some (cs_durations cfg)) (cs_gcl_entries cfg)
                    (htsn_tsn_apply_timesync (cs_timesync_mode cfg) (Some (cs_grandmaster cfg))
                      (htsn_tsn_apply_vlan (cs_vlan_id cfg)
                        (htsn_tsn_apply_qos (cs_priority cfg) (cs_traffic_class cfg) (cs_bandwidth_kbps cfg) (cs_latency_ms cfg) (cs_preemption cfg) m)))))))"

definition htsn_tsn_restore :: "'n nvs \<Rightarrow> 'n esp_tsn \<Rightarrow> 'n esp_tsn" where
  "htsn_tsn_restore N m =
     (let m1 = load_persisted N m; mode = ts_timesync_mode (et_state m1)
      in m1\<lparr>et_ptp := htsn_ptp_apply mode (if mode \<noteq> 0 then Some ''persisted'' else None) (et_ptp m1)\<rparr>)"

definition htsn_tsn_reset_state :: "'n nvs \<Rightarrow> 'n esp_tsn \<Rightarrow> 'n esp_tsn" where
  "htsn_tsn_reset_state N m =
     m\<lparr>et_loaded := True, et_state := no_state, et_nvs := snd (htsn_cfg_save_tsn_state N 0 0 0 0 0 0 None None 0 (et_nvs m))\<rparr>"

section \<open>Streams\<close>

definition htsn_tsn_find_stream :: "string option \<Rightarrow> 'n esp_tsn \<Rightarrow> nat option" where
  "htsn_tsn_find_stream ido m = (case ido of None \<Rightarrow> None | Some i \<Rightarrow> find_idx (\<lambda>s. es_stream_id s = i) (et_streams m))"

definition htsn_tsn_apply_stream :: "esp_stream option \<Rightarrow> 'n esp_tsn \<Rightarrow> int \<times> 'n esp_tsn" where
  "htsn_tsn_apply_stream so m =
     (case so of
        None \<Rightarrow> (-1, m)
      | Some s \<Rightarrow>
          if es_listener_count s > int HTSN_STREAM_MAX_LISTENERS then (-1, m)
          else
            (let c = nat (es_listener_count s);
                 dst = s\<lparr>es_listeners := take c (es_listeners s) @ replicate (HTSN_STREAM_MAX_LISTENERS - c) []\<rparr>
             in case htsn_tsn_find_stream (Some (es_stream_id s)) m of
                  Some i \<Rightarrow> (0, m\<lparr>et_streams := (et_streams m)[i := dst]\<rparr>)
                | None \<Rightarrow>
                    if length (et_streams m) \<ge> HTSN_STREAM_MAX then (-1, m)
                    else (0, m\<lparr>et_streams := et_streams m @ [dst]\<rparr>)))"

section \<open>A snapshot survives a restart\<close>

definition state_ok :: "htsn_tsn_state \<Rightarrow> bool" where
  "state_ok st \<longleftrightarrow> 0 \<le> ts_gcl_entries st \<and> ts_gcl_entries st \<le> int HTSN_GCL_MAX \<and>
     length (ts_gates st) = HTSN_GCL_MAX \<and> length (ts_durations st) = HTSN_GCL_MAX \<and>
     (\<forall>i < HTSN_GCL_MAX. ts_gcl_entries st \<le> int i \<longrightarrow> ts_gates st ! i = 0 \<and> ts_durations st ! i = 0)"

lemma state_ok_tas: "state_ok (et_state (htsn_tsn_apply_tas c g d k m))"
  by (auto simp: state_ok_def htsn_tsn_apply_tas_def Let_def HTSN_GCL_MAX_def)

lemma state_ok_fields [simp]:
  "state_ok (st\<lparr>ts_preemption := v\<rparr>) = state_ok st" "state_ok (st\<lparr>ts_vlan_id := v\<rparr>) = state_ok st"
  "state_ok (st\<lparr>ts_timesync_mode := v\<rparr>) = state_ok st" "state_ok (st\<lparr>ts_priority := p, ts_traffic_class := c, ts_preemption := v\<rparr>) = state_ok st"
  by (simp_all add: state_ok_def)

lemma state_ok_no_state: "state_ok no_state"
  by (simp add: state_ok_def no_state_def no_entries_def)

lemma pad_entries_self:
  assumes "length xs = HTSN_GCL_MAX" and "\<forall>i < HTSN_GCL_MAX. k \<le> int i \<longrightarrow> xs ! i = 0"
  shows "pad_entries k xs = xs"
  using assms by (intro nth_equalityI) (auto simp: pad_entries_def)

lemma take_zeros:
  assumes "length xs = HTSN_GCL_MAX" and "\<forall>i < HTSN_GCL_MAX. int k \<le> int i \<longrightarrow> xs ! i = 0"
  shows "take k xs @ drop k no_entries = xs"
  using assms by (intro nth_equalityI) (auto simp: no_entries_def nth_append min_def)

context nvs_flash
begin

lemma save_tsn_get:
  assumes "entries > 0 \<Longrightarrow> pad_entries entries g = g \<and> pad_entries entries d = d"
  shows "nvs_get N (snd (htsn_cfg_save_tsn_state N pr tc vl pre tm cy (Some g) (Some d) entries n)) =
    (if entries > 0 then (\<lambda>f. f(''tsn_gates'' \<mapsto> NNums g, ''tsn_durs'' \<mapsto> NNums d)) else (\<lambda>f. f))
      ((nvs_get N n)(''tsn_prio'' \<mapsto> NI32 pr, ''tsn_tc'' \<mapsto> NI32 tc, ''tsn_vlan'' \<mapsto> NI32 vl, ''tsn_pre'' \<mapsto> NI32 pre, ''tsn_tmode'' \<mapsto> NI32 tm,
         ''tsn_cycle'' \<mapsto> NI64 cy, ''tsn_gcl_cnt'' \<mapsto> NI32 entries))"
    and "flash (snd (htsn_cfg_save_tsn_state N pr tc vl pre tm cy (Some g) (Some d) entries n)) =
      nvs_get N (snd (htsn_cfg_save_tsn_state N pr tc vl pre tm cy (Some g) (Some d) entries n))"
proof -
  obtain h where h: "nvs_open_rw N n = Some h" "nvs_get N h = nvs_get N n" by (rule open_rw_cases)
  show "nvs_get N (snd (htsn_cfg_save_tsn_state N pr tc vl pre tm cy (Some g) (Some d) entries n)) =
    (if entries > 0 then (\<lambda>f. f(''tsn_gates'' \<mapsto> NNums g, ''tsn_durs'' \<mapsto> NNums d)) else (\<lambda>f. f))
      ((nvs_get N n)(''tsn_prio'' \<mapsto> NI32 pr, ''tsn_tc'' \<mapsto> NI32 tc, ''tsn_vlan'' \<mapsto> NI32 vl, ''tsn_pre'' \<mapsto> NI32 pre, ''tsn_tmode'' \<mapsto> NI32 tm,
         ''tsn_cycle'' \<mapsto> NI64 cy, ''tsn_gcl_cnt'' \<mapsto> NI32 entries))"
    using h assms by (cases "entries > 0") (simp_all add: htsn_cfg_save_tsn_state_def Let_def get_commit get_set)
  show "flash (snd (htsn_cfg_save_tsn_state N pr tc vl pre tm cy (Some g) (Some d) entries n)) =
      nvs_get N (snd (htsn_cfg_save_tsn_state N pr tc vl pre tm cy (Some g) (Some d) entries n))"
    using h by (simp add: htsn_cfg_save_tsn_state_def Let_def flash_commit get_commit)
qed

text \<open>Starting again on what was saved gives the saved state.\<close>

lemma save_restore:
  assumes "state_ok (et_state m)"
  shows "et_state (htsn_tsn_restore N (esp_tsn_boot (nvs_restart N (et_nvs (save_state N m))))) = et_state m"
proof -
  define st where "st = et_state m"
  define n where "n = nvs_restart N (et_nvs (save_state N m))"
  let ?k = "nat (ts_gcl_entries st)"
  have ok: "0 \<le> ts_gcl_entries st" "ts_gcl_entries st \<le> 32" "length (ts_gates st) = 32" "length (ts_durations st) = 32"
    "\<forall>i < 32. ts_gcl_entries st \<le> int i \<longrightarrow> ts_gates st ! i = 0 \<and> ts_durations st ! i = 0"
    using assms by (simp_all add: state_ok_def st_def HTSN_GCL_MAX_def)
  have pad: "pad_entries (ts_gcl_entries st) (ts_gates st) = ts_gates st \<and> pad_entries (ts_gcl_entries st) (ts_durations st) = ts_durations st"
    using ok by (auto intro!: pad_entries_self simp: HTSN_GCL_MAX_def)
  have z: "take ?k (ts_gates st) @ drop ?k no_entries = ts_gates st" "take ?k (ts_durations st) @ drop ?k no_entries = ts_durations st"
    using ok by (auto intro!: take_zeros simp: HTSN_GCL_MAX_def)
  have g: "nvs_get N n =
    (if ts_gcl_entries st > 0 then (\<lambda>f. f(''tsn_gates'' \<mapsto> NNums (ts_gates st), ''tsn_durs'' \<mapsto> NNums (ts_durations st))) else (\<lambda>f. f))
      ((nvs_get N (et_nvs m))(''tsn_prio'' \<mapsto> NI32 (ts_priority st), ''tsn_tc'' \<mapsto> NI32 (ts_traffic_class st), ''tsn_vlan'' \<mapsto> NI32 (ts_vlan_id st),
         ''tsn_pre'' \<mapsto> NI32 (ts_preemption st), ''tsn_tmode'' \<mapsto> NI32 (ts_timesync_mode st), ''tsn_cycle'' \<mapsto> NI64 (ts_tas_cycle_ns st),
         ''tsn_gcl_cnt'' \<mapsto> NI32 (ts_gcl_entries st)))"
    using save_tsn_get pad by (simp add: n_def save_state_def st_def Let_def get_restart)
  have "nvs_get N n ''tsn_prio'' \<noteq> None" by (simp add: g)
  then have ro: "nvs_open_ro N n" by (metis not_ro)
  have c: "ts_gcl_entries st = 0 \<or> 0 < ts_gcl_entries st" using ok(1) by linarith
  have "et_state (load_persisted N (esp_tsn_boot n)) = st"
    using c
  proof
    assume "ts_gcl_entries st = 0"
    then show ?thesis using z
      by (simp add: load_persisted_def esp_tsn_boot_def htsn_cfg_load_tsn_state_def ro nvs_get_i32_def nvs_get_i64_def opt_get_def g no_state_def Let_def)
  next
    assume "0 < ts_gcl_entries st"
    then show ?thesis using z ok(2-4)
      by (simp add: load_persisted_def esp_tsn_boot_def htsn_cfg_load_tsn_state_def ro nvs_get_i32_def nvs_get_i64_def nvs_get_nums_def opt_get_def g
          no_state_def Let_def HTSN_GCL_MAX_def)
  qed
  then show ?thesis by (simp add: htsn_tsn_restore_def n_def st_def Let_def)
qed

lemma snapshot_ok: "state_ok (et_state (snd (htsn_tsn_apply_snapshot N (Some cfg) m)))"
  using state_ok_tas by (simp add: htsn_tsn_apply_snapshot_def save_state_def htsn_tsn_apply_preemption_def Let_def)

lemma restart_snapshot:
  "et_state (htsn_tsn_restore N (esp_tsn_boot (nvs_restart N (et_nvs (snd (htsn_tsn_apply_snapshot N (Some cfg) m)))))) =
     et_state (snd (htsn_tsn_apply_snapshot N (Some cfg) m))"
proof -
  obtain m' where e: "snd (htsn_tsn_apply_snapshot N (Some cfg) m) = save_state N m'" by (simp add: htsn_tsn_apply_snapshot_def)
  have s: "et_state (save_state N m') = et_state m'" by (simp add: save_state_def Let_def)
  have "state_ok (et_state m')" using snapshot_ok [of cfg m] by (simp add: e s)
  from save_restore [OF this] show ?thesis by (simp add: e s)
qed

end

lemma ptp_apply_facts:
  "ep_mode (htsn_ptp_apply mode go s) = mode"
  "mode \<noteq> 0 \<Longrightarrow> mode \<noteq> 1 \<Longrightarrow> gm \<noteq> [] \<Longrightarrow> ep_grandmaster (htsn_ptp_apply mode (Some gm) s) = snprintf_buf 32 gm"
  by (simp_all add: htsn_ptp_apply_def Let_def)

text \<open>
  C10. An applied snapshot survives a restart: when a snapshot has been applied and the device starts again on what its storage holds, the
  state of the device is the one that was applied, field by field and with the same gate control list (at most 32 entries), and the clock runs in the mode of the
  snapshot. The name of an external grandmaster is not kept: after the restart the clock reports the grandmaster \<open>persisted\<close>.
\<close>

theorem snapshot_survives_restart:
  fixes N :: "'n nvs" and m :: "'n esp_tsn"
  assumes "nvs_flash N flash" and "0 \<le> cs_gcl_entries cfg" and "cs_gcl_entries cfg \<le> 32"
    and "length (cs_gates cfg) = 32" and "length (cs_durations cfg) = 32"
  defines "m' \<equiv> snd (htsn_tsn_apply_snapshot N (Some cfg) m)"
    and "k \<equiv> nat (cs_gcl_entries cfg)"
  shows "let m'' = htsn_tsn_restore N (esp_tsn_boot (nvs_restart N (et_nvs m'))); st = et_state m''
    in st = et_state m' \<and> ts_priority st = cs_priority cfg \<and> ts_traffic_class st = cs_traffic_class cfg \<and> ts_preemption st = cs_preemption cfg \<and>
      ts_vlan_id st = cs_vlan_id cfg \<and> ts_timesync_mode st = cs_timesync_mode cfg \<and> ts_tas_cycle_ns st = cs_tas_cycle_ns cfg \<and>
      ts_gcl_entries st = cs_gcl_entries cfg \<and> take k (ts_gates st) = take k (cs_gates cfg) \<and> take k (ts_durations st) = take k (cs_durations cfg) \<and>
      ep_mode (et_ptp m'') = cs_timesync_mode cfg \<and>
      (cs_timesync_mode cfg \<notin> {0, 1} \<longrightarrow> ep_grandmaster (et_ptp m'') = ''persisted'')"
proof -
  define m'' where "m'' = htsn_tsn_restore N (esp_tsn_boot (nvs_restart N (et_nvs m')))"
  have st: "et_state m'' = et_state m'" unfolding m''_def m'_def by (rule nvs_flash.restart_snapshot [OF assms(1)])
  have f: "ts_priority (et_state m') = cs_priority cfg" "ts_traffic_class (et_state m') = cs_traffic_class cfg"
    "ts_preemption (et_state m') = cs_preemption cfg" "ts_vlan_id (et_state m') = cs_vlan_id cfg" "ts_timesync_mode (et_state m') = cs_timesync_mode cfg"
    "ts_tas_cycle_ns (et_state m') = cs_tas_cycle_ns cfg" "ts_gcl_entries (et_state m') = cs_gcl_entries cfg"
    using assms(2,3)
    by (simp_all add: m'_def htsn_tsn_apply_snapshot_def save_state_def htsn_tsn_apply_preemption_def htsn_tsn_apply_tas_def
        htsn_tsn_apply_timesync_def htsn_tsn_apply_vlan_def htsn_tsn_apply_qos_def HTSN_GCL_MAX_def Let_def)
  have g: "take k (ts_gates (et_state m')) = take k (cs_gates cfg)" "take k (ts_durations (et_state m')) = take k (cs_durations cfg)"
    using assms(2-5)
    by (auto intro!: nth_equalityI simp: k_def m'_def htsn_tsn_apply_snapshot_def save_state_def htsn_tsn_apply_preemption_def htsn_tsn_apply_tas_def
        HTSN_GCL_MAX_def Let_def)
  have mode: "ep_mode (et_ptp m'') = ts_timesync_mode (et_state m'')"
    by (simp add: m''_def htsn_tsn_restore_def ptp_apply_facts Let_def)
  have gm: "ts_timesync_mode (et_state m'') \<notin> {0, 1} \<longrightarrow> ep_grandmaster (et_ptp m'') = ''persisted''"
    by (simp add: m''_def htsn_tsn_restore_def ptp_apply_facts Let_def snprintf_buf_def)
  show ?thesis using st f g mode gm unfolding m''_def [symmetric] Let_def by simp
qed

definition demo_snapshot :: htsn_config_snapshot where
  "demo_snapshot = \<lparr>cs_priority = 5, cs_traffic_class = 3, cs_bandwidth_kbps = 1000, cs_latency_ms = 5, cs_preemption = 1, cs_vlan_id = 100,
     cs_group = ''g'', cs_timesync_mode = 2, cs_grandmaster = ''gm1'', cs_tas_cycle_ns = 1000000, cs_gcl_entries = 2,
     cs_gates = [1, 2] @ replicate 30 0, cs_durations = [500000, 500000] @ replicate 30 0\<rparr>"

lemma demo_snapshot_ok:
  "0 \<le> cs_gcl_entries demo_snapshot" "cs_gcl_entries demo_snapshot \<le> 32" "length (cs_gates demo_snapshot) = 32" "length (cs_durations demo_snapshot) = 32"
  by (simp_all add: demo_snapshot_def)

definition demo_restarted :: "flash_ref esp_tsn" where
  "demo_restarted = htsn_tsn_restore flash_nvs (esp_tsn_boot (nvs_restart flash_nvs
     (et_nvs (snd (htsn_tsn_apply_snapshot flash_nvs (Some demo_snapshot) (esp_tsn_boot blank_flash))))))"

theorem snapshot_survives_restart_witness:
  "ts_priority (et_state demo_restarted) = 5 \<and> take 2 (ts_durations (et_state demo_restarted)) = [500000, 500000] \<and>
   ep_grandmaster (et_ptp demo_restarted) = ''persisted''"
proof -
  note s = snapshot_survives_restart [OF nvs_ref.nvs_flash_axioms demo_snapshot_ok, of "esp_tsn_boot blank_flash", folded demo_restarted_def, unfolded Let_def]
  have "ts_priority (et_state demo_restarted) = cs_priority demo_snapshot"
    "take (nat (cs_gcl_entries demo_snapshot)) (ts_durations (et_state demo_restarted)) = take (nat (cs_gcl_entries demo_snapshot)) (cs_durations demo_snapshot)"
    "cs_timesync_mode demo_snapshot \<notin> {0, 1} \<longrightarrow> ep_grandmaster (et_ptp demo_restarted) = ''persisted''"
    using s by blast+
  then show ?thesis by (simp add: demo_snapshot_def)
qed

section \<open>The table of streams\<close>

definition streams_ok :: "'n esp_tsn \<Rightarrow> bool" where
  "streams_ok m \<longleftrightarrow> length (et_streams m) \<le> HTSN_STREAM_MAX \<and> distinct (map es_stream_id (et_streams m))"

lemma streams_ok_apply: "streams_ok m \<Longrightarrow> streams_ok (snd (htsn_tsn_apply_stream so m))"
proof (cases so)
  case (Some s)
  assume ok: "streams_ok m"
  show ?thesis
  proof (cases "find_idx (\<lambda>x. es_stream_id x = es_stream_id s) (et_streams m)")
    case None
    then have "es_stream_id s \<notin> es_stream_id ` set (et_streams m)" by (auto simp: find_idx_None_iff)
    then show ?thesis using Some None ok
      by (simp add: htsn_tsn_apply_stream_def htsn_tsn_find_stream_def streams_ok_def Let_def)
  next
    case i: (Some i)
    then have "i < length (et_streams m)" "es_stream_id (et_streams m ! i) = es_stream_id s" by (auto dest: find_idx_SomeD)
    then have "map es_stream_id ((et_streams m)[i := s\<lparr>es_listeners := l\<rparr>]) = map es_stream_id (et_streams m)" for l
      by (simp add: map_update list_update_same_conv)
    then show ?thesis using Some i ok
      by (simp add: htsn_tsn_apply_stream_def htsn_tsn_find_stream_def streams_ok_def Let_def del: map_update)
  qed
qed (simp add: htsn_tsn_apply_stream_def)

end
