(* ===== verification/Esp_Agent.thy ===== *)
theory Esp_Agent
  imports Esp_Tsn "HOL-Library.Monad_Syntax"
begin

text \<open>
  The command handler of the ESP32 agent (main/main.c), its start and its subscriptions (htsn_mqtt.c). Drivers of displays, sensors and the sonar are recorded as
  calls; a handler returns \<open>None\<close> when the JSON reader leaves the text. The lemmas show what commands do, over the printed objects
  of \<open>Esp_Json\<close> and the storage of \<open>Esp_Cfg\<close>.
\<close>

section \<open>State\<close>

text \<open>
  Calls of the drivers, in the order they are made; \<open>drivers\<close> has the results the handlers use (the previous mode of the actor, whether a panel
  answers, the level of a button, whether an update was started, the signal strength).
\<close>

datatype hw_call =
    SonarTrigger | ActorSet int | DisplayTelemetry string string | DisplayStatus "string option" "string option" | SetController bool
  | DisplayFill nat | DisplayReadback | DisplayFreeze bool | DisplayDump | DisplayDumpPanel | DisplayQuad | DisplayBars | SonarSetAngle int
  | IdentifyTask | OtaStart string "string option" | WifimotionRecalibrate | DisplaySetHud bool | BuzzerBeep int int

record drivers =
  dr_actor_set :: "int \<Rightarrow> int"
  dr_actor_get :: int
  dr_set_controller :: "bool \<Rightarrow> bool"
  dr_btn :: "int \<Rightarrow> int"
  dr_hud :: bool
  dr_present :: bool
  dr_ota :: "string \<Rightarrow> string option \<Rightarrow> bool"
  dr_rssi :: int

text \<open>
  The state of the agent: identity, the module htsn_tsn.c, messages published, driver calls, the two static buffers of the display command,
  whether an identification is running, and whether \<open>esp_restart\<close> was called (nothing runs after it).
\<close>

record 'n node =
  nd_device_id :: string
  nd_ip :: string
  nd_mqtt :: bool
  nd_has_sensors :: bool
  nd_tsn :: "'n esp_tsn"
  nd_out :: "(string \<times> string) list"
  nd_hw :: "hw_call list"
  nd_dl1 :: string
  nd_dl2 :: string
  nd_identifying :: bool
  nd_restarted :: bool

definition HTSN_FW_VERSION :: string where "HTSN_FW_VERSION = ''1.1.0''"

definition htsn_mqtt_publish :: "string \<Rightarrow> string \<Rightarrow> 'n node \<Rightarrow> 'n node" where
  "htsn_mqtt_publish topic payload d = (if nd_mqtt d then d\<lparr>nd_out := nd_out d @ [(topic, payload)]\<rparr> else d)"

definition hw :: "hw_call \<Rightarrow> 'n node \<Rightarrow> 'n node" where
  "hw c d = d\<lparr>nd_hw := nd_hw d @ [c]\<rparr>"

definition with_tsn :: "('n esp_tsn \<Rightarrow> 'n esp_tsn) \<Rightarrow> 'n node \<Rightarrow> 'n node" where
  "with_tsn f d = d\<lparr>nd_tsn := f (nd_tsn d)\<rparr>"

definition with_nvs :: "('n \<Rightarrow> 'n) \<Rightarrow> 'n node \<Rightarrow> 'n node" where
  "with_nvs f d = d\<lparr>nd_tsn := (nd_tsn d)\<lparr>et_nvs := f (et_nvs (nd_tsn d))\<rparr>\<rparr>"

definition esp_restart :: "'n node \<Rightarrow> 'n node" where
  "esp_restart d = d\<lparr>nd_restarted := True\<rparr>"

section \<open>Acknowledgements\<close>

definition ack_topic :: "'n node \<Rightarrow> string" where
  "ack_topic d = snprintf_buf 40 (''tsn/ack/'' @ nd_device_id d)"

text \<open>The reasons are literals of at most 17 characters and the identifier has at most 31, so the buffer of 128 is never exceeded.\<close>

definition esp_send_ack :: "bool \<Rightarrow> string \<Rightarrow> 'n node \<Rightarrow> 'n node" where
  "esp_send_ack ok reason d =
     htsn_mqtt_publish (ack_topic d)
       (snprintf_buf 128 (''{'' @ js_str ''id'' (nd_device_id d) @ '','' @ dq @ ''ok'' @ dq @ '':'' @ (if ok then ''true'' else ''false'') @
          (if \<not> ok \<and> reason \<noteq> [] then '','' @ js_str ''err'' reason else []) @ ''}'')) d"

text \<open>The acknowledgements with further members are built in a buffer of their own.\<close>

definition ack_with :: "nat \<Rightarrow> string list \<Rightarrow> 'n node \<Rightarrow> 'n node" where
  "ack_with sz fl d =
     htsn_mqtt_publish (ack_topic d)
       (snprintf_buf sz (''{'' @ join '','' ((js_str ''id'' (nd_device_id d)) # (dq @ ''ok'' @ dq @ '':true'') # fl) @ ''}'')) d"

section \<open>Snapshots\<close>

text \<open>\<open>if (htsn_json_get_int(payload, key, &v)) x = v;\<close> for an \<open>x\<close> that holds \<open>x0\<close>, and the same for 64 bits and for strings.\<close>

definition int_member :: "string \<Rightarrow> string \<Rightarrow> int \<Rightarrow> int option" where
  "int_member payload key x0 = map_option (\<lambda>r. case r of (True, Some v) \<Rightarrow> v | _ \<Rightarrow> x0) (htsn_json_get_int payload key)"

definition i64_member :: "string \<Rightarrow> string \<Rightarrow> int \<Rightarrow> int option" where
  "i64_member payload key x0 = map_option (\<lambda>r. case r of (True, Some v) \<Rightarrow> v | _ \<Rightarrow> x0) (htsn_json_get_i64 payload key)"

definition str_member :: "string \<Rightarrow> string \<Rightarrow> nat \<Rightarrow> string \<Rightarrow> string option" where
  "str_member payload key sz x0 = map_option (\<lambda>r. case r of Some s \<Rightarrow> s | None \<Rightarrow> x0) (htsn_json_get_str payload key sz)"

definition gcl_member :: "string \<Rightarrow> (nat \<times> int list \<times> int list) option" where
  "gcl_member payload =
     (case htsn_json_get_root_array payload ''gcl'' of
        None \<Rightarrow> None
      | Some None \<Rightarrow> Some (0, no_entries, no_entries)
      | Some (Some arr) \<Rightarrow> htsn_json_parse_gcl arr no_entries no_entries (int HTSN_GCL_MAX))"

text \<open>The snapshot read from a payload, and whether it has a priority.\<close>

definition read_snapshot :: "string \<Rightarrow> (bool \<times> htsn_config_snapshot) option" where
  "read_snapshot payload = do {
     have_prio \<leftarrow> map_option fst (htsn_json_get_int payload ''priority'');
     pr \<leftarrow> int_member payload ''priority'' 0;
     tc \<leftarrow> int_member payload ''traffic_class'' 0;
     bw \<leftarrow> int_member payload ''bandwidth_kbps'' 0;
     lat \<leftarrow> int_member payload ''latency_ms'' 0;
     pre \<leftarrow> int_member payload ''preemption'' 0;
     vid \<leftarrow> int_member payload ''vlan_id'' 0;
     grp \<leftarrow> str_member payload ''group'' 32 [];
     tm \<leftarrow> int_member payload ''timesync_mode'' 0;
     gm \<leftarrow> str_member payload ''grandmaster'' 32 [];
     cyc \<leftarrow> i64_member payload ''tas_cycle_ns'' 0;
     gcl \<leftarrow> gcl_member payload;
     Some (have_prio, \<lparr>cs_priority = pr, cs_traffic_class = tc, cs_bandwidth_kbps = bw, cs_latency_ms = lat, cs_preemption = pre, cs_vlan_id = vid,
       cs_group = grp, cs_timesync_mode = tm, cs_grandmaster = gm, cs_tas_cycle_ns = cyc, cs_gcl_entries = int (fst gcl),
       cs_gates = fst (snd gcl), cs_durations = snd (snd gcl)\<rparr>)
   }"

definition esp_apply_snapshot :: "'n nvs \<Rightarrow> string \<Rightarrow> 'n node \<Rightarrow> 'n node option" where
  "esp_apply_snapshot N payload d =
     (if payload = [] \<or> hd payload \<noteq> CHR ''{'' then Some (esp_send_ack False ''bad_json'' d)
      else
        map_option (\<lambda>(have_prio, cfg).
          if have_prio \<and> (cs_priority cfg < 0 \<or> cs_priority cfg > 7) then esp_send_ack False ''bad_priority'' d
          else if cs_preemption cfg < 0 \<or> cs_preemption cfg > 1 then esp_send_ack False ''bad_preemption'' d
          else if cs_timesync_mode cfg < 0 \<or> cs_timesync_mode cfg > 3 then esp_send_ack False ''bad_timesync_mode'' d
          else
            (let r = htsn_tsn_apply_snapshot N (Some cfg) (nd_tsn d); d1 = d\<lparr>nd_tsn := snd r\<rparr>
             in if fst r = 0 then esp_send_ack True [] d1 else esp_send_ack False ''apply_failed'' d1))
          (read_snapshot payload))"

section \<open>Networks\<close>

definition crate_set_wifi :: "'n nvs \<Rightarrow> string \<Rightarrow> 'n node \<Rightarrow> 'n node option" where
  "crate_set_wifi N payload d = do {
     ssid \<leftarrow> str_member payload ''ssid'' 64 [];
     pw \<leftarrow> htsn_json_get_str payload ''pass'' 64;
     Some (if ssid = [] then d
           else
             (let old = htsn_cfg_get_wifi_pass N 96 (et_nvs (nd_tsn d));
                  pass = (case pw of Some p \<Rightarrow> p | None \<Rightarrow> if fst old \<and> snd old \<noteq> [] then cpy 64 (Some (snd old)) else [])
              in esp_restart (with_nvs (htsn_cfg_set_wifi N (Some ssid) (Some pass)) d)))
   }"

definition add_wifi :: "'n nvs \<Rightarrow> string \<Rightarrow> 'n node \<Rightarrow> 'n node option" where
  "add_wifi N payload d = do {
     asid \<leftarrow> str_member payload ''ssid'' 64 [];
     apass \<leftarrow> str_member payload ''pass'' 64 [];
     let r = (if asid \<noteq> [] then htsn_cfg_net_add N (Some asid) (Some apass) (et_nvs (nd_tsn d)) else (False, et_nvs (nd_tsn d)));
         d1 = with_nvs (\<lambda>_. snd r) d
     in Some (htsn_mqtt_publish (ack_topic d1)
          (snprintf_buf 128 (''{'' @ js_str ''id'' (nd_device_id d1) @ '','' @ dq @ ''ok'' @ dq @ '':'' @ (if asid \<noteq> [] then ''true'' else ''false'') @
             '','' @ dq @ ''added'' @ dq @ '':'' @ (if fst r then ''true'' else if asid \<noteq> [] then ''dup'' else ''none'') @ '','' @
             js_num ''nets'' (int (htsn_cfg_net_count N (snd r))) @ ''}'')) d1)
   }"

definition identify_start :: "'n node \<Rightarrow> 'n node" where
  "identify_start d = (if nd_identifying d then d else hw IdentifyTask (d\<lparr>nd_identifying := True\<rparr>))"

definition factory_reset :: "'n nvs \<Rightarrow> 'n node \<Rightarrow> 'n node" where
  "factory_reset N d =
     esp_restart (with_nvs (\<lambda>n. case nvs_open_rw N n of None \<Rightarrow> n | Some h \<Rightarrow> snd (nvs_commit N (nvs_erase_all N h))) d)"

section \<open>Commands\<close>

definition read_stream :: "string \<Rightarrow> esp_stream option" where
  "read_stream payload = do {
     sid \<leftarrow> str_member payload ''stream_id'' 48 [];
     nm \<leftarrow> str_member payload ''name'' 64 [];
     tk \<leftarrow> str_member payload ''talker'' 64 [];
     vid \<leftarrow> int_member payload ''vlan_id'' 0;
     lat \<leftarrow> i64_member payload ''max_latency_ns'' 0;
     ivl \<leftarrow> i64_member payload ''max_interval_ns'' 0;
     pr \<leftarrow> int_member payload ''priority'' 0;
     dfp \<leftarrow> int_member payload ''data_frame_prio'' 0;
     arr \<leftarrow> htsn_json_get_root_array payload ''listeners'';
     let ls = (case arr of Some a \<Rightarrow> htsn_json_parse_str_array a (int HTSN_STREAM_MAX_LISTENERS) | None \<Rightarrow> [])
     in Some \<lparr>es_stream_id = sid, es_name = nm, es_talker = tk, es_listeners = ls @ replicate (HTSN_STREAM_MAX_LISTENERS - length ls) [],
       es_listener_count = int (length ls), es_vlan_id = vid, es_max_latency_ns = lat, es_max_interval_ns = ivl, es_priority = pr, es_data_frame_prio = dfp\<rparr>
   }"

definition cmd_stream :: "string \<Rightarrow> 'n node \<Rightarrow> 'n node option" where
  "cmd_stream payload d =
     map_option (\<lambda>s. if es_stream_id s = [] then esp_send_ack False ''stream_invalid'' d
       else (let r = htsn_tsn_apply_stream (Some s) (nd_tsn d); d1 = d\<lparr>nd_tsn := snd r\<rparr>
             in if fst r = 0 then esp_send_ack True [] d1 else esp_send_ack False ''stream_invalid'' d1))
       (read_stream payload)"

text \<open>The text before the first comma, cut to the buffer; the other fields are only logged.\<close>

definition preemption_mode :: "string \<Rightarrow> string" where
  "preemption_mode payload = take 7 (takeWhile (\<lambda>c. c \<noteq> CHR '','') payload)"

definition cmd_status :: "'n nvs \<Rightarrow> drivers \<Rightarrow> 'n node \<Rightarrow> 'n node" where
  "cmd_status N dr d =
     (let r = htsn_tsn_get_state N (nd_tsn d); st = fst r; d1 = d\<lparr>nd_tsn := snd r\<rparr>
      in htsn_mqtt_publish ''tsn/status''
           (snprintf_buf 256 (''{'' @ join '',''
              [js_str ''id'' (nd_device_id d1), js_str ''status'' ''online'', js_num ''prio'' (ts_priority st), js_num ''vlan'' (ts_vlan_id st),
               js_num ''preempt'' (ts_preemption st), js_num ''tc'' (ts_traffic_class st), js_num ''tas_cycle_ns'' (ts_tas_cycle_ns st),
               js_num ''gcl_entries'' (ts_gcl_entries st), js_num ''timesync_mode'' (ts_timesync_mode st), js_str ''fw'' HTSN_FW_VERSION,
               js_num ''rssi'' (dr_rssi dr)] @ ''}'')) d1)"

definition cmd_display :: "string \<Rightarrow> 'n node \<Rightarrow> 'n node option" where
  "cmd_display payload d = do {
     l1 \<leftarrow> str_member payload ''line1'' 24 (nd_dl1 d);
     l2 \<leftarrow> str_member payload ''line2'' 24 (nd_dl2 d);
     Some (ack_with 80 [js_num ''display'' 1]
       (hw (DisplayStatus (if l1 \<noteq> [] then Some l1 else None) (if l2 \<noteq> [] then Some l2 else None)) (d\<lparr>nd_dl1 := l1, nd_dl2 := l2\<rparr>)))
   }"

definition cmd_fill :: "string \<Rightarrow> 'n node \<Rightarrow> 'n node" where
  "cmd_fill payload d =
     ack_with 96 [js_str ''fill'' payload]
       (hw (DisplayFill (if payload = ''off'' then 0 else if payload = ''stripe'' then 0xAA else if payload = ''dots'' then 0x55 else 0xFF)) d)"

text \<open>The angle is stored even when the reader reports that there is no number.\<close>

definition cmd_servo :: "string \<Rightarrow> 'n node \<Rightarrow> 'n node option" where
  "cmd_servo payload d =
     map_option (\<lambda>r. let deg = max 0 (min 180 (opt_get (snd r) 90)) in ack_with 96 [js_num ''deg'' deg] (hw (SonarSetAngle deg) d))
       (htsn_json_get_int payload ''deg'')"

definition cmd_ota :: "drivers \<Rightarrow> string \<Rightarrow> 'n node \<Rightarrow> 'n node option" where
  "cmd_ota dr payload d = do {
     url \<leftarrow> str_member payload ''url'' 256 [];
     crc \<leftarrow> str_member payload ''crc32'' 16 [];
     let c = (if crc \<noteq> [] then Some crc else None)
     in Some (if url = [] then esp_send_ack False ''ota_bad_url'' d
              else if dr_ota dr url c then esp_send_ack True [] (hw (OtaStart url c) d)
              else esp_send_ack False ''ota_bad_url'' (hw (OtaStart url c) d))
   }"

text \<open>The command is reset: the reason of a positive acknowledgement is not sent.\<close>

definition cmd_reset :: "'n nvs \<Rightarrow> 'n node \<Rightarrow> 'n node" where
  "cmd_reset N d =
     esp_restart (esp_send_ack True ''reset_ok''
       (with_tsn (htsn_tsn_reset_state N) (with_nvs (\<lambda>n. htsn_cfg_set_wifi N (Some []) (Some []) (htsn_cfg_net_clear N n)) d)))"

text \<open>The chain of commands in three parts: settings first, then the actor board, then maintenance.\<close>

definition cmd_maintenance :: "'n nvs \<Rightarrow> drivers \<Rightarrow> string \<Rightarrow> string \<Rightarrow> 'n node \<Rightarrow> 'n node option" where
  "cmd_maintenance N dr cmd payload d =
     (if cmd = ''button'' then
        (let k = esp_atoi payload in Some (ack_with 80 [js_num ''k'' k, js_num ''level'' (if k \<ge> 1 \<and> k \<le> 4 then dr_btn dr k else 0)] d))
      else if cmd = ''servo'' then cmd_servo payload d
      else if cmd = ''ping'' then Some (ack_with 160 [js_str ''ip'' (nd_ip d)] (identify_start d))
      else if cmd = ''identify'' then Some (esp_send_ack True [] (identify_start d))
      else if cmd = ''ota'' then cmd_ota dr payload d
      else if cmd = ''reset'' then Some (cmd_reset N d)
      else if cmd = ''reboot'' then Some (esp_restart (esp_send_ack True ''reboot'' d))
      else if cmd = ''factory'' then Some (factory_reset N d)
      else if cmd = ''wfm_recal'' then Some (esp_send_ack True ''wfm_recal'' (hw WifimotionRecalibrate d))
      else Some d)"

definition cmd_actor :: "'n nvs \<Rightarrow> drivers \<Rightarrow> string \<Rightarrow> string \<Rightarrow> 'n node \<Rightarrow> 'n node option" where
  "cmd_actor N dr cmd payload d =
     (if cmd = ''actor'' then
        (let mode = esp_atoi payload
         in Some (ack_with 96 [js_num ''mode'' mode, js_num ''prev'' (dr_actor_set dr mode)] (hw (ActorSet mode) d)))
      else if cmd = ''display'' then cmd_display payload d
      else if cmd = ''oled'' then
        (let sh = strstr payload ''sh1106'' \<or> (payload \<noteq> [] \<and> hd payload = CHR ''1'')
         in Some (ack_with 96 [js_str ''oled'' (if sh then ''sh1106'' else ''ssd1306''), js_num ''present'' (if dr_set_controller dr sh then 1 else 0)]
              (hw (SetController sh) d)))
      else if cmd = ''fill'' then Some (cmd_fill payload d)
      else if cmd = ''read'' then Some (ack_with 96 [js_num ''read'' 1] (hw DisplayReadback d))
      else if cmd = ''run'' then Some (ack_with 96 [js_num ''run'' 1] (hw (DisplayFreeze False) d))
      else if cmd = ''dump'' then Some (ack_with 96 [js_num ''dump'' 1] (hw DisplayDump d))
      else if cmd = ''paneldump'' then Some (ack_with 96 [js_num ''paneldump'' 1] (hw DisplayDumpPanel d))
      else if cmd = ''quad'' then Some (ack_with 96 [js_num ''quad'' 1] (hw DisplayQuad d))
      else if cmd = ''bars'' then Some (ack_with 96 [js_num ''bars'' 1] (hw DisplayBars d))
      else cmd_maintenance N dr cmd payload d)"

definition esp_command :: "'n nvs \<Rightarrow> drivers \<Rightarrow> string \<Rightarrow> string \<Rightarrow> 'n node \<Rightarrow> 'n node option" where
  "esp_command N dr cmd payload d =
     (if cmd = ''wifi'' then map_option (\<lambda>d1. if nd_restarted d1 then d1 else esp_send_ack True [] d1) (crate_set_wifi N payload d)
      else if cmd = ''add_wifi'' then add_wifi N payload d
      else if cmd = ''qos'' then (let p = esp_atoi payload in Some (esp_send_ack True [] (with_tsn (htsn_tsn_apply_qos p p 0 0 0) d)))
      else if cmd = ''vlan'' then Some (esp_send_ack True [] (with_tsn (htsn_tsn_apply_vlan (esp_atoi payload)) d))
      else if cmd = ''timesync'' then Some (esp_send_ack True [] (with_tsn (htsn_tsn_apply_timesync (esp_atoi payload) (Some [])) d))
      else if cmd = ''tas'' then Some (esp_send_ack True [] (with_tsn (htsn_tsn_apply_tas (esp_atoi payload) None None 0) d))
      else if cmd = ''stream'' then cmd_stream payload d
      else if cmd = ''preemption'' then
        Some (esp_send_ack True [] (with_tsn (htsn_tsn_apply_preemption (esp_atoi (preemption_mode payload))) d))
      else if cmd = ''status'' then Some (cmd_status N dr d)
      else if cmd = ''fx'' then Some (htsn_mqtt_publish (snprintf_buf 64 (''tsn/fx/'' @ nd_device_id d)) payload d)
      else cmd_actor N dr cmd payload d)"

definition on_command :: "'n nvs \<Rightarrow> drivers \<Rightarrow> string \<Rightarrow> string \<Rightarrow> 'n node \<Rightarrow> 'n node option" where
  "on_command N dr topic payload d =
     (if topic = ''tsn/fx/data'' \<or> topic = ''tsn/sensors/event'' then
        Some (if strstr payload (dq @ ''motion'' @ dq @ '':1'') \<or> strstr payload (dq @ ''wifi_motion'' @ dq @ '':1'')
              then (if nd_has_sensors d then hw SonarTrigger d else hw (ActorSet 7) (hw SonarTrigger d))
              else d)
      else if topic = ''tsn/sensors'' then Some (hw (DisplayTelemetry topic payload) d)
      else if strstr topic ''/apply'' then esp_apply_snapshot N payload d
      else esp_command N dr (last_level topic) payload d)"

section \<open>Connections\<close>

text \<open>The commands subscribed to by htsn_mqtt.c, in its order, and all topic filters.\<close>

definition esp_subscribed :: "string list" where
  "esp_subscribed = [''apply'', ''qos'', ''vlan'', ''wifi'', ''timesync'', ''tas'', ''stream'', ''preemption'', ''status'', ''fx'', ''actor'',
     ''servo'', ''identify'', ''ping'', ''ota'', ''factory'', ''reset'', ''reboot'']"

definition esp_subscribed_display :: "string list" where
  "esp_subscribed_display = [''display'', ''button'', ''oled'', ''fill'', ''read'', ''run'', ''dump'', ''paneldump'', ''quad'', ''bars'']"

definition esp_filters :: "string \<Rightarrow> string list" where
  "esp_filters device_id =
     (let f = (\<lambda>c. snprintf_buf 64 (''tsn/cmd/'' @ (if device_id \<noteq> [] then device_id else ''+'') @ ''/'' @ c))
      in map f esp_subscribed @ [''tsn/fx/cmd/#'', ''tsn/fx/data'', ''tsn/sensors/event'', ''tsn/sensors''] @ map f esp_subscribed_display)"

definition esp_on_connected :: "drivers \<Rightarrow> 'n node \<Rightarrow> 'n node" where
  "esp_on_connected dr d =
     htsn_mqtt_publish ''tsn/discover''
       (snprintf_buf 192 (''{'' @ join '','' [js_str ''id'' (nd_device_id d), js_str ''fw'' HTSN_FW_VERSION, js_str ''ip'' (nd_ip d),
          js_str ''kind'' ''esp32'', js_num ''rssi'' (dr_rssi dr)] @ ''}'')) d"

text \<open>The four buttons of the actor board.\<close>

definition display_btn_action :: "drivers \<Rightarrow> int \<Rightarrow> int \<Rightarrow> 'n node \<Rightarrow> 'n node" where
  "display_btn_action dr now btn d =
     (if btn = 1 then
        (let next = (if dr_actor_get dr = 1 then 0 else 1 :: int);
             d1 = ack_with 80 [js_num ''mode'' next] (hw (ActorSet next) d)
         in if dr_present dr then hw (DisplayStatus (Some ''actor'') (Some (if next \<noteq> 0 then ''ON'' else ''off''))) d1 else d1)
      else if btn = 2 then
        hw (BuzzerBeep 1000 120)
          (htsn_mqtt_publish ''tsn/status'' (snprintf_buf 224 (''{'' @ join '','' [js_str ''id'' (nd_device_id d), js_str ''status'' ''online'',
             js_str ''lane'' ''btn'', js_str ''fw'' HTSN_FW_VERSION, js_num ''rssi'' (dr_rssi dr), js_num ''ts'' now] @ ''}'')) d)
      else if btn = 3 then
        (let d1 = hw (DisplaySetHud (\<not> dr_hud dr)) d
         in if dr_present dr then hw (DisplayStatus (Some ''view'') (Some (if dr_hud dr then ''status'' else ''hud''))) d1 else d1)
      else if btn = 4 then hw (BuzzerBeep 1800 150) (identify_start d)
      else d)"

section \<open>Reading a snapshot\<close>

text \<open>The value of a number, a string or a gate control list of an object, with the value for a missing member.\<close>

definition jint :: "(string \<times> jv) list \<Rightarrow> string \<Rightarrow> int" where
  "jint fs key = (case map_of fs key of Some (JInt i) \<Rightarrow> i | _ \<Rightarrow> 0)"

definition jstr :: "(string \<times> jv) list \<Rightarrow> string \<Rightarrow> string" where
  "jstr fs key = (case map_of fs key of Some (JStr s) \<Rightarrow> s | _ \<Rightarrow> [])"

definition jgcl :: "(string \<times> jv) list \<Rightarrow> string \<Rightarrow> (int \<times> int) list" where
  "jgcl fs key = (case map_of fs key of Some (JGcl es) \<Rightarrow> es | _ \<Rightarrow> [])"

text \<open>A member with the key has the right type (and, for 32 bits, range).\<close>

definition has_int :: "(string \<times> jv) list \<Rightarrow> string \<Rightarrow> bool" where
  "has_int fs key \<longleftrightarrow> (case map_of fs key of None \<Rightarrow> True | Some (JInt i) \<Rightarrow> in_i32 i | _ \<Rightarrow> False)"

definition has_i64 :: "(string \<times> jv) list \<Rightarrow> string \<Rightarrow> bool" where
  "has_i64 fs key \<longleftrightarrow> (case map_of fs key of None \<Rightarrow> True | Some (JInt i) \<Rightarrow> True | _ \<Rightarrow> False)"

definition has_str :: "(string \<times> jv) list \<Rightarrow> string \<Rightarrow> bool" where
  "has_str fs key \<longleftrightarrow> (case map_of fs key of None \<Rightarrow> True | Some (JStr s) \<Rightarrow> True | _ \<Rightarrow> False)"

definition has_gcl :: "(string \<times> jv) list \<Rightarrow> string \<Rightarrow> bool" where
  "has_gcl fs key \<longleftrightarrow> (case map_of fs key of None \<Rightarrow> True | Some (JGcl es) \<Rightarrow> True | _ \<Rightarrow> False)"

lemma int_member_jobject:
  assumes "list_all jfield_ok fs" and "has_int fs key"
  shows "int_member (jobject fs) key 0 = Some (jint fs key)"
    and "map_option fst (htsn_json_get_int (jobject fs) key) = Some (map_of fs key \<noteq> None)"
proof (atomize (full), cases "map_of fs key")
  case None
  then show "int_member (jobject fs) key 0 = Some (jint fs key) \<and> map_option fst (htsn_json_get_int (jobject fs) key) = Some (map_of fs key \<noteq> None)"
    by (simp add: int_member_def jint_def get_missing_jobject [OF assms(1) None])
next
  case (Some v)
  then obtain i where "v = JInt i" "in_i32 i" using assms(2) by (auto simp: has_int_def split: jv.splits)
  with Some get_int_jobject [OF assms(1), of key i]
  show "int_member (jobject fs) key 0 = Some (jint fs key) \<and> map_option fst (htsn_json_get_int (jobject fs) key) = Some (map_of fs key \<noteq> None)"
    by (simp add: int_member_def jint_def)
qed

lemma i64_member_jobject:
  assumes "list_all jfield_ok fs" and "has_i64 fs key"
  shows "i64_member (jobject fs) key 0 = Some (jint fs key)"
proof (cases "map_of fs key")
  case None
  then show ?thesis by (simp add: i64_member_def jint_def get_missing_jobject [OF assms(1) None])
next
  case (Some v)
  then obtain i where "v = JInt i" using assms(2) by (auto simp: has_i64_def split: jv.splits)
  with Some get_i64_jobject [OF assms(1), of key i] jfield_ok_map_of [OF assms(1) Some] show ?thesis
    by (simp add: i64_member_def jint_def)
qed

lemma str_member_jobject:
  assumes "list_all jfield_ok fs" and "has_str fs key"
  shows "str_member (jobject fs) key sz [] = Some (take (sz - 1) (jstr fs key))"
proof (cases "map_of fs key")
  case None
  then show ?thesis by (simp add: str_member_def jstr_def get_missing_jobject [OF assms(1) None])
next
  case (Some v)
  then obtain x where "v = JStr x" using assms(2) by (auto simp: has_str_def split: jv.splits)
  with Some get_str_jobject [OF assms(1), of key x sz] show ?thesis by (simp add: str_member_def jstr_def)
qed

lemma gcl_member_jobject:
  assumes "list_all jfield_ok fs" and "has_gcl fs ''gcl''"
  shows "gcl_member (jobject fs) = Some (length (take 32 (jgcl fs ''gcl'')),
    map fst (take 32 (jgcl fs ''gcl'')) @ drop (length (take 32 (jgcl fs ''gcl''))) no_entries,
    map snd (take 32 (jgcl fs ''gcl'')) @ drop (length (take 32 (jgcl fs ''gcl''))) no_entries)"
proof (cases "map_of fs ''gcl''")
  case None
  then show ?thesis by (simp add: gcl_member_def get_missing_jobject [OF assms(1)] jgcl_def)
next
  case (Some v)
  then obtain es where "v = JGcl es" using assms(2) by (auto simp: has_gcl_def split: jv.splits)
  with Some gcl_jobject [OF assms(1), of "''gcl''" es] obtain a where a: "htsn_json_get_root_array (jobject fs) ''gcl'' = Some (Some a)"
    "htsn_json_parse_gcl a no_entries no_entries 32 =
       Some (length (take 32 es), map fst (take 32 es) @ drop (length (take 32 es)) no_entries, map snd (take 32 es) @ drop (length (take 32 es)) no_entries)"
    by (auto simp: no_entries_def HTSN_GCL_MAX_def)
  with Some \<open>v = JGcl es\<close> show ?thesis by (simp add: gcl_member_def jgcl_def HTSN_GCL_MAX_def)
qed

definition snapshot_typed :: "(string \<times> jv) list \<Rightarrow> bool" where
  "snapshot_typed fs \<longleftrightarrow> list_all jfield_ok fs \<and>
     list_all (has_int fs) [''priority'', ''traffic_class'', ''bandwidth_kbps'', ''latency_ms'', ''preemption'', ''vlan_id'', ''timesync_mode''] \<and>
     list_all (has_str fs) [''group'', ''grandmaster''] \<and> has_i64 fs ''tas_cycle_ns'' \<and> has_gcl fs ''gcl''"

definition snapshot_of :: "(string \<times> jv) list \<Rightarrow> htsn_config_snapshot" where
  "snapshot_of fs =
     (let es = take 32 (jgcl fs ''gcl'')
      in \<lparr>cs_priority = jint fs ''priority'', cs_traffic_class = jint fs ''traffic_class'', cs_bandwidth_kbps = jint fs ''bandwidth_kbps'',
          cs_latency_ms = jint fs ''latency_ms'', cs_preemption = jint fs ''preemption'', cs_vlan_id = jint fs ''vlan_id'',
          cs_group = take 31 (jstr fs ''group''), cs_timesync_mode = jint fs ''timesync_mode'', cs_grandmaster = take 31 (jstr fs ''grandmaster''),
          cs_tas_cycle_ns = jint fs ''tas_cycle_ns'', cs_gcl_entries = int (length es),
          cs_gates = map fst es @ drop (length es) no_entries, cs_durations = map snd es @ drop (length es) no_entries\<rparr>)"

lemma read_snapshot_jobject:
  assumes "snapshot_typed fs"
  shows "read_snapshot (jobject fs) = Some (map_of fs ''priority'' \<noteq> None, snapshot_of fs)"
proof -
  have ok: "list_all jfield_ok fs" and g: "has_gcl fs ''gcl''" using assms by (simp_all add: snapshot_typed_def)
  show ?thesis
    using assms
    by (simp add: read_snapshot_def snapshot_typed_def snapshot_of_def int_member_jobject [OF ok] str_member_jobject [OF ok]
        i64_member_jobject [OF ok] gcl_member_jobject [OF ok g] Let_def)
qed

text \<open>The snapshots the agent accepts.\<close>

definition snapshot_valid :: "(string \<times> jv) list \<Rightarrow> bool" where
  "snapshot_valid fs \<longleftrightarrow> jint fs ''priority'' \<in> {0..7} \<and> jint fs ''preemption'' \<in> {0..1} \<and> jint fs ''timesync_mode'' \<in> {0..3}"

lemma strstr_end: "strstr (x @ lit) lit"
  by (induction x) (auto, cases lit, auto)

lemma snapshot_of_state:
  assumes "es = take 32 (jgcl fs ''gcl'')"
  shows "let st = et_state (snd (htsn_tsn_apply_snapshot N (Some (snapshot_of fs)) m))
    in ts_priority st = jint fs ''priority'' \<and> ts_traffic_class st = jint fs ''traffic_class'' \<and> ts_preemption st = jint fs ''preemption'' \<and>
       ts_vlan_id st = jint fs ''vlan_id'' \<and> ts_timesync_mode st = jint fs ''timesync_mode'' \<and> ts_tas_cycle_ns st = jint fs ''tas_cycle_ns'' \<and>
       ts_gcl_entries st = int (length es) \<and> take (length es) (ts_gates st) = map fst es \<and> take (length es) (ts_durations st) = map snd es"
proof -
  have l: "length es \<le> 32" using assms by simp
  then have k: "max 0 (min (int (length es)) (int HTSN_GCL_MAX)) = int (length es)" by (simp add: HTSN_GCL_MAX_def)
  show ?thesis
    using l
    by (auto simp: htsn_tsn_apply_snapshot_def save_state_def htsn_tsn_apply_preemption_def htsn_tsn_apply_tas_def htsn_tsn_apply_timesync_def
        htsn_tsn_apply_vlan_def htsn_tsn_apply_qos_def snapshot_of_def Let_def assms [symmetric] k HTSN_GCL_MAX_def no_entries_def nth_append
        intro!: nth_equalityI)
qed

lemma apply_topic: "on_command N dr (''tsn/cmd/'' @ dev @ ''/apply'') payload d = esp_apply_snapshot N payload d"
  using strstr_end [of "''tsn/cmd/'' @ dev" "''/apply''"] by (simp add: on_command_def)

lemma jobject_head: "jobject fs \<noteq> [] \<and> hd (jobject fs) = CHR ''{''"
  by (simp add: jobject_members)

text \<open>
  C9. The apply command does what its payload says: for an object whose members have the expected types, the command is accepted exactly when priority,
  preemption and synchronisation mode are in their ranges. Then every setting has the value of its member, a setting without a member is
  reset to zero, the first 32 entries of the gate control list are installed, all of it is in the storage, and the acknowledgement is positive. Otherwise
  nothing but a negative acknowledgement happens.
\<close>

theorem apply_command_effect:
  fixes N :: "'n nvs" and dev :: string
  assumes "nvs_flash N flash" and "snapshot_typed fs"
  defines "topic \<equiv> ''tsn/cmd/'' @ dev @ ''/apply''" and "es \<equiv> take 32 (jgcl fs ''gcl'')"
  shows "\<exists>d'. on_command N dr topic (jobject fs) d = Some d' \<and>
    (if snapshot_valid fs
     then (let st = et_state (nd_tsn d')
           in ts_priority st = jint fs ''priority'' \<and> ts_traffic_class st = jint fs ''traffic_class'' \<and> ts_preemption st = jint fs ''preemption'' \<and>
              ts_vlan_id st = jint fs ''vlan_id'' \<and> ts_timesync_mode st = jint fs ''timesync_mode'' \<and> ts_tas_cycle_ns st = jint fs ''tas_cycle_ns'' \<and>
              ts_gcl_entries st = int (length es) \<and> take (length es) (ts_gates st) = map fst es \<and> take (length es) (ts_durations st) = map snd es \<and>
              et_state (htsn_tsn_restore N (esp_tsn_boot (nvs_restart N (et_nvs (nd_tsn d'))))) = st \<and>
              d' = esp_send_ack True [] (d\<lparr>nd_tsn := nd_tsn d'\<rparr>))
     else (\<exists>why. why \<noteq> [] \<and> d' = esp_send_ack False why d))"
proof (cases "snapshot_valid fs")
  case True
  define r where "r = htsn_tsn_apply_snapshot N (Some (snapshot_of fs)) (nd_tsn d)"
  have "fst r = 0" by (simp add: r_def htsn_tsn_apply_snapshot_def)
  moreover have "cs_priority (snapshot_of fs) = jint fs ''priority''" "cs_preemption (snapshot_of fs) = jint fs ''preemption''"
    "cs_timesync_mode (snapshot_of fs) = jint fs ''timesync_mode''" by (simp_all add: snapshot_of_def Let_def)
  ultimately have e: "on_command N dr topic (jobject fs) d = Some (esp_send_ack True [] (d\<lparr>nd_tsn := snd r\<rparr>))"
    using True jobject_head [of fs] unfolding topic_def apply_topic
    by (simp add: esp_apply_snapshot_def read_snapshot_jobject [OF assms(2)] snapshot_valid_def r_def Let_def)
  have t: "nd_tsn (esp_send_ack True [] (d\<lparr>nd_tsn := snd r\<rparr>)) = snd r" by (simp add: esp_send_ack_def htsn_mqtt_publish_def)
  show ?thesis
    using True snapshot_of_state [OF es_def [THEN meta_eq_to_obj_eq], of N "nd_tsn d"] nvs_flash.restart_snapshot [OF assms(1), of "snapshot_of fs" "nd_tsn d"]
    unfolding e r_def [symmetric] by (simp add: t Let_def)
next
  case False
  let ?why = "if jint fs ''priority'' \<notin> {0..7} then ''bad_priority'' else if jint fs ''preemption'' \<notin> {0..1} then ''bad_preemption'' else ''bad_timesync_mode''"
  have "jint fs ''priority'' = 0" if "map_of fs ''priority'' = None" using that by (simp add: jint_def)
  then have "on_command N dr topic (jobject fs) d = Some (esp_send_ack False ?why d)"
    using False jobject_head [of fs] unfolding topic_def apply_topic
    by (simp add: esp_apply_snapshot_def read_snapshot_jobject [OF assms(2)] snapshot_valid_def snapshot_of_def Let_def not_less not_le)
       auto
  with False show ?thesis by (intro exI [of _ "esp_send_ack False ?why d"]) auto
qed

definition demo_node :: "flash_ref node" where
  "demo_node = \<lparr>nd_device_id = ''esp32-02'', nd_ip = ''10.0.0.7'', nd_mqtt = True, nd_has_sensors = False, nd_tsn = esp_tsn_boot blank_flash, nd_out = [],
     nd_hw = [], nd_dl1 = [], nd_dl2 = [], nd_identifying = False, nd_restarted = False\<rparr>"

definition demo_drivers :: drivers where
  "demo_drivers = \<lparr>dr_actor_set = (\<lambda>_. 0), dr_actor_get = 0, dr_set_controller = (\<lambda>_. True), dr_btn = (\<lambda>_. 0), dr_hud = True, dr_present = True,
     dr_ota = (\<lambda>_ _. True), dr_rssi = - 50\<rparr>"

lemma demo_fields_typed: "snapshot_typed demo_fields"
  using demo_fields_ok by (simp add: snapshot_typed_def has_int_def has_str_def has_i64_def has_gcl_def demo_fields_def in_i32_def)

theorem apply_command_effect_witness:
  "\<exists>d'. on_command flash_nvs demo_drivers ''tsn/cmd/esp32-02/apply'' (jobject demo_fields) demo_node = Some d' \<and>
     ts_priority (et_state (nd_tsn d')) = 5 \<and> take 2 (ts_gates (et_state (nd_tsn d'))) = [1, 2]"
proof -
  have v: "snapshot_valid demo_fields" by (simp add: snapshot_valid_def jint_def demo_fields_def)
  have g: "jgcl demo_fields ''gcl'' = [(1, 500000), (2, 500000)]" "jint demo_fields ''priority'' = 5" by (simp_all add: jgcl_def jint_def demo_fields_def)
  from apply_command_effect [OF nvs_ref.nvs_flash_axioms demo_fields_typed, of demo_drivers "''esp32-02''" demo_node] v
  show ?thesis by (auto simp: g Let_def numeral_2_eq_2)
qed

section \<open>Starting\<close>

text \<open>The networks preloaded into memory, name and password in buffers of 64 characters.\<close>

definition load_nets :: "'n nvs \<Rightarrow> 'n \<Rightarrow> (string \<times> string) list" where
  "load_nets N n =
     map (\<lambda>i. case htsn_cfg_net_get N (int i) 64 64 n of Some (_, s, p) \<Rightarrow> (s, p) | None \<Rightarrow> ([], []))
       [0..<min (htsn_cfg_net_count N n) HTSN_NET_MAX]"

text \<open>What the first part of \<open>app_main\<close> arrives at: \<open>bo_prov\<close> is the provisioning mode it stays in without a saved network.\<close>

record 'n booted =
  bo_prov :: bool
  bo_device_id :: string
  bo_host :: string
  bo_port :: int
  bo_tsn :: "'n esp_tsn"
  bo_nets :: "(string \<times> string) list"

definition ensure_device_id :: "'n nvs \<Rightarrow> bool \<Rightarrow> 'n \<Rightarrow> string \<times> 'n" where
  "ensure_device_id N sensors n =
     (let i = snprintf_buf 32 (if sensors then ''esp32-01'' else ''esp32-02'') in (i, htsn_cfg_set_device_id N (Some i) n))"

definition app_boot :: "'n nvs \<Rightarrow> bool \<Rightarrow> 'n \<Rightarrow> 'n booted" where
  "app_boot N sensors n0 =
     (let (i, n1) = ensure_device_id N sensors n0;
          (_, c) = htsn_cfg_load N 32 64 64 64 n1 \<lparr>nc_device_id = Some i, nc_ssid = [], nc_pass = [], nc_host = [], nc_port = 1883\<rparr>;
          dev = opt_get (nc_device_id c) []
      in if nc_ssid c = []
         then \<lparr>bo_prov = True, bo_device_id = dev, bo_host = nc_host c, bo_port = nc_port c, bo_tsn = esp_tsn_boot n1, bo_nets = []\<rparr>
         else
           (let n2 = (if htsn_cfg_net_count N n1 = 0 then snd (htsn_cfg_net_add N (Some (nc_ssid c)) (Some (nc_pass c)) n1) else n1)
            in \<lparr>bo_prov = False, bo_device_id = dev, bo_host = snprintf_buf 64 (nc_host c), bo_port = nc_port c,
                bo_tsn = htsn_tsn_restore N (esp_tsn_boot n2), bo_nets = load_nets N n2\<rparr>))"

definition prov_save :: "'n nvs \<Rightarrow> string \<Rightarrow> string \<Rightarrow> string option \<Rightarrow> string option \<Rightarrow> 'n \<Rightarrow> 'n" where
  "prov_save N ssid pass devid mqtt n =
     snd (htsn_cfg_net_add N (Some ssid) (Some pass)
       (htsn_cfg_save N (case devid of Some i \<Rightarrow> if i \<noteq> [] then Some i else None | None \<Rightarrow> None) (Some ssid) (Some pass) mqtt 1883 n))"

definition prov_load_id :: "'n nvs \<Rightarrow> nat \<Rightarrow> 'n \<Rightarrow> bool \<times> string option" where
  "prov_load_id N sz n = htsn_cfg_load_device_id N sz n"

section \<open>Deployed streams\<close>

text \<open>The description of a stream that the stream manager sends, as an object.\<close>

definition stream_jv :: "htsn_stream \<Rightarrow> htsn_stream_role \<Rightarrow> (string \<times> jv) list" where
  "stream_jv s role =
     [(''stream'', JStr (st_stream_id s)), (''name'', JStr (st_name s)), (''role'', JStr (htsn_stream_role_str role)),
      (''talker'', JStr (st_talker s)), (''vlan_id'', JInt (st_vlan_id s)), (''latency_ns'', JInt (st_max_latency_ns s)),
      (''interval_ns'', JInt (st_max_interval_ns s)), (''priority'', JInt (st_priority s)), (''dfprio'', JInt (st_data_frame_prio s)),
      (''status'', JStr (htsn_stream_status_str (st_status s)))]"

lemma stream_jv_json: "jobject (stream_jv s role) = js_object (stream_json s role)"
  by (simp add: jobject_def stream_jv_def stream_json_def jquote_def dq_def)

lemma stream_jv_ok:
  assumes "stream_ok s" and "in_i64 (st_max_latency_ns s)" and "in_i64 (st_max_interval_ns s)"
    and "CHR 0x22 \<notin> set (st_stream_id s @ st_name s @ st_talker s)"
  shows "list_all jfield_ok (stream_jv s role)"
proof -
  have "CHR 0x22 \<notin> set (htsn_stream_role_str role)" by (cases role) simp_all
  moreover have "CHR 0x22 \<notin> set (htsn_stream_status_str (st_status s))" by (cases "st_status s") simp_all
  ultimately show ?thesis using assms by (simp add: stream_jv_def jfield_ok_def stream_ok_def in_i32_i64)
qed

lemma read_stream_deployed:
  assumes ok: "list_all jfield_ok (stream_jv s role)" and "stream_ok s"
  shows "\<exists>t. read_stream (jobject (stream_jv s role)) = Some t \<and> es_stream_id t = []"
proof -
  let ?fs = "stream_jv s role"
  have m: "map_of ?fs ''listeners'' = None" by (simp add: stream_jv_def)
  have h: "has_str ?fs ''stream_id''" "has_str ?fs ''name''" "has_str ?fs ''talker''" "has_int ?fs ''vlan_id''" "has_i64 ?fs ''max_latency_ns''"
    "has_i64 ?fs ''max_interval_ns''" "has_int ?fs ''priority''" "has_int ?fs ''data_frame_prio''" "jstr ?fs ''stream_id'' = []"
    using assms(2) by (simp_all add: has_str_def has_int_def has_i64_def jstr_def stream_jv_def stream_ok_def)
  show ?thesis
    by (simp add: read_stream_def str_member_jobject [OF ok] int_member_jobject [OF ok] i64_member_jobject [OF ok] get_missing_jobject [OF ok m] h Let_def)
qed

text \<open>
  C34. No deployed stream reaches an ESP32 endpoint: the description the stream manager sends on deployment names the stream in a member \<open>stream\<close>, the
  agent of the endpoint looks for \<open>stream_id\<close>. Whatever the stream, its role and the state of the endpoint, the only effect of the message
  is the negative acknowledgement \<open>stream_invalid\<close>.
\<close>

theorem deployed_stream_rejected:
  assumes "stream_ok s" and "in_i64 (st_max_latency_ns s)" and "in_i64 (st_max_interval_ns s)"
    and "CHR 0x22 \<notin> set (st_stream_id s @ st_name s @ st_talker s)"
    and "fits 40 dev" and "\<not> strstr (stream_topic dev) ''/apply''"
  shows "on_command N dr (stream_topic dev) (stream_payload s role) d = Some (esp_send_ack False ''stream_invalid'' d)"
proof -
  have p: "stream_payload s role = jobject (stream_jv s role)" using stream_payload_object [OF assms(1-3)] stream_jv_json by simp
  have t: "stream_topic dev = (''tsn/cmd/'' @ dev) @ CHR ''/'' # ''stream''"
    using assms(5) by (simp add: stream_topic_def snprintf_buf_def HTSN_MAX_STR_def fits_def)
  have l: "last_level (stream_topic dev) = ''stream''" unfolding t by (rule last_level_append) simp
  have n: "stream_topic dev \<noteq> ''tsn/fx/data''" "stream_topic dev \<noteq> ''tsn/sensors/event''" "stream_topic dev \<noteq> ''tsn/sensors''" by (simp_all add: t)
  have "on_command N dr (stream_topic dev) x d = cmd_stream x d" for x
    using assms(6) n by (simp add: on_command_def l esp_command_def)
  moreover obtain y where "read_stream (jobject (stream_jv s role)) = Some y" "es_stream_id y = []"
    using read_stream_deployed [OF stream_jv_ok [OF assms(1-4)] assms(1)] by blast
  ultimately show ?thesis by (simp add: p cmd_stream_def)
qed

theorem deployed_stream_rejected_witness:
  "on_command flash_nvs demo_drivers (stream_topic ''esp32-02'') (stream_payload demo_stream HTSN_STREAM_ROLE_LISTENER) demo_node =
     Some (esp_send_ack False ''stream_invalid'' demo_node)"
  by (rule deployed_stream_rejected)
     (use demo_stream_ok in \<open>simp_all add: demo_stream_def in_i64_def fits_def stream_topic_def snprintf_buf_def HTSN_MAX_STR_def\<close>)

section \<open>Changing the network\<close>

context nvs_flash
begin

lemma load_nets_ref:
  assumes "nets_ok (nets n)"
  shows "load_nets N n = map (\<lambda>e. (ne_ssid e, take 63 (ne_pass e))) (nets n)"
proof -
  have c: "htsn_cfg_net_count N n = length (nets n)" "length (nets n) \<le> HTSN_NET_MAX"
    using net_count_nets [of n] assms by (simp_all add: nets_ok_def)
  show ?thesis
    using net_get_ref [OF assms] c by (intro nth_equalityI) (simp_all add: load_nets_def min_def)
qed

lemma boot_nets:
  assumes "nets_ok (nets n)" and "nets n \<noteq> []" and "nvs_get N n ''wifi_ssid'' = Some (NStr s)" and "s \<noteq> []" and "fits 64 s"
  shows "\<not> bo_prov (app_boot N sensors n) \<and> bo_nets (app_boot N sensors n) = map (\<lambda>e. (ne_ssid e, take 63 (ne_pass e))) (nets n)"
proof -
  define n1 where "n1 = snd (ensure_device_id N sensors n)"
  have g: "nvs_get N n1 = (nvs_get N n)(''device_id'' \<mapsto> NStr (snprintf_buf 32 (if sensors then ''esp32-01'' else ''esp32-02'')))"
    by (simp add: n1_def ensure_device_id_def htsn_cfg_set_device_id_def get_set_opt Let_def)
  have nn: "nets n1 = nets n" by (rule nets_cong) (simp add: g)
  have "nvs_get N n1 ''wifi_ssid'' \<noteq> None" using assms(3) by (simp add: g)
  then have ro: "nvs_open_ro N n1" by (metis not_ro)
  have s: "snd (htsn_nvs_get_str N ''wifi_ssid'' 64 [] n1) = s" using assms(3,5) by (simp add: get_str_simp g fits_def)
  have "htsn_cfg_net_count N n1 \<noteq> 0" using net_count_nets [of n1] assms(1,2) by (simp add: nn nets_ok_def)
  then show ?thesis
    using load_nets_ref [of n1] assms(1,4) ro s
    by (simp add: app_boot_def n1_def [symmetric] split_beta nn htsn_cfg_load_def Let_def)
qed

lemma set_wifi_get:
  "nvs_get N (htsn_cfg_set_wifi N (Some s) (Some p) n) = (nvs_get N n)(''wifi_ssid'' \<mapsto> NStr s, ''wifi_pass'' \<mapsto> NStr p)"
  "flash (htsn_cfg_set_wifi N (Some s) (Some p) n) = nvs_get N (htsn_cfg_set_wifi N (Some s) (Some p) n)"
  using settled_put by (auto simp: htsn_cfg_set_wifi_def set_opt_def htsn_nvs_set_str_def settled_def get_put)

end

definition wifi_json :: "string \<Rightarrow> string \<Rightarrow> string" where
  "wifi_json s p = jobject [(''ssid'', JStr s), (''pass'', JStr p)]"

lemma crate_set_wifi_json:
  assumes "CHR 0x22 \<notin> set s" and "CHR 0x22 \<notin> set p" and "s \<noteq> []"
  shows "crate_set_wifi N (wifi_json s p) d =
    Some (esp_restart (with_nvs (htsn_cfg_set_wifi N (Some (take 63 s)) (Some (take 63 p))) d))"
proof -
  let ?fs = "[(''ssid'', JStr s), (''pass'', JStr p)]"
  have ok: "list_all jfield_ok ?fs" using assms by (simp add: jfield_ok_def)
  have "str_member (jobject ?fs) ''ssid'' 64 [] = Some (take 63 s)"
    using str_member_jobject [OF ok, of "''ssid''" 64] by (simp add: has_str_def jstr_def)
  moreover have "htsn_json_get_str (jobject ?fs) ''pass'' 64 = Some (Some (take 63 p))"
    using get_str_jobject [OF ok, of "''pass''" p 64] by simp
  ultimately show ?thesis using assms(3) by (simp add: crate_set_wifi_def wifi_json_def)
qed

text \<open>
  The wifi command does not change the network of a device that knows one: the command stores the new name and password and restarts the
  device without an acknowledgement, but the networks tried after the restart are exactly those of the stored list, which the command
  does not touch.
\<close>

theorem set_wifi_without_effect:
  assumes "nvs_flash N flash" and "nvs_get N (et_nvs (nd_tsn d)) ''net_list'' = Some (NNets l)" and "nets_ok l" and "l \<noteq> []"
    and "CHR 0x22 \<notin> set s" and "CHR 0x22 \<notin> set p" and "s \<noteq> []" and "\<not> strstr (''tsn/cmd/'' @ dev @ ''/wifi'') ''/apply''"
  shows "\<exists>d'. on_command N dr (''tsn/cmd/'' @ dev @ ''/wifi'') (wifi_json s p) d = Some d' \<and> nd_restarted d' \<and> nd_out d' = nd_out d \<and>
    nvs_get N (et_nvs (nd_tsn d')) ''wifi_ssid'' = Some (NStr (take 63 s)) \<and>
    bo_nets (app_boot N sensors (nvs_restart N (et_nvs (nd_tsn d')))) = map (\<lambda>e. (ne_ssid e, take 63 (ne_pass e))) l"
proof -
  define d' where "d' = esp_restart (with_nvs (htsn_cfg_set_wifi N (Some (take 63 s)) (Some (take 63 p))) d)"
  have ll: "last_level (''tsn/cmd/'' @ dev @ ''/wifi'') = ''wifi''"
    using last_level_append [of "''wifi''" "''tsn/cmd/'' @ dev"] by simp
  have e: "on_command N dr (''tsn/cmd/'' @ dev @ ''/wifi'') (wifi_json s p) d = Some d'"
    using assms(8) crate_set_wifi_json [OF assms(5-7), of N d] unfolding on_command_def ll esp_command_def
    by (simp add: d'_def esp_restart_def)
  have n: "et_nvs (nd_tsn d') = htsn_cfg_set_wifi N (Some (take 63 s)) (Some (take 63 p)) (et_nvs (nd_tsn d))"
    by (simp add: d'_def esp_restart_def with_nvs_def)
  let ?r = "nvs_restart N (et_nvs (nd_tsn d'))"
  have r: "nvs_get N ?r = (nvs_get N (et_nvs (nd_tsn d)))(''wifi_ssid'' \<mapsto> NStr (take 63 s), ''wifi_pass'' \<mapsto> NStr (take 63 p))"
    unfolding nvs_flash.get_restart [OF assms(1)] n nvs_flash.set_wifi_get(2) [OF assms(1)] by (rule nvs_flash.set_wifi_get(1) [OF assms(1)])
  have nets: "nvs_flash.nets N ?r = l" using assms(2) by (simp add: nvs_flash.nets_def [OF assms(1)] nvs_get_nets_def r)
  have "bo_nets (app_boot N sensors ?r) = map (\<lambda>e. (ne_ssid e, take 63 (ne_pass e))) l"
    using nvs_flash.boot_nets [OF assms(1), of ?r "take 63 s" sensors] assms(3,4,7) by (simp add: nets r fits_def)
  moreover have "nvs_get N (et_nvs (nd_tsn d')) ''wifi_ssid'' = Some (NStr (take 63 s))"
    by (simp add: n nvs_flash.set_wifi_get(1) [OF assms(1)])
  moreover have "nd_restarted d'" "nd_out d' = nd_out d" by (simp_all add: d'_def esp_restart_def with_nvs_def)
  ultimately show ?thesis using e by blast
qed

definition home_node :: "flash_ref node" where
  "home_node = with_nvs (\<lambda>_. fr_put blank_flash [''net_list'' \<mapsto> NNets [\<lparr>ne_ssid = ''home'', ne_pass = ''pw''\<rparr>]]) demo_node"

theorem set_wifi_without_effect_witness:
  "\<exists>d'. on_command flash_nvs demo_drivers (''tsn/cmd/'' @ ''esp32-02'' @ ''/wifi'') (wifi_json ''lab'' ''secret'') home_node = Some d' \<and>
     bo_nets (app_boot flash_nvs False (nvs_restart flash_nvs (et_nvs (nd_tsn d')))) = [(''home'', ''pw'')]"
proof -
  have "nvs_get flash_nvs (et_nvs (nd_tsn home_node)) ''net_list'' = Some (NNets [\<lparr>ne_ssid = ''home'', ne_pass = ''pw''\<rparr>])"
    by (simp add: home_node_def with_nvs_def flash_nvs_def fr_put_def fr_get_def)
  from set_wifi_without_effect [OF nvs_ref.nvs_flash_axioms this, of "''lab''" "''secret''" "''esp32-02''" demo_drivers False]
  show ?thesis by (auto simp: nets_ok_def fits_def HTSN_NET_MAX_def)
qed

section \<open>Bounds\<close>

definition node_ok :: "'n node \<Rightarrow> bool" where
  "node_ok d \<longleftrightarrow> (let st = et_state (nd_tsn d) in 0 \<le> ts_gcl_entries st \<and> ts_gcl_entries st \<le> 32) \<and> streams_ok (nd_tsn d)"

text \<open>States of an agent under any messages on any topics.\<close>

inductive node_reach :: "'n nvs \<Rightarrow> drivers \<Rightarrow> 'n node \<Rightarrow> 'n node \<Rightarrow> bool" for N dr d0 where
  start: "node_reach N dr d0 d0"
| message: "node_reach N dr d0 d \<Longrightarrow> on_command N dr topic payload d = Some d' \<Longrightarrow> node_reach N dr d0 d'"

lemma node_ok_frame [simp]:
  "node_ok (htsn_mqtt_publish t p d) = node_ok d" "node_ok (hw c d) = node_ok d" "node_ok (esp_restart d) = node_ok d" "node_ok (with_nvs f d) = node_ok d"
  "node_ok (d\<lparr>nd_dl1 := x, nd_dl2 := y\<rparr>) = node_ok d" "node_ok (d\<lparr>nd_identifying := b\<rparr>) = node_ok d"
  by (simp_all add: node_ok_def htsn_mqtt_publish_def hw_def esp_restart_def with_nvs_def streams_ok_def)

lemma node_ok_acks [simp]:
  "node_ok (esp_send_ack b r d) = node_ok d" "node_ok (ack_with n fl d) = node_ok d" "node_ok (identify_start d) = node_ok d"
  "node_ok (factory_reset N d) = node_ok d"
  by (simp_all add: esp_send_ack_def ack_with_def identify_start_def factory_reset_def)

lemma load_tsn_entries:
  assumes "sv_gcl_entries s = 0"
  shows "0 \<le> sv_gcl_entries (snd (htsn_cfg_load_tsn_state N n s))" "sv_gcl_entries (snd (htsn_cfg_load_tsn_state N n s)) \<le> 32"
  using assms by (auto simp: htsn_cfg_load_tsn_state_def Let_def HTSN_GCL_MAX_def split: option.split)

lemma node_ok_tsn:
  assumes "node_ok d"
  shows "node_ok (with_tsn (htsn_tsn_apply_qos a b c e f) d)" "node_ok (with_tsn (htsn_tsn_apply_vlan a) d)"
    "node_ok (with_tsn (htsn_tsn_apply_timesync a g) d)" "node_ok (with_tsn (htsn_tsn_apply_tas a x y k) d)"
    "node_ok (with_tsn (htsn_tsn_apply_preemption a) d)" "node_ok (with_tsn (htsn_tsn_reset_state N) d)"
    "node_ok (d\<lparr>nd_tsn := snd (htsn_tsn_get_state N (nd_tsn d))\<rparr>)" "node_ok (d\<lparr>nd_tsn := snd (htsn_tsn_apply_snapshot N co (nd_tsn d))\<rparr>)"
    "node_ok (d\<lparr>nd_tsn := snd (htsn_tsn_apply_stream so (nd_tsn d))\<rparr>)"
proof -
  have k: "0 \<le> max 0 (min k (int HTSN_GCL_MAX))" "max 0 (min k (int HTSN_GCL_MAX)) \<le> 32" for k by (simp_all add: HTSN_GCL_MAX_def)
  note defs = node_ok_def with_tsn_def streams_ok_def htsn_tsn_apply_qos_def htsn_tsn_apply_vlan_def htsn_tsn_apply_timesync_def
    htsn_tsn_apply_tas_def htsn_tsn_apply_preemption_def htsn_tsn_reset_state_def no_state_def Let_def
  show "node_ok (with_tsn (htsn_tsn_apply_qos a b c e f) d)" "node_ok (with_tsn (htsn_tsn_apply_vlan a) d)"
    "node_ok (with_tsn (htsn_tsn_apply_timesync a g) d)" "node_ok (with_tsn (htsn_tsn_apply_tas a x y k) d)"
    "node_ok (with_tsn (htsn_tsn_apply_preemption a) d)" "node_ok (with_tsn (htsn_tsn_reset_state N) d)"
    using assms k by (simp_all add: defs)
  show "node_ok (d\<lparr>nd_tsn := snd (htsn_tsn_get_state N (nd_tsn d))\<rparr>)"
    using assms by (simp add: htsn_tsn_get_state_def load_persisted_def node_ok_def streams_ok_def load_tsn_entries Let_def)
  show "node_ok (d\<lparr>nd_tsn := snd (htsn_tsn_apply_snapshot N co (nd_tsn d))\<rparr>)"
    using assms k by (cases co) (simp_all add: defs htsn_tsn_apply_snapshot_def save_state_def)
  show "node_ok (d\<lparr>nd_tsn := snd (htsn_tsn_apply_stream so (nd_tsn d))\<rparr>)"
    using assms streams_ok_apply [of "nd_tsn d" so]
    by (auto simp: node_ok_def htsn_tsn_apply_stream_def Let_def split: option.splits)
qed

text \<open>A handler keeps the bounds when it returns.\<close>

definition keeps :: "'n node option \<Rightarrow> bool" where
  "keeps r \<longleftrightarrow> (\<forall>d'. r = Some d' \<longrightarrow> node_ok d')"

lemma keeps_simps [simp]: "keeps (Some d) = node_ok d" "keeps None"
  by (simp_all add: keeps_def)

lemma keeps_if: "keeps a \<Longrightarrow> keeps b \<Longrightarrow> keeps (if c then a else b)"
  by simp

lemma keeps_map: "(\<And>x. node_ok (f x)) \<Longrightarrow> keeps (map_option f r)"
  by (auto simp: keeps_def)

lemma keeps_bind: "(\<And>x. keeps (f x)) \<Longrightarrow> keeps (Option.bind r f)"
  by (cases r) simp_all

lemma keeps_parts:
  assumes "node_ok d"
  shows "keeps (cmd_stream p d)" "keeps (cmd_display p d)" "keeps (cmd_servo p d)" "keeps (cmd_ota dr p d)" "keeps (crate_set_wifi N p d)"
    "keeps (add_wifi N p d)" "keeps (esp_apply_snapshot N p d)" "node_ok (cmd_status N dr d)" "node_ok (cmd_fill p d)" "node_ok (cmd_reset N d)"
proof -
  show "keeps (cmd_stream p d)" using assms unfolding cmd_stream_def Let_def by (intro keeps_map) (simp add: node_ok_tsn)
  show "keeps (cmd_display p d)" using assms unfolding cmd_display_def by (intro keeps_bind) simp
  show "keeps (cmd_servo p d)" using assms unfolding cmd_servo_def Let_def by (intro keeps_map) simp
  show "keeps (cmd_ota dr p d)" using assms unfolding cmd_ota_def Let_def by (intro keeps_bind) simp
  show "keeps (crate_set_wifi N p d)" using assms unfolding crate_set_wifi_def Let_def by (intro keeps_bind) simp
  show "keeps (add_wifi N p d)" using assms unfolding add_wifi_def Let_def by (intro keeps_bind) simp
  show "keeps (esp_apply_snapshot N p d)"
    using assms unfolding esp_apply_snapshot_def Let_def by (intro keeps_if keeps_map) (auto simp: node_ok_tsn split: prod.split)
  show "node_ok (cmd_status N dr d)" "node_ok (cmd_fill p d)" "node_ok (cmd_reset N d)"
    using assms by (simp_all add: cmd_status_def cmd_fill_def cmd_reset_def Let_def node_ok_tsn)
qed

lemma keeps_wifi: "node_ok d \<Longrightarrow> keeps (map_option (\<lambda>d1. if nd_restarted d1 then d1 else esp_send_ack b r d1) (crate_set_wifi N p d))"
  using keeps_parts(5) [of d N p] by (auto simp: keeps_def)

lemma keeps_command: "node_ok d \<Longrightarrow> keeps (esp_command N dr cmd payload d)"
  unfolding esp_command_def cmd_actor_def cmd_maintenance_def Let_def by (intro keeps_if) (simp_all only: keeps_simps keeps_parts keeps_wifi node_ok_tsn node_ok_acks node_ok_frame)

lemma keeps_message: "node_ok d \<Longrightarrow> keeps (on_command N dr topic payload d)"
  unfolding on_command_def by (intro keeps_if) (simp_all add: keeps_command keeps_parts)

lemma node_ok_message: "node_ok d \<Longrightarrow> on_command N dr topic payload d = Some d' \<Longrightarrow> node_ok d'"
  using keeps_message [of d N dr topic payload] by (simp add: keeps_def)

text \<open>
  The tables of the agent stay in their bounds: whatever messages arrive on whatever topics, the gate control list in use has at most 32 entries and
  the table of streams has at most 8, no two of the same identifier.
\<close>

theorem agent_tables_bounded:
  assumes "node_reach N dr d0 d" and "et_state (nd_tsn d0) = no_state" and "et_streams (nd_tsn d0) = []"
  shows "0 \<le> ts_gcl_entries (et_state (nd_tsn d)) \<and> ts_gcl_entries (et_state (nd_tsn d)) \<le> 32 \<and>
    length (et_streams (nd_tsn d)) \<le> 8 \<and> distinct (map es_stream_id (et_streams (nd_tsn d)))"
proof -
  have "node_ok d0" using assms(2,3) by (simp add: node_ok_def streams_ok_def no_state_def)
  with assms(1) have "node_ok d" by (induction rule: node_reach.induct) (auto intro: node_ok_message)
  then show ?thesis by (simp add: node_ok_def streams_ok_def HTSN_STREAM_MAX_def Let_def)
qed

theorem agent_tables_bounded_witness:
  "\<exists>d. on_command flash_nvs demo_drivers ''tsn/cmd/esp32-02/tas'' ''1000'' demo_node = Some d \<and> ts_gcl_entries (et_state (nd_tsn d)) \<le> 32"
proof -
  have "\<exists>d. on_command flash_nvs demo_drivers ''tsn/cmd/esp32-02/tas'' ''1000'' demo_node = Some d"
    by (simp add: on_command_def esp_command_def last_level_def)
  then obtain d where d: "on_command flash_nvs demo_drivers ''tsn/cmd/esp32-02/tas'' ''1000'' demo_node = Some d" by blast
  have "node_reach flash_nvs demo_drivers demo_node d" by (rule node_reach.message [OF node_reach.start d])
  from agent_tables_bounded [OF this] d show ?thesis by (simp add: demo_node_def esp_tsn_boot_def)
qed

end
