(* ===== verification/Esp_Wifi.thy ===== *)
theory Esp_Wifi
  imports Esp_Agent
begin

text \<open>
  The network connection of the ESP32 agent (main/main.c): the handler of network events with the fallback to provisioning as a state machine, the
  resolution of the broker's name, the button and the lamp.
\<close>

section \<open>The network connection\<close>

text \<open>
  The variables of the connection: the saved networks and the one being tried, whether an address was ever obtained, whether the provisioning
  access point was started, the count of disconnections, the state of the lamp, and the calls made: a connection to a network (its name cut to the 31
  characters that \<open>try_net\<close> copies) or to the same one again. \<open>wf_tasks\<close> counts the tasks \<open>prov_fallback_now\<close> that have not run yet.
\<close>

datatype wifi_call = WifiConnect string string | WifiReconnect

record wifi =
  wf_nets :: "(string \<times> string) list"
  wf_cur :: nat
  wf_ready :: bool
  wf_prov :: bool
  wf_streak :: nat
  wf_led :: int
  wf_led_steady :: bool
  wf_ip :: string
  wf_ssid :: string
  wf_password :: string
  wf_tasks :: nat
  wf_timer :: bool
  wf_calls :: "wifi_call list"

definition PROV_FALLBACK_DISCONNECTS :: nat where "PROV_FALLBACK_DISCONNECTS = 6"

definition try_net :: "nat \<Rightarrow> wifi \<Rightarrow> bool \<times> wifi" where
  "try_net idx w =
     (if idx \<ge> length (wf_nets w) \<or> fst (wf_nets w ! idx) = [] then (False, w)
      else
        (let (ssid, pass) = wf_nets w ! idx
         in (True, w\<lparr>wf_ssid := snprintf_buf 64 ssid, wf_password := snprintf_buf 64 pass,
                     wf_calls := wf_calls w @ [WifiConnect (take 31 ssid) (take 63 pass)]\<rparr>)))"

datatype wifi_event = StaStart | StaDisconnected | GotIp string | ProvTask | ProvTimeout

text \<open>The path for a single network, and for a network that cannot be tried.\<close>

definition retry_net :: "wifi \<Rightarrow> wifi" where
  "retry_net w =
     (let w1 = w\<lparr>wf_streak := wf_streak w + 1\<rparr>
      in if wf_streak w1 \<ge> PROV_FALLBACK_DISCONNECTS \<and> \<not> wf_ready w1 \<and> \<not> wf_prov w1 then w1\<lparr>wf_tasks := wf_tasks w1 + 1\<rparr>
         else w1\<lparr>wf_calls := wf_calls w1 @ [WifiReconnect]\<rparr>)"

definition sta_disconnected :: "wifi \<Rightarrow> wifi" where
  "sta_disconnected w0 =
     (let w = w0\<lparr>wf_led_steady := False, wf_led := 1\<rparr>
      in if length (wf_nets w) > 1 then
           (let w1 = w\<lparr>wf_cur := (wf_cur w + 1) mod length (wf_nets w)\<rparr>;
                w2 = (if wf_cur w1 = 0 \<and> \<not> wf_ready w1 \<and> \<not> wf_prov w1 then w1\<lparr>wf_streak := wf_streak w1 + 1\<rparr> else w1)
            in if wf_cur w1 = 0 \<and> \<not> wf_ready w1 \<and> \<not> wf_prov w1 \<and> wf_streak w2 \<ge> PROV_FALLBACK_DISCONNECTS
               then w2\<lparr>wf_tasks := wf_tasks w2 + 1\<rparr>
               else (let r = try_net (wf_cur w2) w2 in if fst r then snd r else retry_net w2))
         else retry_net w)"

text \<open>\<open>ProvTask\<close> is a run of \<open>prov_fallback_now\<close>, \<open>ProvTimeout\<close> the end of the fifteen seconds of \<open>prov_fallback_task\<close>.\<close>

definition wifi_step :: "wifi \<Rightarrow> wifi_event \<Rightarrow> wifi" where
  "wifi_step w ev =
     (case ev of
        StaStart \<Rightarrow> if wf_nets w \<noteq> [] then snd (try_net (wf_cur w) w) else w
      | StaDisconnected \<Rightarrow> sta_disconnected w
      | GotIp ip \<Rightarrow> w\<lparr>wf_ready := True, wf_streak := 0, wf_ip := snprintf_buf 16 ip, wf_led_steady := True, wf_led := 2\<rparr>
      | ProvTask \<Rightarrow>
          if wf_tasks w = 0 then w
          else if wf_prov w then w\<lparr>wf_tasks := wf_tasks w - 1\<rparr>
          else w\<lparr>wf_tasks := wf_tasks w - 1, wf_prov := True, wf_led := 0\<rparr>
      | ProvTimeout \<Rightarrow>
          if \<not> wf_timer w then w
          else if wf_ready w \<or> wf_prov w then w\<lparr>wf_timer := False\<rparr>
          else w\<lparr>wf_timer := False, wf_prov := True, wf_led := 0\<rparr>)"

definition wifi_boot :: "(string \<times> string) list \<Rightarrow> wifi" where
  "wifi_boot nets = \<lparr>wf_nets = nets, wf_cur = 0, wf_ready = False, wf_prov = False, wf_streak = 0, wf_led = 1, wf_led_steady = False,
     wf_ip = ''0.0.0.0'', wf_ssid = [], wf_password = [], wf_tasks = 0, wf_timer = True, wf_calls = []\<rparr>"

lemma try_net_keeps:
  "wf_ready (snd (try_net i w)) = wf_ready w" "wf_prov (snd (try_net i w)) = wf_prov w" "wf_tasks (snd (try_net i w)) = wf_tasks w"
  "wf_cur (snd (try_net i w)) = wf_cur w" "wf_streak (snd (try_net i w)) = wf_streak w" "wf_nets (snd (try_net i w)) = wf_nets w"
  by (simp_all add: try_net_def Let_def split: prod.split)

lemma try_net_succeeds: "i < length (wf_nets w) \<Longrightarrow> \<forall>x \<in> set (wf_nets w). fst x \<noteq> [] \<Longrightarrow> fst (try_net i w)"
  by (auto simp: try_net_def Let_def split: prod.split)

text \<open>
  C36. A device that was connected once never offers provisioning again: after an address was obtained, with the access point not started and no
  start of it pending, no sequence of further events starts it, however long the saved networks stay out of reach.
\<close>

theorem no_provisioning_after_connection:
  assumes "wf_ready w" and "\<not> wf_prov w" and "wf_tasks w = 0"
  shows "\<not> wf_prov (foldl wifi_step w evs) \<and> wf_tasks (foldl wifi_step w evs) = 0"
proof -
  have "wf_ready (wifi_step w ev) \<and> \<not> wf_prov (wifi_step w ev) \<and> wf_tasks (wifi_step w ev) = 0" if "wf_ready w \<and> \<not> wf_prov w \<and> wf_tasks w = 0" for w ev
    using that by (cases ev) (auto simp: wifi_step_def sta_disconnected_def retry_net_def try_net_keeps Let_def)
  then have "wf_ready (foldl wifi_step w evs) \<and> \<not> wf_prov (foldl wifi_step w evs) \<and> wf_tasks (foldl wifi_step w evs) = 0"
    using assms by (induction evs arbitrary: w) auto
  then show ?thesis by simp
qed

theorem no_provisioning_after_connection_witness:
  "\<not> wf_prov (foldl wifi_step (wifi_step (wifi_boot [(''home'', ''pw'')]) (GotIp ''10.0.0.7'')) (replicate 1000 StaDisconnected @ [ProvTask, ProvTimeout]))"
  by (rule no_provisioning_after_connection [THEN conjunct1]) (simp_all add: wifi_step_def wifi_boot_def)

definition searching :: "(string \<times> string) list \<Rightarrow> nat \<Rightarrow> nat \<Rightarrow> wifi \<Rightarrow> bool" where
  "searching nets j t w \<longleftrightarrow> wf_nets w = nets \<and> \<not> wf_ready w \<and> \<not> wf_prov w \<and> wf_tasks w = t \<and>
     wf_cur w = j mod length nets \<and> wf_streak w = j div length nets"

lemma disconnect_round:
  assumes "searching nets j 0 w" and "nets \<noteq> []" and "\<forall>x \<in> set nets. fst x \<noteq> []"
  shows "searching nets (Suc j) (if Suc j mod length nets = 0 \<and> Suc j div length nets \<ge> 6 then 1 else 0) (sta_disconnected w)"
proof (cases "length nets = 1")
  case True
  then show ?thesis
    using assms by (simp add: searching_def sta_disconnected_def retry_net_def PROV_FALLBACK_DISCONNECTS_def Let_def)
next
  case False
  then have k: "1 < length nets" using assms(2) by (cases nets) auto
  have m: "(j mod length nets + 1) mod length nets = Suc j mod length nets" by (simp add: mod_Suc_eq)
  have d: "Suc j div length nets = (if Suc j mod length nets = 0 then Suc (j div length nets) else j div length nets)" by (simp add: div_Suc)
  have lt: "Suc j mod length nets < length nets" using k by (intro mod_less_divisor) linarith
  have t: "fst (try_net (Suc j mod length nets) v)" if "wf_nets v = nets" for v
    using assms(3) by (intro try_net_succeeds) (simp_all only: that lt)
  show ?thesis
    using assms(1) k m d t
    by (auto simp: searching_def sta_disconnected_def try_net_keeps PROV_FALLBACK_DISCONNECTS_def Let_def)
qed

lemma searching_rounds:
  assumes "nets \<noteq> []" and "\<forall>x \<in> set nets. fst x \<noteq> []" and "j < 6 * length nets"
  shows "searching nets j 0 ((sta_disconnected ^^ j) (wifi_boot nets))"
  using assms(3)
proof (induction j)
  case (Suc j)
  have "Suc j div length nets < 6" using Suc.prems assms(1) by (simp add: div_less_iff_less_mult)
  with disconnect_round [OF Suc.IH assms(1,2)] Suc.prems show ?case by simp
qed (simp add: searching_def wifi_boot_def)

text \<open>
  A device that never gets an address offers provisioning after six rounds: with \<open>k\<close> saved networks, the access point is not requested before the
  disconnection number \<open>6 k\<close>, and that one requests it.
\<close>

theorem provisioning_after_six_rounds:
  assumes "nets \<noteq> []" and "\<forall>x \<in> set nets. fst x \<noteq> []"
  defines "w \<equiv> \<lambda>j. (sta_disconnected ^^ j) (wifi_boot nets)" and "k \<equiv> length nets"
  shows "(\<forall>j < 6 * k. wf_tasks (w j) = 0 \<and> wf_cur (w j) = j mod k \<and> wf_streak (w j) = j div k) \<and> wf_tasks (w (6 * k)) = 1"
proof -
  have k: "0 < k" using assms(1) by (simp add: k_def)
  have s: "searching nets j 0 (w j)" if "j < 6 * k" for j
    using searching_rounds [OF assms(1,2)] that by (simp add: w_def k_def)
  have e: "Suc (6 * k - 1) = 6 * k" using k by simp
  have "searching nets (6 * k) 1 (sta_disconnected (w (6 * k - 1)))"
    using disconnect_round [OF s [of "6 * k - 1"] assms(1,2)] k unfolding e by (simp add: k_def)
  moreover have "sta_disconnected (w (6 * k - 1)) = w (6 * k)" unfolding w_def by (subst (2) e [symmetric]) simp
  ultimately show ?thesis using s by (simp add: searching_def k_def)
qed

theorem provisioning_after_six_rounds_witness:
  "wf_tasks ((sta_disconnected ^^ 12) (wifi_boot [(''home'', ''pw''), (''lab'', ''x'')])) = 1 \<and>
   wf_tasks ((sta_disconnected ^^ 11) (wifi_boot [(''home'', ''pw''), (''lab'', ''x'')])) = 0"
  using provisioning_after_six_rounds [of "[(''home'', ''pw''), (''lab'', ''x'')]"] by simp

section \<open>Broker, button and lamp\<close>

text \<open>\<open>mdns\<close> is the answer to a query for a name: the address as text, \<open>None\<close> on an error or for the address 0.\<close>

definition resolve_mqtt_host :: "(string \<Rightarrow> string option) \<Rightarrow> nat \<Rightarrow> string \<Rightarrow> string" where
  "resolve_mqtt_host mdns sz host =
     (if host = [] \<or> \<not> strstr host ''.local'' then host
      else
        (let q0 = snprintf_buf 64 host;
             q = (if length q0 > 6 \<and> drop (length q0 - 6) q0 = ''.local'' then take (length q0 - 6) q0 else q0)
         in case mdns q of Some ip \<Rightarrow> snprintf_buf sz ip | None \<Rightarrow> snprintf_buf sz ''192.168.0.149''))"

text \<open>When the name of the broker cannot be resolved the node connects to one fixed address, whatever was configured.\<close>

theorem unresolved_broker_fixed:
  assumes "host \<noteq> []" and "strstr host ''.local''" and "\<And>q. mdns q = None"
  shows "resolve_mqtt_host mdns 64 host = ''192.168.0.149''"
  using assms by (simp add: resolve_mqtt_host_def snprintf_buf_def Let_def)

text \<open>One pass of \<open>btn_task\<close>: \<open>t\<close> is the time in microseconds, \<open>low\<close> whether the button is held.\<close>

datatype btn_action = BtnRecalibrate | BtnFactoryReset

definition btn_pass :: "bool \<Rightarrow> int \<Rightarrow> int \<times> bool \<Rightarrow> btn_action list \<times> int \<times> bool" where
  "btn_pass low t s =
     (let (down_us, recal) = s
      in if \<not> low then ([], 0, recal)
         else if down_us = 0 then ([], t, False)
         else
           (let held = t - down_us
            in if \<not> recal \<and> held \<ge> 1200 * 1000 \<and> held < 3000 * 1000 then ([BtnRecalibrate], down_us, True)
               else if held \<ge> 3000 * 1000 then ([BtnFactoryReset], down_us, recal)
               else ([], down_us, recal)))"

text \<open>The button resets the device only when it was held for three seconds, and recalibrates at most once while it is held.\<close>

lemma btn_factory_held: "BtnFactoryReset \<in> set (fst (btn_pass low t (down, recal))) \<Longrightarrow> low \<and> down \<noteq> 0 \<and> t - down \<ge> 3000000"
  by (auto simp: btn_pass_def Let_def split: if_splits)

lemma btn_recal_once: "BtnRecalibrate \<notin> set (fst (btn_pass low t (down, True)))"
  by (simp add: btn_pass_def Let_def)

definition led_on :: "bool \<Rightarrow> int \<Rightarrow> nat \<Rightarrow> bool" where
  "led_on identifying state tick =
     (if identifying then False else if state = 0 then tick mod 3 = 0 else if state = 1 then tick mod 8 < 4 else True)"

section \<open>Commands that are never received\<close>

text \<open>The agent has handlers for two commands whose topics it does not subscribe to.\<close>

theorem unsubscribed_commands:
  assumes "fits 40 dev" and "dev \<noteq> []" and "cmd \<in> {''add_wifi'', ''wfm_recal''}"
  shows "''tsn/cmd/'' @ dev @ ''/'' @ cmd \<notin> set (esp_filters dev)"
proof -
  have s: "snprintf_buf 64 (''tsn/cmd/'' @ dev @ ''/'' @ c) = ''tsn/cmd/'' @ dev @ ''/'' @ c" if "length c \<le> 10" for c
    using assms(1) that by (simp add: snprintf_buf_def fits_def)
  have "set (esp_filters dev) =
      (\<lambda>c. snprintf_buf 64 (''tsn/cmd/'' @ dev @ ''/'' @ c)) ` (set esp_subscribed \<union> set esp_subscribed_display) \<union>
      {''tsn/fx/cmd/#'', ''tsn/fx/data'', ''tsn/sensors/event'', ''tsn/sensors''}"
    using assms(2) by (auto simp: esp_filters_def Let_def)
  also have "\<dots> = (\<lambda>c. ''tsn/cmd/'' @ dev @ ''/'' @ c) ` (set esp_subscribed \<union> set esp_subscribed_display) \<union>
      {''tsn/fx/cmd/#'', ''tsn/fx/data'', ''tsn/sensors/event'', ''tsn/sensors''}"
    using s by (intro arg_cong2 [where f = "(\<union>)"] image_cong) (auto simp: esp_subscribed_def esp_subscribed_display_def)
  finally show ?thesis using assms(3) by (auto simp: esp_subscribed_def esp_subscribed_display_def)
qed

end
