(* ===== verification/Opcua_Bridge.thy ===== *)
theory Opcua_Bridge
  imports Esp_Json Eth_Endpoint
begin

text \<open>
  The bridge between the OPC UA server and the STM32 endpoint (\<open>rpi-tsn/tsn_opcua_bridge.c\<close>) with the address space of
  the server (\<open>rpi-tsn/htsn_nodes.c\<close>, \<open>htsn_opcua_ids.h\<close>). The record holds the file's static variables; writes to nodes and
  datagrams passed to \<open>sendto\<close> are recorded in order. The open62541 client is the parameter \<open>rd\<close>, the server's answers
  to reads; the parameter \<open>S\<close> is the outcome of \<open>sendto\<close>, \<open>'a\<close> the socket addresses. The socket set-up, signals and log
  output are left out.
\<close>

section \<open>Readers of small JSON texts\<close>

definition j_blank :: "char \<Rightarrow> bool" where
  "j_blank c \<longleftrightarrow> c = CHR '' '' \<or> c = CHR 0x09"

definition jpat :: "string \<Rightarrow> string" where
  "jpat key = snprintf_buf 64 (dq @ key @ dq @ '':'')"

definition jfind :: "string \<Rightarrow> string \<Rightarrow> string option" where
  "jfind buf key =
     (let pat = jpat key
      in case strstr_from buf pat of
           None \<Rightarrow> None
         | Some p \<Rightarrow> Some (dropWhile j_blank (drop (length pat) p)))"

definition jint :: "string \<Rightarrow> string \<Rightarrow> int \<Rightarrow> int" where
  "jint buf key def = (case jfind buf key of Some p \<Rightarrow> strtoll p | None \<Rightarrow> def)"

definition jbool :: "string \<Rightarrow> string \<Rightarrow> bool \<Rightarrow> bool" where
  "jbool buf key def =
     (case jfind buf key of
        None \<Rightarrow> def
      | Some p \<Rightarrow> p \<noteq> [] \<and> (hd p = CHR ''t'' \<or> hd p = CHR ''1'' \<or> hd p = CHR ''T'' \<or> hd p = CHR ''y''))"

text \<open>The loop of \<open>jintarr\<close>: at most \<open>maxn\<close> numbers, up to a bracket or a text that is no number.\<close>

fun jintarr_loop :: "nat \<Rightarrow> string \<Rightarrow> int list" where
  "jintarr_loop 0 p = []"
| "jintarr_loop (Suc n) p =
     (let p1 = dropWhile j_blank p
      in if p1 \<noteq> [] \<and> hd p1 = CHR '']'' then []
         else case scan_int p1 of
                None \<Rightarrow> []
              | Some (v, q) \<Rightarrow> int64_sat v # jintarr_loop n (dropWhile (\<lambda>c. c = CHR '' '' \<or> c = CHR '','') q))"

definition jintarr :: "string \<Rightarrow> string \<Rightarrow> nat \<Rightarrow> int list" where
  "jintarr buf key maxn =
     (case jfind buf key of
        Some (c # p) \<Rightarrow> if c = CHR ''['' then jintarr_loop maxn p else []
      | _ \<Rightarrow> [])"

section \<open>State\<close>

text \<open>A value of an OPC UA node; \<open>Ua_Empty\<close> is a variant without data.\<close>

datatype ua =
    Ua_Bool bool | Ua_Byte int | Ua_Int16 int | Ua_UInt16 int | Ua_Int32 int | Ua_Int64 int
  | Ua_Int16s "int list" | Ua_String string | Ua_Empty

record 'a bridge =
  g_c :: bool
  ep :: "'a option"
  last_tsn :: string
  last_keepalive :: int
  last_servo :: int
  last_relay :: bool
  last_beep :: int
  primed :: bool
  node_writes :: "(nat \<times> ua) list"
  udp_out :: "('a \<times> byte list) list"

definition bridge_start :: "'a bridge" where
  "bridge_start = \<lparr>g_c = False, ep = None, last_tsn = [], last_keepalive = 0, last_servo = 0, last_relay = False,
     last_beep = 0, primed = False, node_writes = [], udp_out = []\<rparr>"

definition w_scalar :: "nat \<Rightarrow> ua \<Rightarrow> 'a bridge \<Rightarrow> 'a bridge" where
  "w_scalar i v b = (if \<not> g_c b then b else b\<lparr>node_writes := node_writes b @ [(i, v)]\<rparr>)"

definition w_int16arr :: "nat \<Rightarrow> int list \<Rightarrow> 'a bridge \<Rightarrow> 'a bridge" where
  "w_int16arr i vs b = (if \<not> g_c b then b else b\<lparr>node_writes := node_writes b @ [(i, Ua_Int16s vs)]\<rparr>)"

definition HTSN_ID_SONAR_SWEEP :: nat where "HTSN_ID_SONAR_SWEEP = 1"
definition HTSN_ID_SONAR_SWEEP_ID :: nat where "HTSN_ID_SONAR_SWEEP_ID = 2"
definition HTSN_ID_SERVO_ANGLE :: nat where "HTSN_ID_SERVO_ANGLE = 3"
definition HTSN_ID_RELAY_ON :: nat where "HTSN_ID_RELAY_ON = 4"
definition HTSN_ID_BUZZER_HZ :: nat where "HTSN_ID_BUZZER_HZ = 5"
definition HTSN_ID_BUZZER_MS :: nat where "HTSN_ID_BUZZER_MS = 6"
definition HTSN_ID_BTN1 :: nat where "HTSN_ID_BTN1 = 7"
definition HTSN_ID_BTN2 :: nat where "HTSN_ID_BTN2 = 8"
definition HTSN_ID_BTN3 :: nat where "HTSN_ID_BTN3 = 9"
definition HTSN_ID_BTN4 :: nat where "HTSN_ID_BTN4 = 10"
definition HTSN_ID_PTP_OFFSET_NS :: nat where "HTSN_ID_PTP_OFFSET_NS = 11"
definition HTSN_ID_PTP_STATE :: nat where "HTSN_ID_PTP_STATE = 12"
definition HTSN_ID_PTP_LOCKED :: nat where "HTSN_ID_PTP_LOCKED = 13"
definition HTSN_ID_LAST_SEEN :: nat where "HTSN_ID_LAST_SEEN = 14"
definition HTSN_ID_CMD_SERVO_ANGLE :: nat where "HTSN_ID_CMD_SERVO_ANGLE = 21"
definition HTSN_ID_CMD_RELAY_ON :: nat where "HTSN_ID_CMD_RELAY_ON = 22"
definition HTSN_ID_CMD_BEEP_MS :: nat where "HTSN_ID_CMD_BEEP_MS = 23"
definition HTSN_ID_CMD_SONAR_TRIG :: nat where "HTSN_ID_CMD_SONAR_TRIG = 24"
definition HTSN_ID_CMD_REBOOT :: nat where "HTSN_ID_CMD_REBOOT = 25"
definition HTSN_ID_TSN_APP_VLAN :: nat where "HTSN_ID_TSN_APP_VLAN = 31"
definition HTSN_ID_TSN_APP_PRIO :: nat where "HTSN_ID_TSN_APP_PRIO = 32"
definition HTSN_ID_TSN_APP_PREEMPT :: nat where "HTSN_ID_TSN_APP_PREEMPT = 33"
definition HTSN_ID_TSN_APP_TIMESYNC :: nat where "HTSN_ID_TSN_APP_TIMESYNC = 34"
definition HTSN_ID_TSN_APP_STROLE :: nat where "HTSN_ID_TSN_APP_STROLE = 35"
definition HTSN_ID_TSN_APP_STVLAN :: nat where "HTSN_ID_TSN_APP_STVLAN = 36"
definition HTSN_ID_TSN_APP_TASCYC :: nat where "HTSN_ID_TSN_APP_TASCYC = 37"
definition HTSN_ID_TSN_FEATURES :: nat where "HTSN_ID_TSN_FEATURES = 38"
definition HTSN_ID_CMD_TSN_CONFIG :: nat where "HTSN_ID_CMD_TSN_CONFIG = 51"

lemmas node_ids = HTSN_ID_SONAR_SWEEP_def HTSN_ID_SONAR_SWEEP_ID_def HTSN_ID_SERVO_ANGLE_def HTSN_ID_RELAY_ON_def
  HTSN_ID_BUZZER_HZ_def HTSN_ID_BUZZER_MS_def HTSN_ID_BTN1_def HTSN_ID_BTN2_def HTSN_ID_BTN3_def HTSN_ID_BTN4_def
  HTSN_ID_PTP_OFFSET_NS_def HTSN_ID_PTP_STATE_def HTSN_ID_PTP_LOCKED_def HTSN_ID_LAST_SEEN_def
  HTSN_ID_CMD_SERVO_ANGLE_def HTSN_ID_CMD_RELAY_ON_def HTSN_ID_CMD_BEEP_MS_def HTSN_ID_CMD_SONAR_TRIG_def
  HTSN_ID_CMD_REBOOT_def HTSN_ID_TSN_APP_VLAN_def HTSN_ID_TSN_APP_PRIO_def HTSN_ID_TSN_APP_PREEMPT_def
  HTSN_ID_TSN_APP_TIMESYNC_def HTSN_ID_TSN_APP_STROLE_def HTSN_ID_TSN_APP_STVLAN_def HTSN_ID_TSN_APP_TASCYC_def
  HTSN_ID_TSN_FEATURES_def HTSN_ID_CMD_TSN_CONFIG_def

section \<open>Telemetry from the endpoint\<close>

definition le_u32 :: "byte list \<Rightarrow> nat \<Rightarrow> u32" where
  "le_u32 b i = ucast (b ! i) OR push_bit 8 (ucast (b ! (i + 1))) OR push_bit 16 (ucast (b ! (i + 2))) OR
     push_bit 24 (ucast (b ! (i + 3)))"

definition telem_sweep :: "byte list \<Rightarrow> 'a bridge \<Rightarrow> 'a bridge" where
  "telem_sweep pl b =
     (if length pl < 4 then b
      else
        (let sid = sint (le_u32 pl 0);
             n = min ((length pl - 4) div 2) 2048;
             sweep = map (\<lambda>i. sint (le_u16 pl (4 + i * 2))) [0..<n]
         in w_scalar HTSN_ID_SONAR_SWEEP_ID (Ua_Int32 sid) (w_int16arr HTSN_ID_SONAR_SWEEP sweep b)))"

definition telem_buttons :: "byte list \<Rightarrow> 'a bridge \<Rightarrow> 'a bridge" where
  "telem_buttons pl b =
     (if length pl < 1 then b
      else
        (let m = pl ! 0;
             b1 = w_scalar HTSN_ID_BTN1 (Ua_Bool (m AND 1 \<noteq> 0)) b;
             b2 = w_scalar HTSN_ID_BTN2 (Ua_Bool (m AND 2 \<noteq> 0)) b1;
             b3 = w_scalar HTSN_ID_BTN3 (Ua_Bool (m AND 4 \<noteq> 0)) b2
         in w_scalar HTSN_ID_BTN4 (Ua_Bool (m AND 8 \<noteq> 0)) b3))"

definition telem_actuator :: "byte list \<Rightarrow> 'a bridge \<Rightarrow> 'a bridge" where
  "telem_actuator pl b =
     (if \<not> length pl < HTSN_FRAME_MAXPLEN + 1 then b
      else
        (let jb = text_of pl;
             angle = sint (word_of_int (jint jb ''angle'' 0) :: u16);
             hz = uint (word_of_int (jint jb ''hz'' 0) :: u16);
             ms = uint (word_of_int (jint jb ''ms'' 0) :: u16);
             on = jbool jb ''on'' False;
             b1 = w_scalar HTSN_ID_SERVO_ANGLE (Ua_Int16 angle) b;
             b2 = w_scalar HTSN_ID_BUZZER_HZ (Ua_UInt16 hz) b1;
             b3 = w_scalar HTSN_ID_BUZZER_MS (Ua_UInt16 ms) b2
         in w_scalar HTSN_ID_RELAY_ON (Ua_Bool on) b3))"

definition telem_ptp :: "byte list \<Rightarrow> 'a bridge \<Rightarrow> 'a bridge" where
  "telem_ptp pl b =
     (if \<not> length pl < HTSN_FRAME_MAXPLEN + 1 then b
      else
        (let jb = text_of pl;
             off = jint jb ''offset_ns'' 0;
             st = uint (word_of_int (jint jb ''state'' 0) :: byte);
             locked = jbool jb ''locked'' False;
             b1 = w_scalar HTSN_ID_PTP_OFFSET_NS (Ua_Int64 off) b;
             b2 = w_scalar HTSN_ID_PTP_STATE (Ua_Byte st) b1
         in w_scalar HTSN_ID_PTP_LOCKED (Ua_Bool locked) b2))"

definition HTSN_TSN_GCL_ENTRY :: nat where "HTSN_TSN_GCL_ENTRY = 9"
definition HTSN_TSN_MAX_GCL :: nat where "HTSN_TSN_MAX_GCL = 16"

definition telem_tsn_applied :: "byte list \<Rightarrow> 'a bridge \<Rightarrow> 'a bridge" where
  "telem_tsn_applied pl b =
     (if length pl < sizeof_tsn_cfg then b
      else
        (let cfg = load_tsn_cfg pl;
             b1 = w_scalar HTSN_ID_TSN_APP_VLAN (Ua_Int16 (sint (vlan_id cfg))) b;
             b2 = w_scalar HTSN_ID_TSN_APP_PRIO (Ua_Byte (uint (priority cfg))) b1;
             b3 = w_scalar HTSN_ID_TSN_APP_PREEMPT (Ua_Byte (uint (preemption cfg))) b2;
             b4 = w_scalar HTSN_ID_TSN_APP_TIMESYNC (Ua_Byte (uint (timesync_mode cfg))) b3;
             b5 = w_scalar HTSN_ID_TSN_APP_STROLE (Ua_Byte (uint (stream_role cfg))) b4;
             b6 = w_scalar HTSN_ID_TSN_APP_STVLAN (Ua_Int16 (sint (stream_vlan_id cfg))) b5;
             b7 = w_scalar HTSN_ID_TSN_APP_TASCYC (Ua_Int64 (sint (tas_cycle_ns cfg))) b6;
             gcl_bytes = unat (gcl_count cfg) * HTSN_TSN_GCL_ENTRY;
             feat = (if length pl \<ge> sizeof_tsn_cfg + gcl_bytes + 4 then le_u32 pl (sizeof_tsn_cfg + gcl_bytes) else 0)
         in w_scalar HTSN_ID_TSN_FEATURES (Ua_Int32 (sint feat)) b7))"

text \<open>\<open>HTSN_KIND_TELEM_HELLO\<close> (1) is only logged; 7 and 8 are the frames of the preemption demonstration.\<close>

definition on_telemetry :: "byte \<Rightarrow> byte list \<Rightarrow> 'a bridge \<Rightarrow> 'a bridge" where
  "on_telemetry kind pl b =
     (if kind = 2 then telem_sweep pl b
      else if kind = 3 then telem_buttons pl b
      else if kind = 4 then telem_actuator pl b
      else if kind = 5 then telem_ptp pl b
      else if kind = 6 then telem_tsn_applied pl b
      else b)"

section \<open>Commands to the endpoint\<close>

text \<open>
  \<open>S\<close> tells whether the last of a list of \<open>sendto\<close> calls (destination and datagram) succeeds, given the calls
  before it.
\<close>

definition bridge_send_frame ::
  "(('a \<times> byte list) list \<Rightarrow> bool) \<Rightarrow> byte \<Rightarrow> byte \<Rightarrow> byte list option \<Rightarrow> u16 \<Rightarrow> 'a bridge \<Rightarrow> int \<times> 'a bridge" where
  "bridge_send_frame S ty kind pl len b =
     (case ep b of
        None \<Rightarrow> (- 1, b)
      | Some addr \<Rightarrow>
          (let (flen, frame) = htsn_frame_pack (replicate HTSN_FRAME_MAX 0) ty kind pl len
           in if flen < 0 then (- 1, b)
              else
                (let calls = udp_out b @ [(addr, take (nat flen) frame)]
                 in (if S calls then flen else - 1, b\<lparr>udp_out := calls\<rparr>))))"

definition send_cmd_kind ::
  "(('a \<times> byte list) list \<Rightarrow> bool) \<Rightarrow> byte \<Rightarrow> byte list option \<Rightarrow> u16 \<Rightarrow> 'a bridge \<Rightarrow> int \<times> 'a bridge" where
  "send_cmd_kind S kind pl len b = bridge_send_frame S HTSN_TYPE_CMD kind pl len b"

fun le64 :: "nat \<Rightarrow> u64 \<Rightarrow> byte list" where
  "le64 0 w = []"
| "le64 (Suc n) w = ucast w # le64 n (drop_bit 8 w)"

text \<open>\<open>memcpy(pl, &cfg, sizeof(cfg))\<close> from the packed little-endian structure.\<close>

definition store_tsn_cfg :: "tsn_cfg \<Rightarrow> byte list" where
  "store_tsn_cfg c =
     [priority c, traffic_class c] @ le16 (vlan_id c) @ [preemption c, timesync_mode c, stream_role c] @
     le16 (stream_vlan_id c) @ [stream_priority c, reserved c] @ le64 8 (tas_cycle_ns c) @ le16 (gcl_count c)"

fun push_gates :: "byte list \<Rightarrow> (int \<times> int) list \<Rightarrow> byte list" where
  "push_gates pl [] = pl"
| "push_gates pl ((g, d) # r) =
     (if length pl + HTSN_TSN_GCL_ENTRY \<le> HTSN_FRAME_MAXPLEN
      then push_gates (pl @ word_of_int g # le64 8 (word_of_int d)) r else pl)"

definition parse_tsn_config :: "string \<Rightarrow> tsn_cfg \<times> (int \<times> int) list" where
  "parse_tsn_config json =
     (let gs = jintarr json ''gcl_gs'' HTSN_TSN_MAX_GCL;
          dur = jintarr json ''gcl_dur'' HTSN_TSN_MAX_GCL
      in (\<lparr> priority = word_of_int (jint json ''priority'' 0),
            traffic_class = word_of_int (jint json ''traffic_class'' 0),
            vlan_id = word_of_int (jint json ''vlan_id'' 0),
            preemption = word_of_int (jint json ''preemption'' 0),
            timesync_mode = word_of_int (jint json ''timesync_mode'' 0),
            stream_role = word_of_int (jint json ''st_role'' 0),
            stream_vlan_id = word_of_int (jint json ''st_vlan'' 0),
            stream_priority = word_of_int (jint json ''st_prio'' 0),
            reserved = 0,
            tas_cycle_ns = word_of_int (jint json ''tas_cycle_ns'' 0),
            gcl_count = word_of_nat (min (length gs) (length dur)) \<rparr>,
          zip gs dur))"

definition push_tsn_config :: "(('a \<times> byte list) list \<Rightarrow> bool) \<Rightarrow> string \<Rightarrow> 'a bridge \<Rightarrow> 'a bridge" where
  "push_tsn_config S json b =
     (let (cfg, gates) = parse_tsn_config json;
          pl = push_gates (store_tsn_cfg cfg) gates;
          (r, b1) = send_cmd_kind S 7 (Some pl) (word_of_nat (length pl)) b
      in if r \<ge> 0 then b1\<lparr>last_tsn := snprintf_buf (HTSN_FRAME_MAXPLEN + 1) json\<rparr> else b1)"

section \<open>Polling the command nodes\<close>

text \<open>
  \<open>rd\<close> is the server's answer to a read: \<open>None\<close> is a status other than good. The result of \<open>rd_scalar\<close> is \<open>None\<close>
  when the status is good and the value has another type: the caller then reads a variable that was never assigned.
\<close>

definition rd_scalar :: "(ua \<Rightarrow> 'v option) \<Rightarrow> (nat \<Rightarrow> ua option) \<Rightarrow> nat \<Rightarrow> 'v option option" where
  "rd_scalar ty rd i = (case rd i of None \<Rightarrow> Some None | Some v \<Rightarrow> (case ty v of None \<Rightarrow> None | Some x \<Rightarrow> Some (Some x)))"

fun as_int16 :: "ua \<Rightarrow> int option" where
  "as_int16 (Ua_Int16 i) = Some i"
| "as_int16 _ = None"

fun as_bool :: "ua \<Rightarrow> bool option" where
  "as_bool (Ua_Bool x) = Some x"
| "as_bool _ = None"

definition arg_bytes :: "int \<Rightarrow> byte list" where
  "arg_bytes a = [word_of_int (a AND 0xFF), word_of_int (drop_bit 8 a AND 0xFF)]"

definition poll_tsn :: "(('a \<times> byte list) list \<Rightarrow> bool) \<Rightarrow> (nat \<Rightarrow> ua option) \<Rightarrow> 'a bridge \<Rightarrow> 'a bridge" where
  "poll_tsn S rd b =
     (case rd HTSN_ID_CMD_TSN_CONFIG of
        Some (Ua_String us) \<Rightarrow>
          (let s = takeWhile (\<lambda>c. c \<noteq> CHR 0x00) (take HTSN_FRAME_MAXPLEN us)
           in if s \<noteq> [] \<and> s \<noteq> last_tsn b then push_tsn_config S s b else b)
      | _ \<Rightarrow> b)"

definition keepalive :: "(('a \<times> byte list) list \<Rightarrow> bool) \<Rightarrow> int \<Rightarrow> 'a bridge \<Rightarrow> 'a bridge" where
  "keepalive S now b =
     (if last_tsn b \<noteq> [] \<and> now - last_keepalive b \<ge> 10
      then (push_tsn_config S (last_tsn b) b)\<lparr>last_keepalive := now\<rparr> else b)"

definition poll_servo :: "(('a \<times> byte list) list \<Rightarrow> bool) \<Rightarrow> (nat \<Rightarrow> ua option) \<Rightarrow> 'a bridge \<Rightarrow> 'a bridge option" where
  "poll_servo S rd b =
     (case rd_scalar as_int16 rd HTSN_ID_CMD_SERVO_ANGLE of
        None \<Rightarrow> None
      | Some None \<Rightarrow> Some b
      | Some (Some a) \<Rightarrow>
          (let b1 = (if primed b \<and> a \<noteq> last_servo b then snd (send_cmd_kind S 1 (Some (arg_bytes a)) 2 b) else b)
           in Some (b1\<lparr>last_servo := a\<rparr>)))"

definition poll_relay :: "(('a \<times> byte list) list \<Rightarrow> bool) \<Rightarrow> (nat \<Rightarrow> ua option) \<Rightarrow> 'a bridge \<Rightarrow> 'a bridge option" where
  "poll_relay S rd b =
     (case rd_scalar as_bool rd HTSN_ID_CMD_RELAY_ON of
        None \<Rightarrow> None
      | Some None \<Rightarrow> Some b
      | Some (Some x) \<Rightarrow>
          (let b1 = (if primed b \<and> x \<noteq> last_relay b then snd (send_cmd_kind S 3 (Some [if x then 1 else 0]) 1 b) else b)
           in Some (b1\<lparr>last_relay := x\<rparr>)))"

definition poll_beep :: "(('a \<times> byte list) list \<Rightarrow> bool) \<Rightarrow> (nat \<Rightarrow> ua option) \<Rightarrow> 'a bridge \<Rightarrow> 'a bridge option" where
  "poll_beep S rd b =
     (case rd_scalar as_int16 rd HTSN_ID_CMD_BEEP_MS of
        None \<Rightarrow> None
      | Some None \<Rightarrow> Some b
      | Some (Some ms) \<Rightarrow>
          (let b1 = (if primed b \<and> ms \<noteq> last_beep b then snd (send_cmd_kind S 4 (Some (arg_bytes ms)) 2 b) else b)
           in Some (b1\<lparr>last_beep := ms\<rparr>)))"

text \<open>The two triggers: send the command without payload, then write the node back to false.\<close>

definition poll_trigger ::
  "(('a \<times> byte list) list \<Rightarrow> bool) \<Rightarrow> (nat \<Rightarrow> ua option) \<Rightarrow> nat \<Rightarrow> byte \<Rightarrow> 'a bridge \<Rightarrow> 'a bridge option" where
  "poll_trigger S rd i kind b =
     (case rd_scalar as_bool rd i of
        None \<Rightarrow> None
      | Some (Some True) \<Rightarrow> Some (w_scalar i (Ua_Bool False) (snd (send_cmd_kind S kind None 0 b)))
      | Some _ \<Rightarrow> Some b)"

definition poll_commands ::
  "(('a \<times> byte list) list \<Rightarrow> bool) \<Rightarrow> (nat \<Rightarrow> ua option) \<Rightarrow> int \<Rightarrow> 'a bridge \<Rightarrow> 'a bridge option" where
  "poll_commands S rd now b =
     (case poll_servo S rd (keepalive S now (poll_tsn S rd b)) of
        None \<Rightarrow> None
      | Some b1 \<Rightarrow>
     (case poll_relay S rd b1 of
        None \<Rightarrow> None
      | Some b2 \<Rightarrow>
     (case poll_beep S rd b2 of
        None \<Rightarrow> None
      | Some b3 \<Rightarrow>
     (case poll_trigger S rd HTSN_ID_CMD_SONAR_TRIG 2 b3 of
        None \<Rightarrow> None
      | Some b4 \<Rightarrow>
     (case poll_trigger S rd HTSN_ID_CMD_REBOOT 6 b4 of
        None \<Rightarrow> None
      | Some b5 \<Rightarrow> Some (b5\<lparr>primed := True\<rparr>))))))"

section \<open>The main loop\<close>

text \<open>
  The datagram part of a turn: \<open>src\<close> and \<open>buf\<close> are what \<open>recvfrom\<close> returned, at least one byte, cut to the buffer.
\<close>

definition bridge_receive :: "'a \<Rightarrow> byte list \<Rightarrow> 'a bridge \<Rightarrow> 'a bridge" where
  "bridge_receive src buf b =
     (if buf = [] then b
      else
        (let b1 = (if ep b = None then b\<lparr>ep := Some src\<rparr> else b)
         in case htsn_frame_unpack buf (length buf) of
              None \<Rightarrow> b1
            | Some (ty, kind, pl) \<Rightarrow> if ty = HTSN_TYPE_TELEM then on_telemetry kind pl b1 else b1))"

text \<open>
  A turn of the loop of \<open>main\<close>: without a client it connects or starts over; then a datagram, if \<open>select\<close> reports one,
  and the command nodes once an endpoint is known.
\<close>

definition bridge_turn ::
  "(('a \<times> byte list) list \<Rightarrow> bool) \<Rightarrow> bool \<Rightarrow> (nat \<Rightarrow> ua option) \<Rightarrow> int \<Rightarrow> ('a \<times> byte list) option \<Rightarrow> 'a bridge \<Rightarrow>
   'a bridge option" where
  "bridge_turn S connects rd now dg b =
     (if \<not> g_c b \<and> \<not> connects then Some b
      else
        (let b0 = b\<lparr>g_c := True\<rparr>;
             b1 = (case dg of None \<Rightarrow> b0 | Some (src, buf) \<Rightarrow> bridge_receive src (take HTSN_FRAME_MAX buf) b0)
         in if ep b1 \<noteq> None then poll_commands S rd now b1 else Some b1))"

section \<open>Reading printed snapshots\<close>

definition plain_field :: "string \<times> string \<Rightarrow> bool" where
  "plain_field f \<longleftrightarrow> CHR 0x22 \<notin> set (fst f) \<and> CHR 0x22 \<notin> set (snd f)"

lemma strstr_from_skip:
  "CHR 0x22 \<notin> set x \<Longrightarrow> strstr_from (x @ r) (CHR 0x22 # q) = strstr_from r (CHR 0x22 # q)"
  by (induction x) auto

lemma quoted_prefix:
  assumes "CHR 0x22 \<notin> set k" and "CHR 0x22 \<notin> set key"
    and "take (length key + 2) (k @ CHR 0x22 # CHR '':'' # r) = key @ [CHR 0x22, CHR '':'']"
  shows "k = key"
proof -
  let ?t = "k @ CHR 0x22 # CHR '':'' # r"
  have "?t = key @ CHR 0x22 # CHR '':'' # drop (length key + 2) ?t"
    using append_take_drop_id [of "length key + 2" ?t] unfolding assms(3) by simp
  then have "takeWhile (\<lambda>c. c \<noteq> CHR 0x22) ?t = takeWhile (\<lambda>c. c \<noteq> CHR 0x22) (key @ CHR 0x22 # CHR '':'' # drop (length key + 2) ?t)"
    by simp
  then show ?thesis using assms(1,2) by (simp add: takeWhile_quote)
qed

lemma strstr_from_member:
  assumes "plain_field (k, v)" and "CHR 0x22 \<notin> set key" and "key \<noteq> []" and "CHR '':'' \<notin> set key"
  shows "strstr_from (js_member (k, v) @ r) (CHR 0x22 # key @ [CHR 0x22, CHR '':'']) =
    (if k = key then Some (CHR 0x22 # key @ [CHR 0x22, CHR '':''] @ v @ r)
     else strstr_from r (CHR 0x22 # key @ [CHR 0x22, CHR '':'']))" (is "strstr_from _ ?pat = _")
proof -
  obtain c q where key: "key = c # q" "c \<noteq> CHR '':''" using assms(3,4) by (cases key) auto
  let ?rest = "k @ CHR 0x22 # CHR '':'' # v @ r"
  have t: "js_member (k, v) @ r = CHR 0x22 # ?rest" by (simp add: js_member_def dq_def)
  have "strstr_from ?rest ?pat = strstr_from (CHR 0x22 # CHR '':'' # v @ r) ?pat"
    using assms(1) strstr_from_skip [of k] by (simp add: plain_field_def)
  also have "\<dots> = strstr_from ((CHR '':'' # v) @ r) ?pat"
    using key by simp
  also have "\<dots> = strstr_from r ?pat"
    using assms(1) by (intro strstr_from_skip) (simp add: plain_field_def)
  finally have s: "strstr_from ?rest ?pat = strstr_from r ?pat" .
  show ?thesis
  proof (cases "k = key")
    case True
    then show ?thesis unfolding t by simp
  next
    case False
    then have "take (length ?pat) (CHR 0x22 # ?rest) \<noteq> ?pat"
      using quoted_prefix [of k key "v @ r"] assms(1,2) by (auto simp: plain_field_def)
    then show ?thesis using False s unfolding t strstr_from.simps by simp
  qed
qed

lemma strstr_from_members:
  assumes "list_all plain_field fs" and "CHR 0x22 \<notin> set key" and "key \<noteq> []" and "CHR '':'' \<notin> set key"
    and "map_of fs key = Some v"
  shows "\<exists>d r. obj_end d \<and> strstr_from (join '','' (map js_member fs) @ ''}'') (CHR 0x22 # key @ [CHR 0x22, CHR '':'']) =
    Some (CHR 0x22 # key @ [CHR 0x22, CHR '':''] @ v @ d # r)"
  using assms(1,5)
proof (induction fs)
  case (Cons f fs)
  obtain k x where f: "f = (k, x)" by (cases f)
  define rest where "rest = (if fs = [] then ''}'' else CHR '','' # join '','' (map js_member fs) @ ''}'')"
  have j: "join '','' (map js_member (f # fs)) @ ''}'' = js_member (k, x) @ rest"
    using f by (cases fs) (simp_all add: rest_def)
  obtain d t where d: "rest = d # t" "obj_end d" by (cases fs) (auto simp: rest_def obj_end_def)
  have ok: "plain_field (k, x)" using Cons.prems f by simp
  show ?case
  proof (cases "k = key")
    case True
    then show ?thesis
      unfolding j strstr_from_member [OF ok assms(2-4)] using d Cons.prems(2) f by auto
  next
    case False
    then have m: "map_of fs key = Some v" using Cons.prems(2) f by simp
    then have "rest = '','' @ (join '','' (map js_member fs) @ ''}'')" by (cases fs) (simp_all add: rest_def)
    then have "strstr_from rest (CHR 0x22 # key @ [CHR 0x22, CHR '':'']) =
        strstr_from (join '','' (map js_member fs) @ ''}'') (CHR 0x22 # key @ [CHR 0x22, CHR '':''])"
      using strstr_from_skip [of "'',''"] by simp
    then show ?thesis
      unfolding j strstr_from_member [OF ok assms(2-4)] using Cons False m by simp
  qed
qed simp

definition key_ok :: "string \<Rightarrow> bool" where
  "key_ok key \<longleftrightarrow> CHR 0x22 \<notin> set key \<and> key \<noteq> [] \<and> CHR '':'' \<notin> set key \<and> length key < 61"

lemma jfind_object:
  assumes "list_all plain_field fs" and "key_ok key" and "map_of fs key = Some v"
    and "v \<noteq> []" and "\<not> j_blank (hd v)"
  obtains d r where "obj_end d" and "jfind (js_object fs) key = Some (v @ d # r)"
proof -
  let ?pat = "CHR 0x22 # key @ [CHR 0x22, CHR '':'']"
  have "length ?pat < 64" using assms(2) by (simp add: key_ok_def)
  then have p: "jpat key = ?pat" unfolding jpat_def snprintf_buf_def dq_def append_Cons append_Nil by (intro take_all) linarith
  have "strstr_from (js_object fs) ?pat = strstr_from (join '','' (map js_member fs) @ ''}'') ?pat"
    using strstr_from_skip [of "''{''"] by (simp add: js_object_def)
  moreover obtain d r where "obj_end d" "strstr_from (join '','' (map js_member fs) @ ''}'') ?pat = Some (?pat @ v @ d # r)"
    using strstr_from_members [of fs key v] assms by (auto simp: key_ok_def)
  moreover have "dropWhile j_blank (v @ d # r) = v @ d # r" using assms(4,5) by (cases v) simp_all
  ultimately show ?thesis using that [of d r] by (simp add: jfind_def p Let_def)
qed

lemma dec_int_not_blank: "\<not> j_blank (hd (dec_int i))" and dec_int_not_Nil [simp]: "dec_int i \<noteq> []"
proof -
  obtain c s where c: "dec_int i = c # s" using dec_int_head by blast
  then have "is_digit c \<or> c = CHR ''-''" using dec_int_chars [of c i] by simp
  then show "\<not> j_blank (hd (dec_int i))" using c by (auto simp: j_blank_def is_digit_def)
  show "dec_int i \<noteq> []" using c by simp
qed

lemma jint_object:
  assumes "list_all plain_field fs" and "key_ok key" and "map_of fs key = Some (dec_int i)" and "in_i64 i"
  shows "jint (js_object fs) key def = i"
proof -
  obtain d r where d: "obj_end d" "jfind (js_object fs) key = Some (dec_int i @ d # r)"
    using jfind_object [OF assms(1-3)] dec_int_not_blank by auto
  have "no_digit_ahead (d # r)" using d(1) by (simp add: no_digit_ahead_def)
  then have "scan_int (dec_int i @ d # r) = Some (i, d # r)" by (rule scan_int_dec_int)
  then show ?thesis using d(2) assms(4) by (simp add: jint_def strtoll_def)
qed

text \<open>An array of numbers as the operator's flow prints it.\<close>

definition jnums :: "int list \<Rightarrow> string" where
  "jnums xs = ''['' @ join '','' (map dec_int xs) @ '']''"

lemma jintarr_loop_nums:
  assumes "list_all in_i64 xs" and "length xs \<le> n"
  shows "jintarr_loop n (join '','' (map dec_int xs) @ CHR '']'' # r) = xs"
  using assms
proof (induction xs arbitrary: n)
  case Nil
  then show ?case by (cases n) (simp_all add: j_blank_def)
next
  case (Cons x xs)
  then obtain m where n: "n = Suc m" by (cases n) auto
  define rest where "rest = (if xs = [] then [] else CHR '','' # join '','' (map dec_int xs)) @ CHR '']'' # r"
  have j: "join '','' (map dec_int (x # xs)) @ CHR '']'' # r = dec_int x @ rest"
    by (cases xs) (simp_all add: rest_def)
  obtain c s where c: "dec_int x = c # s" using dec_int_head by blast
  then have cd: "is_digit c \<or> c = CHR ''-''" using dec_int_chars [of c x] by simp
  have b: "dropWhile j_blank (dec_int x @ rest) = dec_int x @ rest"
    using dec_int_not_blank [of x] c by simp
  have "no_digit_ahead rest" by (cases xs) (simp_all add: rest_def no_digit_ahead_def is_digit_def)
  then have sc: "scan_int (dec_int x @ rest) = Some (x, rest)" by (rule scan_int_dec_int)
  have "jintarr_loop m (dropWhile (\<lambda>c. c = CHR '' '' \<or> c = CHR '','') rest) = xs"
  proof (cases xs)
    case Nil
    then show ?thesis by (cases m) (simp_all add: rest_def j_blank_def)
  next
    case (Cons y ys)
    obtain e u where e: "dec_int y = e # u" using dec_int_head by blast
    then have "is_digit e \<or> e = CHR ''-''" using dec_int_chars [of e y] by simp
    then have "dropWhile (\<lambda>c. c = CHR '' '' \<or> c = CHR '','') rest = join '','' (map dec_int xs) @ CHR '']'' # r"
      using Cons e by (cases ys) (auto simp: rest_def is_digit_def)
    then show ?thesis using Cons.IH [of m] Cons.prems n by simp
  qed
  then show ?case
    unfolding j n jintarr_loop.simps b Let_def sc using c cd Cons.prems by (auto simp: is_digit_def)
qed

lemma jintarr_object:
  assumes "list_all plain_field fs" and "key_ok key" and "map_of fs key = Some (jnums xs)"
    and "list_all in_i64 xs" and "length xs \<le> n"
  shows "jintarr (js_object fs) key n = xs"
proof -
  obtain d r where d: "jfind (js_object fs) key = Some (jnums xs @ d # r)"
    by (rule jfind_object [OF assms(1-3)]) (auto simp: jnums_def j_blank_def)
  then show ?thesis using jintarr_loop_nums [OF assms(4,5)] by (simp add: jintarr_def jnums_def)
qed

section \<open>The bytes of a configuration\<close>

lemma length_le64 [simp]: "length (le64 n w) = n"
  by (induction n arbitrary: w) simp_all

lemma le_u64_le64: "le_u64 (le64 n w) = take_bit (8 * n) w"
proof (induction n arbitrary: w)
  case (Suc n)
  show ?case unfolding le64.simps le_u64.simps Suc
    by (rule bit_word_eqI) (auto simp: bit_simps)
qed simp

lemma load_store_tsn_cfg: "load_tsn_cfg (store_tsn_cfg c @ r) = c"
proof -
  have h: "store_tsn_cfg c = ([priority c, traffic_class c] @ le16 (vlan_id c) @ [preemption c, timesync_mode c, stream_role c] @
     le16 (stream_vlan_id c) @ [stream_priority c, reserved c]) @ le64 8 (tas_cycle_ns c) @ le16 (gcl_count c)"
    by (simp add: store_tsn_cfg_def)
  have d: "take 8 (drop 11 (store_tsn_cfg c @ r)) = le64 8 (tas_cycle_ns c)"
    unfolding h by (simp add: le16_def)
  have n: "length (le64 8 (tas_cycle_ns c)) = 8" by (rule length_le64)
  have g: "le_u16 (store_tsn_cfg c @ r) 19 = gcl_count c"
    unfolding h le_u16_def by (simp add: le16_def nth_append bytes_simps)
  have t: "le_u64 (le64 8 (tas_cycle_ns c)) = tas_cycle_ns c"
    unfolding le_u64_le64 by (simp add: take_bit_word_eq_self)
  show ?thesis
    unfolding load_tsn_cfg_def d g t
    by (rule tsn_cfg.equality) (simp_all add: h le16_def le_u16_def nth_append bytes_simps)
qed

section \<open>A snapshot on the wire\<close>

text \<open>The snapshot the operator's flow writes to the configuration node.\<close>

definition snapshot_fields :: "tsn_cfg \<Rightarrow> (int \<times> int) list \<Rightarrow> (string \<times> string) list" where
  "snapshot_fields c gates =
     [(''priority'', dec_int (uint (priority c))), (''traffic_class'', dec_int (uint (traffic_class c))),
      (''vlan_id'', dec_int (uint (vlan_id c))), (''preemption'', dec_int (uint (preemption c))),
      (''timesync_mode'', dec_int (uint (timesync_mode c))), (''st_role'', dec_int (uint (stream_role c))),
      (''st_vlan'', dec_int (uint (stream_vlan_id c))), (''st_prio'', dec_int (uint (stream_priority c))),
      (''tas_cycle_ns'', dec_int (sint (tas_cycle_ns c))),
      (''gcl_gs'', jnums (map fst gates)), (''gcl_dur'', jnums (map snd gates))]"

definition snapshot_json :: "tsn_cfg \<Rightarrow> (int \<times> int) list \<Rightarrow> string" where
  "snapshot_json c gates = js_object (snapshot_fields c gates)"

text \<open>The configurations such a snapshot stands for.\<close>

definition snapshot_ok :: "tsn_cfg \<Rightarrow> (int \<times> int) list \<Rightarrow> bool" where
  "snapshot_ok c gates \<longleftrightarrow> reserved c = 0 \<and> length gates \<le> HTSN_TSN_MAX_GCL \<and> gcl_count c = word_of_nat (length gates) \<and>
     list_all (\<lambda>e. in_i64 (fst e) \<and> in_i64 (snd e)) gates"

lemma dec_int_no_quote [simp]: "CHR 0x22 \<notin> set (dec_int i)"
  using dec_int_chars [of "CHR 0x22" i] by (auto simp: is_digit_def)

lemma set_join: "c \<in> set (join '','' xs) \<Longrightarrow> c = CHR '','' \<or> (\<exists>x \<in> set xs. c \<in> set x)"
proof (induction xs)
  case (Cons x xs)
  then show ?case by (cases xs) auto
qed simp

lemma jnums_no_quote [simp]: "CHR 0x22 \<notin> set (jnums xs)"
  by (auto simp: jnums_def dest!: set_join)

lemma uint_in_i64:
  "in_i64 (uint (x :: byte))" "in_i64 (uint (y :: u16))" "in_i64 (sint (z :: u64))"
  using uint_lt2p [of x] uint_lt2p [of y] sint_range_size [of z]
  by (simp_all add: in_i64_def word_size) (auto intro: order_trans [OF _ uint_ge_0])

lemma parse_snapshot:
  assumes "snapshot_ok c gates"
  shows "parse_tsn_config (snapshot_json c gates) = (c, gates)"
proof -
  let ?fs = "snapshot_fields c gates"
  have ok: "list_all plain_field ?fs" by (simp add: snapshot_fields_def plain_field_def)
  have i: "jint (js_object ?fs) key 0 = v" if "key_ok key" "map_of ?fs key = Some (dec_int v)" "in_i64 v" for key v
    using jint_object [OF ok that] .
  have a: "jintarr (js_object ?fs) key HTSN_TSN_MAX_GCL = xs"
    if "key_ok key" "map_of ?fs key = Some (jnums xs)" "list_all in_i64 xs" "length xs \<le> HTSN_TSN_MAX_GCL" for key xs
    using jintarr_object [OF ok that] .
  have f: "jint (js_object ?fs) ''priority'' 0 = uint (priority c)" "jint (js_object ?fs) ''traffic_class'' 0 = uint (traffic_class c)"
    "jint (js_object ?fs) ''vlan_id'' 0 = uint (vlan_id c)" "jint (js_object ?fs) ''preemption'' 0 = uint (preemption c)"
    "jint (js_object ?fs) ''timesync_mode'' 0 = uint (timesync_mode c)" "jint (js_object ?fs) ''st_role'' 0 = uint (stream_role c)"
    "jint (js_object ?fs) ''st_vlan'' 0 = uint (stream_vlan_id c)" "jint (js_object ?fs) ''st_prio'' 0 = uint (stream_priority c)"
    "jint (js_object ?fs) ''tas_cycle_ns'' 0 = sint (tas_cycle_ns c)"
    by (rule i, simp add: key_ok_def, simp add: snapshot_fields_def, simp add: uint_in_i64)+
  have g: "jintarr (js_object ?fs) ''gcl_gs'' HTSN_TSN_MAX_GCL = map fst gates"
    "jintarr (js_object ?fs) ''gcl_dur'' HTSN_TSN_MAX_GCL = map snd gates"
    by (rule a, simp add: key_ok_def, simp add: snapshot_fields_def,
        insert assms, auto simp: snapshot_ok_def list_all_iff)+
  have "zip (map fst gates) (map snd gates) = gates" by (rule zip_map_fst_snd)
  then show ?thesis
    unfolding parse_tsn_config_def snapshot_json_def f g Let_def
    using assms by (simp add: snapshot_ok_def)
qed

definition gate_bytes :: "int \<times> int \<Rightarrow> byte list" where
  "gate_bytes e = word_of_int (fst e) # le64 8 (word_of_int (snd e))"

lemma length_gate_bytes [simp]: "length (gate_bytes e) = 9"
  by (simp add: gate_bytes_def)

lemma length_gates [simp]: "length (concat (map gate_bytes gates)) = 9 * length gates"
  by (induction gates) simp_all

lemma length_store [simp]: "length (store_tsn_cfg c) = 21"
  by (simp add: store_tsn_cfg_def le16_def)

lemma push_gates_all:
  "length pl + 9 * length gates \<le> HTSN_FRAME_MAXPLEN \<Longrightarrow> push_gates pl gates = pl @ concat (map gate_bytes gates)"
  by (induction pl gates rule: push_gates.induct) (simp_all add: HTSN_TSN_GCL_ENTRY_def gate_bytes_def)

definition snapshot_bytes :: "tsn_cfg \<Rightarrow> (int \<times> int) list \<Rightarrow> byte list" where
  "snapshot_bytes c gates = store_tsn_cfg c @ concat (map gate_bytes gates)"

lemma bridge_send_frame_ok:
  assumes "ep b = Some a" and "length p \<le> HTSN_FRAME_MAXPLEN" and "S (udp_out b @ [(a, frame_image ty kind p)])"
  shows "bridge_send_frame S ty kind (Some p) (word_of_nat (length p)) b =
    (int (length p) + 7, b\<lparr>udp_out := udp_out b @ [(a, frame_image ty kind p)]\<rparr>)"
proof -
  have u: "unat (word_of_nat (length p) :: u16) = length p"
    using assms by (simp add: unat_of_nat frame_consts)
  obtain out where "htsn_frame_pack (replicate HTSN_FRAME_MAX 0) ty kind (Some p)
      (word_of_nat (length p)) = (int (length p) + 7, out)" "take (length p + 7) out = frame_image ty kind p"
    using htsn_frame_pack_image [of "word_of_nat (length p)" "replicate HTSN_FRAME_MAX 0" p ty kind] assms
    by (auto simp: u frame_consts)
  then show ?thesis using assms by (simp add: bridge_send_frame_def Let_def nat_add_distrib)
qed

lemma push_snapshot:
  assumes "snapshot_ok c gates" and "ep b = Some a" and "\<And>calls. S calls"
  shows "push_tsn_config S (snapshot_json c gates) b =
    b\<lparr>udp_out := udp_out b @ [(a, frame_image HTSN_TYPE_CMD 7 (snapshot_bytes c gates))],
      last_tsn := take 384 (snapshot_json c gates)\<rparr>"
proof -
  have l: "length gates \<le> 16" using assms(1) by (simp add: snapshot_ok_def HTSN_TSN_MAX_GCL_def)
  then have p: "push_gates (store_tsn_cfg c) gates = snapshot_bytes c gates"
    by (simp add: push_gates_all snapshot_bytes_def frame_consts)
  have "length (snapshot_bytes c gates) \<le> HTSN_FRAME_MAXPLEN"
    using l by (simp add: snapshot_bytes_def frame_consts)
  from bridge_send_frame_ok [OF assms(2) this assms(3)] show ?thesis
    by (simp add: push_tsn_config_def parse_snapshot [OF assms(1)] p send_cmd_kind_def snprintf_buf_def frame_consts)
qed

lemma le_u32_le32: "le_u32 (x @ le32 w @ r) (length x) = w"
proof -
  have "le_u32 (x @ le32 w @ r) (length x) = le_u32 (le32 w) 0"
    by (simp add: le_u32_def le32_def nth_append)
  also have "\<dots> = w"
  proof (rule bit_word_eqI)
    fix n :: nat
    consider "n < 8" | "8 \<le> n" "n < 16" | "16 \<le> n" "n < 24" | "24 \<le> n" by linarith
    then show "bit (le_u32 (le32 w) 0) n \<longleftrightarrow> bit w n" if "n < LENGTH(32)"
      using that by cases (auto simp: le_u32_def le32_def bit_simps bit_255)
  qed
  finally show ?thesis .
qed

text \<open>What the bridge writes for a report of configuration \<open>c\<close> with feature bits \<open>f\<close>.\<close>

definition applied_nodes :: "tsn_cfg \<Rightarrow> u32 \<Rightarrow> (nat \<times> ua) list" where
  "applied_nodes c f =
     [(HTSN_ID_TSN_APP_VLAN, Ua_Int16 (sint (vlan_id c))), (HTSN_ID_TSN_APP_PRIO, Ua_Byte (uint (priority c))),
      (HTSN_ID_TSN_APP_PREEMPT, Ua_Byte (uint (preemption c))), (HTSN_ID_TSN_APP_TIMESYNC, Ua_Byte (uint (timesync_mode c))),
      (HTSN_ID_TSN_APP_STROLE, Ua_Byte (uint (stream_role c))), (HTSN_ID_TSN_APP_STVLAN, Ua_Int16 (sint (stream_vlan_id c))),
      (HTSN_ID_TSN_APP_TASCYC, Ua_Int64 (sint (tas_cycle_ns c))), (HTSN_ID_TSN_FEATURES, Ua_Int32 (sint f))]"

lemma telem_snapshot:
  assumes "snapshot_ok c gates" and "g_c b"
  shows "telem_tsn_applied (snapshot_bytes c gates @ le32 f) b = b\<lparr>node_writes := node_writes b @ applied_nodes c f\<rparr>"
proof -
  have l: "load_tsn_cfg (snapshot_bytes c gates @ le32 f) = c"
    by (simp add: snapshot_bytes_def load_store_tsn_cfg)
  have g: "unat (gcl_count c) = length gates"
    using assms(1) by (simp add: snapshot_ok_def HTSN_TSN_MAX_GCL_def unat_of_nat)
  have n: "length (snapshot_bytes c gates) = sizeof_tsn_cfg + length gates * HTSN_TSN_GCL_ENTRY"
    by (simp add: snapshot_bytes_def sizeof_tsn_cfg_def HTSN_TSN_GCL_ENTRY_def)
  have f: "le_u32 (snapshot_bytes c gates @ le32 f) (sizeof_tsn_cfg + length gates * HTSN_TSN_GCL_ENTRY) = f"
    using le_u32_le32 [of "snapshot_bytes c gates" f "[]"] n by simp
  have "length (le32 f) = 4" by (simp add: le32_def)
  then show ?thesis
    using assms(2) n by (simp add: telem_tsn_applied_def l g f w_scalar_def applied_nodes_def Let_def)
qed

section \<open>What the operations send\<close>

text \<open>
  Between \<open>b\<close> and \<open>b'\<close> the bridge sends command frames of the kinds \<open>K\<close>, all of them to the endpoint it has learned.
\<close>

definition adds :: "byte set \<Rightarrow> 'a bridge \<Rightarrow> 'a bridge \<Rightarrow> bool" where
  "adds K b b' \<longleftrightarrow> ep b' = ep b \<and> primed b' = primed b \<and>
     (\<exists>l. udp_out b' = udp_out b @ l \<and>
        (\<forall>(a, f) \<in> set l. ep b = Some a \<and>
           (\<exists>k p. k \<in> K \<and> length p \<le> HTSN_FRAME_MAXPLEN \<and> f = frame_image HTSN_TYPE_CMD k p)))"

lemma adds_refl [simp]: "adds K b b"
  by (simp add: adds_def)

lemma adds_trans: "adds K b b1 \<Longrightarrow> adds K b1 b2 \<Longrightarrow> adds K b b2"
  unfolding adds_def by (auto simp: ball_Un)

lemma adds_mono: "adds K b b1 \<Longrightarrow> K \<subseteq> K' \<Longrightarrow> adds K' b b1"
  unfolding adds_def by fastforce

lemma adds_fields [simp]:
  "adds K b (b1\<lparr>last_servo := i\<rparr>) = adds K b b1" "adds K b (b1\<lparr>last_relay := x\<rparr>) = adds K b b1"
  "adds K b (b1\<lparr>last_beep := i\<rparr>) = adds K b b1" "adds K b (b1\<lparr>last_tsn := t\<rparr>) = adds K b b1"
  "adds K b (b1\<lparr>last_keepalive := i\<rparr>) = adds K b b1" "adds K b (w_scalar n v b1) = adds K b b1"
  by (simp_all add: adds_def w_scalar_def)

lemma bridge_send_frame_adds:
  assumes "pl = Some p \<and> len = word_of_nat (length p) \<and> length p \<le> HTSN_FRAME_MAXPLEN \<or> pl = None \<and> len = 0"
  shows "adds {kind} b (snd (send_cmd_kind S kind pl len b))"
proof (cases "ep b")
  case (Some a)
  obtain q out where "htsn_frame_pack (replicate HTSN_FRAME_MAX 0) HTSN_TYPE_CMD kind pl len = (int (length q) + 7, out)"
    "take (length q + 7) out = frame_image HTSN_TYPE_CMD kind q" "length q \<le> HTSN_FRAME_MAXPLEN"
  proof (cases pl)
    case None
    have "htsn_frame_pack (replicate HTSN_FRAME_MAX 0) HTSN_TYPE_CMD kind pl len =
        htsn_frame_pack (replicate HTSN_FRAME_MAX 0) HTSN_TYPE_CMD kind (Some []) 0"
      using None assms by (simp add: htsn_frame_pack_def)
    moreover obtain out where "htsn_frame_pack (replicate HTSN_FRAME_MAX 0) HTSN_TYPE_CMD kind (Some []) 0 = (7, out)"
      "take 7 out = frame_image HTSN_TYPE_CMD kind []"
      using htsn_frame_pack_image [of 0 "replicate HTSN_FRAME_MAX 0" "[]" HTSN_TYPE_CMD kind] by (auto simp: frame_consts)
    ultimately show ?thesis using that [of "[]" out] by simp
  next
    case (Some x)
    then have "x = p" "len = word_of_nat (length p)" "length p \<le> HTSN_FRAME_MAXPLEN" using assms by auto
    moreover from this have "unat len = length p" by (simp add: unat_of_nat frame_consts)
    ultimately show ?thesis
      using htsn_frame_pack_image [of len "replicate HTSN_FRAME_MAX 0" p HTSN_TYPE_CMD kind] that [of p] Some
      by (auto simp: frame_consts)
  qed
  then show ?thesis
    using Some by (auto simp: send_cmd_kind_def bridge_send_frame_def Let_def adds_def nat_add_distrib)
qed (simp add: send_cmd_kind_def bridge_send_frame_def)

lemma length_push_gates: "length pl \<le> HTSN_FRAME_MAXPLEN \<Longrightarrow> length (push_gates pl g) \<le> HTSN_FRAME_MAXPLEN"
  by (induction pl g rule: push_gates.induct) (simp_all add: HTSN_TSN_GCL_ENTRY_def)

lemma push_tsn_config_adds: "adds {7} b (push_tsn_config S json b)"
proof -
  obtain cfg gates where c: "parse_tsn_config json = (cfg, gates)" by (cases "parse_tsn_config json")
  have "length (push_gates (store_tsn_cfg cfg) gates) \<le> HTSN_FRAME_MAXPLEN"
    by (rule length_push_gates) (simp add: frame_consts)
  then show ?thesis
    using bridge_send_frame_adds [of "Some (push_gates (store_tsn_cfg cfg) gates)" "push_gates (store_tsn_cfg cfg) gates"
        "word_of_nat (length (push_gates (store_tsn_cfg cfg) gates))" 7 b S]
    by (auto simp: push_tsn_config_def c Let_def split: prod.splits)
qed

lemma send_cmd_adds:
  "adds {1} b (snd (send_cmd_kind S 1 (Some (arg_bytes a)) 2 b))"
  "adds {4} b (snd (send_cmd_kind S 4 (Some (arg_bytes a)) 2 b))"
  "adds {3} b (snd (send_cmd_kind S 3 (Some [x]) 1 b))"
  "adds {k} b (snd (send_cmd_kind S k None 0 b))"
  using bridge_send_frame_adds [of "Some (arg_bytes a)" "arg_bytes a" 2 1 b S]
    bridge_send_frame_adds [of "Some (arg_bytes a)" "arg_bytes a" 2 4 b S]
    bridge_send_frame_adds [of "Some [x]" "[x]" 1 3 b S] bridge_send_frame_adds [of None "[]" 0 k b S]
  by (simp_all add: arg_bytes_def frame_consts)

lemma poll_tsn_adds: "adds {7} b (poll_tsn S rd b)"
  using push_tsn_config_adds [of b S] by (auto simp: poll_tsn_def Let_def split: option.splits ua.splits)

lemma keepalive_adds: "adds {7} b (keepalive S now b)"
  using push_tsn_config_adds [of b S] by (simp add: keepalive_def)

lemma poll_servo_adds: "poll_servo S rd b = Some b' \<Longrightarrow> adds {1} b b'"
  using send_cmd_adds by (auto simp: poll_servo_def Let_def split: option.splits if_splits)

lemma poll_relay_adds: "poll_relay S rd b = Some b' \<Longrightarrow> adds {3} b b'"
  using send_cmd_adds by (auto simp: poll_relay_def Let_def split: option.splits if_splits)

lemma poll_beep_adds: "poll_beep S rd b = Some b' \<Longrightarrow> adds {4} b b'"
  using send_cmd_adds by (auto simp: poll_beep_def Let_def split: option.splits if_splits)

lemma poll_trigger_adds: "poll_trigger S rd i k b = Some b' \<Longrightarrow> adds {k} b b'"
  using send_cmd_adds by (auto simp: poll_trigger_def split: option.splits bool.splits)

lemmas poll_adds = poll_tsn_adds keepalive_adds poll_servo_adds poll_relay_adds poll_beep_adds poll_trigger_adds

text \<open>A poll in its parts.\<close>

lemma poll_commands_parts:
  assumes "poll_commands S rd now b = Some b'"
  obtains b1 b5 where "poll_servo S rd (keepalive S now (poll_tsn S rd b)) = Some b1" and "adds {2, 3, 4, 6} b1 b5"
    and "last_servo b5 = last_servo b1" and "b' = b5\<lparr>primed := True\<rparr>"
proof -
  obtain b1 b2 b3 b4 b5 where s: "poll_servo S rd (keepalive S now (poll_tsn S rd b)) = Some b1"
    "poll_relay S rd b1 = Some b2" "poll_beep S rd b2 = Some b3" "poll_trigger S rd HTSN_ID_CMD_SONAR_TRIG 2 b3 = Some b4"
    "poll_trigger S rd HTSN_ID_CMD_REBOOT 6 b4 = Some b5" "b' = b5\<lparr>primed := True\<rparr>"
    using assms by (auto simp: poll_commands_def split: option.splits)
  have "adds {2, 3, 4, 6} b1 b5"
    using adds_trans [OF adds_trans [OF adds_trans [OF poll_relay_adds [OF s(2), THEN adds_mono]
        poll_beep_adds [OF s(3), THEN adds_mono]] poll_trigger_adds [OF s(4), THEN adds_mono]]
        poll_trigger_adds [OF s(5), THEN adds_mono]] by simp
  moreover have sk: "last_servo (snd (send_cmd_kind S k p l x)) = last_servo x" for k p l and x :: "'a bridge"
    by (simp add: send_cmd_kind_def bridge_send_frame_def Let_def split: option.splits prod.splits)
  then have "last_servo b5 = last_servo b1"
    using s(2-5) by (auto simp: poll_relay_def poll_beep_def poll_trigger_def w_scalar_def Let_def
        split: option.splits if_splits bool.splits)
  ultimately show ?thesis using that s by blast
qed

lemma poll_commands_adds:
  assumes "poll_commands S rd now b = Some b'"
  shows "adds UNIV b (b'\<lparr>primed := primed b\<rparr>)"
proof -
  obtain b1 b5 where p: "poll_servo S rd (keepalive S now (poll_tsn S rd b)) = Some b1" "adds {2, 3, 4, 6} b1 b5"
    "b' = b5\<lparr>primed := True\<rparr>" using assms by (rule poll_commands_parts)
  have "adds UNIV b b5"
    using adds_trans [OF adds_trans [OF adds_trans [OF poll_tsn_adds [THEN adds_mono] keepalive_adds [THEN adds_mono]]
        poll_servo_adds [OF p(1), THEN adds_mono]] p(2) [THEN adds_mono]] by simp
  then show ?thesis using p(3) by (simp add: adds_def)
qed

lemma dec_int_no_nul: "CHR 0x00 \<notin> set (dec_int i)"
  using dec_int_chars [of "CHR 0x00" i] by (auto simp: is_digit_def)

lemma snapshot_json_text:
  "snapshot_json c gates \<noteq> []" "takeWhile (\<lambda>x. x \<noteq> CHR 0x00) (snapshot_json c gates) = snapshot_json c gates"
proof -
  have "CHR 0x00 \<notin> set (jnums xs)" for xs using dec_int_no_nul by (auto simp: jnums_def dest!: set_join)
  then have "CHR 0x00 \<notin> set (snapshot_json c gates)"
    using dec_int_no_nul by (simp add: snapshot_json_def snapshot_fields_def js_object_def js_member_def dq_def)
  then show "takeWhile (\<lambda>x. x \<noteq> CHR 0x00) (snapshot_json c gates) = snapshot_json c gates"
    by (auto simp: takeWhile_eq_all_conv)
  show "snapshot_json c gates \<noteq> []" by (simp add: snapshot_json_def js_object_def)
qed

section \<open>Properties\<close>



section \<open>Whom the bridge talks to\<close>

text \<open>The datagram a turn receives: \<open>recvfrom\<close> is reached once the client is connected.\<close>

definition received :: "bool \<Rightarrow> ('a \<times> byte list) option \<Rightarrow> 'a bridge \<Rightarrow> ('a \<times> byte list) list" where
  "received connects dg b =
     (case dg of Some (src, buf) \<Rightarrow> if (g_c b \<or> connects) \<and> buf \<noteq> [] then [(src, buf)] else [] | None \<Rightarrow> [])"

text \<open>The states of the bridge with the datagrams received so far.\<close>

inductive bridge_run :: "(('a \<times> byte list) list \<Rightarrow> bool) \<Rightarrow> ('a \<times> byte list) list \<Rightarrow> 'a bridge \<Rightarrow> bool" for S where
  start: "bridge_run S [] bridge_start"
| turn: "bridge_run S h b \<Longrightarrow> bridge_turn S connects rd now dg b = Some b' \<Longrightarrow> bridge_run S (h @ received connects dg b) b'"

definition talks_to :: "('a \<times> byte list) list \<Rightarrow> 'a bridge \<Rightarrow> bool" where
  "talks_to h b \<longleftrightarrow> ep b = (if h = [] then None else Some (fst (hd h))) \<and>
     (\<forall>(a, f) \<in> set (udp_out b). h \<noteq> [] \<and> a = fst (hd h) \<and>
        (\<exists>kind p. htsn_frame_unpack f (length f) = Some (HTSN_TYPE_CMD, kind, p)))"

lemma on_telemetry_keeps [simp]: "ep (on_telemetry k p b) = ep b" "udp_out (on_telemetry k p b) = udp_out b"
  by (simp_all add: on_telemetry_def telem_sweep_def telem_buttons_def telem_actuator_def telem_ptp_def telem_tsn_applied_def
      w_scalar_def w_int16arr_def Let_def)

lemma bridge_receive_keeps [simp]:
  "ep (bridge_receive src buf b) = (if ep b = None \<and> buf \<noteq> [] then Some src else ep b)"
  "udp_out (bridge_receive src buf b) = udp_out b"
  by (simp_all add: bridge_receive_def Let_def split: option.splits prod.splits)

lemma talks_to_adds:
  assumes "talks_to h b" and "adds K b b1"
  shows "talks_to h b1"
proof -
  have "\<exists>kind q. htsn_frame_unpack (frame_image HTSN_TYPE_CMD k p) (length (frame_image HTSN_TYPE_CMD k p)) = Some (HTSN_TYPE_CMD, kind, q)"
    if "length p \<le> HTSN_FRAME_MAXPLEN" for k p
    using htsn_frame_unpack_image [of p "7 + length p" HTSN_TYPE_CMD k "[]"] that by simp
  then show ?thesis using assms by (auto simp: talks_to_def adds_def split: if_splits)
qed

lemma talks_to_turn:
  assumes "talks_to h b" and "bridge_turn S connects rd now dg b = Some b'"
  shows "talks_to (h @ received connects dg b) b'"
proof (cases "\<not> g_c b \<and> \<not> connects")
  case True
  then show ?thesis using assms by (auto simp: bridge_turn_def received_def split: option.splits)
next
  case False
  define b1 where "b1 = (case dg of None \<Rightarrow> b\<lparr>g_c := True\<rparr> | Some (src, buf) \<Rightarrow> bridge_receive src (take HTSN_FRAME_MAX buf) (b\<lparr>g_c := True\<rparr>))"
  have 1: "talks_to (h @ received connects dg b) b1"
    using assms(1) False
    by (cases dg) (auto simp: b1_def talks_to_def received_def frame_consts hd_append split: if_splits)
  have "b' = b1 \<or> poll_commands S rd now b1 = Some b'"
    using assms(2) False by (auto simp: bridge_turn_def b1_def Let_def split: if_splits)
  then show ?thesis
  proof
    assume "poll_commands S rd now b1 = Some b'"
    from talks_to_adds [OF 1 poll_commands_adds [OF this]] show ?thesis by (simp add: talks_to_def)
  qed (use 1 in simp)
qed

text \<open>
  C28. The bridge commands the sender of the first datagram it ever receives, whatever that datagram contains, and
  nobody else: nothing is sent before, a later sender never replaces the first one, and everything sent is a command frame
  the endpoint's decoder accepts.
\<close>

theorem commands_go_to_first_sender:
  assumes "bridge_run S h b"
  shows "ep b = (if h = [] then None else Some (fst (hd h))) \<and>
    (\<forall>(a, f) \<in> set (udp_out b). h \<noteq> [] \<and> a = fst (hd h) \<and>
       (\<exists>kind p. htsn_frame_unpack f (length f) = Some (HTSN_TYPE_CMD, kind, p)))"
proof -
  have "talks_to h b"
    using assms by induction (simp add: talks_to_def bridge_start_def, rule talks_to_turn)
  then show ?thesis unfolding talks_to_def .
qed

text \<open>With nodes of the types the server declares, or unreadable ones, no poll reads an unassigned variable.\<close>

definition typed_reads :: "(nat \<Rightarrow> ua option) \<Rightarrow> bool" where
  "typed_reads rd \<longleftrightarrow>
     (\<forall>i \<in> {HTSN_ID_CMD_SERVO_ANGLE, HTSN_ID_CMD_BEEP_MS}. rd_scalar as_int16 rd i \<noteq> None) \<and>
     (\<forall>i \<in> {HTSN_ID_CMD_RELAY_ON, HTSN_ID_CMD_SONAR_TRIG, HTSN_ID_CMD_REBOOT}. rd_scalar as_bool rd i \<noteq> None)"

lemma poll_commands_total:
  assumes "typed_reads rd"
  shows "\<exists>b'. poll_commands S rd now b = Some b'"
proof -
  have t: "rd_scalar as_int16 rd HTSN_ID_CMD_SERVO_ANGLE \<noteq> None" "rd_scalar as_bool rd HTSN_ID_CMD_RELAY_ON \<noteq> None"
    "rd_scalar as_int16 rd HTSN_ID_CMD_BEEP_MS \<noteq> None" "rd_scalar as_bool rd HTSN_ID_CMD_SONAR_TRIG \<noteq> None"
    "rd_scalar as_bool rd HTSN_ID_CMD_REBOOT \<noteq> None" using assms by (simp_all add: typed_reads_def)
  have servo: "\<exists>b'. poll_servo S rd x = Some b'" if "rd_scalar as_int16 rd HTSN_ID_CMD_SERVO_ANGLE \<noteq> None" for x :: "'a bridge"
    using that by (simp add: poll_servo_def Let_def split: option.split)
  have relay: "\<exists>b'. poll_relay S rd x = Some b'" if "rd_scalar as_bool rd HTSN_ID_CMD_RELAY_ON \<noteq> None" for x :: "'a bridge"
    using that by (simp add: poll_relay_def Let_def split: option.split)
  have beep: "\<exists>b'. poll_beep S rd x = Some b'" if "rd_scalar as_int16 rd HTSN_ID_CMD_BEEP_MS \<noteq> None" for x :: "'a bridge"
    using that by (simp add: poll_beep_def Let_def split: option.split)
  obtain b1 where b1: "poll_servo S rd (keepalive S now (poll_tsn S rd b)) = Some b1"
    using servo t(1) by blast
  obtain b2 where b2: "poll_relay S rd b1 = Some b2" using relay t(2) by blast
  obtain b3 where b3: "poll_beep S rd b2 = Some b3" using beep t(3) by blast
  have trig: "\<exists>b'. poll_trigger S rd i k x = Some b'" if "rd_scalar as_bool rd i \<noteq> None" for i k and x :: "'a bridge"
    using that by (cases "rd_scalar as_bool rd i") (auto simp: poll_trigger_def split: option.splits bool.splits)
  obtain b4 where b4: "poll_trigger S rd HTSN_ID_CMD_SONAR_TRIG 2 b3 = Some b4" using trig t(4) by blast
  obtain b5 where "poll_trigger S rd HTSN_ID_CMD_REBOOT 6 b4 = Some b5" using trig t(5) by blast
  then show ?thesis using b1 b2 b3 b4 by (simp add: poll_commands_def)
qed

lemma bridge_turn_total: "typed_reads rd \<Longrightarrow> \<exists>b'. bridge_turn S connects rd now dg b = Some b'"
  using poll_commands_total by (auto simp: bridge_turn_def Let_def)

theorem commands_go_to_first_sender_witness:
  "\<exists>b. bridge_run (\<lambda>_. True) [(7 :: nat, [0]), (8, [1])] b \<and> ep b = Some 7"
proof -
  let ?S = "\<lambda>_ :: (nat \<times> byte list) list. True" and ?rd = "\<lambda>_ :: nat. None :: ua option"
  have t: "typed_reads ?rd" by (simp add: typed_reads_def rd_scalar_def)
  obtain b1 where b1: "bridge_turn ?S True ?rd 0 (Some (7, [0])) bridge_start = Some b1" using bridge_turn_total [OF t] by blast
  obtain b2 where b2: "bridge_turn ?S True ?rd 0 (Some (8, [1])) b1 = Some b2" using bridge_turn_total [OF t] by blast
  have "bridge_run ?S [(7, [0]), (8, [1])] b2"
    using bridge_run.turn [OF bridge_run.turn [OF bridge_run.start b1] b2] by (simp add: received_def)
  with commands_go_to_first_sender [OF this] show ?thesis by auto
qed

section \<open>Commands follow the nodes\<close>

text \<open>The servo angles in the frames sent, as the endpoint decodes them.\<close>

definition servo_arg :: "'a \<times> byte list \<Rightarrow> int option" where
  "servo_arg d =
     (case htsn_frame_unpack (snd d) (length (snd d)) of
        Some (ty, kind, p) \<Rightarrow> if ty = HTSN_TYPE_CMD \<and> kind = 1 then Some (arg_i16 p) else None
      | None \<Rightarrow> None)"

definition servo_cmds :: "'a bridge \<Rightarrow> int list" where
  "servo_cmds b = List.map_filter servo_arg (udp_out b)"

text \<open>The values of a sequence that differ from the one before.\<close>

fun changes :: "int \<Rightarrow> int list \<Rightarrow> int list" where
  "changes x [] = []"
| "changes x (v # vs) = (if v \<noteq> x then [v] else []) @ changes v vs"

text \<open>Polls one after the other, each with the server's answers and the time.\<close>

fun polls :: "(('a \<times> byte list) list \<Rightarrow> bool) \<Rightarrow> ((nat \<Rightarrow> ua option) \<times> int) list \<Rightarrow> 'a bridge \<Rightarrow> 'a bridge option" where
  "polls S [] b = Some b"
| "polls S ((rd, now) # r) b = (case poll_commands S rd now b of None \<Rightarrow> None | Some b1 \<Rightarrow> polls S r b1)"

lemma servo_arg_image:
  "length p \<le> HTSN_FRAME_MAXPLEN \<Longrightarrow> servo_arg (a, frame_image HTSN_TYPE_CMD k p) = (if k = 1 then Some (arg_i16 p) else None)"
  using htsn_frame_unpack_image [of p "7 + length p" HTSN_TYPE_CMD k "[]"] by (simp add: servo_arg_def)

lemma servo_cmds_adds:
  assumes "adds K b b1" and "1 \<notin> K"
  shows "servo_cmds b1 = servo_cmds b"
proof -
  obtain l where l: "udp_out b1 = udp_out b @ l" "\<forall>(a, f) \<in> set l. \<exists>k p. k \<in> K \<and> length p \<le> HTSN_FRAME_MAXPLEN \<and> f = frame_image HTSN_TYPE_CMD k p"
    using assms(1) unfolding adds_def by blast
  then have "\<forall>d \<in> set l. servo_arg d = None" using assms(2) by (fastforce simp: servo_arg_image)
  then have "List.map_filter servo_arg l = []" by (induction l) (simp_all add: map_filter_simps)
  then show ?thesis using l(1) by (simp add: servo_cmds_def map_filter_def)
qed

lemma arg_i16_bytes: "- 32768 \<le> a \<Longrightarrow> a < 32768 \<Longrightarrow> arg_i16 (arg_bytes a) = a"
proof -
  assume r: "- 32768 \<le> a" "a < 32768"
  have "le_u16 (arg_bytes a) 0 = word_of_int a"
    by (rule bit_word_eqI) (auto simp: le_u16_def arg_bytes_def bit_simps bit_255)
  then have "arg_i16 (arg_bytes a) = signed_take_bit 15 a"
    by (simp add: arg_i16_def arg_bytes_def signed_of_int)
  also have "\<dots> = a" using r by (intro signed_take_bit_int_eq_self) simp_all
  finally show ?thesis .
qed

lemma push_tsn_config_fields [simp]:
  "last_servo (push_tsn_config S json b) = last_servo b" "primed (push_tsn_config S json b) = primed b"
  by (auto simp: push_tsn_config_def send_cmd_kind_def bridge_send_frame_def Let_def split: option.splits prod.splits)

lemma poll_tsn_fields [simp]:
  "last_servo (poll_tsn S rd b) = last_servo b" "last_servo (keepalive S now b) = last_servo b"
  by (simp_all add: poll_tsn_def keepalive_def Let_def split: option.splits ua.splits)

lemma servo_poll:
  assumes "poll_servo S rd b = Some b1" and "rd HTSN_ID_CMD_SERVO_ANGLE = Some (Ua_Int16 v)"
    and "- 32768 \<le> v" and "v < 32768" and "ep b = Some a"
  shows "servo_cmds b1 = servo_cmds b @ (if primed b \<and> v \<noteq> last_servo b then [v] else []) \<and> last_servo b1 = v"
proof -
  have l: "length (arg_bytes v) = 2" by (simp add: arg_bytes_def)
  obtain r where "send_cmd_kind S 1 (Some (arg_bytes v)) 2 b =
      (r, b\<lparr>udp_out := udp_out b @ [(a, frame_image HTSN_TYPE_CMD 1 (arg_bytes v))]\<rparr>)"
  proof -
    obtain out where "htsn_frame_pack (replicate HTSN_FRAME_MAX 0) HTSN_TYPE_CMD 1 (Some (arg_bytes v)) 2 = (9, out)"
      "take 9 out = frame_image HTSN_TYPE_CMD 1 (arg_bytes v)"
      using htsn_frame_pack_image [of 2 "replicate HTSN_FRAME_MAX 0" "arg_bytes v" HTSN_TYPE_CMD 1] l
      by (auto simp: frame_consts)
    then show ?thesis using that assms(5) by (simp add: send_cmd_kind_def bridge_send_frame_def Let_def)
  qed
  moreover have "servo_arg (a, frame_image HTSN_TYPE_CMD 1 (arg_bytes v)) = Some v"
    using servo_arg_image [of "arg_bytes v" a 1] l arg_i16_bytes assms(3,4) by (simp add: frame_consts)
  ultimately show ?thesis
    using assms(1,2) by (auto simp: poll_servo_def rd_scalar_def servo_cmds_def map_filter_def)
qed

lemma servo_one_poll:
  assumes "poll_commands S rd now b = Some b'" and "rd HTSN_ID_CMD_SERVO_ANGLE = Some (Ua_Int16 v)"
    and "- 32768 \<le> v" and "v < 32768" and "ep b = Some a"
  shows "servo_cmds b' = servo_cmds b @ (if primed b \<and> v \<noteq> last_servo b then [v] else [])"
    and "last_servo b' = v" and "primed b'" and "ep b' = Some a"
proof -
  let ?k = "keepalive S now (poll_tsn S rd b)"
  obtain b1 b5 where p: "poll_servo S rd ?k = Some b1" "adds {2, 3, 4, 6} b1 b5"
    "last_servo b5 = last_servo b1" "b' = b5\<lparr>primed := True\<rparr>" using assms(1) by (rule poll_commands_parts)
  have k: "adds {7} b ?k" using poll_tsn_adds keepalive_adds by (rule adds_trans)
  then have ke: "ep ?k = Some a" "primed ?k = primed b" using assms(5) by (simp_all add: adds_def)
  have "servo_cmds b' = servo_cmds b5" using p(4) by (simp add: servo_cmds_def)
  also have "\<dots> = servo_cmds b1" using p(2) by (rule servo_cmds_adds) simp
  finally have s: "servo_cmds b' = servo_cmds b1" .
  have "servo_cmds ?k = servo_cmds b" using k by (rule servo_cmds_adds) simp
  then show "servo_cmds b' = servo_cmds b @ (if primed b \<and> v \<noteq> last_servo b then [v] else [])"
    using servo_poll [OF p(1) assms(2-4) ke(1)] s ke(2) by simp
  show "last_servo b' = v" using servo_poll [OF p(1) assms(2-4) ke(1)] p(3,4) by simp
  show "primed b'" using p(4) by simp
  show "ep b' = Some a" using poll_commands_adds [OF assms(1)] assms(5) by (simp add: adds_def)
qed

definition servo_reads :: "((nat \<Rightarrow> ua option) \<times> int) list \<Rightarrow> int list \<Rightarrow> bool" where
  "servo_reads rds vs \<longleftrightarrow> list_all2 (\<lambda>r v. fst r HTSN_ID_CMD_SERVO_ANGLE = Some (Ua_Int16 v) \<and> - 32768 \<le> v \<and> v < 32768) rds vs"

lemma servo_polls:
  assumes "polls S rds b = Some b'" and "servo_reads rds vs" and "primed b" and "ep b = Some a"
  shows "servo_cmds b' = servo_cmds b @ changes (last_servo b) vs"
  using assms
proof (induction rds arbitrary: b vs)
  case Nil
  then show ?case by (simp add: servo_reads_def)
next
  case (Cons r rds)
  obtain rd now where r: "r = (rd, now)" by (cases r)
  obtain v ws where v: "vs = v # ws" "rd HTSN_ID_CMD_SERVO_ANGLE = Some (Ua_Int16 v)" "- 32768 \<le> v" "v < 32768" "servo_reads rds ws"
    using Cons.prems(2) r by (auto simp: servo_reads_def list_all2_Cons1)
  obtain b1 where b1: "poll_commands S rd now b = Some b1" "polls S rds b1 = Some b'"
    using Cons.prems(1) r by (auto split: option.splits)
  note one = servo_one_poll [OF b1(1) v(2-4) Cons.prems(4)]
  show ?case using Cons.IH [OF b1(2) v(5) one(3,4)] one(1,2) Cons.prems(3) v(1) by simp
qed

text \<open>
  C20. The servo follows its node: over any sequence of polls after the start of the bridge, whatever else happens in
  them, the servo commands sent to the endpoint, as the endpoint decodes them, are exactly the values of the node that
  differ from the value before; the first value only sets the baseline.
\<close>

theorem servo_follows_node:
  assumes "polls S rds b = Some b'" and "servo_reads rds (v # vs)" and "\<not> primed b" and "ep b = Some a"
  shows "servo_cmds b' = servo_cmds b @ changes v vs"
proof -
  obtain rd now rest where r: "rds = (rd, now) # rest" "rd HTSN_ID_CMD_SERVO_ANGLE = Some (Ua_Int16 v)"
    "- 32768 \<le> v" "v < 32768" "servo_reads rest vs"
    using assms(2) by (auto simp: servo_reads_def list_all2_Cons2)
  obtain b1 where b1: "poll_commands S rd now b = Some b1" "polls S rest b1 = Some b'"
    using assms(1) r by (auto split: option.splits)
  note one = servo_one_poll [OF b1(1) r(2-4) assms(4)]
  show ?thesis using servo_polls [OF b1(2) r(5) one(3,4)] one(1,2) assms(3) by simp
qed

theorem servo_follows_node_witness:
  "\<exists>b'. polls (\<lambda>_. True) (map (\<lambda>v. (\<lambda>i. if i = HTSN_ID_CMD_SERVO_ANGLE then Some (Ua_Int16 v) else None, 0)) [10, 10, 20])
     (bridge_start\<lparr>ep := Some (7 :: nat)\<rparr>) = Some b' \<and> servo_cmds b' = [20]"
proof -
  define rd where "rd v = (\<lambda>i :: nat. if i = HTSN_ID_CMD_SERVO_ANGLE then Some (Ua_Int16 v) else None)" for v
  let ?b = "bridge_start\<lparr>ep := Some (7 :: nat)\<rparr>" and ?rds = "map (\<lambda>v. (rd v, 0)) [10, 10, 20]"
  have t: "typed_reads (rd v)" for v by (simp add: typed_reads_def rd_scalar_def rd_def node_ids)
  have "\<exists>b'. polls (\<lambda>_. True) (map (\<lambda>v. (rd v, 0)) vs) b = Some b'" for vs and b :: "nat bridge"
  proof (induction vs arbitrary: b)
    case (Cons v vs)
    obtain b1 where "poll_commands (\<lambda>_. True) (rd v) 0 b = Some b1" using poll_commands_total [OF t] by blast
    then show ?case using Cons.IH [of b1] by simp
  qed simp
  then obtain b' where b': "polls (\<lambda>_. True) ?rds ?b = Some b'" by blast
  have "servo_reads ?rds [10, 10, 20]" by (simp add: servo_reads_def rd_def)
  from servo_follows_node [OF b' this] have "servo_cmds b' = [20]"
    by (simp add: bridge_start_def servo_cmds_def map_filter_def)
  with b' show ?thesis unfolding rd_def by blast
qed

section \<open>The address space and its types\<close>

text \<open>
  The variables \<open>htsn_build_address_space\<close> adds (\<open>htsn_nodes.c\<close>): identifier, name and initial value, whose type is the
  declared type of the variable.
\<close>

definition address_space :: "(nat \<times> string \<times> ua) list" where
  "address_space =
     [(HTSN_ID_SONAR_SWEEP, ''sonar_sweep'', Ua_Int16s []),
      (HTSN_ID_SONAR_SWEEP_ID, ''sonar_sweep_id'', Ua_Int32 0),
      (HTSN_ID_SERVO_ANGLE, ''servo_angle'', Ua_Int16 90),
      (HTSN_ID_RELAY_ON, ''relay_on'', Ua_Bool False),
      (HTSN_ID_BUZZER_HZ, ''buzzer_hz'', Ua_UInt16 0),
      (HTSN_ID_BUZZER_MS, ''buzzer_ms'', Ua_UInt16 0),
      (HTSN_ID_BTN1, ''btn1'', Ua_Bool False),
      (HTSN_ID_BTN2, ''btn2'', Ua_Bool False),
      (HTSN_ID_BTN3, ''btn3'', Ua_Bool False),
      (HTSN_ID_BTN4, ''btn4'', Ua_Bool False),
      (HTSN_ID_PTP_OFFSET_NS, ''ptp_offset_ns'', Ua_Int64 0),
      (HTSN_ID_PTP_STATE, ''ptp_state'', Ua_Byte 2),
      (HTSN_ID_PTP_LOCKED, ''ptp_locked'', Ua_Bool False),
      (HTSN_ID_LAST_SEEN, ''last_seen'', Ua_Int64 0),
      (HTSN_ID_TSN_APP_VLAN, ''tsn_app_vlan'', Ua_Int16 0),
      (HTSN_ID_TSN_APP_PRIO, ''tsn_app_prio'', Ua_Byte 0),
      (HTSN_ID_TSN_APP_PREEMPT, ''tsn_app_preempt'', Ua_Byte 0),
      (HTSN_ID_TSN_APP_TIMESYNC, ''tsn_app_timesync'', Ua_Byte 0),
      (HTSN_ID_TSN_APP_STROLE, ''tsn_app_strole'', Ua_Byte 0),
      (HTSN_ID_TSN_APP_STVLAN, ''tsn_app_stvlan'', Ua_Int16 0),
      (HTSN_ID_TSN_APP_TASCYC, ''tsn_app_tascyc'', Ua_Int64 0),
      (HTSN_ID_TSN_FEATURES, ''tsn_features'', Ua_Int32 0),
      (HTSN_ID_CMD_SERVO_ANGLE, ''cmd_servo_angle'', Ua_Int16 90),
      (HTSN_ID_CMD_RELAY_ON, ''cmd_relay_on'', Ua_Bool False),
      (HTSN_ID_CMD_BEEP_MS, ''cmd_beep_ms'', Ua_Int16 0),
      (HTSN_ID_CMD_SONAR_TRIG, ''cmd_sonar_trig'', Ua_Bool False),
      (HTSN_ID_CMD_REBOOT, ''cmd_reboot'', Ua_Bool False),
      (HTSN_ID_CMD_TSN_CONFIG, ''cmd_tsn_config'', Ua_String [])]"

datatype ua_ty = BOOLEAN | BYTE | INT16 | UINT16 | INT32 | INT64 | INT16_ARRAY | STRING | NO_TYPE

fun ua_type :: "ua \<Rightarrow> ua_ty" where
  "ua_type (Ua_Bool _) = BOOLEAN"
| "ua_type (Ua_Byte _) = BYTE"
| "ua_type (Ua_Int16 _) = INT16"
| "ua_type (Ua_UInt16 _) = UINT16"
| "ua_type (Ua_Int32 _) = INT32"
| "ua_type (Ua_Int64 _) = INT64"
| "ua_type (Ua_Int16s _) = INT16_ARRAY"
| "ua_type (Ua_String _) = STRING"
| "ua_type Ua_Empty = NO_TYPE"

text \<open>A value is in the range of its type.\<close>

fun ua_range :: "ua \<Rightarrow> bool" where
  "ua_range (Ua_Byte i) \<longleftrightarrow> 0 \<le> i \<and> i < 2 ^ 8"
| "ua_range (Ua_Int16 i) \<longleftrightarrow> - (2 ^ 15) \<le> i \<and> i < 2 ^ 15"
| "ua_range (Ua_UInt16 i) \<longleftrightarrow> 0 \<le> i \<and> i < 2 ^ 16"
| "ua_range (Ua_Int32 i) \<longleftrightarrow> - (2 ^ 31) \<le> i \<and> i < 2 ^ 31"
| "ua_range (Ua_Int64 i) \<longleftrightarrow> in_i64 i"
| "ua_range (Ua_Int16s is) \<longleftrightarrow> (\<forall>i \<in> set is. - (2 ^ 15) \<le> i \<and> i < 2 ^ 15)"
| "ua_range _ \<longleftrightarrow> True"

definition node_type :: "nat \<Rightarrow> ua_ty option" where
  "node_type i = map_of (map (\<lambda>(k, _, v). (k, ua_type v)) address_space) i"

definition well_typed :: "nat \<times> ua \<Rightarrow> bool" where
  "well_typed w \<longleftrightarrow> node_type (fst w) = Some (ua_type (snd w)) \<and> ua_range (snd w)"

definition writes_ok :: "'a bridge \<Rightarrow> bool" where
  "writes_ok b \<longleftrightarrow> list_all well_typed (node_writes b)"

lemma node_type_simps [simp]:
  "node_type HTSN_ID_SONAR_SWEEP = Some INT16_ARRAY" "node_type HTSN_ID_SONAR_SWEEP_ID = Some INT32"
  "node_type HTSN_ID_SERVO_ANGLE = Some INT16" "node_type HTSN_ID_RELAY_ON = Some BOOLEAN"
  "node_type HTSN_ID_BUZZER_HZ = Some UINT16" "node_type HTSN_ID_BUZZER_MS = Some UINT16"
  "node_type HTSN_ID_BTN1 = Some BOOLEAN" "node_type HTSN_ID_BTN2 = Some BOOLEAN"
  "node_type HTSN_ID_BTN3 = Some BOOLEAN" "node_type HTSN_ID_BTN4 = Some BOOLEAN"
  "node_type HTSN_ID_PTP_OFFSET_NS = Some INT64" "node_type HTSN_ID_PTP_STATE = Some BYTE"
  "node_type HTSN_ID_PTP_LOCKED = Some BOOLEAN"
  "node_type HTSN_ID_TSN_APP_VLAN = Some INT16" "node_type HTSN_ID_TSN_APP_PRIO = Some BYTE"
  "node_type HTSN_ID_TSN_APP_PREEMPT = Some BYTE" "node_type HTSN_ID_TSN_APP_TIMESYNC = Some BYTE"
  "node_type HTSN_ID_TSN_APP_STROLE = Some BYTE" "node_type HTSN_ID_TSN_APP_STVLAN = Some INT16"
  "node_type HTSN_ID_TSN_APP_TASCYC = Some INT64" "node_type HTSN_ID_TSN_FEATURES = Some INT32"
  "node_type HTSN_ID_CMD_SERVO_ANGLE = Some INT16" "node_type HTSN_ID_CMD_RELAY_ON = Some BOOLEAN"
  "node_type HTSN_ID_CMD_BEEP_MS = Some INT16" "node_type HTSN_ID_CMD_SONAR_TRIG = Some BOOLEAN"
  "node_type HTSN_ID_CMD_REBOOT = Some BOOLEAN" "node_type HTSN_ID_CMD_TSN_CONFIG = Some STRING"
  by (simp_all add: node_type_def address_space_def node_ids)

lemma word_ranges [simp]:
  "- (2 ^ 15) \<le> sint (x :: u16)" "sint x < 2 ^ 15" "0 \<le> uint x" "uint x < 2 ^ 16"
  "- (2 ^ 31) \<le> sint (y :: u32)" "sint y < 2 ^ 31" "0 \<le> uint (z :: byte)" "uint z < 2 ^ 8"
  using sint_range_size [of x] sint_range_size [of y] uint_lt2p [of x] uint_lt2p [of z] by (simp_all add: word_size)

lemma jint_range: "in_i64 def \<Longrightarrow> in_i64 (jint buf key def)"
  by (auto simp: jint_def strtoll_def in_i64_def int64_sat_def split: option.splits)

lemma writes_ok_w_scalar: "writes_ok b \<Longrightarrow> well_typed (i, v) \<Longrightarrow> writes_ok (w_scalar i v b)"
  and writes_ok_w_int16arr: "writes_ok b \<Longrightarrow> well_typed (i, Ua_Int16s vs) \<Longrightarrow> writes_ok (w_int16arr i vs b)"
  by (simp_all add: writes_ok_def w_scalar_def w_int16arr_def)

lemma well_typed_pair: "well_typed (i, v) \<longleftrightarrow> node_type i = Some (ua_type v) \<and> ua_range v"
  by (simp add: well_typed_def)

lemma on_telemetry_typed: "writes_ok b \<Longrightarrow> writes_ok (on_telemetry kind pl b)"
proof -
  assume b: "writes_ok b"
  have z: "in_i64 0" by (simp add: in_i64_def)
  note r = word_ranges [simplified]
  have 2: "writes_ok (telem_sweep pl b)"
    unfolding telem_sweep_def Let_def using b r
    by (auto intro!: writes_ok_w_scalar writes_ok_w_int16arr simp: well_typed_pair)
  have 3: "writes_ok (telem_buttons pl b)"
    unfolding telem_buttons_def Let_def using b by (auto intro!: writes_ok_w_scalar simp: well_typed_pair)
  have 4: "writes_ok (telem_actuator pl b)"
    unfolding telem_actuator_def Let_def using b r by (auto intro!: writes_ok_w_scalar simp: well_typed_pair)
  have 5: "writes_ok (telem_ptp pl b)"
    unfolding telem_ptp_def Let_def using b r jint_range [OF z] by (auto intro!: writes_ok_w_scalar simp: well_typed_pair)
  have 6: "writes_ok (telem_tsn_applied pl b)"
    unfolding telem_tsn_applied_def Let_def using b r uint_in_i64(3) by (auto intro!: writes_ok_w_scalar simp: well_typed_pair)
  show ?thesis using b 2 3 4 5 6 by (simp add: on_telemetry_def)
qed

lemma bridge_receive_typed: "writes_ok b \<Longrightarrow> writes_ok (bridge_receive src buf b)"
proof -
  assume b: "writes_ok b"
  then have "writes_ok (b\<lparr>ep := Some src\<rparr>)" by (simp add: writes_ok_def)
  with b show ?thesis
    using on_telemetry_typed by (auto simp: bridge_receive_def Let_def split: option.splits)
qed

lemma send_cmd_kind_writes [simp]: "node_writes (snd (send_cmd_kind S k pl len b)) = node_writes b"
  by (simp add: send_cmd_kind_def bridge_send_frame_def Let_def split: option.splits prod.splits)

lemma push_tsn_config_writes [simp]: "node_writes (push_tsn_config S json b) = node_writes b"
  by (auto simp: push_tsn_config_def send_cmd_kind_def bridge_send_frame_def Let_def split: option.splits prod.splits)

lemma poll_commands_typed:
  assumes "poll_commands S rd now b = Some b'" and "writes_ok b"
  shows "writes_ok b'"
proof -
  obtain b1 b2 b3 b4 b5 where s: "poll_servo S rd (keepalive S now (poll_tsn S rd b)) = Some b1"
    "poll_relay S rd b1 = Some b2" "poll_beep S rd b2 = Some b3" "poll_trigger S rd HTSN_ID_CMD_SONAR_TRIG 2 b3 = Some b4"
    "poll_trigger S rd HTSN_ID_CMD_REBOOT 6 b4 = Some b5" "b' = b5\<lparr>primed := True\<rparr>"
    using assms(1) by (auto simp: poll_commands_def split: option.splits)
  have "node_writes (keepalive S now (poll_tsn S rd b)) = node_writes b"
    by (simp add: keepalive_def poll_tsn_def Let_def split: option.split ua.split)
  then have "node_writes b1 = node_writes b"
    using s(1) by (auto simp: poll_servo_def Let_def split: option.splits)
  moreover have "node_writes b2 = node_writes b1"
    using s(2) by (auto simp: poll_relay_def Let_def split: option.splits)
  moreover have "node_writes b3 = node_writes b2"
    using s(3) by (auto simp: poll_beep_def Let_def split: option.splits)
  ultimately have 3: "writes_ok b3" using assms(2) by (simp add: writes_ok_def)
  have t: "writes_ok y" if "poll_trigger S rd i k x = Some y" "writes_ok x" "node_type i = Some BOOLEAN" for i k x y
    using that by (auto simp: poll_trigger_def writes_ok_def w_scalar_def well_typed_def split: option.splits bool.splits)
  have "writes_ok b4" using t [OF s(4) 3] by simp
  then have "writes_ok b5" using t [OF s(5)] by simp
  then show ?thesis using s(6) by (simp add: writes_ok_def)
qed

lemma bridge_turn_typed:
  assumes "bridge_turn S connects rd now dg b = Some b'" and "writes_ok b"
  shows "writes_ok b'"
proof (cases "\<not> g_c b \<and> \<not> connects")
  case True
  then show ?thesis using assms by (simp add: bridge_turn_def)
next
  case False
  let ?b1 = "case dg of None \<Rightarrow> b\<lparr>g_c := True\<rparr> | Some (src, buf) \<Rightarrow> bridge_receive src (take HTSN_FRAME_MAX buf) (b\<lparr>g_c := True\<rparr>)"
  have "writes_ok (b\<lparr>g_c := True\<rparr>)" using assms(2) by (simp add: writes_ok_def)
  then have 1: "writes_ok ?b1" using bridge_receive_typed by (auto split: option.splits)
  have "b' = ?b1 \<or> poll_commands S rd now ?b1 = Some b'"
    using assms(1) False by (auto simp: bridge_turn_def Let_def split: if_splits)
  then show ?thesis using 1 poll_commands_typed by blast
qed

text \<open>The server keeps the declared types: a read returns a value of the type of its node.\<close>

definition server_typed :: "(nat \<Rightarrow> ua option) \<Rightarrow> bool" where
  "server_typed rd \<longleftrightarrow> (\<forall>i v. rd i = Some v \<longrightarrow> node_type i = Some (ua_type v))"

lemma server_typed_reads:
  assumes "server_typed rd"
  shows "typed_reads rd"
proof -
  have "rd_scalar as_int16 rd i \<noteq> None" if "node_type i = Some INT16" for i
  proof (cases "rd i")
    case (Some v)
    then show ?thesis using assms that by (cases v) (auto simp: server_typed_def rd_scalar_def)
  qed (simp add: rd_scalar_def)
  moreover have "rd_scalar as_bool rd i \<noteq> None" if "node_type i = Some BOOLEAN" for i
  proof (cases "rd i")
    case (Some v)
    then show ?thesis using assms that by (cases v) (auto simp: server_typed_def rd_scalar_def)
  qed (simp add: rd_scalar_def)
  ultimately show ?thesis by (simp add: typed_reads_def)
qed



end
