(* ===== verification/Opcua_Link.thy ===== *)
theory Opcua_Link
  imports Opcua_Bridge
begin

text \<open>
  The other OPC UA clients on the Raspberry Pi: the poller that copies the nodes to a JSON file (\<open>rpi-tsn/tsn_opcua_link.c\<close>)
  and the command line client (\<open>rpi-tsn/htsn_opcua_cli.c\<close>). The server's answers to reads are the parameter \<open>rd\<close>, the
  outcomes of connections and writes are \<open>conn\<close> and \<open>good\<close>. The buffers of the poller have their sizes, and a write behind
  one of them is \<open>None\<close>.
\<close>

section \<open>The poller\<close>

record node_def =
  nd_name :: string
  nd_id :: nat
  nd_type :: ua_ty
  nd_array :: bool

definition nd :: "string \<Rightarrow> nat \<Rightarrow> ua_ty \<Rightarrow> node_def" where
  "nd n i t = \<lparr>nd_name = n, nd_id = i, nd_type = t, nd_array = False\<rparr>"

definition NODES :: "node_def list" where
  "NODES =
     [\<lparr>nd_name = ''sonar_sweep'', nd_id = HTSN_ID_SONAR_SWEEP, nd_type = INT16, nd_array = True\<rparr>,
      nd ''sonar_sweep_id'' HTSN_ID_SONAR_SWEEP_ID INT32,
      nd ''servo_angle'' HTSN_ID_SERVO_ANGLE INT16,
      nd ''relay_on'' HTSN_ID_RELAY_ON BOOLEAN,
      nd ''buzzer_hz'' HTSN_ID_BUZZER_HZ UINT16,
      nd ''buzzer_ms'' HTSN_ID_BUZZER_MS UINT16,
      nd ''btn1'' HTSN_ID_BTN1 BOOLEAN,
      nd ''btn2'' HTSN_ID_BTN2 BOOLEAN,
      nd ''btn3'' HTSN_ID_BTN3 BOOLEAN,
      nd ''btn4'' HTSN_ID_BTN4 BOOLEAN,
      nd ''ptp_offset_ns'' HTSN_ID_PTP_OFFSET_NS INT64,
      nd ''ptp_state'' HTSN_ID_PTP_STATE BYTE,
      nd ''ptp_locked'' HTSN_ID_PTP_LOCKED BOOLEAN,
      nd ''last_seen'' HTSN_ID_LAST_SEEN INT64,
      nd ''tsn_app_vlan'' HTSN_ID_TSN_APP_VLAN INT16,
      nd ''tsn_app_prio'' HTSN_ID_TSN_APP_PRIO BYTE,
      nd ''tsn_app_preempt'' HTSN_ID_TSN_APP_PREEMPT BYTE,
      nd ''tsn_app_timesync'' HTSN_ID_TSN_APP_TIMESYNC BYTE,
      nd ''tsn_app_strole'' HTSN_ID_TSN_APP_STROLE BYTE,
      nd ''tsn_app_stvlan'' HTSN_ID_TSN_APP_STVLAN INT16,
      nd ''tsn_app_tascyc'' HTSN_ID_TSN_APP_TASCYC INT64,
      nd ''tsn_features'' HTSN_ID_TSN_FEATURES INT32]"

text \<open>The loop over the samples: \<open>first\<close> is the test of \<open>i\<close> that omits the first comma.\<close>

fun emit_samples :: "nat \<Rightarrow> bool \<Rightarrow> int list \<Rightarrow> string \<times> nat \<Rightarrow> (string \<times> nat) option" where
  "emit_samples cap first [] bo = Some bo"
| "emit_samples cap first (a # as) bo =
     (if snd bo + 1 < cap
      then (case sn_append cap ((if first then [] else '','') @ dec_int a) bo of
              None \<Rightarrow> None
            | Some bo1 \<Rightarrow> emit_samples cap False as bo1)
      else Some bo)"

definition field_key :: "node_def \<Rightarrow> string" where
  "field_key n = dq @ nd_name n @ dq @ '':''"

text \<open>The value of a scalar node as the format of its type prints it; another type or no data is \<open>null\<close>.\<close>

fun scalar_text :: "ua_ty \<Rightarrow> ua \<Rightarrow> string" where
  "scalar_text BOOLEAN (Ua_Bool x) = (if x then ''true'' else ''false'')"
| "scalar_text INT16 (Ua_Int16 i) = dec_int i"
| "scalar_text INT32 (Ua_Int32 i) = dec_int i"
| "scalar_text INT64 (Ua_Int64 i) = dec_int i"
| "scalar_text UINT16 (Ua_UInt16 i) = dec_int i"
| "scalar_text BYTE (Ua_Byte i) = dec_int i"
| "scalar_text _ _ = ''null''"

text \<open>
  \<open>emit_value\<close> for a value of the node's type or without data; \<open>None\<close> is an access outside the buffer. An array node
  without data has length 0.
\<close>

definition emit_value :: "node_def \<Rightarrow> ua \<Rightarrow> nat \<Rightarrow> string option" where
  "emit_value n v cap =
     (if nd_array n then
        (case sn_append cap (field_key n @ ''['') ([], 0) of
           None \<Rightarrow> None
         | Some bo \<Rightarrow>
             (case emit_samples cap True (case v of Ua_Int16s as \<Rightarrow> as | _ \<Rightarrow> []) bo of
                None \<Rightarrow> None
              | Some bo1 \<Rightarrow> map_option fst (sn_append cap '']'' bo1)))
      else Some (snprintf_buf cap (field_key n @ scalar_text (nd_type n) v)))"

text \<open>The field of a node in \<open>read_all\<close>, in a buffer of 256 bytes, and the loop over the nodes.\<close>

definition node_field :: "(nat \<Rightarrow> ua option) \<Rightarrow> node_def \<Rightarrow> string option" where
  "node_field rd n =
     (case rd (nd_id n) of
        Some v \<Rightarrow> emit_value n v 256
      | None \<Rightarrow> Some (snprintf_buf 256 (field_key n @ ''null'')))"

fun read_nodes :: "nat \<Rightarrow> (nat \<Rightarrow> ua option) \<Rightarrow> bool \<Rightarrow> node_def list \<Rightarrow> string \<times> nat \<Rightarrow> (string \<times> nat) option" where
  "read_nodes cap rd first [] bo = Some bo"
| "read_nodes cap rd first (n # ns) bo =
     (case node_field rd n of
        None \<Rightarrow> None
      | Some f \<Rightarrow>
          (case sn_append cap ((if first then [] else '','') @ f) bo of
             None \<Rightarrow> None
           | Some bo1 \<Rightarrow> read_nodes cap rd False ns bo1))"

definition read_all :: "(nat \<Rightarrow> ua option) \<Rightarrow> int \<Rightarrow> nat \<Rightarrow> (nat \<times> string) option" where
  "read_all rd now cap =
     (case sn_append cap (''{'' @ dq @ ''ok'' @ dq @ '':true,'' @ dq @ ''ts'' @ dq @ '':'' @ dec_int now @ '','') ([], 0) of
        None \<Rightarrow> None
      | Some bo \<Rightarrow>
          (case read_nodes cap rd True NODES bo of
             None \<Rightarrow> None
           | Some bo1 \<Rightarrow>
               (case sn_append cap (''}'' @ [CHR 0x0A]) bo1 of
                  None \<Rightarrow> None
                | Some bo2 \<Rightarrow> Some (length (filter (\<lambda>n. rd (nd_id n) \<noteq> None) NODES), fst bo2))))"

text \<open>
  A turn of the loop of \<open>main\<close> with the client connected: the file is replaced when at least one node was read; the
  second component tells whether the session is kept.
\<close>

definition poller_turn :: "(nat \<Rightarrow> ua option) \<Rightarrow> int \<Rightarrow> string option \<Rightarrow> (string option \<times> bool) option" where
  "poller_turn rd now file =
     (case read_all rd now 8192 of
        None \<Rightarrow> None
      | Some (okc, json) \<Rightarrow> Some (if okc > 0 then (Some json, True) else (file, False)))"

text \<open>The poll interval in microseconds from the text of \<open>HTSN_OPCUA_HZ\<close>.\<close>

definition poll_interval :: "string \<Rightarrow> int" where
  "poll_interval s = (let hz = strtoll s; h1 = (if hz < 1 then 1 else hz); h2 = (if h1 > 20 then 20 else h1) in 1000000 div h2)"

section \<open>What the poller prints\<close>

lemma emit_samples_fits:
  assumes "length buf + length (join '','' (map dec_int as)) + 2 < cap"
  shows "emit_samples cap True as (buf, length buf) = Some (buf @ join '','' (map dec_int as), length (buf @ join '','' (map dec_int as)))"
proof -
  have more: "emit_samples cap False as (buf, length buf) =
      Some (buf @ concat (map (\<lambda>a. CHR '','' # dec_int a) as), length (buf @ concat (map (\<lambda>a. CHR '','' # dec_int a) as)))"
    if "length buf + length (concat (map (\<lambda>a. CHR '','' # dec_int a) as)) + 1 < cap" for as buf
    using that
  proof (induction as arbitrary: buf)
    case (Cons a as)
    have s: "sn_append cap ('','' @ dec_int a) (buf, length buf) =
        Some (buf @ '','' @ dec_int a, length (buf @ '','' @ dec_int a))"
      by (rule sn_append_fits) (use Cons.prems in simp)
    show ?case using s Cons.IH [of "buf @ '','' @ dec_int a"] Cons.prems by simp
  qed simp
  have j: "join '','' (map dec_int (a # xs)) = dec_int a @ concat (map (\<lambda>a. CHR '','' # dec_int a) xs)" for a xs
    by (induction xs arbitrary: a) simp_all
  show ?thesis
  proof (cases as)
    case (Cons a xs)
    have s: "sn_append cap (dec_int a) (buf, length buf) = Some (buf @ dec_int a, length (buf @ dec_int a))"
      by (rule sn_append_fits) (use assms j [of a xs] Cons in simp)
    show ?thesis using s more [of "buf @ dec_int a" xs] assms j [of a xs] Cons by simp
  qed simp
qed

text \<open>The text of a node's value in the file.\<close>

definition value_text :: "(nat \<Rightarrow> ua option) \<Rightarrow> node_def \<Rightarrow> string" where
  "value_text rd n =
     (case rd (nd_id n) of
        None \<Rightarrow> ''null''
      | Some v \<Rightarrow> if nd_array n then jnums (case v of Ua_Int16s as \<Rightarrow> as | _ \<Rightarrow> []) else scalar_text (nd_type n) v)"

definition file_text :: "(nat \<Rightarrow> ua option) \<Rightarrow> int \<Rightarrow> string" where
  "file_text rd now =
     js_object ([(''ok'', ''true''), (''ts'', dec_int now)] @ map (\<lambda>n. (nd_name n, value_text rd n)) NODES) @ [CHR 0x0A]"

lemma dec_int_short: "ua_range v \<Longrightarrow> length (scalar_text t v) \<le> 20"
proof -
  have d: "length (dec_int i) \<le> 20" if "- (2 ^ 31) \<le> i" "i < 2 ^ 31" for i
    using that by (intro length_dec_i64) (simp add: in_i64_def)
  show "ua_range v \<Longrightarrow> length (scalar_text t v) \<le> 20"
    by (induction t v rule: scalar_text.induct) (simp_all add: length_dec_i64 d)
qed

lemma node_field_scalar:
  assumes "n \<in> set NODES" and "\<not> nd_array n" and "\<And>v. rd (nd_id n) = Some v \<Longrightarrow> ua_range v"
  shows "node_field rd n = Some (js_member (nd_name n, value_text rd n)) \<and> length (js_member (nd_name n, value_text rd n)) \<le> 255"
proof -
  have "length (nd_name n) \<le> 16" using assms(1) by (auto simp: NODES_def nd_def)
  moreover have "length (value_text rd n) \<le> 20"
    using assms(2,3) dec_int_short by (auto simp: value_text_def split: option.splits)
  ultimately have l: "length (js_member (nd_name n, value_text rd n)) \<le> 255" by (simp add: js_member_def dq_def)
  then show ?thesis
    using assms(2) by (auto simp: node_field_def emit_value_def field_key_def value_text_def js_member_def snprintf_buf_def
        split: option.splits)
qed

lemma node_field_array:
  assumes "n \<in> set NODES" and "nd_array n" and "\<And>as. rd (nd_id n) = Some (Ua_Int16s as) \<Longrightarrow> length (jnums as) \<le> 239"
  shows "node_field rd n = Some (js_member (nd_name n, value_text rd n)) \<and> length (js_member (nd_name n, value_text rd n)) \<le> 255"
proof -
  have nm: "length (nd_name n) = 11" using assms(1,2) by (auto simp: NODES_def nd_def)
  show ?thesis
  proof (cases "rd (nd_id n)")
    case None
    then show ?thesis using nm by (simp add: node_field_def value_text_def field_key_def js_member_def dq_def snprintf_buf_def)
  next
    case (Some v)
    define as where "as = (case v of Ua_Int16s as \<Rightarrow> as | _ \<Rightarrow> [])"
    have l: "length (jnums as) \<le> 239" using assms(3) Some by (cases v) (auto simp: as_def jnums_def)
    let ?k = "field_key n @ ''[''"
    have k: "length ?k = 15" using nm by (simp add: field_key_def dq_def)
    have "sn_append 256 ?k ([], 0) = Some (?k, length ?k)" using sn_append_fits [of "[]" ?k 256] k by simp
    moreover have "emit_samples 256 True as (?k, length ?k) =
        Some (?k @ join '','' (map dec_int as), length (?k @ join '','' (map dec_int as)))"
      using l k by (intro emit_samples_fits) (simp add: jnums_def)
    moreover have "sn_append 256 '']'' (?k @ join '','' (map dec_int as), length (?k @ join '','' (map dec_int as))) =
        Some (?k @ join '','' (map dec_int as) @ '']'', length (?k @ join '','' (map dec_int as)) + 1)"
      using sn_append_fits [of "?k @ join '','' (map dec_int as)" "'']''" 256] l k by (simp add: jnums_def)
    ultimately have "emit_value n v 256 = Some (field_key n @ jnums as)"
      using assms(2) by (simp add: emit_value_def as_def [symmetric] jnums_def)
    then show ?thesis
      using Some assms(2) l nm by (simp add: node_field_def value_text_def as_def [symmetric] js_member_def field_key_def dq_def)
  qed
qed

lemma read_nodes_fits:
  assumes "\<And>n. n \<in> set ns \<Longrightarrow> node_field rd n = Some (g n) \<and> length (g n) \<le> 255"
    and "length buf + 256 * length ns < cap"
  shows "read_nodes cap rd first ns (buf, length buf) =
    (let t = buf @ (if first \<or> ns = [] then [] else '','') @ join '','' (map g ns) in Some (t, length t))"
  using assms
proof (induction ns arbitrary: buf first)
  case (Cons n ns)
  let ?s = "(if first then [] else '','') @ g n"
  have g: "node_field rd n = Some (g n)" "length (g n) \<le> 255" using Cons.prems(1) [of n] by simp_all
  have "length buf + length ?s < cap" using Cons.prems(2) g(2) by simp
  then have s: "sn_append cap ?s (buf, length buf) = Some (buf @ ?s, length (buf @ ?s))" by (rule sn_append_fits)
  have "read_nodes cap rd False ns (buf @ ?s, length (buf @ ?s)) =
    (let t = (buf @ ?s) @ (if False \<or> ns = [] then [] else '','') @ join '','' (map g ns) in Some (t, length t))"
    by (rule Cons.IH) (use Cons.prems(1) in simp, use Cons.prems(2) g(2) in simp)
  then show ?case using g(1) s by (cases ns) (simp_all add: Let_def)
qed (simp add: Let_def)

lemma join_Cons: "xs \<noteq> [] \<Longrightarrow> join d (x # xs) = x @ d @ join d xs"
  by (cases xs) simp_all

text \<open>
  C26. The file of the poller is complete while the sweep is short: with node values in the ranges of their types and a
  sweep that prints in at most 239 characters, \<open>read_all\<close> writes inside its buffers and returns the whole JSON object, one member per node with
  its value or \<open>null\<close>, and the number of nodes that could be read.
\<close>

theorem poller_file_complete:
  assumes "\<And>i v. rd i = Some v \<Longrightarrow> ua_range v"
    and "\<And>as. rd HTSN_ID_SONAR_SWEEP = Some (Ua_Int16s as) \<Longrightarrow> length (jnums as) \<le> 239" and "in_i64 now"
  shows "read_all rd now 8192 = Some (length (filter (\<lambda>n. rd (nd_id n) \<noteq> None) NODES), file_text rd now)"
proof -
  let ?h = "''{'' @ dq @ ''ok'' @ dq @ '':true,'' @ dq @ ''ts'' @ dq @ '':'' @ dec_int now @ '',''"
  let ?g = "\<lambda>n. js_member (nd_name n, value_text rd n)"
  have f: "node_field rd n = Some (?g n) \<and> length (?g n) \<le> 255" if n: "n \<in> set NODES" for n
  proof (cases "nd_array n")
    case True
    then have "nd_id n = HTSN_ID_SONAR_SWEEP" using n by (auto simp: NODES_def nd_def)
    with assms(2) have "\<And>as. rd (nd_id n) = Some (Ua_Int16s as) \<Longrightarrow> length (jnums as) \<le> 239" by simp
    then show ?thesis by (rule node_field_array [OF n True])
  next
    case False
    then show ?thesis using n assms(1) by (intro node_field_scalar)
  qed
  have hl: "length ?h \<le> 50" using length_dec_i64 [OF assms(3)] by (simp add: dq_def)
  have nl: "length NODES = 22" by (simp add: NODES_def)
  let ?t = "?h @ join '','' (map ?g NODES)"
  have 1: "sn_append 8192 ?h ([], 0) = Some (?h, length ?h)" using sn_append_fits [of "[]" ?h 8192] hl by simp
  have 2: "read_nodes 8192 rd True NODES (?h, length ?h) = Some (?t, length ?t)"
    using read_nodes_fits [of NODES rd ?g ?h 8192 True] f hl nl by (simp add: Let_def)
  have jl: "length (join '','' (map ?g ns)) \<le> 256 * length ns" if "set ns \<subseteq> set NODES" for ns
    using that
  proof (induction ns)
    case (Cons n ns)
    then show ?case using f [of n] by (cases ns) auto
  qed simp
  have 3: "sn_append 8192 (''}'' @ [CHR 0x0A]) (?t, length ?t) = Some (?t @ ''}'' @ [CHR 0x0A], length (?t @ ''}'' @ [CHR 0x0A]))"
    by (rule sn_append_fits) (use hl nl jl [of NODES] in simp)
  have "NODES \<noteq> []" using nl by auto
  then have "join '','' (x # map ?g NODES) = x @ CHR '','' # join '','' (map ?g NODES)" for x by (simp add: join_Cons)
  then have 4: "file_text rd now = ?t @ ''}'' @ [CHR 0x0A]"
    by (simp add: file_text_def js_object_def js_member_def dq_def comp_def)
  show ?thesis unfolding read_all_def 1 option.case 2 3 4 by simp
qed

theorem poller_file_complete_witness:
  "read_all (\<lambda>i. if i = HTSN_ID_SONAR_SWEEP then Some (Ua_Int16s [120, - 1]) else None) 5 8192 =
     Some (1, file_text (\<lambda>i. if i = HTSN_ID_SONAR_SWEEP then Some (Ua_Int16s [120, - 1]) else None) 5)"
proof -
  let ?rd = "\<lambda>i. if i = HTSN_ID_SONAR_SWEEP then Some (Ua_Int16s [120, - 1]) else None"
  have "read_all ?rd 5 8192 = Some (length (filter (\<lambda>n. ?rd (nd_id n) \<noteq> None) NODES), file_text ?rd 5)"
    by (rule poller_file_complete)
      (auto simp: in_i64_def jnums_def dec_int_def dec_nat.simps split: if_splits)
  then show ?thesis by (simp add: NODES_def nd_def node_ids)
qed

section \<open>Long sweeps\<close>

text \<open>The text the sample loop would have printed when it stops.\<close>

fun stop_text :: "bool \<Rightarrow> int list \<Rightarrow> string \<Rightarrow> string" where
  "stop_text first [] t = t"
| "stop_text first (a # as) t =
     (if length t < 255 then stop_text False as (t @ (if first then [] else '','') @ dec_int a) else t)"

lemma emit_samples_stop:
  "emit_samples 256 first as (take 255 t, length t) = Some (take 255 (stop_text first as t), length (stop_text first as t))"
proof (induction as arbitrary: first t)
  case (Cons a as)
  let ?s = "(if first then [] else '','') @ dec_int a"
  show ?case
  proof (cases "length t < 255")
    case True
    then have "sn_append 256 ?s (take 255 t, length t) = Some (take 255 (t @ ?s), length (t @ ?s))"
      by (simp add: sn_append_def)
    then show ?thesis using True Cons.IH [of False "t @ ?s"] by simp
  qed simp
qed simp

lemma stop_text_prefix:
  "\<exists>r. t @ (if first \<or> as = [] then [] else '','') @ join '','' (map dec_int as) = stop_text first as t @ r \<and>
     (r \<noteq> [] \<longrightarrow> 255 \<le> length (stop_text first as t))"
proof (induction as arbitrary: first t)
  case (Cons a as)
  let ?s = "(if first then [] else '','') @ dec_int a"
  show ?case
  proof (cases "length t < 255")
    case True
    obtain r where "(t @ ?s) @ (if False \<or> as = [] then [] else '','') @ join '','' (map dec_int as) = stop_text False as (t @ ?s) @ r"
      "r \<noteq> [] \<longrightarrow> 255 \<le> length (stop_text False as (t @ ?s))" using Cons.IH [of "t @ ?s" False] by blast
    then show ?thesis using True by (intro exI [of _ r]) (cases as; simp)
  qed simp
qed simp

lemma emit_value_long:
  fixes as :: "int list"
  assumes "nd_array n" and "length (field_key n) = 14"
  defines "t \<equiv> stop_text True as (field_key n @ ''['')"
  assumes "255 \<le> length t"
  shows "emit_value n (Ua_Int16s as) 256 = (if length t > 256 then None else Some (take 255 t))"
proof -
  let ?k = "field_key n @ ''[''"
  have k: "length ?k = 15" using assms(2) by simp
  have "sn_append 256 ?k ([], 0) = Some (?k, length ?k)" using sn_append_fits [of "[]" ?k 256] k by simp
  moreover have "emit_samples 256 True as (?k, length ?k) = Some (take 255 t, length t)"
    using emit_samples_stop [of True as ?k] k by (simp add: t_def)
  moreover have "sn_append 256 '']'' (take 255 t, length t) =
      (if length t > 256 then None else Some (take 255 t, length t + 1))"
    using assms(4) by (auto simp: sn_append_def)
  ultimately show ?thesis using assms(1) by (simp add: emit_value_def)
qed

lemma stop_text_uniform:
  assumes "\<forall>a \<in> set as. length (dec_int a) = d" and "255 \<le> length t + (d + 1) * length as"
  shows "\<exists>k. length (stop_text False as t) = length t + (d + 1) * k \<and> 255 \<le> length (stop_text False as t) \<and>
    (k = 0 \<or> length t + (d + 1) * (k - 1) < 255)"
  using assms
proof (induction as arbitrary: t)
  case (Cons a as)
  show ?case
  proof (cases "length t < 255")
    case True
    let ?t = "t @ '','' @ dec_int a"
    have l: "length ?t = length t + (d + 1)" using Cons.prems(1) by simp
    obtain k where k: "length (stop_text False as ?t) = length ?t + (d + 1) * k" "255 \<le> length (stop_text False as ?t)"
      "k = 0 \<or> length ?t + (d + 1) * (k - 1) < 255"
      using Cons.IH [of ?t] Cons.prems by (auto simp: algebra_simps)
    have "k = 0 \<or> length t + (d + 1) * k < 255"
      using k(3) l by (cases k) (simp_all add: algebra_simps)
    then have "Suc k = 0 \<or> length t + (d + 1) * (Suc k - 1) < 255" using True by auto
    then show ?thesis using k(1,2) l True by (intro exI [of _ "Suc k"]) (simp add: algebra_simps)
  next
    case False
    then show ?thesis by (intro exI [of _ 0]) simp
  qed
qed simp

text \<open>The first node of the table is the sweep.\<close>

definition sweep_node :: node_def where
  "sweep_node = \<lparr>nd_name = ''sonar_sweep'', nd_id = HTSN_ID_SONAR_SWEEP, nd_type = INT16, nd_array = True\<rparr>"

lemma NODES_head: "\<exists>ns. NODES = sweep_node # ns"
  by (simp add: NODES_def sweep_node_def)

lemma read_all_overrun: "node_field rd sweep_node = None \<Longrightarrow> read_all rd now cap = None"
proof -
  assume n: "node_field rd sweep_node = None"
  obtain ns where ns: "NODES = sweep_node # ns" using NODES_head by blast
  have "read_nodes cap rd True NODES bo = None" for bo unfolding ns using n by simp
  then show ?thesis by (simp add: read_all_def split: option.split)
qed

text \<open>
  C40. A long sweep breaks the poller: when the printed sweep does not fit the field of 256 bytes, the field loses its
  closing bracket, so that the file is no JSON, or \<open>emit_value\<close> writes behind the buffer; and it does write behind the buffer, so that the poll
  is undefined, for every sweep of at least 81 samples that all print with the same number of characters, from two to
  six (two- or three-digit distances, or \<open>-1\<close> for no echo; the endpoint sends 180 of them).
\<close>

theorem long_sweep_breaks_poller:
  assumes "rd HTSN_ID_SONAR_SWEEP = Some (Ua_Int16s as)" and "255 \<le> length (field_key sweep_node @ ''['' @ join '','' (map dec_int as))"
  shows "(read_all rd now 8192 = None \<or>
      node_field rd sweep_node = Some (take 255 (field_key sweep_node @ ''['' @ join '','' (map dec_int as)))) \<and>
    (\<forall>d. 2 \<le> d \<and> d \<le> 6 \<and> 81 \<le> length as \<and> (\<forall>a \<in> set as. length (dec_int a) = d) \<longrightarrow> read_all rd now 8192 = None)"
proof -
  let ?k = "field_key sweep_node @ ''[''"
  define t where "t = stop_text True as ?k"
  have k: "length (field_key sweep_node) = 14" by (simp add: field_key_def sweep_node_def dq_def)
  have arr: "nd_array sweep_node" by (simp add: sweep_node_def)
  have fld: "node_field rd sweep_node = emit_value sweep_node (Ua_Int16s as) 256"
    using assms(1) by (simp add: node_field_def sweep_node_def)
  obtain r where r: "?k @ join '','' (map dec_int as) = t @ r" "r \<noteq> [] \<longrightarrow> 255 \<le> length t"
    using stop_text_prefix [where t = ?k and first = True and as = as] by (auto simp: t_def)
  have l: "255 \<le> length t" using r assms(2) by (cases "r = []") auto
  have e: "emit_value sweep_node (Ua_Int16s as) 256 = (if length t > 256 then None else Some (take 255 t))"
    using emit_value_long [OF arr k] l by (simp add: t_def)
  have "take 255 t = take 255 (?k @ join '','' (map dec_int as))" using r(1) l by simp
  then have 1: "read_all rd now 8192 = None \<or>
      node_field rd sweep_node = Some (take 255 (field_key sweep_node @ ''['' @ join '','' (map dec_int as)))"
    using e fld read_all_overrun by auto
  have 2: "read_all rd now 8192 = None"
    if d: "2 \<le> d" "d \<le> 6" "81 \<le> length as" "\<forall>a \<in> set as. length (dec_int a) = d" for d
  proof -
    obtain a xs where as: "as = a # xs" using d(3) by (cases as) auto
    have lt: "length (?k @ dec_int a) = 15 + d" using d(4) as k by simp
    have t': "t = stop_text False xs (?k @ dec_int a)" using as k by (simp add: t_def)
    have "(d + 1) * 80 \<le> (d + 1) * length xs" using d(3) as by (intro mult_le_mono) simp_all
    then have "255 \<le> length (?k @ dec_int a) + (d + 1) * length xs" using lt d(1) by simp
    then obtain j where "length t = 15 + d + (d + 1) * j" "255 \<le> length t" "j = 0 \<or> 15 + d + (d + 1) * (j - 1) < 255"
      using stop_text_uniform [of xs d "?k @ dec_int a"] d(4) as lt t' by auto
    moreover have "d = 2 \<or> d = 3 \<or> d = 4 \<or> d = 5 \<or> d = 6" using d(1,2) by auto
    ultimately have "length t > 256" by (elim disjE; simp; presburger)
    then show ?thesis using e fld read_all_overrun by simp
  qed
  from 1 2 show ?thesis by blast
qed

lemma length_join_uniform:
  "\<forall>x \<in> set xs. length x = d \<Longrightarrow> xs \<noteq> [] \<Longrightarrow> length (join '','' xs) + 1 = (d + 1) * length xs"
proof (induction xs)
  case (Cons x xs)
  then show ?case by (cases xs) auto
qed simp

theorem long_sweep_breaks_poller_witness:
  "read_all (\<lambda>i. Some (Ua_Int16s (replicate 180 100))) 0 8192 = None"
proof -
  let ?as = "replicate 180 (100 :: int)"
  have d: "length (dec_int 100) = 3" by (simp add: dec_int_def dec_nat.simps)
  then have "length (join '','' (map dec_int ?as)) + 1 = (3 + 1) * length (map dec_int ?as)"
    by (intro length_join_uniform) simp_all
  then have "255 \<le> length (field_key sweep_node @ ''['' @ join '','' (map dec_int ?as))" by simp
  from long_sweep_breaks_poller [OF refl this, THEN conjunct2, THEN spec, of 3] d show ?thesis by simp
qed

section \<open>The command line client\<close>

text \<open>The table of \<open>htsn_opcua_cli.c\<close>: the nodes with a flag for command nodes.\<close>

definition CLI_NODES :: "(node_def \<times> bool) list" where
  "CLI_NODES =
     [(\<lparr>nd_name = ''sonar_sweep'', nd_id = HTSN_ID_SONAR_SWEEP, nd_type = INT16, nd_array = True\<rparr>, False),
      (nd ''sonar_sweep_id'' HTSN_ID_SONAR_SWEEP_ID INT32, False),
      (nd ''servo_angle'' HTSN_ID_SERVO_ANGLE INT16, False),
      (nd ''relay_on'' HTSN_ID_RELAY_ON BOOLEAN, False),
      (nd ''buzzer_hz'' HTSN_ID_BUZZER_HZ UINT16, False),
      (nd ''buzzer_ms'' HTSN_ID_BUZZER_MS UINT16, False),
      (nd ''btn1'' HTSN_ID_BTN1 BOOLEAN, False),
      (nd ''btn2'' HTSN_ID_BTN2 BOOLEAN, False),
      (nd ''btn3'' HTSN_ID_BTN3 BOOLEAN, False),
      (nd ''btn4'' HTSN_ID_BTN4 BOOLEAN, False),
      (nd ''ptp_offset_ns'' HTSN_ID_PTP_OFFSET_NS INT64, False),
      (nd ''ptp_state'' HTSN_ID_PTP_STATE BYTE, False),
      (nd ''ptp_locked'' HTSN_ID_PTP_LOCKED BOOLEAN, False),
      (nd ''last_seen'' HTSN_ID_LAST_SEEN INT64, False),
      (nd ''cmd_servo_angle'' HTSN_ID_CMD_SERVO_ANGLE INT16, True),
      (nd ''cmd_relay_on'' HTSN_ID_CMD_RELAY_ON BOOLEAN, True),
      (nd ''cmd_beep_ms'' HTSN_ID_CMD_BEEP_MS INT16, True),
      (nd ''cmd_sonar_trigger'' HTSN_ID_CMD_SONAR_TRIG BOOLEAN, True),
      (nd ''cmd_reboot'' HTSN_ID_CMD_REBOOT BOOLEAN, True),
      (nd ''tsn_app_vlan'' HTSN_ID_TSN_APP_VLAN INT16, False),
      (nd ''tsn_app_prio'' HTSN_ID_TSN_APP_PRIO BYTE, False),
      (nd ''tsn_app_preempt'' HTSN_ID_TSN_APP_PREEMPT BYTE, False),
      (nd ''tsn_app_timesync'' HTSN_ID_TSN_APP_TIMESYNC BYTE, False),
      (nd ''tsn_app_strole'' HTSN_ID_TSN_APP_STROLE BYTE, False),
      (nd ''tsn_app_stvlan'' HTSN_ID_TSN_APP_STVLAN INT16, False),
      (nd ''tsn_app_tascyc'' HTSN_ID_TSN_APP_TASCYC INT64, False),
      (nd ''tsn_features'' HTSN_ID_TSN_FEATURES INT32, False),
      (nd ''cmd_tsn_config'' HTSN_ID_CMD_TSN_CONFIG STRING, True)]"

definition cli_find :: "string \<Rightarrow> node_def option" where
  "cli_find name = map_option fst (find (\<lambda>n. nd_name (fst n) = name) CLI_NODES)"

text \<open>\<open>cmd_read\<close>: what it prints and its exit code; \<open>conn\<close> tells whether the connection is made. A good read of a
  variant without data is printed as \<open>null\<close>.\<close>

definition cmd_read :: "bool \<Rightarrow> (nat \<Rightarrow> ua option) \<Rightarrow> int \<times> string" where
  "cmd_read conn rd =
     (if \<not> conn then (1, ''{'' @ dq @ ''ok'' @ dq @ '':false,'' @ dq @ ''err'' @ dq @ '':'' @ dq @ ''connect'' @ dq @ ''}'' @ [CHR 0x0A])
      else (0, ''{'' @ dq @ ''ok'' @ dq @ '':true,'' @
               join '','' (map (\<lambda>n. field_key n @ (if rd (nd_id n) = Some Ua_Empty then ''null'' else value_text rd n))
                 (map fst (filter (\<lambda>n. \<not> snd n) CLI_NODES))) @ ''}'' @ [CHR 0x0A]))"

definition parse_bool :: "string \<Rightarrow> bool" where
  "parse_bool s \<longleftrightarrow> s \<noteq> [] \<and> hd s \<in> {CHR ''1'', CHR ''t'', CHR ''T'', CHR ''y'', CHR ''Y'', CHR ''o'', CHR ''O''}"

text \<open>The value written for an argument; \<open>None\<close> is the \<open>default\<close> branch.\<close>

fun cli_value :: "ua_ty \<Rightarrow> string \<Rightarrow> ua option" where
  "cli_value INT16 val = Some (Ua_Int16 (sint (word_of_int (atoi val) :: u16)))"
| "cli_value INT32 val = Some (Ua_Int32 (atoi val))"
| "cli_value INT64 val = Some (Ua_Int64 (strtoll val))"
| "cli_value UINT16 val = Some (Ua_UInt16 (uint (word_of_int (atoi val) :: u16)))"
| "cli_value BYTE val = Some (Ua_Byte (uint (word_of_int (atoi val) :: byte)))"
| "cli_value BOOLEAN val = Some (Ua_Bool (parse_bool val))"
| "cli_value _ val = None"

text \<open>
  The loop of up to four attempts from attempt \<open>k\<close> on: \<open>conn k\<close> and \<open>good k\<close> tell whether the connection is made and the
  write succeeds; the result is success and the values passed to the write call.
\<close>

fun cli_attempts :: "nat \<Rightarrow> (nat \<Rightarrow> bool) \<Rightarrow> (nat \<Rightarrow> bool) \<Rightarrow> nat \<times> ua \<Rightarrow> nat \<Rightarrow> bool \<times> (nat \<times> ua) list" where
  "cli_attempts 0 conn good w k = (False, [])"
| "cli_attempts (Suc m) conn good w k =
     (if \<not> conn k then cli_attempts m conn good w (Suc k)
      else if good k then (True, [w])
      else (let (r, ws) = cli_attempts m conn good w (Suc k) in (r, w # ws)))"

text \<open>\<open>cmd_write\<close>: the exit code, the text printed and the writes. A node of no writable type fails at the first connection.\<close>

definition cmd_write :: "(nat \<Rightarrow> bool) \<Rightarrow> (nat \<Rightarrow> bool) \<Rightarrow> string \<Rightarrow> string \<Rightarrow> int \<times> string \<times> (nat \<times> ua) list" where
  "cmd_write conn good name val =
     (case cli_find name of
        None \<Rightarrow> (1, ''err unknown node '' @ [CHR 0x27] @ name @ [CHR 0x27, CHR 0x0A], [])
      | Some n \<Rightarrow>
          (case cli_value (nd_type n) val of
             None \<Rightarrow> (1, (if \<exists>k < 4. conn k then ''err bad type'' else ''err write (retries exhausted)'') @ [CHR 0x0A], [])
           | Some v \<Rightarrow>
               (let (r, ws) = cli_attempts 4 conn good (nd_id n, v) 0
                in if r then (0, ''ok'' @ [CHR 0x0A], ws) else (1, ''err write (retries exhausted)'' @ [CHR 0x0A], ws))))"

text \<open>\<open>cmd_write_json\<close> with the contents of the file, if it can be opened.\<close>

definition cmd_write_json :: "(nat \<Rightarrow> bool) \<Rightarrow> (nat \<Rightarrow> bool) \<Rightarrow> string \<Rightarrow> string \<Rightarrow> string option \<Rightarrow> int \<times> string \<times> (nat \<times> ua) list" where
  "cmd_write_json conn good name fname contents =
     (case cli_find name of
        None \<Rightarrow> (1, ''err unknown node '' @ [CHR 0x27] @ name @ [CHR 0x27, CHR 0x0A], [])
      | Some n \<Rightarrow>
          if nd_type n \<noteq> STRING then (1, ''err node '' @ [CHR 0x27] @ name @ [CHR 0x27] @ '' is not a string'' @ [CHR 0x0A], [])
          else (case contents of
             None \<Rightarrow> (1, ''err open '' @ fname @ [CHR 0x0A], [])
           | Some buf \<Rightarrow>
               if length buf > 65536 then (1, ''err bad size'' @ [CHR 0x0A], [])
               else (let (r, ws) = cli_attempts 4 conn good (nd_id n, Ua_String buf) 0
                     in if r then (0, ''ok'' @ [CHR 0x0A], ws) else (1, ''err write (retries exhausted)'' @ [CHR 0x0A], ws))))"

section \<open>The client and the bridge\<close>

lemma cli_attempts_once: "conn 0 \<Longrightarrow> good 0 \<Longrightarrow> cli_attempts 4 conn good w 0 = (True, [w])"
  by (simp add: numeral_eq_Suc)

lemma cli_attempts_writes: "set (snd (cli_attempts m conn good w k)) \<subseteq> {w}"
  by (induction m arbitrary: k) (simp_all add: Let_def case_prod_unfold)

lemma cli_typed:
  assumes "cli_find name = Some n" and "cli_value (nd_type n) val = Some v"
  shows "nd_array n \<or> well_typed (nd_id n, v)"
proof -
  have n: "n \<in> set (map fst CLI_NODES)" using assms(1) by (auto simp: cli_find_def find_Some_iff) (metis fst_conv image_eqI nth_mem)
  have t: "\<forall>n \<in> set (map fst CLI_NODES). \<not> nd_array n \<longrightarrow> node_type (nd_id n) = Some (nd_type n)"
    by (simp add: CLI_NODES_def nd_def) (simp add: node_type_def address_space_def node_ids)
  have a: "in_i32 (atoi val)" by (simp add: atoi_def)
  have s: "in_i64 (strtoll val)" by (auto simp: strtoll_def in_i64_def int64_sat_def split: option.split)
  have "ua_type v = nd_type n \<and> ua_range v"
    using assms(2) a s word_ranges [simplified] by (cases "nd_type n") (auto simp: in_i32_def)
  then show ?thesis using t n by (auto simp: well_typed_def)
qed

text \<open>The state of the relay the endpoint decodes from a frame.\<close>

definition relay_arg :: "'a \<times> byte list \<Rightarrow> (string \<times> string) option" where
  "relay_arg d =
     (case htsn_frame_unpack (snd d) (length (snd d)) of
        Some (ty, kind, p) \<Rightarrow> if ty = HTSN_TYPE_CMD then decode_cmd kind p else None
      | None \<Rightarrow> None)"

text \<open>
  \<open>htsn_opcua_cli write cmd_relay_on off\<close> switches the relay on: the client reports success after writing the value
  true, and the next poll of the bridge sends the endpoint the command to close the relay, like for the argument \<open>on\<close>.
\<close>

theorem relay_off_switches_on:
  assumes "primed b" and "ep b = Some a" and "\<not> last_relay b" and "\<And>calls. S calls"
    and "rd HTSN_ID_CMD_RELAY_ON = map_of (snd (snd (cmd_write (\<lambda>_. True) (\<lambda>_. True) ''cmd_relay_on'' ''off''))) HTSN_ID_CMD_RELAY_ON"
  shows "fst (cmd_write (\<lambda>_. True) (\<lambda>_. True) ''cmd_relay_on'' ''off'') = 0 \<and>
    (\<exists>b' f. poll_relay S rd b = Some b' \<and> udp_out b' = udp_out b @ [(a, f)] \<and> relay_arg (a, f) = Some (''relay'', ''1''))"
proof -
  have f: "cli_find ''cmd_relay_on'' = Some (nd ''cmd_relay_on'' HTSN_ID_CMD_RELAY_ON BOOLEAN)"
    by (simp add: cli_find_def CLI_NODES_def nd_def)
  have w: "cmd_write (\<lambda>_. True) (\<lambda>_. True) ''cmd_relay_on'' ''off'' =
      (0, ''ok'' @ [CHR 0x0A], [(HTSN_ID_CMD_RELAY_ON, Ua_Bool True)])"
    by (simp add: cmd_write_def f nd_def parse_bool_def cli_attempts_once)
  have rd: "rd_scalar as_bool rd HTSN_ID_CMD_RELAY_ON = Some (Some True)"
    using assms(5) by (simp add: w rd_scalar_def)
  let ?f = "frame_image HTSN_TYPE_CMD 3 [1]"
  have "send_cmd_kind S 3 (Some [1]) 1 b = (8, b\<lparr>udp_out := udp_out b @ [(a, ?f)]\<rparr>)"
    using bridge_send_frame_ok [of b a "[1]" S HTSN_TYPE_CMD 3] assms(2,4) by (simp add: send_cmd_kind_def frame_consts)
  then have p: "poll_relay S rd b = Some (b\<lparr>udp_out := udp_out b @ [(a, ?f)], last_relay := True\<rparr>)"
    using assms(1,3) rd by (simp add: poll_relay_def)
  have "htsn_frame_unpack ?f (length ?f) = Some (HTSN_TYPE_CMD, 3, [1])"
    using htsn_frame_unpack_image [of "[1]" 8 HTSN_TYPE_CMD 3 "[]"] by (simp add: frame_consts)
  then have "relay_arg (a, ?f) = Some (''relay'', ''1'')"
    by (simp add: relay_arg_def decode_cmd_def dec_int_def dec_nat.simps)
  with p w show ?thesis by auto
qed

theorem relay_off_switches_on_witness:
  "\<exists>(b :: nat bridge) b' f. poll_relay (\<lambda>_. True) (\<lambda>_. Some (Ua_Bool True)) b = Some b' \<and> udp_out b' = [(9, f)] \<and>
     relay_arg (9 :: nat, f) = Some (''relay'', ''1'')"
proof -
  define b where "b = (bridge_start :: nat bridge)\<lparr>primed := True, ep := Some 9\<rparr>"
  have w: "cmd_write (\<lambda>_. True) (\<lambda>_. True) ''cmd_relay_on'' ''off'' =
      (0, ''ok'' @ [CHR 0x0A], [(HTSN_ID_CMD_RELAY_ON, Ua_Bool True)])"
    by (simp add: cmd_write_def cli_find_def CLI_NODES_def nd_def parse_bool_def cli_attempts_once)
  have "\<exists>b' f. poll_relay (\<lambda>_. True) (\<lambda>_. Some (Ua_Bool True)) b = Some b' \<and> udp_out b' = udp_out b @ [(9, f)] \<and>
      relay_arg (9 :: nat, f) = Some (''relay'', ''1'')"
    by (rule relay_off_switches_on [THEN conjunct2]) (simp_all add: b_def bridge_start_def w)
  moreover have "udp_out b = []" by (simp add: b_def bridge_start_def)
  ultimately show ?thesis by auto
qed

end
