(* ===== verification/Llm_Bridge.thy ===== *)
theory Llm_Bridge
  imports Telemetry Tsn_Manager
begin

text \<open>
  The bridge between a chat and the network (\<open>rpi-ai/llm_bridge.c\<close>): an HTTP handler asks a language model for an action,
  checks it against a list and executes it on the database and the broker. The database engine is the parameter \<open>E\<close>, the
  output of a shell command is the parameter \<open>Sh\<close>, and what a client sends is the list of chunks its reads would return.
  The sockets, threads and the log are left out.
\<close>

section \<open>Actions and JSON\<close>

definition ALLOWLIST :: "string list" where
  "ALLOWLIST = [''save_qos'', ''save_vlan'', ''save_tas'', ''save_stream'', ''deploy_stream'', ''ping_device'', ''exec_all'',
     ''reboot_device'']"

definition is_allowed :: "string \<Rightarrow> bool" where
  "is_allowed action = list_ex (\<lambda>a. a = action) ALLOWLIST"

text \<open>The copying loop of \<open>json_get_str\<close> with room for \<open>n\<close> more characters.\<close>

fun unescape :: "nat \<Rightarrow> string \<Rightarrow> string" where
  "unescape 0 p = []"
| "unescape (Suc n) [] = []"
| "unescape (Suc n) (c # r) =
     (if c = CHR 0x22 then []
      else if c = CHR 0x5C \<and> r \<noteq> [] then hd r # unescape n (tl r)
      else c # unescape n r)"

text \<open>\<open>json_get_str\<close>: \<open>None\<close> is the result \<open>-1\<close>, with \<open>out\<close> unchanged.\<close>

definition llm_get_str :: "string \<Rightarrow> string \<Rightarrow> nat \<Rightarrow> string option" where
  "llm_get_str json key cap =
     (let pat = snprintf_buf 64 (dq @ key @ dq)
      in case strstr_from json pat of
           None \<Rightarrow> None
         | Some p \<Rightarrow>
             (case dropWhile (\<lambda>c. c = CHR '' '' \<or> c = CHR '':'' \<or> c = CHR 0x09) (drop (length pat) p) of
                c # q \<Rightarrow> if c = CHR 0x22 then Some (unescape (cap - 1) q) else None
              | [] \<Rightarrow> None))"

definition llm_get_int :: "string \<Rightarrow> string \<Rightarrow> int option" where
  "llm_get_int json key =
     (let pat = snprintf_buf 64 (dq @ key @ dq @ '':'')
      in case strstr_from json pat of
           None \<Rightarrow> None
         | Some p \<Rightarrow> Some (atoi (dropWhile (\<lambda>c. c = CHR '' '') (drop (length pat) p))))"

definition clampi :: "int \<Rightarrow> int \<Rightarrow> int \<Rightarrow> int" where
  "clampi v lo hi = (if v < lo then lo else if v > hi then hi else v)"

section \<open>Executing an action\<close>

text \<open>The globals: the database, whether \<open>g_mqtt\<close> is set, and the messages published.\<close>

record 'h llm =
  lb_db :: "'h htsn_db"
  lb_mqtt :: bool
  lb_published :: "(string \<times> string) list"

definition llm_qos :: "string \<Rightarrow> string \<Rightarrow> htsn_qos_config" where
  "llm_qos device_id json =
     (let num = (\<lambda>key. case llm_get_int json key of Some i \<Rightarrow> i | None \<Rightarrow> 0)
      in \<lparr>qos_device_id = cpy HTSN_MAX_STR (Some device_id), qos_priority = clampi (num ''priority'') 0 7,
          qos_traffic_class = clampi (num ''traffic_class'') 0 7,
          qos_bandwidth_kbps = clampi (num ''bandwidth_kbps'') 0 100000,
          qos_latency_ms = clampi (num ''latency_ms'') 1 1000, qos_preemption = 0\<rparr>)"

definition execute_action :: "'h engine \<Rightarrow> string \<Rightarrow> string \<Rightarrow> 'h llm \<Rightarrow> 'h llm" where
  "execute_action E action json st =
     (let device_id = (case llm_get_str json ''device_id'' 128 of Some s \<Rightarrow> s | None \<Rightarrow> [])
      in if action = ''save_qos'' \<and> device_id \<noteq> []
         then st\<lparr>lb_db := snd (htsn_db_qos_save E (Some (llm_qos device_id json)) (lb_db st))\<rparr>
         else if action = ''ping_device'' \<and> device_id \<noteq> [] \<and> lb_mqtt st
         then st\<lparr>lb_published := lb_published st @ [(snprintf_buf 256 (''tsn/cmd/'' @ device_id @ ''/ping''), ''{}'')]\<rparr>
         else st)"

section \<open>Asking the model\<close>

definition OLLAMA_URL :: string where "OLLAMA_URL = ''http://127.0.0.1:11434/api/chat''"
definition OLLAMA_MODEL :: string where "OLLAMA_MODEL = ''qwen2.5:1.5b''"
definition MAX_BODY :: nat where "MAX_BODY = 256 * 1024"

text \<open>\<open>bdq\<close> is an escaped quote in the shell's argument, the character 0x27 the quote around the argument.\<close>

definition bdq :: string where "bdq = [CHR 0x5C, CHR 0x22]"

definition ollama_head :: string where
  "ollama_head =
     ''curl -s --max-time 60 '' @ OLLAMA_URL @ '' -d '' @ [CHR 0x27] @ ''{'' @ dq @ ''model'' @ dq @ '':'' @ dq @ OLLAMA_MODEL @ dq @ '','' @
     dq @ ''messages'' @ dq @ '':[{'' @ dq @ ''role'' @ dq @ '':'' @ dq @ ''user'' @ dq @ '','' @ dq @ ''content'' @ dq @ '':'' @ dq @
     ''You are an H-TSN controller assistant. Respond ONLY with strict JSON: {'' @ bdq @ ''action'' @ bdq @ '':'' @ bdq @ ''<name>'' @ bdq @
     '','' @ bdq @ ''device_id'' @ bdq @ '':'' @ bdq @ ''<id>'' @ bdq @ '','' @ bdq @ ''params'' @ bdq @ '':{...}} or {'' @ bdq @ ''guide'' @ bdq @
     '':'' @ bdq @ ''<text>'' @ bdq @ ''}. Allowed actions: save_qos, save_vlan, save_tas, save_stream, deploy_stream, '' @
     ''ping_device, exec_all, reboot_device. User: ''"

definition ollama_tail :: string where
  "ollama_tail = dq @ ''}],'' @ dq @ ''stream'' @ dq @ '':false}'' @ [CHR 0x27] @ '' 2>/dev/null''"

definition ollama_cmd :: "string \<Rightarrow> string" where
  "ollama_cmd message = snprintf_buf 4096 (ollama_head @ message @ ollama_tail)"

text \<open>\<open>call_ollama\<close>: \<open>Sh\<close> is the output of a shell command, \<open>None\<close> when \<open>popen\<close> fails; \<open>None\<close> is a result that is not positive.\<close>

definition call_ollama :: "(string \<Rightarrow> string option) \<Rightarrow> string \<Rightarrow> nat \<Rightarrow> string option" where
  "call_ollama Sh message cap =
     (case Sh (ollama_cmd message) of
        None \<Rightarrow> None
      | Some out \<Rightarrow> if take (cap - 1) out = [] then None else Some (takeWhile (\<lambda>c. c \<noteq> CHR 0x00) (take (cap - 1) out)))"

section \<open>The HTTP handler\<close>

definition crlf :: string where "crlf = [CHR 0x0D, CHR 0x0A]"

definition http_json :: "string \<Rightarrow> nat \<Rightarrow> string \<Rightarrow> string" where
  "http_json status len body =
     ''HTTP/1.1 '' @ status @ crlf @ ''Content-Type: application/json'' @ crlf @ ''Content-Length: '' @ dec_nat len @ crlf @ crlf @ body"

definition js1 :: "string \<Rightarrow> string \<Rightarrow> string" where
  "js1 key val = ''{'' @ dq @ key @ dq @ '':'' @ dq @ val @ dq @ ''}''"

text \<open>A conversion \<open>%ns\<close> of \<open>sscanf\<close>.\<close>

definition scan_word_n :: "nat \<Rightarrow> string \<Rightarrow> (string \<times> string) option" where
  "scan_word_n n s =
     (let u = dropWhile is_space s; t = take n (takeWhile (\<lambda>x. \<not> is_space x) u)
      in if t = [] then None else Some (t, drop (length t) u))"

definition http_request :: "string \<Rightarrow> string \<times> string" where
  "http_request buf =
     (case scan_word_n 15 buf of
        None \<Rightarrow> ([], [])
      | Some (m, r) \<Rightarrow> (m, case scan_word_n 255 r of None \<Rightarrow> [] | Some (p, _) \<Rightarrow> p))"

text \<open>The loop that escapes the text of a guide.\<close>

fun escape_loop :: "string \<Rightarrow> string \<Rightarrow> string" where
  "escape_loop acc [] = acc"
| "escape_loop acc (c # r) =
     (if length acc < 4096 - 2
      then escape_loop (acc @ (if c = CHR 0x22 \<or> c = CHR 0x5C then [CHR 0x5C] else []) @ [c]) r else acc)"

definition chat_reply :: "'h engine \<Rightarrow> string \<Rightarrow> 'h llm \<Rightarrow> 'h llm \<times> string" where
  "chat_reply E content st =
     (case llm_get_str content ''action'' 128 of
        Some action \<Rightarrow>
          if is_allowed action
          then (let body = ''{'' @ dq @ ''action'' @ dq @ '':'' @ dq @ action @ dq @ '','' @ dq @ ''status'' @ dq @ '':'' @ dq @ ''executed'' @ dq @ ''}''
                in (execute_action E action content st, snprintf_buf 512 (http_json ''200 OK'' (length body) (snprintf_buf 256 body))))
          else (let body = js1 ''error'' (''action not allowed: '' @ action)
                in (st, snprintf_buf 512 (http_json ''403 Forbidden'' (length body) (snprintf_buf 256 body))))
      | None \<Rightarrow>
          (let safe = escape_loop [] content
           in (st, snprintf_buf 4600 (http_json ''200 OK'' (length safe + 16) (js1 ''guide'' safe)))))"

definition not_found :: string where
  "not_found = ''HTTP/1.1 404 Not Found'' @ crlf @ ''Content-Length: 0'' @ crlf @ crlf"

definition handle_request :: "'h engine \<Rightarrow> (string \<Rightarrow> string option) \<Rightarrow> string \<Rightarrow> 'h llm \<Rightarrow> 'h llm \<times> string" where
  "handle_request E Sh buf st =
     (let (meth, url) = http_request buf
      in if meth = ''GET'' \<and> url = ''/health'' then (st, http_json ''200 OK'' 15 (js1 ''status'' ''ok''))
         else if meth = ''POST'' \<and> url = ''/chat'' then
           (let message = (case llm_get_str buf ''message'' 1024 of Some m \<Rightarrow> m | None \<Rightarrow> [])
            in if message = [] then (st, http_json ''400 Bad Request'' 30 (js1 ''error'' ''missing message''))
               else case call_ollama Sh message MAX_BODY of
                      None \<Rightarrow> (st, http_json ''502 Bad Gateway'' 35 (js1 ''error'' ''ollama unreachable''))
                    | Some resp \<Rightarrow>
                        chat_reply E (case llm_get_str resp ''content'' 4096 of Some c \<Rightarrow> c | None \<Rightarrow> []) st)
         else (st, not_found))"

text \<open>
  The reading loop: \<open>n\<close> is the result of the last \<open>read\<close>, \<open>chunks\<close> what the following ones return; behind the last chunk
  they return 0. The text read ends at a zero byte.
\<close>

fun read_loop :: "int \<Rightarrow> string \<Rightarrow> string list \<Rightarrow> string" where
  "read_loop n buf [] = buf"
| "read_loop n buf (c # cs) =
     (if n > 0 \<and> length buf < MAX_BODY - 1
      then (let d = take (MAX_BODY - 1 - length buf) c in read_loop (int (length d)) (buf @ d) cs)
      else buf)"

definition handle_client :: "'h engine \<Rightarrow> (string \<Rightarrow> string option) \<Rightarrow> string list \<Rightarrow> 'h llm \<Rightarrow> 'h llm \<times> string" where
  "handle_client E Sh chunks st = handle_request E Sh (takeWhile (\<lambda>c. c \<noteq> CHR 0x00) (read_loop 0 [] chunks)) st"

section \<open>Properties\<close>

text \<open>
  The bridge serves no request: the reading loop starts with the count 0 as if the connection were closed, so that,
  whatever a client sends, nothing is read, no action is executed and the answer is \<open>404 Not Found\<close>.
\<close>

theorem llm_serves_nothing:
  "handle_client E Sh chunks st = (st, not_found)"
proof -
  have "read_loop 0 [] chunks = []" by (cases chunks) simp_all
  then show ?thesis by (simp add: handle_client_def handle_request_def http_request_def scan_word_n_def)
qed

lemma clampi_range: "lo \<le> hi \<Longrightarrow> lo \<le> clampi v lo hi \<and> clampi v lo hi \<le> hi"
  by (simp add: clampi_def)

text \<open>A QoS configuration within the limits of the bridge.\<close>

definition llm_qos_ok :: "htsn_qos_config \<Rightarrow> bool" where
  "llm_qos_ok q \<longleftrightarrow> fits HTSN_MAX_STR (qos_device_id q) \<and> 0 \<le> qos_priority q \<and> qos_priority q \<le> 7 \<and> 0 \<le> qos_traffic_class q \<and>
     qos_traffic_class q \<le> 7 \<and> 0 \<le> qos_bandwidth_kbps q \<and> qos_bandwidth_kbps q \<le> 100000 \<and> 1 \<le> qos_latency_ms q \<and>
     qos_latency_ms q \<le> 1000"

lemma llm_qos_in_range: "llm_qos_ok (llm_qos dev json)"
  using clampi_range [of 0 7] clampi_range [of 0 100000] clampi_range [of 1 1000]
  by (simp add: llm_qos_ok_def llm_qos_def Let_def HTSN_MAX_STR_def)

lemma length_unescape: "length (unescape n p) \<le> n"
  by (induction n p rule: unescape.induct) auto

lemma llm_get_str_length: "llm_get_str json key cap = Some s \<Longrightarrow> length s \<le> cap - 1"
  using length_unescape by (auto simp: llm_get_str_def Let_def split: option.splits list.splits if_splits)

definition llm_confined :: "'h engine \<Rightarrow> 'h llm \<Rightarrow> 'h llm \<Rightarrow> bool" where
  "llm_confined E st st' \<longleftrightarrow> st' = st \<or>
     (\<exists>q. llm_qos_ok q \<and> st' = st\<lparr>lb_db := snd (htsn_db_qos_save E (Some q) (lb_db st))\<rparr>) \<or>
     (\<exists>dev. dev \<noteq> [] \<and> length dev \<le> 127 \<and> st' = st\<lparr>lb_published := lb_published st @ [(''tsn/cmd/'' @ dev @ ''/ping'', ''{}'')]\<rparr>)"

lemma llm_confined_refl [simp]: "llm_confined E st st"
  by (simp add: llm_confined_def)

lemma execute_action_confined: "llm_confined E st (execute_action E action json st)"
proof -
  let ?dev = "case llm_get_str json ''device_id'' 128 of Some s \<Rightarrow> s | None \<Rightarrow> []"
  have l: "length ?dev \<le> 127" using llm_get_str_length [of json "''device_id''" 128] by (auto split: option.splits)
  then have "snprintf_buf 256 (''tsn/cmd/'' @ ?dev @ ''/ping'') = ''tsn/cmd/'' @ ?dev @ ''/ping''"
    unfolding snprintf_buf_def by (intro take_all) simp
  then show ?thesis
    unfolding execute_action_def llm_confined_def Let_def using l llm_qos_in_range by (auto intro!: exI [of _ ?dev])
qed


section \<open>Texts and lengths\<close>

text \<open>
  Were a request read, its message would stand in the shell command inside single quotes, unescaped: exactly one quote
  precedes it, so that a quote in the message ends the argument and what follows is run by the shell.
\<close>

lemma ollama_cmd_quoting:
  assumes "length message \<le> 1023"
  shows "ollama_cmd message = ollama_head @ message @ ollama_tail \<and> length (filter (\<lambda>c. c = CHR 0x27) ollama_head) = 1"
proof -
  have h: "length ollama_head \<le> 1000" "length ollama_tail \<le> 100" "length (filter (\<lambda>c. c = CHR 0x27) ollama_head) = 1"
    by (simp_all add: ollama_head_def ollama_tail_def OLLAMA_URL_def OLLAMA_MODEL_def dq_def bdq_def)
  then show ?thesis using assms by (simp add: ollama_cmd_def snprintf_buf_def)
qed

text \<open>The error answers announce more bytes than their bodies have.\<close>

lemma error_lengths: "length (js1 ''error'' ''missing message'') = 27" "length (js1 ''error'' ''ollama unreachable'') = 30"
    "length (js1 ''guide'' safe) = length safe + 12"
  by (simp_all add: js1_def dq_def)

text \<open>The other allowed actions are answered as executed and have no effect.\<close>

lemma acknowledged_without_effect:
  assumes "llm_get_str content ''action'' 128 = Some action" and "is_allowed action"
    and "action \<noteq> ''save_qos''" and "action \<noteq> ''ping_device''"
  shows "fst (chat_reply E content st) = st"
  using assms by (simp add: chat_reply_def execute_action_def Let_def)

end
