(* ===== verification/Provisioning.thy ===== *)
theory Provisioning
  imports Esp_Agent
begin

text \<open>
  The provisioning portal the ESP32 boards share (\<open>shared/htsn_prov/htsn_prov.c\<close>): the form parser, the handlers of the
  two pages, and the name and password of the access point. The storage is the parameter \<open>N\<close> of \<open>Esp_Cfg\<close>; the callbacks are the
  agent's. The HTTP server, the network interfaces and the radio driver are left out.
\<close>

section \<open>Form values\<close>

definition hex_val :: "char \<Rightarrow> int" where
  "hex_val c =
     (let n = int (of_char c)
      in if 48 \<le> n \<and> n \<le> 57 then n - 48
         else if 97 \<le> n \<and> n \<le> 102 then n - 97 + 10
         else if 65 \<le> n \<and> n \<le> 70 then n - 65 + 10
         else - 1)"

text \<open>The loop of \<open>url_decode\<close>; the writing position never passes the reading one.\<close>

fun url_dec :: "string \<Rightarrow> string" where
  "url_dec (c # a # b # r) =
     (if c = CHR ''%'' \<and> hex_val a \<ge> 0 \<and> hex_val b \<ge> 0 then char_of (nat (16 * hex_val a + hex_val b)) # url_dec r
      else (if c = CHR ''+'' then CHR '' '' else c) # url_dec (a # b # r))"
| "url_dec (c # r) = (if c = CHR ''+'' then CHR '' '' else c) # url_dec r"
| "url_dec [] = []"

text \<open>A decoded zero byte ends the text.\<close>

definition url_decode :: "string \<Rightarrow> string" where
  "url_decode s = takeWhile (\<lambda>c. c \<noteq> CHR 0x00) (url_dec s)"

record prov_form =
  pf_ssid :: string
  pf_pass :: string
  pf_mqtt :: string
  pf_muser :: string
  pf_mpass :: string
  pf_devid :: string

definition empty_form :: prov_form where
  "empty_form = \<lparr>pf_ssid = [], pf_pass = [], pf_mqtt = [], pf_muser = [], pf_mpass = [], pf_devid = []\<rparr>"

text \<open>One turn of the loop over the fields of the body, with its copy of 128 bytes.\<close>

definition form_field :: "prov_form \<Rightarrow> string \<Rightarrow> prov_form" where
  "form_field f k =
     (let copy = snprintf_buf 128 k
      in if CHR ''='' \<notin> set copy then f
         else
           (let key = takeWhile (\<lambda>c. c \<noteq> CHR ''='') copy;
                val = url_decode (drop (length key + 1) copy)
            in if key = ''ssid'' then f\<lparr>pf_ssid := snprintf_buf 64 val\<rparr>
               else if key = ''pass'' then f\<lparr>pf_pass := snprintf_buf 64 val\<rparr>
               else if key = ''mqtt'' then f\<lparr>pf_mqtt := snprintf_buf 64 val\<rparr>
               else if key = ''muser'' then f\<lparr>pf_muser := snprintf_buf 64 val\<rparr>
               else if key = ''mpass'' then f\<lparr>pf_mpass := snprintf_buf 64 val\<rparr>
               else if key = ''devid'' \<or> key = ''id'' then f\<lparr>pf_devid := snprintf_buf 32 val\<rparr>
               else f))"

definition parse_form :: "string \<Rightarrow> prov_form" where
  "parse_form body = foldl form_field empty_form (strtok_all (CHR ''&'') body)"

section \<open>The portal\<close>

datatype portal_reply = Bad_Request string | Server_Error string | Restarting string

text \<open>The broker's credentials: an empty value erases the key.\<close>

definition store_creds :: "'n nvs \<Rightarrow> string \<Rightarrow> string \<Rightarrow> 'n \<Rightarrow> 'n" where
  "store_creds N muser mpass n =
     (case nvs_open_rw N n of
        None \<Rightarrow> n
      | Some h \<Rightarrow>
          (let h1 = (if muser \<noteq> [] then nvs_set N h ''muser'' (NStr muser) else nvs_erase_key N h ''muser'');
               h2 = (if mpass \<noteq> [] then nvs_set N h1 ''mpass'' (NStr mpass) else nvs_erase_key N h1 ''mpass'')
           in snd (nvs_commit N h2)))"

text \<open>
  \<open>handle_config\<close>: \<open>data\<close> is what \<open>httpd_req_recv\<close> stored, empty when it failed; \<open>save\<close> is the callback \<open>save_cb\<close> on
  name, password, device and broker. After a saved form the chip restarts.
\<close>

definition handle_config ::
  "'n nvs \<Rightarrow> (string \<Rightarrow> string \<Rightarrow> string \<Rightarrow> string \<Rightarrow> 'n \<Rightarrow> 'n) option \<Rightarrow> string \<Rightarrow> 'n \<Rightarrow> portal_reply \<times> 'n" where
  "handle_config N save data n =
     (if data = [] then (Bad_Request ''no body'', n)
      else
        (let f = parse_form (takeWhile (\<lambda>c. c \<noteq> CHR 0x00) (take 511 data))
         in if pf_ssid f = [] then (Bad_Request ''ssid required'', n)
            else
              (let mqtt = (if pf_mqtt f = [] then ''htsn-broker.local'' else pf_mqtt f);
                   n1 = store_creds N (pf_muser f) (pf_mpass f) n
               in case save of
                    None \<Rightarrow> (Server_Error ''no save handler'', n1)
                  | Some cb \<Rightarrow>
                      (Restarting (snprintf_buf 160 (''<html><body><h1>OK</h1><p>wifi='' @ [CHR 0x27] @ pf_ssid f @ [CHR 0x27] @
                         '' -> connecting, restart.</p></body></html>'')),
                       cb (pf_ssid f) (pf_pass f) (pf_devid f) mqtt n1))))"

text \<open>The callback the agent installs.\<close>

definition agent_save :: "'n nvs \<Rightarrow> (string \<Rightarrow> string \<Rightarrow> string \<Rightarrow> string \<Rightarrow> 'n \<Rightarrow> 'n) option" where
  "agent_save N = Some (\<lambda>ssid pass devid mqtt. prov_save N ssid pass (Some devid) (Some mqtt))"

definition htsn_prov_have_wifi :: "'n nvs \<Rightarrow> 'n \<Rightarrow> bool" where
  "htsn_prov_have_wifi N n =
     (if \<not> nvs_open_ro N n then False
      else (case nvs_get_str N ''wifi_ssid'' 64 n of Some v \<Rightarrow> v \<noteq> [] | None \<Rightarrow> False))"

section \<open>The access point\<close>

definition ssid_char :: "char \<Rightarrow> bool" where
  "ssid_char c \<longleftrightarrow> (let n = of_char c :: nat in 97 \<le> n \<and> n \<le> 122 \<or> 65 \<le> n \<and> n \<le> 90 \<or> 48 \<le> n \<and> n \<le> 57) \<or> c = CHR ''-'' \<or> c = CHR ''_''"

text \<open>\<open>ap_ssid\<close>: the new value of \<open>g_ap_ssid\<close>, from the present one and the device's name (empty without one).\<close>

definition ap_ssid :: "string \<Rightarrow> string \<Rightarrow> string" where
  "ap_ssid dev cur =
     (if cur \<noteq> [] \<and> cur \<noteq> ''HTSN-Setup'' then cur
      else (let t = take 15 (filter ssid_char dev)
            in if t \<noteq> [] then snprintf_buf 32 (''HTSN-Setup-'' @ t) else cur))"

record ap_config =
  ap_name :: string
  ap_ssid_len :: nat
  ap_password :: string
  ap_wpa2 :: bool

text \<open>The configuration \<open>configure_ap\<close> passes to the driver; the default password is empty.\<close>

definition configure_ap :: "'n nvs \<Rightarrow> 'n \<Rightarrow> string \<Rightarrow> string \<Rightarrow> ap_config" where
  "configure_ap N n dev cur =
     (let ap_pass = (if nvs_open_ro N n then (case nvs_get_str N ''ap_pass'' 63 n of Some s \<Rightarrow> s | None \<Rightarrow> []) else []);
          ssid = ap_ssid dev cur;
          locked = (ap_pass \<noteq> [] \<and> \<not> length ap_pass < 8)
      in \<lparr>ap_name = snprintf_buf 32 ssid, ap_ssid_len = length ssid,
          ap_password = (if locked then snprintf_buf 64 ap_pass else []), ap_wpa2 = locked\<rparr>)"

text \<open>\<open>htsn_prov_start\<close> and \<open>htsn_prov_start_ap\<close>: the access point they bring up with the portal, if any.\<close>

definition htsn_prov_start :: "'n nvs \<Rightarrow> 'n \<Rightarrow> string \<Rightarrow> string \<Rightarrow> ap_config option" where
  "htsn_prov_start N n dev cur = (if htsn_prov_have_wifi N n then None else Some (configure_ap N n dev cur))"

definition htsn_prov_start_ap :: "'n nvs \<Rightarrow> 'n \<Rightarrow> string \<Rightarrow> string \<Rightarrow> ap_config option" where
  "htsn_prov_start_ap N n dev cur = Some (configure_ap N n dev cur)"

text \<open>The page of the portal.\<close>

definition handle_root :: "string \<Rightarrow> string \<Rightarrow> string \<Rightarrow> string" where
  "handle_root title cur_dev default_mqtt =
     (let q = [CHR 0x27]
      in snprintf_buf 1400
       (''<!doctype html><html><head><meta charset=utf-8><title>'' @ title @ ''</title></head>'' @
        ''<body style='' @ q @ ''font-family:sans-serif;max-width:420px;margin:40px auto'' @ q @ ''>'' @
        ''<h1>'' @ title @ ''</h1>'' @
        ''<form method='' @ q @ ''POST'' @ q @ '' action='' @ q @ ''/config'' @ q @ ''>'' @
        ''<p><label>Device ID <input name='' @ q @ ''devid'' @ q @ '' placeholder='' @ q @ ''leave empty to keep'' @ q @
        '' value='' @ q @ cur_dev @ q @ ''></label></p>'' @
        ''<p><label>WiFi SSID <input name='' @ q @ ''ssid'' @ q @ '' required></label></p>'' @
        ''<p><label>WiFi password <input name='' @ q @ ''pass'' @ q @ '' type='' @ q @ ''password'' @ q @ ''></label></p>'' @
        ''<p><label>MQTT broker host:port <input name='' @ q @ ''mqtt'' @ q @ '' value='' @ q @ default_mqtt @ q @ ''></label></p>'' @
        ''<p><label>MQTT user <input name='' @ q @ ''muser'' @ q @ '' placeholder='' @ q @ ''leave empty for no auth'' @ q @ ''></label></p>'' @
        ''<p><label>MQTT password <input name='' @ q @ ''mpass'' @ q @ '' type='' @ q @ ''password'' @ q @ ''></label></p>'' @
        ''<button>Save &amp; connect</button></form></body></html>''))"

section \<open>Encoded values\<close>

text \<open>What a browser sends for a value of a form.\<close>

definition url_plain :: "char \<Rightarrow> bool" where
  "url_plain c \<longleftrightarrow> ssid_char c \<or> c = CHR ''.'' \<or> c = CHR ''*''"

definition url_enc1 :: "char \<Rightarrow> string" where
  "url_enc1 c = (if url_plain c then [c] else if c = CHR '' '' then ''+'' else CHR ''%'' # hex2 (byte_of c))"

definition url_encode :: "string \<Rightarrow> string" where
  "url_encode s = concat (map url_enc1 s)"

lemma hex_val_digit: "d < 16 \<Longrightarrow> hex_val (hex_digit d) = int d"
  by (auto simp: hex_val_def hex_digit_def Let_def)

lemma url_plain_not: "url_plain c \<Longrightarrow> c \<noteq> CHR ''%'' \<and> c \<noteq> CHR ''+'' \<and> c \<noteq> CHR ''&'' \<and> c \<noteq> CHR 0x00"
  by (auto simp: url_plain_def ssid_char_def)

lemma url_dec_plain: "c \<noteq> CHR ''%'' \<Longrightarrow> url_dec (c # r) = (if c = CHR ''+'' then CHR '' '' else c) # url_dec r"
  by (cases "c # r" rule: url_dec.cases) auto

lemma byte_of_char: "unat (byte_of c) = of_char c"
  by (simp add: byte_of_def unat_of_nat of_char_mod_256 flip: take_bit_eq_mod)

lemma of_char_nibble: "of_char c div 16 < (16 :: nat)"
proof -
  have "of_char c < (256 :: nat)" by simp
  then show ?thesis by (intro less_mult_imp_div_less) simp
qed

lemma url_dec_enc1: "url_dec (url_enc1 c @ r) = c # url_dec r"
proof -
  consider "url_plain c" | "c = CHR '' ''" "\<not> url_plain c" | "c \<noteq> CHR '' ''" "\<not> url_plain c" by blast
  then show ?thesis
  proof cases
    case 1
    then show ?thesis using url_plain_not [OF 1] by (simp add: url_enc1_def url_dec_plain)
  next
    case 2
    then show ?thesis by (simp add: url_enc1_def url_dec_plain)
  next
    case 3
    let ?n = "of_char c :: nat"
    have h: "hex_val (hex_digit (?n div 16)) = int (?n div 16)" "hex_val (hex_digit (?n mod 16)) = int (?n mod 16)"
      by (simp_all add: hex_val_digit of_char_nibble)
    have "nat (16 * int (?n div 16) + int (?n mod 16)) = ?n" by (simp add: nat_add_distrib nat_mult_distrib)
    then show ?thesis using 3 h by (simp add: url_enc1_def hex2_def byte_of_char)
  qed
qed

lemma url_dec_encode: "url_dec (url_encode s @ r) = s @ url_dec r"
  by (induction s) (simp_all add: url_encode_def url_dec_enc1)

lemma url_decode_encode:
  assumes "CHR 0x00 \<notin> set s"
  shows "url_decode (url_encode s) = s"
proof -
  have "url_dec (url_encode s) = s" using url_dec_encode [of s "[]"] by simp
  then show ?thesis using assms by (auto simp: url_decode_def takeWhile_eq_all_conv)
qed

lemma hex_digit_safe: "d < 16 \<Longrightarrow> hex_digit d \<noteq> CHR ''&'' \<and> hex_digit d \<noteq> CHR 0x00"
  using hex_val_digit [of d] by (auto simp: hex_val_def)

lemma url_encode_safe: "c \<in> set (url_encode s) \<Longrightarrow> c \<noteq> CHR ''&'' \<and> c \<noteq> CHR 0x00"
proof -
  have "c \<noteq> CHR ''&'' \<and> c \<noteq> CHR 0x00" if "c \<in> set (url_enc1 x)" for x
    using that url_plain_not [of x] hex_digit_safe [OF of_char_nibble] hex_digit_safe [of "of_char x mod 16"]
    by (auto simp: url_enc1_def hex2_def byte_of_char split: if_splits)
  then show "c \<in> set (url_encode s) \<Longrightarrow> c \<noteq> CHR ''&'' \<and> c \<noteq> CHR 0x00" by (auto simp: url_encode_def)
qed

section \<open>Submitted forms\<close>

definition form_token :: "string \<Rightarrow> string \<Rightarrow> string" where
  "form_token key val = key @ ''='' @ url_encode val"

text \<open>The body a browser submits for the page of the portal.\<close>

definition form_tokens :: "prov_form \<Rightarrow> string list" where
  "form_tokens f =
     [form_token ''devid'' (pf_devid f), form_token ''ssid'' (pf_ssid f), form_token ''pass'' (pf_pass f),
      form_token ''mqtt'' (pf_mqtt f), form_token ''muser'' (pf_muser f), form_token ''mpass'' (pf_mpass f)]"

definition form_text :: "prov_form \<Rightarrow> string" where
  "form_text f = join ''&'' (form_tokens f)"

text \<open>The values fit their buffers, and their encodings fit the copies.\<close>

definition form_ok :: "prov_form \<Rightarrow> bool" where
  "form_ok f \<longleftrightarrow> pf_ssid f \<noteq> [] \<and> length (form_text f) \<le> 511 \<and>
     list_all (\<lambda>t. length t \<le> 127) (form_tokens f) \<and> fits 32 (pf_devid f) \<and>
     list_all (fits 64) [pf_ssid f, pf_pass f, pf_mqtt f, pf_muser f, pf_mpass f] \<and>
     list_all (\<lambda>v. CHR 0x00 \<notin> set v) [pf_ssid f, pf_pass f, pf_mqtt f, pf_muser f, pf_mpass f, pf_devid f]"

lemma strtok_all_join:
  assumes "\<And>t. t \<in> set ts \<Longrightarrow> t \<noteq> [] \<and> d \<notin> set t"
  shows "strtok_all d (join [d] ts) = ts"
  using assms
proof (induction ts)
  case (Cons t ts)
  then have t: "t \<noteq> []" "d \<notin> set t" by auto
  show ?case
  proof (cases ts)
    case Nil
    then show ?thesis using t split_tokens_one [of d t "[]" "[]"] by (simp add: strtok_all_def)
  next
    case (Cons u us)
    then show ?thesis using t Cons.IH Cons.prems split_tokens_one [of d t "[]"] by (simp add: strtok_all_def)
  qed
qed (simp add: strtok_all_def)

lemma form_field_token:
  assumes "CHR ''='' \<notin> set key" and "length (form_token key v) \<le> 127" and "CHR 0x00 \<notin> set v"
  shows "form_field f (form_token key v) =
    (if key = ''ssid'' then f\<lparr>pf_ssid := snprintf_buf 64 v\<rparr> else if key = ''pass'' then f\<lparr>pf_pass := snprintf_buf 64 v\<rparr>
     else if key = ''mqtt'' then f\<lparr>pf_mqtt := snprintf_buf 64 v\<rparr> else if key = ''muser'' then f\<lparr>pf_muser := snprintf_buf 64 v\<rparr>
     else if key = ''mpass'' then f\<lparr>pf_mpass := snprintf_buf 64 v\<rparr>
     else if key = ''devid'' \<or> key = ''id'' then f\<lparr>pf_devid := snprintf_buf 32 v\<rparr> else f)"
proof -
  have c: "snprintf_buf 128 (form_token key v) = form_token key v" using assms(2) by (simp add: snprintf_buf_def)
  have k: "takeWhile (\<lambda>c. c \<noteq> CHR ''='') (form_token key v) = key"
    using assms(1) by (induction key) (auto simp: form_token_def)
  have e: "CHR ''='' \<in> set (form_token key v)" by (simp add: form_token_def)
  have d: "drop (length key + 1) (form_token key v) = url_encode v" by (simp add: form_token_def)
  show ?thesis
    unfolding form_field_def Let_def c k d url_decode_encode [OF assms(3)] using e by simp
qed

lemma parse_form_text:
  assumes "form_ok f"
  shows "parse_form (form_text f) = f"
proof -
  have "CHR ''&'' \<notin> set (url_encode v)" for v using url_encode_safe by blast
  then have t: "strtok_all (CHR ''&'') (form_text f) = form_tokens f"
    unfolding form_text_def by (intro strtok_all_join) (auto simp: form_tokens_def form_token_def)
  show ?thesis
    using assms unfolding parse_form_def t
    by (simp add: form_tokens_def form_field_token form_ok_def empty_form_def fits_def snprintf_buf_def)
qed

lemma form_text_whole:
  assumes "form_ok f"
  shows "takeWhile (\<lambda>c. c \<noteq> CHR 0x00) (take 511 (form_text f)) = form_text f" and "form_text f \<noteq> []"
proof -
  have "CHR 0x00 \<notin> set (form_text f)"
    using url_encode_safe [of "CHR 0x00"] by (auto simp: form_text_def form_tokens_def form_token_def)
  then show "takeWhile (\<lambda>c. c \<noteq> CHR 0x00) (take 511 (form_text f)) = form_text f"
    using assms by (auto simp: form_ok_def takeWhile_eq_all_conv)
  show "form_text f \<noteq> []" by (simp add: form_text_def form_tokens_def form_token_def)
qed

section \<open>A submitted form is in force after the restart\<close>

text \<open>The values of a form in the storage.\<close>

definition form_keys :: "prov_form \<Rightarrow> (string \<rightharpoonup> nvs_val) \<Rightarrow> bool" where
  "form_keys f m \<longleftrightarrow> m ''wifi_ssid'' = Some (NStr (pf_ssid f)) \<and> m ''wifi_pass'' = Some (NStr (pf_pass f)) \<and>
     m ''mqtt_host'' = Some (NStr (if pf_mqtt f = [] then ''htsn-broker.local'' else pf_mqtt f)) \<and> m ''mqtt_port'' = Some (NI32 1883) \<and>
     m ''muser'' = (if pf_muser f = [] then None else Some (NStr (pf_muser f))) \<and>
     m ''mpass'' = (if pf_mpass f = [] then None else Some (NStr (pf_mpass f)))"

context nvs_flash
begin

lemma get_store_creds:
  "nvs_get N (store_creds N u p n) =
     (nvs_get N n)(''muser'' := (if u = [] then None else Some (NStr u)), ''mpass'' := (if p = [] then None else Some (NStr p)))"
proof -
  obtain h where "nvs_open_rw N n = Some h" "nvs_get N h = nvs_get N n" by (rule open_rw_cases)
  then show ?thesis by (auto simp: store_creds_def get_commit get_set get_erase Let_def)
qed

lemma get_cfg_save:
  "nvs_get N (htsn_cfg_save N d (Some s) (Some p) (Some h) port n) =
     ((case d of None \<Rightarrow> nvs_get N n | Some i \<Rightarrow> (nvs_get N n)(''device_id'' \<mapsto> NStr i))
       (''wifi_ssid'' \<mapsto> NStr s, ''wifi_pass'' \<mapsto> NStr p, ''mqtt_host'' \<mapsto> NStr h, ''mqtt_port'' \<mapsto> NI32 port))"
  by (simp add: htsn_cfg_save_def htsn_nvs_set_int_def get_put get_set_opt split: option.split)

lemma net_add_keys:
  assumes "s \<noteq> []"
  shows "settled (snd (htsn_cfg_net_add N (Some s) (Some p) n))"
    and "key \<noteq> ''net_list'' \<Longrightarrow> nvs_get N (snd (htsn_cfg_net_add N (Some s) (Some p) n)) key =
      ((nvs_get N n)(''wifi_pass'' \<mapsto> NStr p, ''wifi_ssid'' \<mapsto> NStr s)) key"
  using assms by (auto simp: htsn_cfg_net_add_def Let_def save_blob htsn_nvs_set_str_def get_put get_set_opt
      split: option.split prod.split)

lemma portal_keys:
  fixes n :: 'n
  assumes "form_ok f"
  defines "r \<equiv> handle_config N (agent_save N) (form_text f) n"
  shows "form_keys f (nvs_get N (nvs_restart N (snd r)))" and "\<exists>page. fst r = Restarting page"
proof -
  have ssid: "pf_ssid f \<noteq> []" using assms(1) by (simp add: form_ok_def)
  let ?n1 = "store_creds N (pf_muser f) (pf_mpass f) n"
  let ?m = "if pf_mqtt f = [] then ''htsn-broker.local'' else pf_mqtt f"
  have r: "snd r = prov_save N (pf_ssid f) (pf_pass f) (Some (pf_devid f)) (Some ?m) ?n1" "\<exists>page. fst r = Restarting page"
    unfolding r_def handle_config_def form_text_whole(1) [OF assms(1)] parse_form_text [OF assms(1)] Let_def
    using form_text_whole(2) [OF assms(1)] ssid by (simp_all add: agent_save_def)
  have "settled (snd r)" unfolding r(1) prov_save_def using net_add_keys(1) [OF ssid] .
  then have g: "nvs_get N (nvs_restart N (snd r)) = nvs_get N (snd r)" by (rule restart_settled)
  show "form_keys f (nvs_get N (nvs_restart N (snd r)))"
    unfolding g unfolding r(1) prov_save_def form_keys_def
    by (simp add: net_add_keys(2) [OF ssid] get_cfg_save get_store_creds split: option.split)
  show "\<exists>page. fst r = Restarting page" by (rule r(2))
qed

lemma boot_form:
  assumes "form_ok f" and "form_keys f (nvs_get N n)"
  shows "let b = app_boot N sensors n in \<not> bo_prov b \<and> bo_port b = 1883 \<and>
      bo_host b = (if pf_mqtt f = [] then ''htsn-broker.local'' else pf_mqtt f) \<and>
      bo_device_id b = (if sensors then ''esp32-01'' else ''esp32-02'')"
    and "htsn_cfg_get_broker_auth N 64 64 512 n = (htsn_cfg_get_broker_auth N 64 64 512 n)\<lparr>ba_user := pf_muser f, ba_pass := pf_mpass f\<rparr>"
    and "htsn_prov_have_wifi N n"
proof -
  let ?i = "if sensors then ''esp32-01'' else ''esp32-02''"
  have f: "fits 64 (pf_ssid f)" "fits 64 (pf_pass f)" "fits 64 (pf_mqtt f)" "fits 64 (pf_muser f)" "fits 64 (pf_mpass f)" "pf_ssid f \<noteq> []"
    using assms(1) by (simp_all add: form_ok_def)
  have m: "nvs_get N n ''wifi_ssid'' = Some (NStr (pf_ssid f))"
    "nvs_get N n ''mqtt_host'' = Some (NStr (if pf_mqtt f = [] then ''htsn-broker.local'' else pf_mqtt f))"
    "nvs_get N n ''mqtt_port'' = Some (NI32 1883)"
    "nvs_get N n ''muser'' = (if pf_muser f = [] then None else Some (NStr (pf_muser f)))"
    "nvs_get N n ''mpass'' = (if pf_mpass f = [] then None else Some (NStr (pf_mpass f)))"
    using assms(2) by (simp_all add: form_keys_def)
  have ro: "nvs_open_ro N n" using absent [of n] m(1) by auto
  let ?n1 = "htsn_cfg_set_device_id N (Some ?i) n"
  have g1: "nvs_get N ?n1 = (nvs_get N n)(''device_id'' \<mapsto> NStr ?i)" by (simp add: htsn_cfg_set_device_id_def get_set_opt)
  have ro1: "nvs_open_ro N ?n1" using absent [of ?n1] g1 by (metis fun_upd_same option.distinct(1))
  have e: "ensure_device_id N sensors n = (?i, ?n1)" by (simp add: ensure_device_id_def snprintf_buf_def Let_def)
  show "htsn_prov_have_wifi N n"
    using ro m(1) f by (simp add: htsn_prov_have_wifi_def nvs_get_str_def fits_def)
  show "htsn_cfg_get_broker_auth N 64 64 512 n = (htsn_cfg_get_broker_auth N 64 64 512 n)\<lparr>ba_user := pf_muser f, ba_pass := pf_mpass f\<rparr>"
    using f m(4,5) by (auto simp: htsn_cfg_get_broker_auth_def get_str_simp fits_def)
  show "let b = app_boot N sensors n in \<not> bo_prov b \<and> bo_port b = 1883 \<and>
      bo_host b = (if pf_mqtt f = [] then ''htsn-broker.local'' else pf_mqtt f) \<and> bo_device_id b = ?i"
    unfolding app_boot_def e
    using f m(1-3) ro1
    by (simp add: htsn_cfg_load_def get_str_simp htsn_nvs_get_int_def nvs_get_i32_def g1 fits_def Let_def opt_get_def cpy_Some snprintf_buf_def)
qed

end


definition demo_form :: prov_form where
  "demo_form = \<lparr>pf_ssid = ''lab 1'', pf_pass = ''a&b=c%d+e'', pf_mqtt = [], pf_muser = ''u'', pf_mpass = ''p'', pf_devid = ''n7''\<rparr>"


text \<open>
  A password of many special characters is stored wrong: each of them takes three characters of the body, and the
  portal copies at most 127 characters of a field; of 63 hash signs, a valid WPA2 password, forty are kept, followed by a piece of the
  encoding.
\<close>

theorem special_password_truncated:
  "pf_pass (parse_form (form_token ''pass'' (replicate 63 (CHR ''#'')))) = replicate 40 (CHR ''#'') @ ''%2''"
proof -
  have "char_of (50 :: nat) = CHR ''2''" "char_of (51 :: nat) = CHR ''3''" by (simp_all add: char_of_def bit_0)
  then have e: "url_encode (replicate k (CHR ''#'')) = concat (replicate k ''%23'')" for k
    by (simp add: url_encode_def url_enc1_def url_plain_def ssid_char_def hex2_def byte_of_def hex_digit_def map_replicate_const)
  have r: "(63 :: nat) = 40 + (1 + 22)" by simp
  have t: "form_token ''pass'' (replicate 63 (CHR ''#'')) = (''pass='' @ concat (replicate 40 ''%23'') @ ''%2'') @ ''3'' @ concat (replicate 22 ''%23'')"
    unfolding form_token_def e unfolding r replicate_add concat_append by simp
  have l: "length (concat (replicate k ''%23'')) = 3 * k" for k by (induction k) simp_all
  have c: "snprintf_buf 128 (form_token ''pass'' (replicate 63 (CHR ''#''))) = ''pass='' @ concat (replicate 40 ''%23'') @ ''%2''"
    unfolding t snprintf_buf_def using l [of 40] by simp
  have d: "url_dec (concat (replicate k ''%23'') @ ''%2'') = replicate k (CHR ''#'') @ ''%2''" for k
    by (induction k) (simp_all add: hex_val_def char_of_def bit_0)
  have "url_decode (concat (replicate 40 ''%23'') @ ''%2'') = replicate 40 (CHR ''#'') @ ''%2''"
    unfolding url_decode_def d by (subst takeWhile_append2) auto
  moreover have "strtok_all (CHR ''&'') (form_token ''pass'' (replicate 63 (CHR ''#''))) = [form_token ''pass'' (replicate 63 (CHR ''#''))]"
    using strtok_all_join [of "[form_token ''pass'' (replicate 63 (CHR ''#''))]" "CHR ''&''"] url_encode_safe
    by (auto simp: form_token_def)
  moreover have "snprintf_buf 64 (replicate 40 (CHR ''#'') @ ''%2'') = replicate 40 (CHR ''#'') @ ''%2''"
    by (simp add: snprintf_buf_def)
  ultimately show ?thesis by (simp add: parse_form_def form_field_def c Let_def)
qed

end
