(* ===== verification/Ota.thy ===== *)
theory Ota
  imports Provisioning
begin

text \<open>
  The firmware update of src/shared/htsn_ota/htsn_ota.c. The update library of the vendor, the flash partitions and the
  checksum of the boot ROM are parameters: \<open>ota_lib\<close> has the outcome of each call. An update that finishes makes the new
  image the one that is booted next; \<open>esp_ota_set_boot_partition\<close> changes that.
\<close>

section \<open>State\<close>

datatype esp_err =
  ESP_OK | ESP_FAIL | ESP_ERR_NO_MEM | ESP_ERR_INVALID_ARG | ESP_ERR_INVALID_STATE | ESP_ERR_NOT_FOUND | ESP_ERR_INVALID_CRC |
  ESP_ERR_HTTPS_OTA_IN_PROGRESS | ESP_OTHER nat

record ota_lib =
  ol_begin :: "string \<Rightarrow> esp_err"
  ol_perform :: "string \<Rightarrow> esp_err"
  ol_finish :: "string \<Rightarrow> esp_err"
  ol_part :: "string \<Rightarrow> byte list option"
  ol_read_ok :: "nat \<Rightarrow> nat \<Rightarrow> bool"
  ol_running :: bool
  ol_crc :: "u32 \<Rightarrow> byte list \<Rightarrow> u32"
  ol_task :: bool

text \<open>\<open>ota_busy\<close> is \<open>g_busy\<close>; \<open>ota_job\<close> is the argument of a task that was created and has not run.\<close>

record ota =
  ota_busy :: bool
  ota_job :: "(string \<times> string option) option"
  ota_boot_new :: bool
  ota_restarted :: bool

section \<open>Verification of the image\<close>

text \<open>\<open>strtoul(s, NULL, 16)\<close> with a 32-bit \<open>unsigned long\<close>: blanks, sign, prefix, digits; saturated, negated modulo \<open>2 ^ 32\<close>.\<close>

definition hex_run :: "string \<Rightarrow> string" where
  "hex_run s = takeWhile (\<lambda>c. hex_val c \<ge> 0) s"

definition hex_number :: "string \<Rightarrow> int" where
  "hex_number s = foldl (\<lambda>a c. 16 * a + hex_val c) 0 (hex_run s)"

definition strtoul16 :: "string \<Rightarrow> u32" where
  "strtoul16 s =
     (let t = dropWhile is_space s;
          neg = (t \<noteq> [] \<and> hd t = CHR ''-'');
          u = (if t \<noteq> [] \<and> (hd t = CHR ''-'' \<or> hd t = CHR ''+'') then tl t else t);
          v = (if (take 2 u = ''0x'' \<or> take 2 u = ''0X'') \<and> hex_run (drop 2 u) \<noteq> [] then drop 2 u else u);
          n = hex_number v
      in if n \<ge> 2 ^ 32 then - 1 else if neg then - word_of_int n else word_of_int n)"

definition OTA_CHUNK :: nat where "OTA_CHUNK = 4096"

text \<open>The checksum loop from offset \<open>off\<close>: a failed read ends it.\<close>

function ota_crc_loop :: "ota_lib \<Rightarrow> byte list \<Rightarrow> nat \<Rightarrow> nat \<Rightarrow> u32 \<Rightarrow> u32 option" where
  "ota_crc_loop lib part img off state =
     (if off < img then
        (let n = (if img - off < OTA_CHUNK then img - off else OTA_CHUNK)
         in if \<not> ol_read_ok lib off n then None
            else ota_crc_loop lib part img (off + n) (ol_crc lib state (take n (drop off part))))
      else Some state)"
  by pat_completeness auto
termination
  by (relation "measure (\<lambda>(lib, part, img, off, state). img - off)") (auto simp: OTA_CHUNK_def Let_def split: if_splits)

declare ota_crc_loop.simps [simp del]

text \<open>The size field of the image header: \<open>hdr\<close> is the first 16 bytes.\<close>

definition image_size :: "byte list \<Rightarrow> nat" where
  "image_size hdr = unat (hdr ! 8) + 256 * unat (hdr ! 9) + 65536 * unat (hdr ! 10) + 16777216 * unat (hdr ! 11)"

definition ota_verify_crc :: "ota_lib \<Rightarrow> byte list option \<Rightarrow> string \<Rightarrow> ota \<Rightarrow> esp_err \<times> ota" where
  "ota_verify_crc lib part crc_hex t =
     (case part of
        None \<Rightarrow> (ESP_ERR_NOT_FOUND, t)
      | Some p \<Rightarrow>
          (if \<not> ol_read_ok lib 0 16 \<or> hd p \<noteq> 0xE9 then (ESP_FAIL, t)
           else
             (let img = image_size (take 16 p)
              in if img = 0 \<or> img > length p then (ESP_FAIL, t)
                 else
                   (case ota_crc_loop lib p img 0 (- 1) of
                      None \<Rightarrow> (ESP_FAIL, t)
                    | Some state \<Rightarrow>
                        (if state XOR (- 1) \<noteq> strtoul16 crc_hex
                         then (ESP_ERR_INVALID_CRC, if ol_running lib then t\<lparr>ota_boot_new := False\<rparr> else t)
                         else (ESP_OK, t))))))"

section \<open>The update task\<close>

text \<open>
  The calls of the library in their order; a successful \<open>finish\<close> selects the new image for the next start. The task
  ends with a restart or with \<open>g_busy\<close> cleared.
\<close>

definition ota_finish :: "ota_lib \<Rightarrow> string \<Rightarrow> string option \<Rightarrow> ota \<Rightarrow> esp_err \<times> ota" where
  "ota_finish lib url crc t =
     (if ol_finish lib url \<noteq> ESP_OK then (ol_finish lib url, t)
      else
        (let t1 = t\<lparr>ota_boot_new := True\<rparr>
         in case crc of None \<Rightarrow> (ESP_OK, t1) | Some c \<Rightarrow> ota_verify_crc lib (ol_part lib url) c t1))"

definition ota_task :: "ota_lib \<Rightarrow> string \<Rightarrow> string option \<Rightarrow> ota \<Rightarrow> ota" where
  "ota_task lib url crc t =
     (let err = (if ol_begin lib url = ESP_OK
                 then (if ol_perform lib url = ESP_ERR_HTTPS_OTA_IN_PROGRESS then ESP_OK else ol_perform lib url)
                 else ol_begin lib url);
          (err, t1) = (if err = ESP_OK then ota_finish lib url crc t else (err, t))
      in if err = ESP_OK then t1\<lparr>ota_restarted := True\<rparr> else t1\<lparr>ota_busy := False\<rparr>)"

definition htsn_ota_start_checked :: "ota_lib \<Rightarrow> string option \<Rightarrow> string option \<Rightarrow> ota \<Rightarrow> esp_err \<times> ota" where
  "htsn_ota_start_checked lib url crc t =
     (case url of
        None \<Rightarrow> (ESP_ERR_INVALID_ARG, t)
      | Some u \<Rightarrow>
          (if u = [] then (ESP_ERR_INVALID_ARG, t)
           else if ota_busy t then (ESP_ERR_INVALID_STATE, t)
           else if ol_task lib then (ESP_OK, t\<lparr>ota_busy := True, ota_job := Some (u, crc)\<rparr>)
           else (ESP_FAIL, t)))"

definition htsn_ota_start :: "ota_lib \<Rightarrow> string option \<Rightarrow> ota \<Rightarrow> esp_err \<times> ota" where
  "htsn_ota_start lib url t = htsn_ota_start_checked lib url None t"

definition htsn_ota_start_sized :: "ota_lib \<Rightarrow> string option \<Rightarrow> nat \<Rightarrow> ota \<Rightarrow> esp_err \<times> ota" where
  "htsn_ota_start_sized lib url sz t = htsn_ota_start lib url t"

text \<open>The scheduler runs a created task to its end.\<close>

definition ota_run_task :: "ota_lib \<Rightarrow> ota \<Rightarrow> ota" where
  "ota_run_task lib t =
     (case ota_job t of None \<Rightarrow> t | Some (url, crc) \<Rightarrow> ota_task lib url crc (t\<lparr>ota_job := None\<rparr>))"

section \<open>The checksum of the boot ROM\<close>

text \<open>The documented law of a running checksum: continuing with the state reached is the checksum of the whole.\<close>

locale running_crc =
  fixes crc :: "u32 \<Rightarrow> byte list \<Rightarrow> u32"
  assumes crc_nil: "crc s [] = s" and crc_append: "crc s (a @ b) = crc (crc s a) b"
begin

lemma crc_loop_whole:
  assumes "ol_crc lib = crc" and "\<And>i n. i + n \<le> img \<Longrightarrow> ol_read_ok lib i n" and "off \<le> img" and "img \<le> length part"
  shows "ota_crc_loop lib part img off state = Some (crc state (take (img - off) (drop off part)))"
  using assms
proof (induction lib part img off state rule: ota_crc_loop.induct)
  case (1 lib part img off state)
  show ?case
  proof (cases "off < img")
    case False
    then show ?thesis using "1.prems" by (subst ota_crc_loop.simps) (simp add: crc_nil)
  next
    case True
    define n where "n = (if img - off < OTA_CHUNK then img - off else OTA_CHUNK)"
    have n: "off + n \<le> img" using True by (auto simp: n_def)
    have "ota_crc_loop lib part img off state = ota_crc_loop lib part img (off + n) (crc state (take n (drop off part)))"
      using True "1.prems"(2) [OF n] "1.prems"(1) by (subst ota_crc_loop.simps) (simp add: n_def Let_def)
    also have "\<dots> = Some (crc (crc state (take n (drop off part))) (take (img - (off + n)) (drop (off + n) part)))"
      using "1.IH" [OF True n_def] "1.prems" n by (simp add: add.commute)
    also have "crc (crc state (take n (drop off part))) (take (img - (off + n)) (drop (off + n) part)) =
        crc state (take (n + (img - (off + n))) (drop off part))"
      by (simp add: take_add crc_append add.commute)
    finally show ?thesis using n by simp
  qed
qed

end

text \<open>The reflected checksum with polynomial \<open>0xEDB88320\<close>, inverted on entry and exit so that calls can be chained.\<close>

definition crc32_byte :: "u32 \<Rightarrow> byte \<Rightarrow> u32" where
  "crc32_byte s b = ((\<lambda>c. if bit c 0 then drop_bit 1 c XOR 0xEDB88320 else drop_bit 1 c) ^^ 8) (s XOR ucast b)"

definition crc32_le :: "u32 \<Rightarrow> byte list \<Rightarrow> u32" where
  "crc32_le s bs = NOT (foldl crc32_byte (NOT s) bs)"

interpretation rom_crc: running_crc crc32_le
  by unfold_locales (simp_all add: crc32_le_def)

text \<open>What the verification accepts: the checksum is that of the image, as long as its header says, at the start of the partition.\<close>

definition image_good :: "ota_lib \<Rightarrow> byte list \<Rightarrow> string \<Rightarrow> bool" where
  "image_good lib p c \<longleftrightarrow>
     NOT (ol_crc lib (- 1) (take (image_size (take 16 p)) p)) = strtoul16 c"

definition image_plausible :: "byte list \<Rightarrow> bool" where
  "image_plausible p \<longleftrightarrow> hd p = 0xE9 \<and> 0 < image_size (take 16 p) \<and> image_size (take 16 p) \<le> length p"

definition ota_downloaded :: "ota_lib \<Rightarrow> string \<Rightarrow> bool" where
  "ota_downloaded lib url \<longleftrightarrow>
     ol_begin lib url = ESP_OK \<and> ol_perform lib url \<in> {ESP_OK, ESP_ERR_HTTPS_OTA_IN_PROGRESS} \<and> ol_finish lib url = ESP_OK"

lemma verify_crc_cases:
  assumes "running_crc (ol_crc lib)" and "\<And>i n. i + n \<le> length p \<Longrightarrow> ol_read_ok lib i n" and "16 \<le> length p"
  shows "ota_verify_crc lib (Some p) c t =
    (if \<not> image_plausible p then (ESP_FAIL, t)
     else if image_good lib p c then (ESP_OK, t)
     else (ESP_ERR_INVALID_CRC, if ol_running lib then t\<lparr>ota_boot_new := False\<rparr> else t))"
proof (cases "image_plausible p")
  case True
  have "ota_crc_loop lib p (image_size (take 16 p)) 0 (- 1) =
      Some (ol_crc lib (- 1) (take (image_size (take 16 p)) p))"
    using running_crc.crc_loop_whole [OF assms(1) refl, of "image_size (take 16 p)" 0 p "- 1"] assms(2) True
    by (simp add: image_plausible_def)
  then show ?thesis using True assms(2) [of 0 16] assms(3)
    by (simp add: ota_verify_crc_def image_plausible_def image_good_def Let_def not_eq_complement)
next
  case False
  then show ?thesis using assms(2) [of 0 16] assms(3) by (auto simp: ota_verify_crc_def image_plausible_def Let_def)
qed


definition demo_image :: "byte list" where
  "demo_image = 0xE9 # replicate 31 0"

definition demo_lib :: ota_lib where
  "demo_lib = \<lparr>ol_begin = (\<lambda>_. ESP_OK), ol_perform = (\<lambda>_. ESP_OK), ol_finish = (\<lambda>_. ESP_OK),
     ol_part = (\<lambda>_. Some demo_image), ol_read_ok = (\<lambda>i n. i + n \<le> 32), ol_running = True, ol_crc = crc32_le, ol_task = True\<rparr>"

definition ota_idle :: ota where
  "ota_idle = \<lparr>ota_busy = False, ota_job = None, ota_boot_new = False, ota_restarted = False\<rparr>"


lemma ota_one_at_a_time:
  "htsn_ota_start_checked lib url c t = (ESP_OK, t1) \<Longrightarrow> fst (htsn_ota_start_checked lib url' c' t1) \<noteq> ESP_OK"
  by (auto simp: htsn_ota_start_checked_def split: option.splits if_splits)

text \<open>Without a checksum nothing is verified: a finished download is booted.\<close>

lemma ota_unchecked:
  "ota_restarted (ota_task lib url None t) \<longleftrightarrow> ota_restarted t \<or> ota_downloaded lib url"
  by (auto simp: ota_task_def ota_finish_def ota_downloaded_def Let_def)

end
