(* ===== verification/Wifi_Motion.thy ===== *)
theory Wifi_Motion
  imports Tsn_Manager Complex_Main
begin

text \<open>
  Motion detection from the radio link of the ESP32 (\<open>htsn_wifimotion.c\<close>): the ring of signal strengths with its running
  sums, the channel state accumulators, calibration, detection with its latch, and the events. Floating point operations are
  exact operations on reals followed by the rounding function \<open>fl\<close>, a parameter; frames, channel state and the time come from the radio
  driver and the timer. The registration of the callbacks is left out.
\<close>

section \<open>The window of signal strengths\<close>

text \<open>
  Floating point: \<open>fl\<close> rounds an exact result to a \<open>float\<close>, as every operation of the code does.
\<close>

definition HTSN_WFM_RSSI_N :: nat where "HTSN_WFM_RSSI_N = 48"
definition HTSN_WFM_RSSI_MOS :: nat where "HTSN_WFM_RSSI_MOS = HTSN_WFM_RSSI_N div 2"

record rssi_stat =
  rs_ring :: "int list"
  rs_idx :: nat
  rs_filled :: nat
  rs_sum :: int
  rs_sq :: int
  rs_last_stddev :: real

definition rssi_zero :: rssi_stat where
  "rssi_zero = \<lparr>rs_ring = replicate HTSN_WFM_RSSI_N 0, rs_idx = 0, rs_filled = 0, rs_sum = 0, rs_sq = 0, rs_last_stddev = 0\<rparr>"

definition rssi_push :: "int \<Rightarrow> rssi_stat \<Rightarrow> rssi_stat" where
  "rssi_push v g =
     (if rs_filled g < HTSN_WFM_RSSI_N
      then g\<lparr>rs_ring := (rs_ring g)[rs_filled g := v], rs_filled := rs_filled g + 1, rs_sum := rs_sum g + v, rs_sq := rs_sq g + v * v\<rparr>
      else
        (let old = rs_ring g ! rs_idx g
         in g\<lparr>rs_ring := (rs_ring g)[rs_idx g := v], rs_idx := (rs_idx g + 1) mod HTSN_WFM_RSSI_N,
              rs_sum := rs_sum g + (v - old), rs_sq := rs_sq g + (v * v - old * old)\<rparr>))"

definition rssi_stddev :: "(real \<Rightarrow> real) \<Rightarrow> rssi_stat \<Rightarrow> real" where
  "rssi_stddev fl g =
     (let n = real (rs_filled g)
      in if rs_filled g < 2 then 0
         else
           (let mean = fl (fl (real_of_int (rs_sum g)) / n);
                var = fl (fl (fl (real_of_int (rs_sq g)) / n) - fl (mean * mean))
            in fl (sqrt (if var < 0 then 0 else var))))"

section \<open>Channel state\<close>

definition HTSN_WFM_CSI_MAXCAR :: nat where "HTSN_WFM_CSI_MAXCAR = 64"

record csi_stat =
  cs_car :: nat
  cs_mean :: "real list"
  cs_mean2 :: "real list"
  cs_seen :: nat

definition csi_zero :: csi_stat where
  "csi_zero = \<lparr>cs_car = 0, cs_mean = replicate HTSN_WFM_CSI_MAXCAR 0, cs_mean2 = replicate HTSN_WFM_CSI_MAXCAR 0, cs_seen = 0\<rparr>"

text \<open>
  The loop of \<open>csi_fold\<close> from carrier \<open>i\<close> on: \<open>b\<close> is the buffer, \<open>off\<close> the bytes skipped.
\<close>

fun csi_carriers :: "(real \<Rightarrow> real) \<Rightarrow> int list \<Rightarrow> nat \<Rightarrow> nat list \<Rightarrow> csi_stat \<Rightarrow> csi_stat" where
  "csi_carriers fl b off [] c = c"
| "csi_carriers fl b off (i # is) c =
     (let p = i * 2 + off
      in if p + 1 \<ge> length b then c
         else
           (let re = real_of_int (b ! (p + 1)); im = real_of_int (b ! p);
                mag = fl (sqrt (fl (fl (re * re) + fl (im * im))))
            in csi_carriers fl b off is
                 (c\<lparr>cs_mean := (cs_mean c)[i := fl (cs_mean c ! i + mag)],
                    cs_mean2 := (cs_mean2 c)[i := fl (cs_mean2 c ! i + fl (mag * mag))]\<rparr>)))"

definition csi_fold :: "(real \<Rightarrow> real) \<Rightarrow> int list \<Rightarrow> bool \<Rightarrow> csi_stat \<Rightarrow> csi_stat" where
  "csi_fold fl b first_word_invalid c =
     (let n = length b div 2
      in if n = 0 \<or> n > HTSN_WFM_CSI_MAXCAR then c
         else
           (let c1 = (if cs_car c = 0 then c\<lparr>cs_car := n\<rparr> else c);
                ncar = (if n < cs_car c1 then n else cs_car c1);
                c2 = csi_carriers fl b (if first_word_invalid then 4 else 0) [2..<ncar - 2] c1
            in c2\<lparr>cs_seen := cs_seen c2 + 1\<rparr>))"

definition csi_reset_window :: "csi_stat \<Rightarrow> csi_stat" where
  "csi_reset_window c =
     c\<lparr>cs_mean := replicate HTSN_WFM_CSI_MAXCAR 0, cs_mean2 := replicate HTSN_WFM_CSI_MAXCAR 0, cs_seen := 0\<rparr>"

text \<open>With at least two frames the branch of \<open>csi_scalar\<close> for a single frame is not reached.\<close>

definition csi_var :: "(real \<Rightarrow> real) \<Rightarrow> csi_stat \<Rightarrow> nat \<Rightarrow> real" where
  "csi_var fl c i =
     (let s = real (cs_seen c);
          v = fl (fl (cs_mean2 c ! i - fl (fl (cs_mean c ! i * cs_mean c ! i) / s)) / s)
      in if v < 0 then 0 else v)"

definition csi_scalar :: "(real \<Rightarrow> real) \<Rightarrow> csi_stat \<Rightarrow> real" where
  "csi_scalar fl c =
     (if cs_seen c < 2 then 0
      else
        (let n = (if cs_car c \<noteq> 0 then cs_car c else HTSN_WFM_CSI_MAXCAR);
             tot = foldl (\<lambda>t i. fl (t + csi_var fl c i)) 0 [2..<n - 2];
             count = length [2..<n - 2]
         in if count \<noteq> 0 then fl (tot / real count) else 0))"

section \<open>The detector\<close>

record wm_state =
  wm_window_start :: int
  wm_cal_start :: int
  wm_cal_rssi_std :: real
  wm_cal_csi_mag :: real
  wm_cal_done :: bool
  wm_active :: bool
  wm_latched :: bool
  wm_latch_until :: int
  wm_last_report :: int

text \<open>The globals of the file; \<open>wf_csi\<close> is \<open>None\<close> when channel state is not compiled in, \<open>wf_events\<close> are the messages published.\<close>

record wifimotion =
  wf_dev_id :: string
  wf_mq :: bool
  wf_rssi :: rssi_stat
  wf_csi :: "csi_stat option"
  wf_st :: wm_state
  wf_events :: "(string \<times> string) list"

text \<open>\<open>%.1f\<close> of a value that is not negative: rounded to the nearest tenth, ties to even.\<close>

definition round_even :: "real \<Rightarrow> int" where
  "round_even x =
     (let f = \<lfloor>x\<rfloor>; d = x - of_int f
      in if d < 1 / 2 then f else if d > 1 / 2 then f + 1 else if even f then f else f + 1)"

definition fmt_1f :: "real \<Rightarrow> string" where
  "fmt_1f x = (let t = nat (round_even (10 * x)) in dec_nat (t div 10) @ ''.'' @ dec_nat (t mod 10))"

definition wm_event_text :: "string \<Rightarrow> int \<Rightarrow> real \<Rightarrow> string" where
  "wm_event_text dev motion std =
     snprintf_buf 96 (''{'' @ dq @ ''id'' @ dq @ '':'' @ dq @ dev @ dq @ '','' @ dq @ ''wifi_motion'' @ dq @ '':'' @ dec_int motion @ '','' @
       dq @ ''type'' @ dq @ '':'' @ dq @ ''wifi'' @ dq @ '','' @ dq @ ''rssi_std'' @ dq @ '':'' @ fmt_1f std @ ''}'')"

definition wm_publish_event :: "int \<Rightarrow> wifimotion \<Rightarrow> wifimotion" where
  "wm_publish_event motion w =
     (if \<not> wf_mq w \<or> motion = wm_last_report (wf_st w) then w
      else
        (let ev = wm_event_text (wf_dev_id w) motion (rs_last_stddev (wf_rssi w))
         in w\<lparr>wf_st := (wf_st w)\<lparr>wm_last_report := motion\<rparr>,
              wf_events := wf_events w @ [(''tsn/sensors/event'', ev), (''tsn/fx/data'', ev)]\<rparr>))"

text \<open>Whether the window shows motion.\<close>

definition wm_detect :: "(real \<Rightarrow> real) \<Rightarrow> real \<Rightarrow> real \<Rightarrow> wifimotion \<Rightarrow> bool" where
  "wm_detect fl rssi_std csi w \<longleftrightarrow>
     \<not> rs_filled (wf_rssi w) < HTSN_WFM_RSSI_MOS \<and> rssi_std > fl (wm_cal_rssi_std (wf_st w) + 5) \<or>
     wf_csi w \<noteq> None \<and> csi > fl (wm_cal_csi_mag (wf_st w) + 120)"

definition wm_calibrate :: "(real \<Rightarrow> real) \<Rightarrow> int \<Rightarrow> real \<Rightarrow> real \<Rightarrow> wifimotion \<Rightarrow> wifimotion" where
  "wm_calibrate fl now rssi_std csi w =
     (let s = wf_st w;
          s1 = (if wm_cal_start s = 0 then s\<lparr>wm_cal_start := now\<rparr> else s);
          s2 = (if now - wm_cal_start s1 \<ge> 12000 * 1000
                then s1\<lparr>wm_cal_rssi_std := fl (rssi_std * fl 0.9),
                        wm_cal_csi_mag := (if wf_csi w = None then 0 else fl (fl (csi * fl 1.3) + 2)), wm_cal_done := True\<rparr>
                else s1)
      in w\<lparr>wf_st := s2\<lparr>wm_window_start := now\<rparr>\<rparr>)"

definition wm_decide :: "int \<Rightarrow> bool \<Rightarrow> wifimotion \<Rightarrow> wifimotion" where
  "wm_decide now move w =
     (let s = wf_st w;
          (m, s1) = (if move then (1, s\<lparr>wm_active := True, wm_latched := True, wm_latch_until := now + 4500 * 1000\<rparr>)
                     else if wm_latched s \<and> now < wm_latch_until s then (1, s)
                     else (0, s\<lparr>wm_active := False, wm_latched := False\<rparr>));
          w1 = w\<lparr>wf_st := s1\<rparr>;
          w2 = (if m \<noteq> wm_last_report s1 then wm_publish_event m w1 else w1)
      in w2\<lparr>wf_st := (wf_st w2)\<lparr>wm_window_start := now\<rparr>\<rparr>)"

definition wm_tick :: "(real \<Rightarrow> real) \<Rightarrow> int \<Rightarrow> wifimotion \<Rightarrow> wifimotion" where
  "wm_tick fl now w =
     (if wm_window_start (wf_st w) = 0 \<or> now - wm_window_start (wf_st w) < 3500 * 1000 then w
      else
        (let rssi_std = rssi_stddev fl (wf_rssi w);
             csi = (case wf_csi w of None \<Rightarrow> 0 | Some c \<Rightarrow> csi_scalar fl c);
             w1 = w\<lparr>wf_rssi := (wf_rssi w)\<lparr>rs_last_stddev := rssi_std\<rparr>, wf_csi := map_option csi_reset_window (wf_csi w)\<rparr>
         in if \<not> wm_cal_done (wf_st w1) then wm_calibrate fl now rssi_std csi w1
            else wm_decide now (wm_detect fl rssi_std csi w1) w1))"

text \<open>The callbacks of the radio: a data frame received without error, and channel state with data.\<close>

definition wifi_rssi_sink :: "bool \<Rightarrow> bool \<Rightarrow> int \<Rightarrow> wifimotion \<Rightarrow> wifimotion" where
  "wifi_rssi_sink data clean rssi w = (if \<not> data \<or> \<not> clean then w else w\<lparr>wf_rssi := rssi_push rssi (wf_rssi w)\<rparr>)"

definition wm_csi_cb :: "(real \<Rightarrow> real) \<Rightarrow> int list \<Rightarrow> bool \<Rightarrow> wifimotion \<Rightarrow> wifimotion" where
  "wm_csi_cb fl b invalid w = (if b = [] then w else w\<lparr>wf_csi := map_option (csi_fold fl b invalid) (wf_csi w)\<rparr>)"

definition htsn_wifimotion_init :: "string option \<Rightarrow> bool \<Rightarrow> int \<Rightarrow> wifimotion \<Rightarrow> wifimotion" where
  "htsn_wifimotion_init device_id mq now w =
     w\<lparr>wf_dev_id := (case device_id of Some i \<Rightarrow> snprintf_buf 32 i | None \<Rightarrow> wf_dev_id w), wf_mq := mq,
       wf_st := \<lparr>wm_window_start = now, wm_cal_start = 0, wm_cal_rssi_std = 0, wm_cal_csi_mag = 0, wm_cal_done = False,
         wm_active = False, wm_latched = False, wm_latch_until = 0, wm_last_report = - 1\<rparr>\<rparr>"

definition htsn_wifimotion_motion :: "wifimotion \<Rightarrow> int" where
  "htsn_wifimotion_motion w = (if wm_active (wf_st w) then 1 else 0)"

definition htsn_wifimotion_recalibrate :: "int \<Rightarrow> wifimotion \<Rightarrow> wifimotion" where
  "htsn_wifimotion_recalibrate now w =
     w\<lparr>wf_st := (wf_st w)\<lparr>wm_cal_done := False, wm_cal_start := now, wm_active := False, wm_latched := False\<rparr>,
       wf_csi := map_option csi_reset_window (wf_csi w)\<rparr>"

text \<open>The globals before \<open>htsn_wifimotion_init\<close>.\<close>

definition wifimotion_zero :: "bool \<Rightarrow> wifimotion" where
  "wifimotion_zero csi =
     \<lparr>wf_dev_id = ''esp32-01'', wf_mq = False, wf_rssi = rssi_zero, wf_csi = (if csi then Some csi_zero else None),
      wf_st = \<lparr>wm_window_start = 0, wm_cal_start = 0, wm_cal_rssi_std = 0, wm_cal_csi_mag = 0, wm_cal_done = False,
        wm_active = False, wm_latched = False, wm_latch_until = 0, wm_last_report = 0\<rparr>, wf_events = []\<rparr>"

section \<open>The ring is a sliding window\<close>

definition rssi_window :: "rssi_stat \<Rightarrow> int list" where
  "rssi_window g = (if rs_filled g < 48 then take (rs_filled g) (rs_ring g) else drop (rs_idx g) (rs_ring g) @ take (rs_idx g) (rs_ring g))"

definition rssi_inv :: "rssi_stat \<Rightarrow> bool" where
  "rssi_inv g \<longleftrightarrow> length (rs_ring g) = 48 \<and> rs_filled g \<le> 48 \<and> rs_idx g < 48 \<and> (rs_filled g < 48 \<longrightarrow> rs_idx g = 0) \<and>
     rs_sum g = sum_list (rssi_window g) \<and> rs_sq g = (\<Sum>x \<leftarrow> rssi_window g. x * x)"

text \<open>The last \<open>n\<close> elements of a list.\<close>

definition last_n :: "nat \<Rightarrow> 'a list \<Rightarrow> 'a list" where
  "last_n n xs = drop (length xs - n) xs"

definition slide :: "int list \<Rightarrow> int \<Rightarrow> int list" where
  "slide l v = (if length l < 48 then l @ [v] else tl l @ [v])"

lemma last_n_snoc: "last_n 48 (xs @ [v]) = slide (last_n 48 xs) v"
proof (cases "length xs < 48")
  case False
  then have "length (xs @ [v]) - 48 = Suc (length xs - 48)" by simp
  with False show ?thesis by (simp add: last_n_def slide_def drop_Suc tl_drop)
qed (simp add: last_n_def slide_def)

lemma rssi_window_full:
  assumes "length r = 48" and "i < 48"
  shows "drop ((i + 1) mod 48) (r[i := v]) @ take ((i + 1) mod 48) (r[i := v]) = tl (drop i r @ take i r) @ [v]"
    and "drop i r @ take i r = r ! i # tl (drop i r @ take i r)"
proof -
  have d: "drop i r = r ! i # drop (i + 1) r" using assms by (simp add: Cons_nth_drop_Suc)
  then show "drop i r @ take i r = r ! i # tl (drop i r @ take i r)" by simp
  show "drop ((i + 1) mod 48) (r[i := v]) @ take ((i + 1) mod 48) (r[i := v]) = tl (drop i r @ take i r) @ [v]"
  proof (cases "i = 47")
    case True
    then have "r[i := v] = take 47 r @ [v]" using assms by (simp add: upd_conv_take_nth_drop)
    then show ?thesis using True d assms by simp
  next
    case False
    then have "(i + 1) mod 48 = i + 1" using assms(2) by simp
    moreover have "take (i + 1) (r[i := v]) = take i r @ [v]" using assms by (simp add: take_Suc_conv_app_nth)
    ultimately show ?thesis using d by simp
  qed
qed

lemma rssi_push_inv:
  assumes "rssi_inv g"
  shows "rssi_inv (rssi_push v g) \<and> rssi_window (rssi_push v g) = slide (rssi_window g) v"
proof (cases "rs_filled g < 48")
  case True
  have len: "length (rs_ring g) = 48" using assms by (simp add: rssi_inv_def)
  have "take (rs_filled g + 1) ((rs_ring g)[rs_filled g := v]) = take (rs_filled g) (rs_ring g) @ [v]"
    using True len by (simp add: take_Suc_conv_app_nth)
  moreover have "(rs_ring g)[rs_filled g := v] = take 47 (rs_ring g) @ [v]" if "rs_filled g = 47"
    using that len by (simp add: upd_conv_take_nth_drop)
  ultimately show ?thesis
    using True assms by (auto simp: rssi_inv_def rssi_push_def rssi_window_def slide_def HTSN_WFM_RSSI_N_def)
next
  case False
  let ?r = "rs_ring g" and ?i = "rs_idx g"
  have f: "rs_filled g = 48" "length ?r = 48" "?i < 48" using False assms by (auto simp: rssi_inv_def)
  have w: "rssi_window g = ?r ! ?i # tl (rssi_window g)"
    using rssi_window_full(2) [OF f(2,3)] f(1) by (simp add: rssi_window_def)
  let ?g = "rssi_push v g"
  have p: "rs_ring ?g = ?r[?i := v]" "rs_idx ?g = (?i + 1) mod 48" "rs_filled ?g = 48"
    "rs_sum ?g = rs_sum g + (v - ?r ! ?i)" "rs_sq ?g = rs_sq g + (v * v - ?r ! ?i * ?r ! ?i)"
    using f(1) by (simp_all add: rssi_push_def HTSN_WFM_RSSI_N_def Let_def)
  have w': "rssi_window ?g = tl (rssi_window g) @ [v]"
    using rssi_window_full(1) [OF f(2,3), of v] f(1) by (simp add: rssi_window_def p)
  have s: "rs_sum g = ?r ! ?i + sum_list (tl (rssi_window g))" "rs_sq g = ?r ! ?i * ?r ! ?i + (\<Sum>x \<leftarrow> tl (rssi_window g). x * x)"
    using assms w by (simp_all add: rssi_inv_def) (metis sum_list.Cons list.simps(9))+
  have "\<not> length (rssi_window g) < 48" using f by (simp add: rssi_window_def)
  then show ?thesis using f(2) w' p s by (simp add: rssi_inv_def slide_def)
qed

lemma rssi_pushes:
  "rssi_inv (foldl (\<lambda>g v. rssi_push v g) rssi_zero vs) \<and>
   rssi_window (foldl (\<lambda>g v. rssi_push v g) rssi_zero vs) = last_n 48 vs"
proof (induction vs rule: rev_induct)
  case Nil
  then show ?case by (simp add: rssi_inv_def rssi_zero_def rssi_window_def last_n_def HTSN_WFM_RSSI_N_def)
next
  case (snoc v vs)
  then show ?case using rssi_push_inv last_n_snoc by simp
qed

lemma rssi_filled_window: "rssi_inv g \<Longrightarrow> rs_filled g = length (rssi_window g)"
  by (auto simp: rssi_inv_def rssi_window_def)

text \<open>The mean and the variance of a population.\<close>

definition pop_mean :: "int list \<Rightarrow> real" where
  "pop_mean l = real_of_int (sum_list l) / real (length l)"

definition pop_var :: "int list \<Rightarrow> real" where
  "pop_var l = (\<Sum>x \<leftarrow> l. (real_of_int x - pop_mean l) ^ 2) / real (length l)"

lemma sum_sq_dev:
  "(\<Sum>x \<leftarrow> l. (real_of_int x - m) ^ 2) = real_of_int (\<Sum>x \<leftarrow> l. x * x) - 2 * m * real_of_int (sum_list l) + real (length l) * m ^ 2"
  by (induction l) (simp_all add: power2_eq_square algebra_simps)

lemma pop_var_alt:
  assumes "l \<noteq> []"
  shows "pop_var l = real_of_int (\<Sum>x \<leftarrow> l. x * x) / real (length l) - pop_mean l * pop_mean l"
proof -
  have n: "real (length l) > 0" using assms by simp
  then have "real_of_int (sum_list l) = pop_mean l * real (length l)" by (simp add: pop_mean_def)
  then show ?thesis
    using n unfolding pop_var_def sum_sq_dev by (simp add: field_simps power2_eq_square)
qed

text \<open>
  C18. The detector measures the standard deviation of the last 48 signal strengths: after any sequence of frames the
  running sums are the sum and the sum of squares of the last 48 values, and up to rounding (with exact arithmetic) \<open>rssi_stddev\<close> is their
  population standard deviation; below two values it is 0.
\<close>

theorem rssi_stddev_of_window:
  "let g = foldl (\<lambda>g v. rssi_push v g) rssi_zero vs; l = last_n 48 vs in
     rs_sum g = sum_list l \<and> rs_sq g = (\<Sum>x \<leftarrow> l. x * x) \<and> rs_filled g = length l \<and>
     rssi_stddev (\<lambda>x. x) g = (if length l < 2 then 0 else sqrt (pop_var l))"
proof -
  let ?g = "foldl (\<lambda>g v. rssi_push v g) rssi_zero vs"
  have i: "rssi_inv ?g" and w: "rssi_window ?g = last_n 48 vs" using rssi_pushes by simp_all
  have s: "rs_sum ?g = sum_list (last_n 48 vs)" "rs_sq ?g = (\<Sum>x \<leftarrow> last_n 48 vs. x * x)" "rs_filled ?g = length (last_n 48 vs)"
    using i w rssi_filled_window [OF i] by (simp_all add: rssi_inv_def)
  have "0 \<le> pop_var l" for l
    unfolding pop_var_def by (intro divide_nonneg_nonneg sum_list_nonneg) auto
  moreover have "rssi_stddev (\<lambda>x. x) ?g = sqrt (if pop_var (last_n 48 vs) < 0 then 0 else pop_var (last_n 48 vs))"
    if "\<not> length (last_n 48 vs) < 2"
  proof -
    have "last_n 48 vs \<noteq> []" using that by auto
    then show ?thesis using that by (simp add: rssi_stddev_def s pop_var_alt pop_mean_def Let_def)
  qed
  ultimately have "rssi_stddev (\<lambda>x. x) ?g = (if length (last_n 48 vs) < 2 then 0 else sqrt (pop_var (last_n 48 vs)))"
    using s(3) by (cases "length (last_n 48 vs) < 2") (simp_all add: rssi_stddev_def not_less)
  then show ?thesis using s by (simp add: Let_def)
qed

section \<open>Events alternate\<close>

text \<open>The runs of the detector after its initialisation: frames, channel state, ticks and recalibrations in any order.\<close>

inductive wm_run :: "(real \<Rightarrow> real) \<Rightarrow> wifimotion \<Rightarrow> wifimotion \<Rightarrow> bool" for fl w0 where
  init: "wm_run fl w0 (htsn_wifimotion_init dev mq now w0)"
| frame: "wm_run fl w0 w \<Longrightarrow> wm_run fl w0 (wifi_rssi_sink data clean rssi w)"
| csi: "wm_run fl w0 w \<Longrightarrow> wm_run fl w0 (wm_csi_cb fl b invalid w)"
| tick: "wm_run fl w0 w \<Longrightarrow> wm_run fl w0 (wm_tick fl now w)"
| recal: "wm_run fl w0 w \<Longrightarrow> wm_run fl w0 (htsn_wifimotion_recalibrate now w)"

definition event_pair :: "string \<Rightarrow> int \<times> real \<Rightarrow> (string \<times> string) list" where
  "event_pair dev e = (let ev = wm_event_text dev (fst e) (snd e) in [(''tsn/sensors/event'', ev), (''tsn/fx/data'', ev)])"

definition events_ok :: "wifimotion \<Rightarrow> bool" where
  "events_ok w \<longleftrightarrow> (\<exists>es. wf_events w = concat (map (event_pair (wf_dev_id w)) es) \<and> distinct_adj (map fst es) \<and>
     set (map fst es) \<subseteq> {0, 1} \<and> wm_last_report (wf_st w) = (if es = [] then - 1 else fst (last es)))"

lemma events_ok_cong:
  "wf_events w = wf_events v \<Longrightarrow> wf_dev_id w = wf_dev_id v \<Longrightarrow> wm_last_report (wf_st w) = wm_last_report (wf_st v) \<Longrightarrow>
   events_ok v \<Longrightarrow> events_ok w"
  by (simp add: events_ok_def)

lemma distinct_adj_snoc: "distinct_adj (xs @ [x]) \<longleftrightarrow> distinct_adj xs \<and> (xs = [] \<or> last xs \<noteq> x)"
  by (auto simp: distinct_adj_append_iff)

lemma wm_publish_ok:
  assumes "events_ok w" and "m = 0 \<or> m = 1"
  shows "events_ok (wm_publish_event m w)"
proof (cases "\<not> wf_mq w \<or> m = wm_last_report (wf_st w)")
  case False
  obtain es where es: "wf_events w = concat (map (event_pair (wf_dev_id w)) es)" "distinct_adj (map fst es)"
    "set (map fst es) \<subseteq> {0, 1}" "wm_last_report (wf_st w) = (if es = [] then - 1 else fst (last es))"
    using assms(1) unfolding events_ok_def by blast
  let ?e = "(m, rs_last_stddev (wf_rssi w))"
  have "distinct_adj (map fst (es @ [?e]))"
    using es(2,4) False by (auto simp: distinct_adj_snoc last_map)
  then show ?thesis
    unfolding events_ok_def using es False assms(2)
    by (intro exI [of _ "es @ [?e]"]) (auto simp: wm_publish_event_def event_pair_def Let_def)
qed (use assms in \<open>simp add: wm_publish_event_def\<close>)

lemma wm_decide_ok:
  assumes "events_ok w"
  shows "events_ok (wm_decide now move w)"
proof -
  define p where "p = (if move then (1, (wf_st w)\<lparr>wm_active := True, wm_latched := True, wm_latch_until := now + 4500 * 1000\<rparr>)
                     else if wm_latched (wf_st w) \<and> now < wm_latch_until (wf_st w) then (1 :: int, wf_st w)
                     else (0, (wf_st w)\<lparr>wm_active := False, wm_latched := False\<rparr>))"
  have m: "fst p = 0 \<or> fst p = 1" and l: "wm_last_report (snd p) = wm_last_report (wf_st w)" by (auto simp: p_def)
  let ?w1 = "w\<lparr>wf_st := snd p\<rparr>"
  let ?w2 = "if fst p \<noteq> wm_last_report (snd p) then wm_publish_event (fst p) ?w1 else ?w1"
  have "events_ok ?w1" using assms l by (auto intro: events_ok_cong [of _ w])
  then have "events_ok ?w2" using wm_publish_ok m by simp
  then have "events_ok (?w2\<lparr>wf_st := (wf_st ?w2)\<lparr>wm_window_start := now\<rparr>\<rparr>)" by (rule events_ok_cong [rotated 3]) simp_all
  then show ?thesis unfolding wm_decide_def Let_def p_def [symmetric] case_prod_unfold .
qed

lemma wm_tick_ok:
  assumes "events_ok w"
  shows "events_ok (wm_tick fl now w)"
proof -
  have c: "events_ok (wm_calibrate fl now a b v)" if "events_ok v" for a b v
    using that by (auto simp: wm_calibrate_def Let_def intro: events_ok_cong [of _ v])
  have "events_ok (w\<lparr>wf_rssi := r, wf_csi := k\<rparr>)" for r k using assms by (auto intro: events_ok_cong [of _ w])
  then show ?thesis using assms c wm_decide_ok by (simp add: wm_tick_def Let_def)
qed

text \<open>
  C29. Motion events alternate: in every run of the detector the messages published are pairs with the same text on the
  two topics, each telling motion or rest, and no two events in a row tell the same; the last one is what the detector
  remembers as reported.
\<close>

theorem motion_events_alternate:
  assumes "wm_run fl w0 w" and "wf_events w0 = []"
  shows "\<exists>es. wf_events w = concat (map (event_pair (wf_dev_id w)) es) \<and> distinct_adj (map fst es) \<and>
    set (map fst es) \<subseteq> {0, 1} \<and> wm_last_report (wf_st w) = (if es = [] then - 1 else fst (last es))"
proof -
  have "events_ok w"
    using assms
  proof (induction rule: wm_run.induct)
    case (init dev mq now)
    then show ?case by (auto simp: events_ok_def htsn_wifimotion_init_def intro!: exI [of _ "[]"])
  next
    case (frame w data clean rssi)
    then show ?case by (auto simp: wifi_rssi_sink_def intro: events_ok_cong [of _ w])
  next
    case (csi w b invalid)
    then show ?case by (auto simp: wm_csi_cb_def intro: events_ok_cong [of _ w])
  next
    case (tick w now)
    then show ?case using wm_tick_ok by simp
  next
    case (recal w now)
    then show ?case by (auto simp: htsn_wifimotion_recalibrate_def intro: events_ok_cong [of _ w])
  qed
  then show ?thesis by (simp only: events_ok_def)
qed

theorem motion_events_alternate_witness:
  "\<exists>es. wf_events (htsn_wifimotion_init None True 5 (wifimotion_zero False)) = concat (map (event_pair ''esp32-01'') es) \<and> distinct_adj (map fst es)"
  using motion_events_alternate [OF wm_run.init [of "\<lambda>x. x" "wifimotion_zero False" None True 5]]
  by (fastforce simp: wifimotion_zero_def htsn_wifimotion_init_def)

text \<open>A rest is not decided while a detection is latched.\<close>

lemma no_rest_while_latched:
  assumes "wm_latched (wf_st w)" and "now < wm_latch_until (wf_st w)" and "wf_mq w"
  shows "wm_last_report (wf_st (wm_decide now move w)) = 1 \<and> wm_latched (wf_st (wm_decide now move w))"
  using assms by (simp add: wm_decide_def wm_publish_event_def Let_def)

end
