(* ===== verification/Esp_Sensor.thy ===== *)
theory Esp_Sensor
  imports Wifi_Motion Esp_Agent
begin

text \<open>
  The sensor board of the ESP32 (\<open>htsn_sensor.c\<close>): calibration and compensation of the BME280, light, the held motion
  signal, the timer switch, the buzzer and the periodic telemetry. Registers, pins, clocks and the converter are inputs;
  floating point results are rounded by \<open>fl\<close>. A signed overflow, which is undefined, is \<open>None\<close>; shifts of negative numbers
  are those of the compiler (arithmetic).
\<close>

section \<open>Calibration\<close>

text \<open>\<open>calib_temp\<close> has type \<open>uint16_t\<close>; \<open>cal_p\<close> holds P1 to P9.\<close>

record bme_calib =
  cal_t :: "u16 list"
  cal_p :: "int list"
  cal_h1 :: int
  cal_h2 :: int
  cal_h3 :: int
  cal_h4 :: int
  cal_h5 :: int
  cal_h6 :: int

definition u16_le :: "byte list \<Rightarrow> nat \<Rightarrow> u16" where
  "u16_le b i = push_bit 8 (ucast (b ! (i + 1))) OR ucast (b ! i)"

definition read_calib :: "byte list \<Rightarrow> bme_calib \<Rightarrow> bme_calib" where
  "read_calib b c =
     c\<lparr>cal_t := [u16_le b 0, u16_le b 2, u16_le b 4],
       cal_p := uint (u16_le b 6) # map (\<lambda>i. sint (u16_le b (6 + 2 * i))) [1..<9]\<rparr>"

definition read_calib_hum :: "byte list \<Rightarrow> bme_calib \<Rightarrow> bme_calib" where
  "read_calib_hum h c =
     c\<lparr>cal_h1 := uint (h ! 0), cal_h2 := sint (u16_le h 1), cal_h3 := sint (h ! 3),
       cal_h4 := 16 * uint (h ! 4) + uint (h ! 5 AND 0x0F), cal_h5 := uint (drop_bit 4 (h ! 5)) + 16 * uint (h ! 6),
       cal_h6 := sint (h ! 7)\<rparr>"

section \<open>Compensation\<close>

definition i32 :: "int \<Rightarrow> int option" where "i32 x = (if in_i32 x then Some x else None)"
definition i64 :: "int \<Rightarrow> int option" where "i64 x = (if in_i64 x then Some x else None)"

definition adc20 :: "byte list \<Rightarrow> nat \<Rightarrow> int" where
  "adc20 b i = 4096 * uint (b ! i) + 16 * uint (b ! (i + 1)) + uint (b ! (i + 2)) div 16"

definition adc16 :: "byte list \<Rightarrow> nat \<Rightarrow> int" where
  "adc16 b i = 256 * uint (b ! i) + uint (b ! (i + 1))"

definition bme_t_fine :: "bme_calib \<Rightarrow> int \<Rightarrow> int option" where
  "bme_t_fine c adc_t = do {
     a \<leftarrow> i32 ((adc_t div 8 - 2 * uint (cal_t c ! 0)) * uint (cal_t c ! 1));
     s \<leftarrow> i32 ((adc_t div 16 - uint (cal_t c ! 0)) * (adc_t div 16 - uint (cal_t c ! 0)));
     b \<leftarrow> i32 (s div 4096 * uint (cal_t c ! 2));
     i32 (a div 2048 + b div 16384)
   }"

definition bme_temp :: "(real \<Rightarrow> real) \<Rightarrow> int \<Rightarrow> real option" where
  "bme_temp fl t_fine = do {
     u \<leftarrow> i32 (t_fine * 5);
     v \<leftarrow> i32 (u + 128);
     Some (fl (fl (real_of_int (v div 256)) / 100))
   }"

text \<open>The pressure; \<open>Some None\<close> leaves the caller's variable as it is.\<close>

definition bme_press :: "(real \<Rightarrow> real) \<Rightarrow> bme_calib \<Rightarrow> int \<Rightarrow> int \<Rightarrow> real option option" where
  "bme_press fl c t_fine adc_p =
     (let P = (\<lambda>i. cal_p c ! i) in do {
      v1 \<leftarrow> i64 (t_fine - 128000);
      q \<leftarrow> i64 (v1 * v1);
      v2 \<leftarrow> i64 (q * P 5);
      a \<leftarrow> i64 (v1 * P 4);
      a1 \<leftarrow> i64 (a * 2 ^ 17);
      v2 \<leftarrow> i64 (v2 + a1);
      a2 \<leftarrow> i64 (P 3 * 2 ^ 35);
      v2 \<leftarrow> i64 (v2 + a2);
      b \<leftarrow> i64 (q * P 2);
      b1 \<leftarrow> i64 (v1 * P 1);
      b2 \<leftarrow> i64 (b1 * 2 ^ 12);
      v1 \<leftarrow> i64 (b div 2 ^ 8 + b2);
      v1 \<leftarrow> i64 (2 ^ 47 + v1);
      v1 \<leftarrow> i64 (v1 * P 0);
      (let v1 = v1 div 2 ^ 33 in
       if v1 = 0 then Some None
       else do {
         p \<leftarrow> i64 ((1048576 - adc_p) * 2 ^ 31);
         p \<leftarrow> i64 (p - v2);
         p \<leftarrow> i64 (p * 3125);
         p \<leftarrow> i64 (p sdiv v1);
         s \<leftarrow> i64 (p div 2 ^ 13 * (p div 2 ^ 13));
         p8 \<leftarrow> i64 (P 8 * s);
         p7 \<leftarrow> i64 (P 7 * p);
         f \<leftarrow> i64 (p + p8 div 2 ^ 25);
         f \<leftarrow> i64 (f + p7 div 2 ^ 19);
         f \<leftarrow> i64 (f div 2 ^ 8 + P 6 * 2 ^ 4);
         f \<leftarrow> i64 (f div 2 * 100);
         Some (Some (fl (fl (real_of_int (f sdiv 128)) / 10000)))
       })
     })"

definition bme_hum_raw :: "bme_calib \<Rightarrow> int \<Rightarrow> int \<Rightarrow> int option" where
  "bme_hum_raw c t_fine adc_h = do {
     v1 \<leftarrow> i32 (t_fine - 76800);
     v2 \<leftarrow> i32 (adc_h * 16384);
     v3 \<leftarrow> i32 (cal_h4 c * 1048576);
     v4 \<leftarrow> i32 (cal_h5 c * v1);
     a \<leftarrow> i32 (v2 - v3);
     a \<leftarrow> i32 (a - v4);
     a \<leftarrow> i32 (a + 16384);
     (let v5 = a sdiv 32768 in do {
        b \<leftarrow> i32 (v1 * cal_h6 c);
        d \<leftarrow> i32 (v1 * cal_h3 c);
        e \<leftarrow> i32 (d sdiv 2048 + 32768);
        g \<leftarrow> i32 (b sdiv 1024 * e);
        v4 \<leftarrow> i32 (g sdiv 1024 + 2097152);
        h \<leftarrow> i32 (v4 * cal_h2 c);
        h \<leftarrow> i32 (h + 8192);
        v3 \<leftarrow> i32 (v5 * (h sdiv 16384));
        k \<leftarrow> i32 (v3 sdiv 32768 * (v3 sdiv 32768));
        l \<leftarrow> i32 (k sdiv 128 * cal_h1 c);
        v5 \<leftarrow> i32 (v3 - l sdiv 16);
        (let v5 = (if v5 < 0 then 0 else v5);
             v5 = (if v5 > 419430400 then 419430400 else v5);
             hum = v5 sdiv 4096
         in Some (if hum > 102400 then 102400 else hum))
      })
   }"

definition bme_hum :: "(real \<Rightarrow> real) \<Rightarrow> bme_calib \<Rightarrow> int \<Rightarrow> int \<Rightarrow> real option" where
  "bme_hum fl c t_fine adc_h =
     map_option (\<lambda>raw.
       let hum = fl (fl (real_of_int raw) / 1024);
           hum = (if hum \<le> fl 0.1 then fl (fl (real_of_int adc_h) / 1024) else hum);
           hum = (if hum > 100 then 100 else hum)
       in if hum < 0 then 0 else hum) (bme_hum_raw c t_fine adc_h)"

text \<open>The results of \<open>bme280_read\<close>, or \<open>None\<close> for those it does not set.\<close>

definition bme280_read :: "(real \<Rightarrow> real) \<Rightarrow> bool \<Rightarrow> bme_calib \<Rightarrow> byte list option \<Rightarrow> (real option \<times> real option \<times> real option) option" where
  "bme280_read fl bme_ok c regs =
     (case (if bme_ok then regs else None) of
        None \<Rightarrow> Some (None, None, None)
      | Some b \<Rightarrow> do {
          t \<leftarrow> bme_t_fine c (adc20 b 3);
          temp \<leftarrow> bme_temp fl t;
          press \<leftarrow> bme_press fl c t (adc20 b 0);
          hum \<leftarrow> bme_hum fl c t (adc16 b 6);
          Some (Some temp, press, Some hum)
        })"

definition light_lux :: "(real \<Rightarrow> real) \<Rightarrow> nat \<Rightarrow> int" where
  "light_lux fl mv = (let lux = fl (fl (real mv) * fl 3.6) in \<lfloor>if lux < 0 then 0 else lux\<rfloor>)"

section \<open>State\<close>

text \<open>
  The globals of the file with those of the motion detector; \<open>sn_out\<close> are the messages published through the agent's
  client, \<open>sn_pins\<close> the levels written to the switch.
\<close>

record sensor =
  sn_dev_id :: string
  sn_mq :: bool
  sn_bme_ok :: bool
  sn_calib :: bme_calib
  sn_prev_pir :: int
  sn_actor_mode :: int
  sn_pir_latch :: int
  sn_pir_flag :: bool
  sn_last_tick :: int
  sn_temp :: real
  sn_press :: real
  sn_hum :: real
  sn_light :: int
  sn_pir :: int
  sn_wfm :: wifimotion
  sn_wfm_std :: real
  sn_last_wfm :: string
  sn_adc_cal :: bool
  sn_buzzer_on :: bool
  sn_buzzer_active :: bool
  sn_pins :: "int list"
  sn_out :: "(string \<times> string) list"

definition sn_publish :: "string \<Rightarrow> string \<Rightarrow> sensor \<Rightarrow> sensor" where
  "sn_publish topic payload s = s\<lparr>sn_out := sn_out s @ [(topic, payload)]\<rparr>"

section \<open>Initialisation\<close>

text \<open>\<open>chip\<close>, \<open>cal\<close> and \<open>hum\<close> are the registers read, \<open>None\<close> for a failed transfer.\<close>

definition bme280_init :: "byte option \<Rightarrow> byte list option \<Rightarrow> byte list option \<Rightarrow> sensor \<Rightarrow> int \<times> sensor" where
  "bme280_init chip cal hum s =
     (if chip \<noteq> Some 0x60 then (- 1, s)
      else
        (case cal of
           None \<Rightarrow> (- 1, s)
         | Some b \<Rightarrow>
             (let c = read_calib b (sn_calib s);
                  c1 = (case hum of None \<Rightarrow> c | Some h \<Rightarrow> read_calib_hum h c)
              in (0, s\<lparr>sn_calib := c1, sn_bme_ok := True\<rparr>))))"

definition htsn_sensor_probe :: "byte option \<Rightarrow> bool" where
  "htsn_sensor_probe chip \<longleftrightarrow> chip = Some 0x60"

definition htsn_sensor_init ::
  "string option \<Rightarrow> bool \<Rightarrow> byte option \<Rightarrow> byte list option \<Rightarrow> byte list option \<Rightarrow> int \<Rightarrow> sensor \<Rightarrow> sensor" where
  "htsn_sensor_init device_id mq chip cal hum now s =
     (let s1 = s\<lparr>sn_dev_id := (case device_id of Some i \<Rightarrow> snprintf_buf 32 i | None \<Rightarrow> sn_dev_id s), sn_mq := mq\<rparr>;
          s2 = snd (bme280_init chip cal hum s1)
      in s2\<lparr>sn_adc_cal := True, sn_buzzer_on := True, sn_wfm := htsn_wifimotion_init device_id mq now (sn_wfm s2)\<rparr>)"

section \<open>Switch and buzzer\<close>

definition actor_apply :: "int \<Rightarrow> sensor \<Rightarrow> sensor" where
  "actor_apply mode0 s =
     (let mode1 = (if mode0 < 0 then 0 else mode0);
          mode = (if mode1 \<ge> 8 then 7 else mode1);
          s1 = s\<lparr>sn_actor_mode := mode\<rparr>
      in if mode = 7 then s1\<lparr>sn_pins := sn_pins s1 @ [1, 0]\<rparr>
         else s1\<lparr>sn_pins := sn_pins s1 @ [if mode = 1 \<or> mode = 2 \<or> mode = 3 \<or> mode = 6 then 1 else 0]\<rparr>)"

definition htsn_sensor_actor_set :: "int \<Rightarrow> sensor \<Rightarrow> int \<times> sensor" where
  "htsn_sensor_actor_set mode s = (sn_actor_mode s, actor_apply mode s)"

text \<open>Whether a tone starts; the timer of the tone ends it.\<close>

definition sn_buzzer_beep :: "sensor \<Rightarrow> sensor" where
  "sn_buzzer_beep s = (if \<not> sn_buzzer_on s \<or> sn_buzzer_active s then s else s\<lparr>sn_buzzer_active := True\<rparr>)"

definition buzzer_timer_cb :: "sensor \<Rightarrow> sensor" where
  "buzzer_timer_cb s = s\<lparr>sn_buzzer_active := False\<rparr>"

definition pir_isr :: "int \<Rightarrow> int \<Rightarrow> sensor \<Rightarrow> sensor" where
  "pir_isr level now_us s = (if level \<noteq> 0 then s\<lparr>sn_pir_latch := now_us, sn_pir_flag := True\<rparr> else s)"

text \<open>The body of the loop of \<open>pir_isr_task\<close>.\<close>

definition pir_isr_pass :: "sensor \<Rightarrow> sensor" where
  "pir_isr_pass s = (if sn_pir_flag s then sn_buzzer_beep (s\<lparr>sn_pir_flag := False\<rparr>) else s)"

section \<open>Telemetry\<close>

text \<open>\<open>%.1f\<close>\<close>

definition fmt_s1f :: "real \<Rightarrow> string" where
  "fmt_s1f x = (if x < 0 then ''-'' @ fmt_1f (- x) else fmt_1f x)"

definition sensor_entry :: "string \<Rightarrow> int \<Rightarrow> string \<Rightarrow> string \<Rightarrow> string" where
  "sensor_entry sid ty val unit =
     ''{'' @ js_str ''sensor_id'' sid @ '','' @ js_num ''type'' ty @ '','' @ dq @ ''value'' @ dq @ '':'' @ val @ '','' @
     js_str ''unit'' unit @ '','' @ js_num ''healthy'' 1 @ ''}''"

text \<open>
  The readings of one tick: the time in microseconds, the wall clock, the registers, the voltage of the light sensor and
  the level of the motion sensor.
\<close>

record readings =
  rd_now_us :: int
  rd_time :: int
  rd_regs :: "byte list option"
  rd_mv :: nat
  rd_pir :: int

text \<open>The entries written into the message, as they stand in their own buffers; a reading that is missing has none.\<close>

definition temp_entry :: "real \<Rightarrow> string" where
  "temp_entry t = (if t > - 500 then snprintf_buf 96 (sensor_entry ''temp1'' 0 (fmt_s1f t) ''C'') else [])"

definition press_entry :: "real \<Rightarrow> string" where
  "press_entry p = (if p > - 500 then snprintf_buf 96 (sensor_entry ''press1'' 1 (fmt_s1f p) ''hPa'') else [])"

definition hum_entry :: "real \<Rightarrow> string" where
  "hum_entry h = (if h > 0 then snprintf_buf 96 (sensor_entry ''hum1'' 0 (fmt_s1f h) ''%'') else [])"

definition light_entry :: "int \<Rightarrow> string" where
  "light_entry l = snprintf_buf 96 (sensor_entry ''light1'' 4 (dec_int l) ''lx'')"

definition pir_entry :: "int \<Rightarrow> string" where
  "pir_entry p = snprintf_buf 96 (sensor_entry ''pir1'' 4 (dec_int p) [])"

definition wfm_entry :: "(real \<Rightarrow> real) \<Rightarrow> sensor \<Rightarrow> string" where
  "wfm_entry fl s =
     snprintf_buf 80 (sensor_entry ''wifi_motion'' 4 (dec_int (htsn_wifimotion_motion (sn_wfm s)))
       (let x = fl (sn_wfm_std s * 10) in dec_int (if x < 0 then - \<lfloor>- x\<rfloor> else \<lfloor>x\<rfloor>)))"

definition actor_entry :: "int \<Rightarrow> string" where
  "actor_entry mode = sensor_entry ''actor_mode'' 4 (dec_int mode) []"

definition sensor_head :: "string \<Rightarrow> int \<Rightarrow> string" where
  "sensor_head dev now = ''{'' @ js_str ''id'' dev @ '','' @ js_num ''ts'' now @ '','' @ dq @ ''sensors'' @ dq @ '':[''"

text \<open>
  The message in its buffer of 512 bytes: the head is written with one byte less, and the end goes to at most the fourth byte
  from the end. \<open>None\<close> is a write behind the buffer.
\<close>

definition sensor_message :: "string \<Rightarrow> int \<Rightarrow> string list \<Rightarrow> string option" where
  "sensor_message dev now es = do {
     bo \<leftarrow> sn_list 512 True es (snprintf_buf 511 (sensor_head dev now), length (sensor_head dev now));
     (let m = (if snd bo > 508 then 508 else snd bo) in Some (take m (fst bo) @ '']}''))
   }"

definition pir_event_text :: "string \<Rightarrow> int \<Rightarrow> string" where
  "pir_event_text dev pir =
     snprintf_buf 96 (''{'' @ js_str ''id'' dev @ '','' @ js_num ''motion'' pir @ '','' @ js_num ''raw'' pir @ ''}'')"

definition sensor_topic :: "string \<Rightarrow> string \<Rightarrow> string" where
  "sensor_topic dev name = snprintf_buf 96 (''tsn/sensors/'' @ dev @ ''/'' @ name)"

definition pir_report :: "int \<Rightarrow> int \<Rightarrow> int \<Rightarrow> int" where
  "pir_report pir now_us latch = (if pir = 1 then 1 else if now_us - latch < 5000000 then 1 else 0)"

text \<open>The messages of a tick, in order.\<close>

definition publish_readings :: "string \<Rightarrow> string \<Rightarrow> string \<Rightarrow> string \<Rightarrow> string \<Rightarrow> string \<Rightarrow> string \<Rightarrow> sensor \<Rightarrow> sensor" where
  "publish_readings msg et epr eh el ei ew s =
     (let dev = sn_dev_id s
      in foldl (\<lambda>s (t, p). sn_publish t p s) s
           [(''tsn/sensors'', msg), (snprintf_buf 48 (''tsn/fx/'' @ dev), msg), (sensor_topic dev ''temp'', et),
            (sensor_topic dev ''press'', epr), (sensor_topic dev ''hum'', eh), (sensor_topic dev ''light'', el), (sensor_topic dev ''pir'', ei),
            (sensor_topic dev ''wifi_motion'', ew)])"

definition pir_edge :: "int \<Rightarrow> sensor \<Rightarrow> sensor" where
  "pir_edge pir s =
     (if pir \<noteq> sn_prev_pir s
      then (sn_publish ''tsn/fx/data'' (pir_event_text (sn_dev_id s) pir)
              (sn_publish ''tsn/sensors/event'' (pir_event_text (sn_dev_id s) pir) s))\<lparr>sn_prev_pir := pir\<rparr>
      else s)"

definition sensor_publish :: "(real \<Rightarrow> real) \<Rightarrow> readings \<Rightarrow> real \<times> real \<times> real \<Rightarrow> sensor \<Rightarrow> sensor option" where
  "sensor_publish fl r v s =
     (let (temp, press, hum) = v;
          light = (if sn_adc_cal s then light_lux fl (rd_mv r) else 0);
          pir = rd_pir r;
          s1 = (if pir = 1 then s\<lparr>sn_pir_latch := rd_now_us r\<rparr> else s);
          rep = pir_report pir (rd_now_us r) (sn_pir_latch s1);
          ew = wfm_entry fl s1;
          es = filter (\<lambda>e. e \<noteq> []) [temp_entry temp, press_entry press, hum_entry hum] @
                 [light_entry light, pir_entry rep, ew, actor_entry (sn_actor_mode s1)]
      in do {
        msg \<leftarrow> sensor_message (sn_dev_id s1) (rd_time r) es;
        (let s2 = s1\<lparr>sn_last_wfm := snprintf_buf 80 ew,
                     sn_temp := (if temp > - 500 then temp else sn_temp s1), sn_press := (if press > - 500 then press else sn_press s1),
                     sn_hum := (if hum > 0 then hum else sn_hum s1), sn_light := light, sn_pir := rep\<rparr>;
             s3 = publish_readings msg (temp_entry temp) (press_entry press) (hum_entry hum) (light_entry light) (pir_entry rep)
                    (if sn_last_wfm s2 \<noteq> [] then sn_last_wfm s2 else ew) s2
         in Some (pir_edge pir s3))
      })"

text \<open>
  The motion detector publishes through the same client: its events of this tick are appended. The missing readings have
  the value \<open>-999\<close> of the code.
\<close>

definition sensor_wifimotion :: "(real \<Rightarrow> real) \<Rightarrow> int \<Rightarrow> sensor \<Rightarrow> sensor" where
  "sensor_wifimotion fl now_us s =
     (let w = wm_tick fl now_us (sn_wfm s)
      in s\<lparr>sn_wfm := w, sn_wfm_std := rs_last_stddev (wf_rssi w),
           sn_out := sn_out s @ drop (length (wf_events (sn_wfm s))) (wf_events w)\<rparr>)"

definition htsn_sensor_tick :: "(real \<Rightarrow> real) \<Rightarrow> readings \<Rightarrow> sensor \<Rightarrow> sensor option" where
  "htsn_sensor_tick fl r s =
     (let now = rd_now_us r * 1000
      in if now - sn_last_tick s < 2000000000 then Some s
         else
           (let s1 = s\<lparr>sn_last_tick := now\<rparr>
            in if \<not> sn_mq s1 then Some s1
               else if sn_dev_id s1 \<noteq> ''esp32-01'' \<and> sn_dev_id s1 \<noteq> ''esp32-1'' then Some s1
               else do {
                 v \<leftarrow> bme280_read fl (sn_bme_ok s1) (sn_calib s1) (rd_regs r);
                 (let num = (\<lambda>x. case x of Some y \<Rightarrow> y | None \<Rightarrow> - 999)
                  in do {
                    s2 \<leftarrow> sensor_publish fl r (num (fst v), num (fst (snd v)), num (snd (snd v))) s1;
                    Some (sensor_wifimotion fl (rd_now_us r) s2)
                  })
               }))"

definition htsn_sensor_last :: "sensor \<Rightarrow> real \<times> real \<times> real \<times> int \<times> int \<times> int" where
  "htsn_sensor_last s = (sn_temp s, sn_press s, sn_hum s, sn_light s, sn_pir s, sn_actor_mode s)"

section \<open>Temperature\<close>

text \<open>The manufacturer's formula with signed coefficients, without machine integers.\<close>

definition bosch_t_fine :: "int \<Rightarrow> int \<Rightarrow> int \<Rightarrow> int \<Rightarrow> int" where
  "bosch_t_fine t1 t2 t3 adc_t =
     (adc_t div 8 - 2 * t1) * t2 div 2048 + (adc_t div 16 - t1) ^ 2 div 4096 * t3 div 16384"

lemma uint_sint16: "uint (w :: u16) = sint w + (if sint w < 0 then 65536 else 0)"
proof -
  have s: "sint w = (uint w + 32768) mod 65536 - 32768"
    by (simp add: sint_uint signed_take_bit_eq_take_bit_shift take_bit_eq_mod)
  have "0 \<le> uint w" "uint w < 65536" using uint_bounded [of w] by simp_all
  then show ?thesis
  proof (cases "uint w < 32768")
    case False
    then have "(uint w + 32768) mod 65536 = uint w - 32768"
      using \<open>uint w < 65536\<close> by (simp add: mod_pos_geq)
    with False s \<open>uint w < 65536\<close> show ?thesis by simp
  qed (simp add: s)
qed

lemma div_shift_16: "x * (s + 65536) div 16384 = x * s div 16384 + 4 * x" for x s :: int
proof -
  have "x * (s + 65536) = x * s + 4 * x * 16384" by (simp add: algebra_simps)
  then show ?thesis by (simp only: div_mult_self1)
qed

text \<open>
  C22. The temperature is compensated as the manufacturer says when the third coefficient is not negative; a negative one
  is stored in an unsigned variable, and then the fine temperature is too high by four times the square term, in every
  reading. (The second coefficient is not negative.)
\<close>

theorem bme_temperature_bias:
  assumes "bme_t_fine (read_calib b c) adc_t = Some t" and "0 \<le> sint (u16_le b 2)"
  shows "t = bosch_t_fine (uint (u16_le b 0)) (sint (u16_le b 2)) (sint (u16_le b 4)) adc_t +
    (if sint (u16_le b 4) < 0 then 4 * ((adc_t div 16 - uint (u16_le b 0)) ^ 2 div 4096) else 0)"
proof -
  let ?d = "adc_t div 16 - uint (u16_le b 0)"
  have t: "t = (adc_t div 8 - 2 * uint (u16_le b 0)) * uint (u16_le b 2) div 2048 + ?d * ?d div 4096 * uint (u16_le b 4) div 16384"
    using assms(1) by (simp add: bme_t_fine_def read_calib_def i32_def bind_eq_Some_conv split: if_splits)
  have u: "uint (u16_le b 2) = sint (u16_le b 2)" using uint_sint16 [of "u16_le b 2"] assms(2) by simp
  show ?thesis
  proof (cases "sint (u16_le b 4) < 0")
    case True
    then have "uint (u16_le b 4) = sint (u16_le b 4) + 65536" using uint_sint16 [of "u16_le b 4"] by simp
    then show ?thesis unfolding t u bosch_t_fine_def using True by (simp only: div_shift_16 power2_eq_square) simp
  next
    case False
    then have "uint (u16_le b 4) = sint (u16_le b 4)" using uint_sint16 [of "u16_le b 4"] by simp
    then show ?thesis unfolding t u bosch_t_fine_def using False by (simp only: power2_eq_square) simp
  qed
qed

definition demo_calib :: bme_calib where
  "demo_calib = \<lparr>cal_t = [0, 0, 0], cal_p = replicate 9 0, cal_h1 = 0, cal_h2 = 0, cal_h3 = 0, cal_h4 = 0, cal_h5 = 0, cal_h6 = 0\<rparr>"

text \<open>The example of the data sheet: the coefficients 27504, 26435 and -1000 give 25.08 degrees, here they give 29.83.\<close>

definition demo_regs :: "byte list" where
  "demo_regs = [0x70, 0x6B, 0x43, 0x67, 0x18, 0xFC] @ replicate 20 0"

lemma demo_coefficients:
  "u16_le demo_regs 0 = 27504" "u16_le demo_regs 2 = 26435" "u16_le demo_regs 4 = 64536"
  by (simp_all add: u16_le_def demo_regs_def)

theorem bme_temperature_bias_witness:
  "bme_t_fine (read_calib demo_regs demo_calib) 519888 = Some 152726 \<and>
   bosch_t_fine 27504 26435 (- 1000) 519888 + 4 * (4989 ^ 2 div 4096) = 152726"
proof -
  have t: "bme_t_fine (read_calib demo_regs demo_calib) 519888 = Some 152726"
    by (simp add: bme_t_fine_def read_calib_def demo_coefficients i32_def in_i32_def)
  show ?thesis using bme_temperature_bias [OF t] t by (simp add: demo_coefficients)
qed

section \<open>Lengths of numbers\<close>

lemma length_dec_nat_ge: "10 ^ k \<le> n \<Longrightarrow> k < length (dec_nat n)"
proof (induction n arbitrary: k rule: dec_nat.induct)
  case (1 n)
  show ?case
  proof (cases "n < 10")
    case True
    have "k = 0"
    proof (rule ccontr)
      assume "k \<noteq> 0"
      then have "10 \<le> (10 :: nat) ^ k" by (cases k) simp_all
      with True "1.prems" show False by simp
    qed
    then show ?thesis using dec_nat_nonempty [of n] by simp
  next
    case False
    show ?thesis
    proof (cases k)
      case 0
      then show ?thesis using dec_nat_nonempty [of n] by simp
    next
      case (Suc j)
      then have "10 ^ j \<le> n div 10" using "1.prems" by simp
      then show ?thesis using "1.IH" [OF False] Suc False by (subst dec_nat.simps) simp
    qed
  qed
qed

lemma round_even_ge: "real_of_int n \<le> x \<Longrightarrow> n \<le> round_even x"
  using le_floor_iff [of n x] by (auto simp: round_even_def Let_def)

lemma round_even_le: "x \<le> real_of_int n \<Longrightarrow> round_even x \<le> n"
proof -
  assume a: "x \<le> real_of_int n"
  show ?thesis
  proof (cases "x = real_of_int \<lfloor>x\<rfloor>")
    case True
    then have "round_even x = \<lfloor>x\<rfloor>" by (simp add: round_even_def)
    then show ?thesis using a by (simp add: floor_le_iff)
  next
    case False
    then have "real_of_int \<lfloor>x\<rfloor> < real_of_int n" using a of_int_floor_le [of x] by linarith
    then show ?thesis by (auto simp: round_even_def Let_def)
  qed
qed

lemma length_fmt_1f:
  assumes "0 \<le> x" and "x < 10 ^ k" and "0 < k"
  shows "3 \<le> length (fmt_1f x)" and "length (fmt_1f x) \<le> k + 3" and "10 ^ j \<le> x \<Longrightarrow> j + 3 \<le> length (fmt_1f x)"
proof -
  let ?t = "nat (round_even (10 * x))"
  have d: "length (dec_nat (?t mod 10)) = 1" by (subst dec_nat.simps) simp
  have l: "length (fmt_1f x) = length (dec_nat (?t div 10)) + 2" by (simp add: fmt_1f_def Let_def d)
  have "10 * x \<le> real_of_int (10 ^ Suc k)" using assms(2) by simp
  then have "round_even (10 * x) \<le> 10 ^ Suc k" by (rule round_even_le)
  then have "int ?t \<le> 10 ^ Suc k" by simp
  then have "?t \<le> 10 ^ Suc k" by (metis of_nat_le_iff of_nat_numeral of_nat_power)
  then have "?t div 10 \<le> 10 ^ k" using div_le_mono [of ?t "10 ^ Suc k" 10] by simp
  then have "?t div 10 < 10 ^ Suc k" by (simp add: le_less_trans)
  then show "length (fmt_1f x) \<le> k + 3" using l length_dec_nat [of "?t div 10" "Suc k"] by simp
  show "3 \<le> length (fmt_1f x)" using l dec_nat_nonempty [of "?t div 10"] by (cases "dec_nat (?t div 10)") simp_all
  show "j + 3 \<le> length (fmt_1f x)" if "10 ^ j \<le> x"
  proof -
    have "real_of_int (10 ^ Suc j) \<le> 10 * x" using that by simp
    then have "10 ^ Suc j \<le> round_even (10 * x)" by (rule round_even_ge)
    moreover have "0 \<le> round_even (10 * x)" using round_even_ge [of 0 "10 * x"] assms(1) by simp
    ultimately have "10 ^ Suc j \<le> ?t" using le_nat_iff [of "round_even (10 * x)" "10 ^ Suc j"] by simp
    then have "10 ^ j \<le> ?t div 10" using div_le_mono [of "10 ^ Suc j" ?t 10] by simp
    from length_dec_nat_ge [OF this] show ?thesis using l by simp
  qed
qed

lemma length_fmt_s1f:
  assumes "\<bar>x\<bar> < 10 ^ k" and "0 < k"
  shows "3 \<le> length (fmt_s1f x)" and "length (fmt_s1f x) \<le> k + 4"
  using length_fmt_1f [of "\<bar>x\<bar>" k] assms by (auto simp: fmt_s1f_def abs_if split: if_splits)

section \<open>The message\<close>

lemma length_sensor_entry: "length (sensor_entry sid ty val unit) = 55 + length sid + length (dec_int ty) + length val + length unit"
  by (simp add: sensor_entry_def js_str_def js_num_def dq_def dec_int_def dec_nat.simps [of "Suc 0"])

lemma length_sensor_head: "length (sensor_head dev now) = 26 + length dev + length (dec_int now)"
  by (simp add: sensor_head_def js_str_def js_num_def dq_def)

definition full_text :: "string \<Rightarrow> int \<Rightarrow> string list \<Rightarrow> string" where
  "full_text dev now es = sensor_head dev now @ csv True es"

lemma sensor_message_text:
  assumes "length (sensor_head dev now) \<le> 510" and "es \<noteq> []"
  shows "sensor_message dev now es =
    (if length (full_text dev now (butlast es)) \<le> 512 then Some (take 508 (full_text dev now es) @ '']}'') else None)"
proof -
  have "snprintf_buf 511 (sensor_head dev now) = take 511 (sensor_head dev now)" using assms(1) by (simp add: snprintf_buf_def)
  moreover have "sn_list 512 True es (take 511 (sensor_head dev now), length (sensor_head dev now)) =
      (if length (full_text dev now (butlast es)) \<le> 512
       then Some (take 511 (full_text dev now es), length (full_text dev now es)) else None)"
    using sn_list_text [of 512 True es "sensor_head dev now"] assms(2) by (simp add: full_text_def)
  moreover have "take (if 508 < length u then 508 else length u) (take 511 u) = take 508 u" for u :: string
    by (simp add: min_def)
  ultimately show ?thesis by (auto simp: sensor_message_def Let_def min_def)
qed

lemma length_dec_digit: "0 \<le> i \<Longrightarrow> i < 10 \<Longrightarrow> length (dec_int i) = 1"
  by (simp add: dec_int_def dec_nat.simps [of "nat i"])

lemma length_dec_range:
  assumes "0 \<le> i" and "i < 10 ^ k" and "0 < k"
  shows "1 \<le> length (dec_int i)" and "length (dec_int i) \<le> k" and "10 ^ j \<le> i \<Longrightarrow> j < length (dec_int i)"
proof -
  have n: "nat i < 10 ^ k" using assms(1,2) by (simp add: nat_less_iff)
  show "length (dec_int i) \<le> k" using length_dec_nat [OF n assms(3)] assms(1) by (simp add: dec_int_def)
  show "1 \<le> length (dec_int i)" using dec_nat_nonempty [of "nat i"] assms(1) by (cases "dec_nat (nat i)") (simp_all add: dec_int_def)
  show "j < length (dec_int i)" if "10 ^ j \<le> i"
    using length_dec_nat_ge [of j "nat i"] that assms(1) by (simp add: dec_int_def le_nat_iff)
qed

lemma first_message:
  "sn_out (foldl (\<lambda>s (t, p). sn_publish t p s) s ms) = sn_out s @ ms"
  by (induction ms arbitrary: s) (auto simp: sn_publish_def)

lemma publish_first:
  "sn_out (publish_readings msg a b c d e f s) ! length (sn_out s) = (''tsn/sensors'', msg)"
  "length (sn_out s) < length (sn_out (publish_readings msg a b c d e f s))"
  unfolding publish_readings_def Let_def first_message by (simp_all add: nth_append)

lemma pir_edge_out: "i < length (sn_out s) \<Longrightarrow> sn_out (pir_edge pir s) ! i = sn_out s ! i"
  by (simp add: pir_edge_def sn_publish_def nth_append)

lemma publish_edge_first:
  "sn_out s2 = sn_out s \<Longrightarrow> sn_out (pir_edge pir (publish_readings msg a b c d e f s2)) ! length (sn_out s) = (''tsn/sensors'', msg)"
  using publish_first [where s = s2] by (metis pir_edge_out)

text \<open>The entries every message has.\<close>

definition base_entries :: "(real \<Rightarrow> real) \<Rightarrow> readings \<Rightarrow> sensor \<Rightarrow> string list" where
  "base_entries fl r s =
     [light_entry (if sn_adc_cal s then light_lux fl (rd_mv r) else 0),
      pir_entry (pir_report (rd_pir r) (rd_now_us r) (if rd_pir r = 1 then rd_now_us r else sn_pir_latch s)), wfm_entry fl s, actor_entry (sn_actor_mode s)]"

lemma sensor_publish_message:
  assumes "sensor_message (sn_dev_id s) (rd_time r)
      (filter (\<lambda>e. e \<noteq> []) [temp_entry temp, press_entry press, hum_entry hum] @ base_entries fl r s) = Some msg"
  shows "\<exists>s'. sensor_publish fl r (temp, press, hum) s = Some s' \<and> sn_out s' ! length (sn_out s) = (''tsn/sensors'', msg)"
proof -
  have w: "wfm_entry fl (s\<lparr>sn_pir_latch := x\<rparr>) = wfm_entry fl s" for x by (simp add: wfm_entry_def)
  define s1 where "s1 = (if rd_pir r = 1 then s\<lparr>sn_pir_latch := rd_now_us r\<rparr> else s)"
  have s1: "sn_dev_id s1 = sn_dev_id s" "sn_actor_mode s1 = sn_actor_mode s" "sn_out s1 = sn_out s" "wfm_entry fl s1 = wfm_entry fl s"
    "sn_pir_latch s1 = (if rd_pir r = 1 then rd_now_us r else sn_pir_latch s)"
    by (simp_all add: s1_def w)
  show ?thesis
    unfolding sensor_publish_def Let_def s1_def [symmetric] using assms s1
    by (simp add: base_entries_def publish_edge_first split del: if_split)
qed

text \<open>Readings in the ranges of the devices.\<close>

definition in_range :: "(real \<Rightarrow> real) \<Rightarrow> readings \<Rightarrow> sensor \<Rightarrow> bool" where
  "in_range fl r s \<longleftrightarrow> (sn_dev_id s = ''esp32-01'' \<or> sn_dev_id s = ''esp32-1'') \<and> 10 ^ 9 \<le> rd_time r \<and> rd_time r < 10 ^ 10 \<and>
     (let l = light_lux fl (rd_mv r) in 0 \<le> l \<and> l < 10 ^ 6) \<and> 0 \<le> sn_actor_mode s \<and> sn_actor_mode s < 10"

lemma base_entries_length:
  assumes "in_range fl r s"
  shows "265 \<le> length (csv True (base_entries fl r s))" and "length (csv True (butlast (base_entries fl r s))) \<le> 214"
    and "length (csv True (base_entries fl r s)) \<le> 282"
proof -
  let ?l = "if sn_adc_cal s then light_lux fl (rd_mv r) else 0"
  have l: "0 \<le> ?l" "?l < 10 ^ 6" using assms by (auto simp: in_range_def Let_def)
  have 1: "63 + 2 \<le> length (light_entry ?l)" "length (light_entry ?l) \<le> 70"
    using length_dec_range [OF l] by (simp_all add: light_entry_def snprintf_buf_def length_sensor_entry length_dec_digit)
  have "pir_report a b c \<in> {0, 1}" for a b c by (simp add: pir_report_def)
  then have 2: "length (pir_entry (pir_report a b c)) = 61" for a b c
    by (auto simp: pir_entry_def snprintf_buf_def length_sensor_entry pir_report_def length_dec_digit)
  have "1 \<le> length (dec_int i)" for i using dec_nat_nonempty by (cases "dec_nat (nat i)") (auto simp: dec_int_def Suc_le_eq)
  then have 3: "69 \<le> length (wfm_entry fl s)" "length (wfm_entry fl s) \<le> 79"
    by (simp_all add: wfm_entry_def snprintf_buf_def length_sensor_entry length_dec_digit Let_def htsn_wifimotion_motion_def)
  have 4: "length (actor_entry (sn_actor_mode s)) = 67"
    using assms by (simp add: actor_entry_def length_sensor_entry length_dec_digit in_range_def)
  show "265 \<le> length (csv True (base_entries fl r s))" "length (csv True (butlast (base_entries fl r s))) \<le> 214"
    "length (csv True (base_entries fl r s)) \<le> 282"
    using 1 2 3 4 by (simp_all add: base_entries_def)
qed

lemma csv_append: "es \<noteq> [] \<Longrightarrow> csv True (es @ fs) = csv True es @ csv False fs"
  by (cases es) (simp_all, (rename_tac e es', induct_tac es', simp_all))

lemma csv_False: "fs \<noteq> [] \<Longrightarrow> csv False fs = '','' @ csv True fs"
  by (cases fs) simp_all

lemma bme_entries_length:
  assumes "\<bar>temp\<bar> < 10 ^ 3" and "temp > - 500" and "100 \<le> press" and "press < 10 ^ 4" and "0 < hum" and "hum \<le> 100"
  shows "198 + 3 \<le> length (csv True [temp_entry temp, press_entry press, hum_entry hum])"
    and "length (csv True [temp_entry temp, press_entry press, hum_entry hum]) \<le> 215"
    and "filter (\<lambda>e. e \<noteq> []) [temp_entry temp, press_entry press, hum_entry hum] = [temp_entry temp, press_entry press, hum_entry hum]"
proof -
  have d: "length (dec_int 0) = 1" "length (dec_int 1) = 1" by (simp_all add: length_dec_digit)
  have "3 \<le> length (fmt_s1f temp)" "length (fmt_s1f temp) \<le> 7" using length_fmt_s1f [of temp 3] assms(1) by simp_all
  then have t: "length (temp_entry temp) = 62 + length (fmt_s1f temp)" "3 \<le> length (fmt_s1f temp)" "length (fmt_s1f temp) \<le> 7"
    using assms(2) by (simp_all add: temp_entry_def snprintf_buf_def length_sensor_entry d)
  have "5 \<le> length (fmt_1f press)" "length (fmt_1f press) \<le> 7" using length_fmt_1f(2) [of press 4] length_fmt_1f(3) [of press 4 2] assms(3,4) by simp_all
  then have p: "length (press_entry press) = 65 + length (fmt_1f press)" "5 \<le> length (fmt_1f press)" "length (fmt_1f press) \<le> 7"
    using assms(3) by (simp_all add: press_entry_def fmt_s1f_def snprintf_buf_def length_sensor_entry d)
  have "3 \<le> length (fmt_1f hum)" "length (fmt_1f hum) \<le> 6" using length_fmt_1f [of hum 3] assms(5,6) by simp_all
  then have h: "length (hum_entry hum) = 61 + length (fmt_1f hum)" "3 \<le> length (fmt_1f hum)" "length (fmt_1f hum) \<le> 6"
    using assms(5) by (simp_all add: hum_entry_def fmt_s1f_def snprintf_buf_def length_sensor_entry d)
  show "198 + 3 \<le> length (csv True [temp_entry temp, press_entry press, hum_entry hum])"
    "length (csv True [temp_entry temp, press_entry press, hum_entry hum]) \<le> 215"
    using t p h by simp_all
  show "filter (\<lambda>e. e \<noteq> []) [temp_entry temp, press_entry press, hum_entry hum] = [temp_entry temp, press_entry press, hum_entry hum]"
    using t(1) p(1) h(1) by auto
qed

lemma head_length:
  assumes "in_range fl r s"
  shows "43 \<le> length (sensor_head (sn_dev_id s) (rd_time r)) \<and> length (sensor_head (sn_dev_id s) (rd_time r)) \<le> 44"
proof -
  have t: "0 \<le> rd_time r" "rd_time r < 10 ^ 10" "10 ^ 9 \<le> rd_time r" using assms by (simp_all add: in_range_def)
  have "9 < length (dec_int (rd_time r))" "length (dec_int (rd_time r)) \<le> 10"
    by (rule length_dec_range(3) [OF t(1,2) _ t(3)], simp) (rule length_dec_range(2) [OF t(1,2)], simp)
  then show ?thesis using assms by (auto simp: in_range_def length_sensor_head)
qed

text \<open>
  C21. The telemetry of a node with all its sensors is cut: with readings in the ranges of the devices the text with its seven
  entries does not fit the buffer of 512 bytes; what is published ends inside the last entry, which is never closed,
  and is no JSON. Without the sensor for temperature, pressure and humidity the message is complete. In both cases nothing
  is written behind the buffer.
\<close>

theorem telemetry_cut_with_all_sensors:
  assumes "in_range fl r s" and "\<bar>temp\<bar> < 10 ^ 3" and "temp > - 500" and "100 \<le> press" and "press < 10 ^ 4" and "0 < hum" and "hum \<le> 100"
  defines "all \<equiv> full_text (sn_dev_id s) (rd_time r) ([temp_entry temp, press_entry press, hum_entry hum] @ base_entries fl r s)"
    and "few \<equiv> full_text (sn_dev_id s) (rd_time r) (base_entries fl r s)"
  shows "508 < length all \<and>
    (\<exists>s'. sensor_publish fl r (temp, press, hum) s = Some s' \<and> sn_out s' ! length (sn_out s) = (''tsn/sensors'', take 508 all @ '']}'')) \<and>
    (\<exists>s'. sensor_publish fl r (- 999, - 999, - 999) s = Some s' \<and> sn_out s' ! length (sn_out s) = (''tsn/sensors'', few @ '']}''))"
proof -
  let ?bme = "[temp_entry temp, press_entry press, hum_entry hum]"
  let ?base = "base_entries fl r s"
  note h = head_length [OF assms(1)] and b = base_entries_length [OF assms(1)] and e = bme_entries_length [OF assms(2-7)]
  have n: "?base \<noteq> []" "butlast ?base \<noteq> []" by (simp_all add: base_entries_def)
  have c: "csv True (?bme @ ?base) = csv True ?bme @ '','' @ csv True ?base"
    "csv True (?bme @ butlast ?base) = csv True ?bme @ '','' @ csv True (butlast ?base)"
    using csv_append [of ?bme] csv_False n by simp_all
  have len: "508 < length all" using h b(1) e(1) c(1) by (simp add: all_def full_text_def del: append.simps csv.simps)
  have "length (full_text (sn_dev_id s) (rd_time r) (butlast (?bme @ ?base))) \<le> 512"
    using h b(2) e(2) c(2) n by (simp add: full_text_def butlast_append del: append.simps csv.simps)
  then have 1: "sensor_message (sn_dev_id s) (rd_time r) (?bme @ ?base) = Some (take 508 all @ '']}'')"
    using sensor_message_text [of "sn_dev_id s" "rd_time r" "?bme @ ?base"] h n by (simp add: all_def)
  have "length (full_text (sn_dev_id s) (rd_time r) (butlast ?base)) \<le> 512" "length few \<le> 508"
    using h b n by (simp_all add: full_text_def few_def)
  then have 2: "sensor_message (sn_dev_id s) (rd_time r) ?base = Some (few @ '']}'')"
    using sensor_message_text [of "sn_dev_id s" "rd_time r" ?base] h n by (simp add: few_def)
  have "filter (\<lambda>e. e \<noteq> []) [temp_entry (- 999), press_entry (- 999), hum_entry (- 999)] = []"
    by (simp add: temp_entry_def press_entry_def hum_entry_def)
  then show ?thesis
    using len sensor_publish_message [of s r temp press hum fl] sensor_publish_message [of s r "- 999" "- 999" "- 999" fl] 1 2 e(3) by simp
qed

definition demo_sensor :: sensor where
  "demo_sensor = \<lparr>sn_dev_id = ''esp32-01'', sn_mq = True, sn_bme_ok = True, sn_calib = demo_calib, sn_prev_pir = - 1, sn_actor_mode = 0,
     sn_pir_latch = - 1000000000, sn_pir_flag = False, sn_last_tick = 0, sn_temp = 0, sn_press = 0, sn_hum = 0, sn_light = 0, sn_pir = 0,
     sn_wfm = wifimotion_zero False, sn_wfm_std = 0, sn_last_wfm = [], sn_adc_cal = True, sn_buzzer_on = True, sn_buzzer_active = False,
     sn_pins = [], sn_out = []\<rparr>"

definition demo_readings :: readings where
  "demo_readings = \<lparr>rd_now_us = 5000000, rd_time = 1700000000, rd_regs = None, rd_mv = 0, rd_pir = 0\<rparr>"

theorem telemetry_cut_with_all_sensors_witness:
  "508 < length (full_text (sn_dev_id demo_sensor) (rd_time demo_readings)
     ([temp_entry 20, press_entry 1000, hum_entry 50] @ base_entries (\<lambda>x. x) demo_readings demo_sensor))"
proof -
  have "in_range (\<lambda>x. x) demo_readings demo_sensor"
    by (simp add: in_range_def demo_readings_def demo_sensor_def light_lux_def)
  from telemetry_cut_with_all_sensors [OF this, of 20 1000 50] show ?thesis by simp
qed

text \<open>The motion signal is held for five seconds after the last trigger.\<close>

lemma pir_held: "pir_report pir now_us latch = 1 \<longleftrightarrow> pir = 1 \<or> now_us < latch + 5000000"
  by (auto simp: pir_report_def)

text \<open>The humidity is a percentage, whatever the calibration.\<close>

lemma bme_hum_range: "bme_hum fl c t adc = Some h \<Longrightarrow> 0 \<le> h \<and> h \<le> 100"
  by (auto simp: bme_hum_def Let_def)

text \<open>A mode of the switch outside its range is the nearest one; only the modes 1, 2, 3 and 6 leave the output on.\<close>

lemma actor_apply_output:
  "0 \<le> sn_actor_mode (actor_apply m s) \<and> sn_actor_mode (actor_apply m s) \<le> 7 \<and>
   (last (sn_pins (actor_apply m s)) = 1 \<longleftrightarrow> m = 1 \<or> m = 2 \<or> m = 3 \<or> m = 6)"
  by (auto simp: actor_apply_def Let_def)

end
