(* ===== verification/Cam_Node.thy ===== *)
theory Cam_Node
  imports Ota Esp_Sensor Esp_Wifi
begin

text \<open>
  The camera node of src/esp32-cam/main/camera_app.c: provisioning, recording of clips on motion, replay of the last
  clip, the update command and the network events. A frame of the camera is whether it is a JPEG and its bytes; the
  card is a map from names to contents, with room for what is written. The text of a message ends at its first zero byte.
\<close>

section \<open>State\<close>

type_synonym frame = "bool \<times> byte list"

definition LAST_CLIP_MAX_FRAMES :: nat where "LAST_CLIP_MAX_FRAMES = 2400"

text \<open>
  The static variables; \<open>cam_tasks\<close> counts the recording tasks that were created and have not started, \<open>cam_out\<close> and
  \<open>cam_subs\<close> are what was published and subscribed, \<open>cam_ota\<close> the state of the update component.
\<close>

record cam =
  cam_id :: string
  cam_ip :: string
  cam_mqtt :: bool
  cam_motion_seen :: bool
  cam_rec_active :: bool
  cam_sd_mounted :: bool
  cam_rec_index :: nat
  cam_clip_path :: string
  cam_clip_frames :: nat
  cam_offs :: "u32 list"
  cam_lens :: "u32 list"
  cam_files :: "string \<rightharpoonup> byte list"
  cam_tasks :: nat
  cam_out :: "(string \<times> string) list"
  cam_subs :: "string list"
  cam_ota :: ota
  cam_wifi_ready :: bool
  cam_streak :: nat
  cam_reprov :: bool
  cam_prov_tasks :: nat

definition cam_publish :: "string \<Rightarrow> string \<Rightarrow> cam \<Rightarrow> cam" where
  "cam_publish topic msg c = (if cam_mqtt c then c\<lparr>cam_out := cam_out c @ [(topic, msg)]\<rparr> else c)"

section \<open>Stored configuration\<close>

definition nvs_str_get :: "'n nvs \<Rightarrow> string \<Rightarrow> nat \<Rightarrow> 'n \<Rightarrow> string" where
  "nvs_str_get N key sz n =
     (if \<not> nvs_open_ro N n then [] else (case nvs_get_str N key sz n of Some s \<Rightarrow> s | None \<Rightarrow> []))"

definition nvs_str_set :: "'n nvs \<Rightarrow> string \<Rightarrow> string \<Rightarrow> 'n \<Rightarrow> 'n" where
  "nvs_str_set N key val n = (case nvs_open_rw N n of None \<Rightarrow> n | Some h \<Rightarrow> snd (nvs_commit N (nvs_set N h key (NStr val))))"

definition cam_prov_save :: "'n nvs \<Rightarrow> string \<Rightarrow> string \<Rightarrow> string \<Rightarrow> string \<Rightarrow> 'n \<Rightarrow> 'n" where
  "cam_prov_save N ssid pass devid mqtt n =
     (let n1 = (if devid \<noteq> [] then nvs_str_set N ''device_id'' devid n else n)
      in nvs_str_set N ''mqtt_host'' mqtt (nvs_str_set N ''wifi_pass'' pass (nvs_str_set N ''wifi_ssid'' ssid n1)))"

definition cam_prov_load_id :: "'n nvs \<Rightarrow> nat \<Rightarrow> 'n \<Rightarrow> bool \<times> string" where
  "cam_prov_load_id N sz n =
     (let s = nvs_str_get N ''device_id'' sz n; d = (if s = [] then snprintf_buf sz ''esp32-cam-01'' else s) in (d \<noteq> [], d))"

section \<open>Motion\<close>

definition json_motion_true :: "string \<Rightarrow> bool" where
  "json_motion_true payload =
     (let m = (case strstr_from payload (dq @ ''motion'' @ dq) of
                 Some p \<Rightarrow> Some p
               | None \<Rightarrow> strstr_from payload (dq @ ''wifi_motion'' @ dq))
      in case m of
           None \<Rightarrow> False
         | Some p \<Rightarrow>
             (case strchr p (CHR '':'') of
                None \<Rightarrow> False
              | Some col \<Rightarrow> (let v = dropWhile (\<lambda>c. c = CHR '' '') (tl col) in v \<noteq> [] \<and> hd v = CHR ''1'')))"

definition mqtt_motion_event :: "string option \<Rightarrow> cam \<Rightarrow> cam" where
  "mqtt_motion_event payload c =
     (case payload of None \<Rightarrow> c | Some p \<Rightarrow> if json_motion_true p then c\<lparr>cam_motion_seen := True\<rparr> else c)"

definition cam_motion_trigger :: "cam \<Rightarrow> cam" where
  "cam_motion_trigger c =
     (if \<not> cam_sd_mounted c then c
      else if cam_rec_active c then c
      else c\<lparr>cam_motion_seen := False, cam_tasks := cam_tasks c + 1\<rparr>)"

text \<open>The body of the loop of \<open>app_main\<close>.\<close>

definition cam_loop :: "cam \<Rightarrow> cam" where
  "cam_loop c =
     (if cam_motion_seen c
      then (if \<not> cam_rec_active c then cam_motion_trigger c else c\<lparr>cam_motion_seen := False\<rparr>)
      else c)"

section \<open>Recording\<close>

definition SD_MOUNT_POINT :: string where "SD_MOUNT_POINT = ''/sdcard''"

text \<open>\<open>%04d\<close>\<close>

definition dec04 :: "nat \<Rightarrow> string" where
  "dec04 n = replicate (4 - length (dec_nat n)) (CHR ''0'') @ dec_nat n"

definition clip_path :: "nat \<Rightarrow> int \<Rightarrow> string" where
  "clip_path clip now = snprintf_buf 96 (SD_MOUNT_POINT @ ''/clip_'' @ dec04 clip @ ''_'' @ dec_int now @ ''.jpg'')"

text \<open>
  The loop over the frames: \<open>rc_file\<close> is what was written, \<open>rc_running\<close> the 32-bit offset, \<open>rc_n\<close> the number of entries of
  the table.
\<close>

record rec_state =
  rc_file :: "byte list"
  rc_running :: u32
  rc_n :: nat
  rc_offs :: "u32 list"
  rc_lens :: "u32 list"

definition rec_frame :: "frame option \<Rightarrow> rec_state \<Rightarrow> rec_state" where
  "rec_frame fb r =
     (case fb of
        None \<Rightarrow> r
      | Some (jpeg, b) \<Rightarrow>
          (if jpeg \<and> b \<noteq> []
           then
             (let len = word_of_nat (length b);
                  r1 = r\<lparr>rc_file := rc_file r @ b\<rparr>;
                  r2 = (if rc_n r1 < LAST_CLIP_MAX_FRAMES
                        then r1\<lparr>rc_offs := (rc_offs r1)[rc_n r1 := rc_running r1], rc_lens := (rc_lens r1)[rc_n r1 := len],
                                rc_n := rc_n r1 + 1\<rparr>
                        else r1)
              in r2\<lparr>rc_running := rc_running r2 + len\<rparr>)
           else r))"

definition is_jpg :: "string \<Rightarrow> bool" where
  "is_jpg name \<longleftrightarrow> \<not> length name < 4 \<and> drop (length name - 4) name = ''.jpg''"

text \<open>The list of clips: \<open>None\<close> is a write behind the buffer of 2048 bytes.\<close>

definition clip_entry :: "string \<Rightarrow> string" where
  "clip_entry e = dq @ ''/sdcard/'' @ e @ dq"

definition recordings_text :: "string \<Rightarrow> string list \<Rightarrow> string option" where
  "recordings_text dev names =
     (case sn_append 2048 (''{'' @ js_str ''id'' dev @ '','' @ dq @ ''recordings'' @ dq @ '':['') ([], 0) of
        None \<Rightarrow> None
      | Some bo \<Rightarrow>
          (case sn_list 2048 True (map clip_entry (filter is_jpg names)) bo of
             None \<Rightarrow> None
           | Some bo1 \<Rightarrow> map_option fst (sn_append 2048 '']}'' bo1)))"

text \<open>
  \<open>record_task\<close>: \<open>can_open\<close> is whether a file can be opened for writing, \<open>fb0\<close> the frame of the preview, \<open>fbs\<close> the frames
  obtained until 30 seconds have passed, \<open>ls\<close> the entries of the card's directory.
\<close>

definition record_clip :: "(string \<Rightarrow> bool) \<Rightarrow> frame option \<Rightarrow> frame option list \<Rightarrow> int \<Rightarrow> cam \<Rightarrow> cam option" where
  "record_clip can_open fb0 fbs now c =
     (let c1 = c\<lparr>cam_rec_active := True, cam_rec_index := cam_rec_index c + 1\<rparr>;
          p = clip_path (cam_rec_index c1) now
      in if \<not> can_open p then None
         else
           (let files = (case fb0 of
                           Some (True, b) \<Rightarrow>
                             if b \<noteq> [] \<and> can_open (SD_MOUNT_POINT @ ''/last.jpg'')
                             then (cam_files c1)(SD_MOUNT_POINT @ ''/last.jpg'' \<mapsto> b) else cam_files c1
                         | _ \<Rightarrow> cam_files c1);
                r = foldl (\<lambda>r fb. rec_frame fb r)
                      \<lparr>rc_file = [], rc_running = 0, rc_n = 0, rc_offs = cam_offs c1, rc_lens = cam_lens c1\<rparr> fbs
            in Some (c1\<lparr>cam_files := files(p \<mapsto> rc_file r), cam_offs := rc_offs r, cam_lens := rc_lens r,
                       cam_clip_frames := rc_n r, cam_clip_path := snprintf_buf 96 p, cam_rec_active := False\<rparr>)))"

definition record_task ::
  "(string \<Rightarrow> bool) \<Rightarrow> frame option \<Rightarrow> frame option list \<Rightarrow> ((string \<rightharpoonup> byte list) \<Rightarrow> string list) \<Rightarrow> int \<Rightarrow> cam \<Rightarrow> cam option" where
  "record_task can_open fb0 fbs ls now c0 =
     (let c = c0\<lparr>cam_tasks := cam_tasks c0 - 1\<rparr>
      in if cam_rec_active c then Some c
         else
           (case record_clip can_open fb0 fbs now c of
              None \<Rightarrow> Some (c\<lparr>cam_rec_index := cam_rec_index c + 1\<rparr>)
            | Some c1 \<Rightarrow>
                (let p = clip_path (cam_rec_index c1) now;
                     c2 = cam_publish (snprintf_buf 64 (''tsn/status/'' @ cam_id c1))
                            (snprintf_buf 192 (''{'' @ js_str ''id'' (cam_id c1) @ '','' @ js_str ''rec'' p @ '','' @ js_num ''saved'' 1 @ ''}'')) c1
                 in map_option (\<lambda>lib. cam_publish ''tsn/cam/recordings'' lib c2) (recordings_text (cam_id c2) (ls (cam_files c2))))))"

section \<open>Streams\<close>

text \<open>
  A response is the list of its chunks; \<open>S\<close> is whether the last one of the chunks sent so far arrived. \<open>Last_Chunk\<close> is the
  empty chunk that ends a response.
\<close>

datatype chunk = Text string | Data "byte list" | Last_Chunk

definition STREAM_BOUNDARY :: string where "STREAM_BOUNDARY = ''123456789000000000000987654321''"

definition nl :: string where "nl = [CHR 0x0D, CHR 0x0A]"

definition part_header :: "nat \<Rightarrow> string" where
  "part_header len = nl @ ''--'' @ STREAM_BOUNDARY @ nl @ ''Content-Type: image/jpeg'' @ nl @ ''Content-Length: '' @ dec_nat len @ nl @ nl"

text \<open>The live stream over the frames the camera delivers; it ends when a frame or a chunk fails.\<close>

fun stream_handler :: "(chunk list \<Rightarrow> bool) \<Rightarrow> frame option list \<Rightarrow> chunk list \<Rightarrow> chunk list" where
  "stream_handler S [] out = out"
| "stream_handler S (None # fbs) out = out"
| "stream_handler S (Some (jpeg, b) # fbs) out =
     (if \<not> jpeg then out
      else
        (let out1 = out @ [Text (snprintf_buf 128 (part_header (length b)))]
         in if \<not> S out1 then out1
            else (let out2 = out1 @ [Data b] in if \<not> S out2 then out2 else stream_handler S fbs out2)))"

text \<open>The contents of a file in pieces of \<open>n\<close> bytes.\<close>

function send_file :: "(chunk list \<Rightarrow> bool) \<Rightarrow> nat \<Rightarrow> byte list \<Rightarrow> chunk list \<Rightarrow> chunk list" where
  "send_file S n f out =
     (if f = [] \<or> n = 0 then out
      else (let out1 = out @ [Data (take n f)] in if \<not> S out1 then out1 else send_file S n (drop n f) out1))"
  by pat_completeness auto
termination
  by (relation "measure (\<lambda>(S, n, f, out). length f)") (simp_all add: Let_def length_greater_0_conv)

declare send_file.simps [simp del]

datatype response = Not_Found string | Body "chunk list"

definition last_handler :: "(chunk list \<Rightarrow> bool) \<Rightarrow> cam \<Rightarrow> response" where
  "last_handler S c =
     (if \<not> cam_sd_mounted c then Not_Found ''no sd''
      else (case cam_files c (SD_MOUNT_POINT @ ''/last.jpg'') of
              None \<Rightarrow> Not_Found ''no last frame yet''
            | Some f \<Rightarrow> Body (send_file S 1024 f [] @ [Last_Chunk])))"

text \<open>The inner loop of the replay: \<open>left\<close> bytes from the position \<open>pos\<close> of the file.\<close>

function replay_bytes :: "(chunk list \<Rightarrow> bool) \<Rightarrow> byte list \<Rightarrow> nat \<Rightarrow> nat \<Rightarrow> chunk list \<Rightarrow> chunk list" where
  "replay_bytes S f pos left out =
     (if left = 0 then out
      else
        (let rd = take (if left < 4096 then left else 4096) (drop pos f)
         in if rd = [] then out
            else
              (let out1 = out @ [Data rd]
               in if \<not> S out1 then out1 else replay_bytes S f (pos + length rd) (left - length rd) out1)))"
  by pat_completeness auto
termination
  by (relation "measure (\<lambda>(S, f, pos, left, out). left)") (auto simp: Let_def split: if_splits)

declare replay_bytes.simps [simp del]

fun replay_frames :: "(chunk list \<Rightarrow> bool) \<Rightarrow> byte list \<Rightarrow> (u32 \<times> u32) list \<Rightarrow> chunk list \<Rightarrow> chunk list" where
  "replay_frames S f [] out = out"
| "replay_frames S f ((off, len) # r) out =
     (let out1 = out @ [Text (snprintf_buf 160 (part_header (unat len)))]
      in if \<not> S out1 then out1 else replay_frames S f r (replay_bytes S f (unat off) (unat len) out1))"

definition replay_handler :: "(chunk list \<Rightarrow> bool) \<Rightarrow> frame option list \<Rightarrow> cam \<Rightarrow> chunk list" where
  "replay_handler S live c =
     (case (if cam_sd_mounted c \<and> cam_clip_frames c > 0 \<and> cam_clip_path c \<noteq> [] then cam_files c (cam_clip_path c) else None) of
        None \<Rightarrow> stream_handler S live []
      | Some f \<Rightarrow> replay_frames S f (take (cam_clip_frames c) (zip (cam_offs c) (cam_lens c))) [] @ [Last_Chunk])"

section \<open>Messages\<close>

text \<open>The text between the quotes behind the key's colon, cut to \<open>n\<close> characters.\<close>

definition quoted_member :: "string \<Rightarrow> string \<Rightarrow> nat \<Rightarrow> string option" where
  "quoted_member p key n =
     (case strstr_from p (dq @ key @ dq) of
        None \<Rightarrow> None
      | Some u \<Rightarrow>
          (case strchr (drop (length key + 2) u) (CHR '':'') of
             None \<Rightarrow> None
           | Some u1 \<Rightarrow>
               (case strchr (tl u1) (CHR 0x22) of
                  None \<Rightarrow> None
                | Some u2 \<Rightarrow> Some (take n (takeWhile (\<lambda>c. c \<noteq> CHR 0x22) (tl u2))))))"

definition ota_go :: "ota_lib \<Rightarrow> string \<Rightarrow> string option \<Rightarrow> cam \<Rightarrow> cam" where
  "ota_go lib url crc c =
     (if url = [] then c
      else
        (let c1 = cam_publish (snprintf_buf 48 (''tsn/ack/'' @ cam_id c))
                    (snprintf_buf 64 (''{'' @ js_str ''id'' (cam_id c) @ '','' @ dq @ ''ok'' @ dq @ '':true}'')) c
         in c1\<lparr>cam_ota := snd (htsn_ota_start_checked lib (Some url) crc (cam_ota c1))\<rparr>))"

definition mqtt_data :: "ota_lib \<Rightarrow> string \<Rightarrow> string \<Rightarrow> cam \<Rightarrow> cam" where
  "mqtt_data lib topic0 p c =
     (let topic = take 63 topic0
      in if length topic > 3 \<and> drop (length topic - 4) topic = ''/ota''
         then (case quoted_member p ''url'' 255 of
                 None \<Rightarrow> c
               | Some url \<Rightarrow>
                   (let crc = (case quoted_member p ''crc32'' 15 of Some s \<Rightarrow> s | None \<Rightarrow> [])
                    in ota_go lib url (if crc \<noteq> [] then Some crc else None) c))
         else if topic = ''tsn/fx/data'' \<or> topic = ''tsn/sensors/event'' then mqtt_motion_event (Some p) c
         else c)"

definition cam_connected :: "cam \<Rightarrow> cam" where
  "cam_connected c =
     cam_publish ''tsn/discover''
       (snprintf_buf 192 (''{'' @ js_str ''id'' (cam_id c) @ '','' @ js_str ''fw'' HTSN_FW_VERSION @ '','' @ js_str ''ip'' (cam_ip c) @ '','' @
          js_str ''kind'' ''cam'' @ ''}''))
       (c\<lparr>cam_subs := cam_subs c @ [snprintf_buf 64 (''tsn/cmd/'' @ cam_id c @ ''/ota''), ''tsn/fx/data'', ''tsn/sensors/event'']\<rparr>)"

section \<open>Network\<close>

record mqtt_setup =
  ms_host :: string
  ms_port :: nat
  ms_client :: string
  ms_user :: "string option"
  ms_pass :: "string option"
  ms_will :: "string \<times> string"

definition mqtt_start_cfg :: "'n nvs \<Rightarrow> (string \<Rightarrow> string option) \<Rightarrow> 'n \<Rightarrow> cam \<Rightarrow> mqtt_setup" where
  "mqtt_start_cfg N mdns n c =
     (let h = nvs_str_get N ''mqtt_host'' 64 n;
          host = resolve_mqtt_host mdns 64 (if h = [] then ''htsn-broker.local'' else h);
          muser = nvs_str_get N ''muser'' 64 n;
          mpass = nvs_str_get N ''mpass'' 64 n
      in \<lparr>ms_host = host, ms_port = 1883, ms_client = cam_id c, ms_user = (if muser \<noteq> [] then Some muser else None),
          ms_pass = (if mpass \<noteq> [] then Some mpass else None), ms_will = (snprintf_buf 48 (''tsn/lwt/'' @ cam_id c), ''offline'')\<rparr>)"

definition cam_disconnected :: "cam \<Rightarrow> cam" where
  "cam_disconnected c =
     (let c1 = c\<lparr>cam_streak := cam_streak c + 1\<rparr>
      in if cam_streak c1 \<ge> PROV_FALLBACK_DISCONNECTS \<and> \<not> cam_wifi_ready c1 \<and> \<not> cam_reprov c1
         then c1\<lparr>cam_prov_tasks := cam_prov_tasks c1 + 1\<rparr> else c1)"

text \<open>\<open>ok\<close> is whether the client can be made.\<close>

definition cam_got_ip :: "bool \<Rightarrow> string \<Rightarrow> cam \<Rightarrow> cam" where
  "cam_got_ip ok ip c =
     c\<lparr>cam_wifi_ready := True, cam_streak := 0, cam_ip := snprintf_buf 16 ip, cam_mqtt := cam_mqtt c \<or> ok\<rparr>"

definition reprov_task :: "cam \<Rightarrow> cam" where
  "reprov_task c =
     (let c1 = c\<lparr>cam_prov_tasks := cam_prov_tasks c - 1\<rparr> in if cam_reprov c1 then c1 else c1\<lparr>cam_reprov := True\<rparr>)"

definition cam_zero :: cam where
  "cam_zero = \<lparr>cam_id = ''esp32-cam-01'', cam_ip = ''0.0.0.0'', cam_mqtt = False, cam_motion_seen = False, cam_rec_active = False,
     cam_sd_mounted = False, cam_rec_index = 0, cam_clip_path = [], cam_clip_frames = 0,
     cam_offs = replicate LAST_CLIP_MAX_FRAMES 0, cam_lens = replicate LAST_CLIP_MAX_FRAMES 0, cam_files = Map.empty, cam_tasks = 0,
     cam_out = [], cam_subs = [], cam_ota = ota_idle, cam_wifi_ready = False, cam_streak = 0, cam_reprov = False, cam_prov_tasks = 0\<rparr>"

text \<open>The start: \<open>None\<close> stands for the portal without a network; otherwise the network and the state, \<open>sdc\<close> is what is on a mounted card.\<close>

definition cam_boot :: "'n nvs \<Rightarrow> (string \<rightharpoonup> byte list) option \<Rightarrow> 'n \<Rightarrow> ((string \<times> string) \<times> cam) option" where
  "cam_boot N sdc n =
     (let ssid = nvs_str_get N ''wifi_ssid'' 64 n;
          pass = nvs_str_get N ''wifi_pass'' 64 n;
          dev = nvs_str_get N ''device_id'' 32 n;
          c = cam_zero\<lparr>cam_id := (if dev = [] then ''esp32-cam-01'' else dev)\<rparr>
      in if ssid = [] then None
         else Some ((snprintf_buf 32 ssid, snprintf_buf 64 pass), case sdc of None \<Rightarrow> c | Some fs \<Rightarrow> c\<lparr>cam_sd_mounted := True, cam_files := fs\<rparr>))"

section \<open>Recording and replay\<close>

definition valid_frames :: "frame option list \<Rightarrow> byte list list" where
  "valid_frames fbs = concat (map (\<lambda>fb. case fb of Some (True, b) \<Rightarrow> if b \<noteq> [] then [b] else [] | _ \<Rightarrow> []) fbs)"

definition frame_table :: "byte list list \<Rightarrow> (u32 \<times> u32) list" where
  "frame_table vs =
     map (\<lambda>i. (word_of_nat (length (concat (take i vs))), word_of_nat (length (vs ! i)))) [0..<min LAST_CLIP_MAX_FRAMES (length vs)]"

definition rec_inv :: "byte list list \<Rightarrow> rec_state \<Rightarrow> bool" where
  "rec_inv vs r \<longleftrightarrow> rc_file r = concat vs \<and> rc_running r = word_of_nat (length (concat vs)) \<and>
     rc_n r = min LAST_CLIP_MAX_FRAMES (length vs) \<and> length (rc_offs r) = LAST_CLIP_MAX_FRAMES \<and>
     length (rc_lens r) = LAST_CLIP_MAX_FRAMES \<and> take (rc_n r) (zip (rc_offs r) (rc_lens r)) = frame_table vs"

lemma frame_table_snoc:
  "frame_table (vs @ [b]) =
     frame_table vs @ (if length vs < LAST_CLIP_MAX_FRAMES then [(word_of_nat (length (concat vs)), word_of_nat (length b))] else [])"
proof (cases "length vs < LAST_CLIP_MAX_FRAMES")
  case True
  then have m: "min LAST_CLIP_MAX_FRAMES (length (vs @ [b])) = Suc (length vs)" "min LAST_CLIP_MAX_FRAMES (length vs) = length vs"
    by simp_all
  have "map (\<lambda>i. (word_of_nat (length (concat (take i (vs @ [b])))) :: u32, word_of_nat (length ((vs @ [b]) ! i)) :: u32)) [0..<length vs] =
      map (\<lambda>i. (word_of_nat (length (concat (take i vs))), word_of_nat (length (vs ! i)))) [0..<length vs]"
    by (simp add: nth_append)
  then show ?thesis using True by (simp only: frame_table_def m upt_Suc_append) simp
next
  case False
  then show ?thesis by (simp add: frame_table_def nth_append)
qed

lemma rec_frame_inv:
  assumes "rec_inv vs r" and "b \<noteq> []"
  shows "rec_inv (vs @ [b]) (rec_frame (Some (True, b)) r)"
proof (cases "length vs < LAST_CLIP_MAX_FRAMES")
  case True
  then have n: "rc_n r = length vs" "length vs < length (rc_offs r)" "length vs < length (rc_lens r)" using assms(1) by (simp_all add: rec_inv_def)
  have "take (Suc (length vs)) (zip ((rc_offs r)[length vs := x]) ((rc_lens r)[length vs := y])) =
      take (length vs) (zip (rc_offs r) (rc_lens r)) @ [(x, y)]" for x y
    using n by (simp add: take_Suc_conv_app_nth take_zip)
  then show ?thesis using assms True n by (simp add: rec_inv_def rec_frame_def Let_def frame_table_snoc)
next
  case False
  have "zip (rc_offs r) (rc_lens r) = frame_table vs"
    using assms(1) False by (elim rec_inv_def [THEN iffD1, elim_format] conjE) simp
  then show ?thesis using assms False by (simp add: rec_inv_def rec_frame_def Let_def frame_table_snoc)
qed

lemma rec_loop_inv:
  assumes "rec_inv vs r"
  shows "rec_inv (vs @ valid_frames fbs) (foldl (\<lambda>r fb. rec_frame fb r) r fbs)"
  using assms
proof (induction fbs arbitrary: vs r)
  case Nil
  then show ?case by (simp add: valid_frames_def)
next
  case (Cons fb fbs)
  show ?case
  proof (cases "\<exists>b. fb = Some (True, b) \<and> b \<noteq> []")
    case True
    then obtain b where b: "fb = Some (True, b)" "b \<noteq> []" by blast
    show ?thesis using Cons.IH [OF rec_frame_inv [OF Cons.prems b(2)]] b by (simp add: valid_frames_def)
  next
    case False
    then have "rec_frame fb r = r" "valid_frames (fb # fbs) = valid_frames fbs"
      by (auto simp: rec_frame_def valid_frames_def split: option.split prod.split bool.split)
    then show ?thesis using Cons.IH [OF Cons.prems] by simp
  qed
qed

text \<open>The parts of a response: each header with the data behind it.\<close>

fun part_add :: "(string \<times> byte list) list \<Rightarrow> chunk \<Rightarrow> (string \<times> byte list) list" where
  "part_add ps (Text h) = ps @ [(h, [])]"
| "part_add ps (Data d) = butlast ps @ [(fst (last ps), snd (last ps) @ d)]"
| "part_add ps Last_Chunk = ps"

definition parts :: "chunk list \<Rightarrow> (string \<times> byte list) list" where
  "parts out = foldl part_add [] out"

lemma parts_simps [simp]:
  "parts [] = []" "parts (out @ [Text h]) = parts out @ [(h, [])]" "parts (out @ [Last_Chunk]) = parts out"
  "parts out = ps @ [(h, d)] \<Longrightarrow> parts (out @ [Data x]) = ps @ [(h, d @ x)]"
  by (simp_all add: parts_def)

lemma take_length_take: "take (min (length xs - n) k) (drop n xs) = take k (drop n xs)"
  by (cases "length xs - n \<le> k") simp_all

lemma replay_bytes_parts:
  assumes "\<And>cs. S cs" and "parts out = ps @ [(h, d)]"
  shows "parts (replay_bytes S f pos left out) = ps @ [(h, d @ take left (drop pos f))]"
  using assms
proof (induction S f pos left out arbitrary: d rule: replay_bytes.induct)
  case (1 S f pos left out)
  define rd where "rd = take (if left < 4096 then left else 4096) (drop pos f)"
  show ?case
  proof (cases "left = 0 \<or> rd = []")
    case True
    then have "take left (drop pos f) = []" by (auto simp: rd_def split: if_splits)
    then show ?thesis using True "1.prems" by (subst replay_bytes.simps) (auto simp: rd_def Let_def)
  next
    case False
    then have l: "length rd \<le> left" "rd = take (length rd) (drop pos f)" by (auto simp: rd_def take_length_take)
    then have t: "take left (drop pos f) = rd @ take (left - length rd) (drop (pos + length rd) f)"
      by (metis append_take_drop_id drop_drop le_add_diff_inverse take_add add.commute)
    have S: "S (out @ [Data rd])" by (rule "1.prems"(1))
    have "replay_bytes S f pos left out = replay_bytes S f (pos + length rd) (left - length rd) (out @ [Data rd])"
      using False S by (subst replay_bytes.simps) (simp add: Let_def flip: rd_def)
    moreover have "parts (replay_bytes S f (pos + length rd) (left - length rd) (out @ [Data rd])) =
        ps @ [(h, (d @ rd) @ take (left - length rd) (drop (pos + length rd) f))]"
      by (rule "1.IH" [OF _ rd_def]) (use False S "1.prems" in simp_all)
    ultimately show ?thesis by (simp only: t append_assoc)
  qed
qed

lemma header_fits: "len < 2 ^ 32 \<Longrightarrow> snprintf_buf 160 (part_header len) = part_header len \<and> snprintf_buf 128 (part_header len) = part_header len"
proof -
  assume "len < 2 ^ 32"
  then have "length (dec_nat len) \<le> 10" using length_dec_nat [of len 10] by simp
  then show ?thesis by (simp add: snprintf_buf_def part_header_def STREAM_BOUNDARY_def nl_def)
qed

lemma replay_frames_parts:
  assumes "\<And>cs. S cs"
  shows "parts (replay_frames S f tab out) =
    parts out @ map (\<lambda>(i, l). (part_header (unat l), take (unat l) (drop (unat i) f))) tab"
proof (induction tab arbitrary: out)
  case (Cons e tab)
  obtain i l where e: "e = (i, l)" by fastforce
  have "unat l < 2 ^ 32" using unsigned_less [of l] by simp
  then show ?case using Cons e assms header_fits [of "unat l"] by (simp add: Let_def replay_bytes_parts)
qed simp

lemma frame_slice: "i < length vs \<Longrightarrow> take (length (vs ! i)) (drop (length (concat (take i vs))) (concat vs)) = vs ! i"
proof -
  assume "i < length vs"
  then have "concat vs = concat (take i vs) @ vs ! i @ concat (drop (Suc i) vs)"
    by (metis concat.simps(2) concat_append id_take_nth_drop)
  then show ?thesis by (metis append_eq_conv_conj)
qed

text \<open>What holds of every state: the tables of the last clip have room for all their entries.\<close>

definition cam_ok :: "cam \<Rightarrow> bool" where
  "cam_ok c \<longleftrightarrow> length (cam_offs c) = LAST_CLIP_MAX_FRAMES \<and> length (cam_lens c) = LAST_CLIP_MAX_FRAMES"

lemma rec_start: "cam_ok c \<Longrightarrow>
  rec_inv [] \<lparr>rc_file = [], rc_running = 0, rc_n = 0, rc_offs = cam_offs c, rc_lens = cam_lens c\<rparr>"
  by (simp add: rec_inv_def cam_ok_def frame_table_def)

lemma cam_publish_fields [simp]:
  "cam_files (cam_publish t m c) = cam_files c" "cam_offs (cam_publish t m c) = cam_offs c" "cam_lens (cam_publish t m c) = cam_lens c"
  "cam_clip_frames (cam_publish t m c) = cam_clip_frames c" "cam_clip_path (cam_publish t m c) = cam_clip_path c"
  "cam_sd_mounted (cam_publish t m c) = cam_sd_mounted c" "cam_id (cam_publish t m c) = cam_id c"
  "cam_rec_active (cam_publish t m c) = cam_rec_active c" "cam_tasks (cam_publish t m c) = cam_tasks c"
  "cam_motion_seen (cam_publish t m c) = cam_motion_seen c"
  by (simp_all add: cam_publish_def)

lemma clip_path_short: "length (clip_path k now) \<le> 95"
  by (simp add: clip_path_def snprintf_buf_def)

lemma clip_path_not_Nil: "clip_path k now \<noteq> []"
  by (simp add: clip_path_def snprintf_buf_def SD_MOUNT_POINT_def)

text \<open>The clip a recording task leaves: its frames, their table, its file.\<close>

lemma record_task_clip:
  assumes "cam_ok c" and "record_task can_open fb0 fbs ls now c = Some c'" and "\<not> cam_rec_active c"
    and "can_open (clip_path (cam_rec_index c + 1) now)"
  shows "cam_files c' (cam_clip_path c') = Some (concat (valid_frames fbs))"
    and "take (cam_clip_frames c') (zip (cam_offs c') (cam_lens c')) = frame_table (valid_frames fbs)"
    and "cam_clip_frames c' = min LAST_CLIP_MAX_FRAMES (length (valid_frames fbs))"
    and "cam_sd_mounted c' = cam_sd_mounted c" and "cam_clip_path c' \<noteq> []" and "cam_ok c'" and "\<not> cam_rec_active c'"
proof -
  define r where "r = foldl (\<lambda>r fb. rec_frame fb r) \<lparr>rc_file = [], rc_running = 0, rc_n = 0, rc_offs = cam_offs c, rc_lens = cam_lens c\<rparr> fbs"
  define p where "p = clip_path (Suc (cam_rec_index c)) now"
  have i: "rec_inv (valid_frames fbs) r" using rec_loop_inv [OF rec_start [OF assms(1)]] by (simp add: r_def)
  have p: "snprintf_buf 96 p = p" using clip_path_short by (simp add: snprintf_buf_def p_def)
  have "cam_files c' p = Some (rc_file r) \<and> cam_clip_path c' = p \<and> cam_offs c' = rc_offs r \<and> cam_lens c' = rc_lens r \<and>
      cam_clip_frames c' = rc_n r \<and> cam_sd_mounted c' = cam_sd_mounted c \<and> \<not> cam_rec_active c'"
    using assms(2-4) p by (auto simp: record_task_def record_clip_def Let_def simp flip: r_def p_def)
  then have c: "cam_files c' p = Some (rc_file r)" "cam_clip_path c' = p" "cam_offs c' = rc_offs r" "cam_lens c' = rc_lens r"
      "cam_clip_frames c' = rc_n r" "cam_sd_mounted c' = cam_sd_mounted c" "\<not> cam_rec_active c'"
    by blast+
  show "take (cam_clip_frames c') (zip (cam_offs c') (cam_lens c')) = frame_table (valid_frames fbs)"
    unfolding c using i unfolding rec_inv_def by blast
  show "cam_files c' (cam_clip_path c') = Some (concat (valid_frames fbs))"
    "cam_clip_frames c' = min LAST_CLIP_MAX_FRAMES (length (valid_frames fbs))"
    "cam_sd_mounted c' = cam_sd_mounted c" "cam_clip_path c' \<noteq> []" "cam_ok c'" "\<not> cam_rec_active c'"
    using c i clip_path_not_Nil [of "Suc (cam_rec_index c)" now] by (simp_all add: rec_inv_def cam_ok_def p_def)
qed


definition demo_cam :: cam where
  "demo_cam = cam_zero\<lparr>cam_sd_mounted := True\<rparr>"

lemma demo_cam_ok: "cam_ok demo_cam" "\<not> cam_rec_active demo_cam" "cam_sd_mounted demo_cam"
  by (simp_all add: demo_cam_def cam_zero_def cam_ok_def)

lemma demo_recording: "\<exists>c'. record_task (\<lambda>_. True) None fbs (\<lambda>_. []) 0 demo_cam = Some c'"
  by (simp add: record_task_def record_clip_def recordings_text_def sn_append_def Let_def demo_cam_def cam_zero_def js_str_def dq_def)


section \<open>The list of clips\<close>

definition list_head :: "string \<Rightarrow> string" where
  "list_head dev = ''{'' @ js_str ''id'' dev @ '','' @ dq @ ''recordings'' @ dq @ '':[''"

text \<open>
  The list of clips outgrows its buffer: the text published after a recording is the list of the JPEG files of the
  card, cut at 2047 characters, while the list is at most 2048 characters long, and behind that the task writes outside
  its buffer; 58 clips with the names the camera gives them are too many.
\<close>

theorem recordings_list_bound:
  defines "t \<equiv> \<lambda>dev names. list_head dev @ csv True (map clip_entry (filter is_jpg names))"
  shows "recordings_text dev names =
      (if length (t dev names) \<le> 2048 then Some (take 2047 (t dev names @ '']}'')) else None) \<and>
    (length dev \<ge> 5 \<and> length (filter is_jpg names) \<ge> 58 \<and> list_all (\<lambda>e. length e = 24) (filter is_jpg names) \<longrightarrow>
      recordings_text dev names = None)"
proof -
  let ?es = "map clip_entry (filter is_jpg names)"
  have h: "sn_append 2048 (list_head dev) ([], 0) = Some (take 2047 (list_head dev), length (list_head dev))"
    using sn_append_text [of 2048 "list_head dev" "[]"] by simp
  have r: "recordings_text dev names =
      (case sn_list 2048 True ?es (take 2047 (list_head dev), length (list_head dev)) of
         None \<Rightarrow> None | Some bo1 \<Rightarrow> map_option fst (sn_append 2048 '']}'' bo1))"
    unfolding recordings_text_def list_head_def [symmetric] h by simp
  have e: "map_option fst (sn_append 2048 '']}'' (take 2047 u, length u)) = (if length u \<le> 2048 then Some (take 2047 (u @ '']}'')) else None)" for u
    using sn_append_text [of 2048 "'']}''" u] by simp
  note l = sn_list_text [of 2048 True ?es "list_head dev", simplified]
  have one: "recordings_text dev names =
      (if length (t dev names) \<le> 2048 then Some (take 2047 (t dev names @ '']}'')) else None)"
    unfolding r using l e [of "t dev names"] csv_butlast [of True ?es] by (auto simp: t_def)
  have lf: "length (csv False (map clip_entry es)) = 35 * length es" if "list_all (\<lambda>e. length e = 24) es" for es
    using that by (induction es) (simp_all add: clip_entry_def dq_def)
  have lt: "length (csv True (map clip_entry es)) + 1 = 35 * length es" if "list_all (\<lambda>e. length e = 24) es" "es \<noteq> []" for es
    using that lf [of "tl es"] by (cases es) (simp_all add: clip_entry_def dq_def)
  have "2048 < length (t dev names)"
    if "5 \<le> length dev" "58 \<le> length (filter is_jpg names)" "list_all (\<lambda>e. length e = 24) (filter is_jpg names)"
  proof -
    have "filter is_jpg names \<noteq> []" using that(2) by (intro notI) simp
    from lt [OF that(3) this] show ?thesis using that(1,2) by (simp add: t_def list_head_def js_str_def dq_def)
  qed
  then show ?thesis using one by auto
qed

theorem recordings_list_bound_witness:
  "recordings_text ''esp32-cam-01'' (replicate 58 ''clip_0001_1700000000.jpg'') = None"
proof -
  have j: "filter is_jpg (replicate 58 ''clip_0001_1700000000.jpg'') = replicate 58 ''clip_0001_1700000000.jpg''"
    by (simp add: is_jpg_def filter_replicate)
  have "5 \<le> length ''esp32-cam-01'' \<and> 58 \<le> length (filter is_jpg (replicate 58 ''clip_0001_1700000000.jpg'')) \<and>
      list_all (\<lambda>e. length e = 24) (filter is_jpg (replicate 58 ''clip_0001_1700000000.jpg''))"
    unfolding j by (simp add: list_all_iff)
  with conjunct2 [OF recordings_list_bound] show ?thesis by blast
qed

section \<open>From the sensors to a recording\<close>

lemma strstr_from_no_quote: "CHR 0x22 \<notin> set t \<Longrightarrow> lit \<noteq> [] \<Longrightarrow> hd lit = CHR 0x22 \<Longrightarrow> strstr_from t lit = None"
  by (induction t) (auto simp: neq_Nil_conv)

lemma fmt_1f_no_quote: "CHR 0x22 \<notin> set (fmt_1f x)"
proof -
  have "CHR 0x22 \<notin> set (dec_nat n)" for n using dec_int_chars [of "CHR 0x22" "int n"] by (auto simp: dec_int_def is_digit_def)
  then show ?thesis by (simp add: fmt_1f_def Let_def)
qed

lemma wm_event_motion:
  assumes "dev = ''esp32-01'' \<or> dev = ''esp32-1''" and "m = 0 \<or> m = 1"
  shows "json_motion_true (wm_event_text dev m std) \<longleftrightarrow> m = 1"
proof -
  have t: "CHR 0x22 \<notin> set (take k (fmt_1f std @ ''}''))" for k
    using fmt_1f_no_quote [of std] set_take_subset [of k "fmt_1f std @ ''}''"] by auto
  have n: "strstr_from (take k (fmt_1f std @ ''}'')) [CHR 0x22, CHR ''m'', CHR ''o'', CHR ''t'', CHR ''i'', CHR ''o'', CHR ''n'', CHR 0x22] = None" for k
    using t by (intro strstr_from_no_quote) simp_all
  have d: "dec_int 0 = ''0''" "dec_int 1 = ''1''" by (simp_all add: dec_int_def dec_nat.simps)
  show ?thesis using assms
    by (elim disjE) (simp_all add: json_motion_true_def wm_event_text_def snprintf_buf_def d strchr_def Let_def dq_def n del: take_append)
qed

lemma pir_event_motion:
  assumes "dev = ''esp32-01'' \<or> dev = ''esp32-1''" and "m = 0 \<or> m = 1"
  shows "json_motion_true (pir_event_text dev m) \<longleftrightarrow> m = 1"
proof -
  have d: "dec_int 0 = ''0''" "dec_int 1 = ''1''" by (simp_all add: dec_int_def dec_nat.simps)
  show ?thesis using assms
    by (auto simp: json_motion_true_def pir_event_text_def snprintf_buf_def d strchr_def Let_def dq_def js_str_def js_num_def)
qed



section \<open>Provisioning\<close>

lemma nvs_str_set_put: "nvs_str_set N key v = nvs_put N key (NStr v)"
  by (rule ext) (simp add: nvs_str_set_def nvs_put_def)

context nvs_flash
begin

lemma cam_portal_keys:
  fixes n :: 'n
  assumes "form_ok f"
  defines "r \<equiv> handle_config N (Some (cam_prov_save N)) (form_text f) n"
  defines "m \<equiv> nvs_get N (nvs_restart N (snd r))"
  shows "m ''wifi_ssid'' = Some (NStr (pf_ssid f))" and "m ''wifi_pass'' = Some (NStr (pf_pass f))"
    and "m ''device_id'' = (if pf_devid f = [] then nvs_get N n ''device_id'' else Some (NStr (pf_devid f)))"
    and "m ''mqtt_host'' = Some (NStr (if pf_mqtt f = [] then ''htsn-broker.local'' else pf_mqtt f))"
    and "nvs_open_ro N (nvs_restart N (snd r))"
proof -
  have ssid: "pf_ssid f \<noteq> []" using assms(1) by (simp add: form_ok_def)
  let ?n1 = "store_creds N (pf_muser f) (pf_mpass f) n"
  let ?m = "if pf_mqtt f = [] then ''htsn-broker.local'' else pf_mqtt f"
  have r: "snd r = cam_prov_save N (pf_ssid f) (pf_pass f) (pf_devid f) ?m ?n1"
    unfolding r_def handle_config_def form_text_whole(1) [OF assms(1)] parse_form_text [OF assms(1)] Let_def
    using form_text_whole(2) [OF assms(1)] ssid by simp
  have "settled (snd r)" unfolding r cam_prov_save_def nvs_str_set_put Let_def by (rule settled_put)
  then have g: "m = nvs_get N (snd r)" unfolding m_def by (rule restart_settled)
  show 1: "m ''wifi_ssid'' = Some (NStr (pf_ssid f))" and "m ''wifi_pass'' = Some (NStr (pf_pass f))"
    "m ''device_id'' = (if pf_devid f = [] then nvs_get N n ''device_id'' else Some (NStr (pf_devid f)))"
    "m ''mqtt_host'' = Some (NStr ?m)"
    unfolding g r cam_prov_save_def nvs_str_set_put Let_def by (simp_all add: get_put get_store_creds)
  show "nvs_open_ro N (nvs_restart N (snd r))" using absent [of "nvs_restart N (snd r)"] 1 by (auto simp: m_def)
qed

end

text \<open>
  A submitted form configures the camera: after the restart it joins the network of the form, whose name it cuts to 31
  characters, and unlike the other nodes it takes the name of the form.
\<close>

lemma cam_portal_configures:
  assumes "nvs_flash N flash" and "form_ok f" and "pf_devid f \<noteq> []"
  shows "\<exists>c. cam_boot N sdc (nvs_restart N (snd (handle_config N (Some (cam_prov_save N)) (form_text f) n))) =
      Some ((snprintf_buf 32 (pf_ssid f), pf_pass f), c) \<and> cam_id c = pf_devid f"
proof -
  note k = nvs_flash.cam_portal_keys [OF assms(1,2), of n]
  have "fits 64 (pf_ssid f)" "fits 64 (pf_pass f)" "fits 32 (pf_devid f)" "pf_ssid f \<noteq> []" using assms(2) by (simp_all add: form_ok_def)
  then show ?thesis using k assms(3)
    by (simp add: cam_boot_def nvs_str_get_def nvs_get_str_def fits_def snprintf_buf_def Let_def split: option.split)
qed

text \<open>After an address was obtained the camera does not return to the portal.\<close>

lemma cam_no_portal_once_connected:
  "cam_wifi_ready c \<Longrightarrow> cam_prov_tasks (cam_disconnected c) = cam_prov_tasks c \<and> cam_wifi_ready (cam_disconnected c)"
  by (simp add: cam_disconnected_def Let_def)

lemma cam_portal_after_six:
  assumes "\<not> cam_wifi_ready c" and "\<not> cam_reprov c"
  shows "cam_prov_tasks ((cam_disconnected ^^ k) c) = cam_prov_tasks c + (cam_streak c + k - max (cam_streak c) 5) \<and>
    \<not> cam_wifi_ready ((cam_disconnected ^^ k) c) \<and> \<not> cam_reprov ((cam_disconnected ^^ k) c) \<and>
    cam_streak ((cam_disconnected ^^ k) c) = cam_streak c + k"
proof (induction k)
  case (Suc k)
  then show ?case using assms by (auto simp: cam_disconnected_def Let_def PROV_FALLBACK_DISCONNECTS_def)
qed (use assms in simp)

end
