(* ===== verification/Spec2Isabelle.thy ===== *)
theory Spec2Isabelle
  imports Config_Version Policy_Engine Esp_Wifi Opcua_Link Llm_Bridge Cam_Node
begin

text \<open>
  A verification of the wireless TSN configurator: a host application that configures time-sensitive
  networking devices over MQTT and keeps their configuration in SQLite, an agent for Linux nodes, firmware
  for ESP32 and STM32 endpoints, and services on a Raspberry Pi. The C sources are translated function by function into
  definitions at the top level of the theories below; the lemmas about them are in the same theories.

  \<^bold>\<open>Shared theories.\<close> \<open>Htsn_Prelude\<close> has list and word lemmas, the locales \<open>codec\<close> (an encoder with its partial
  inverse) and \<open>keyed_array\<close> (a bounded array searched by key, as a finite map), and \<open>run_ops\<close>. \<open>C_Text\<close> models what the
  sources use of the C library on strings (\<open>snprintf\<close>, \<open>atoi\<close>, \<open>strtoll\<close>, \<open>sscanf\<close>, \<open>strtok_r\<close>) and of
  src/src/common/str_util.c. \<open>Htsn_Types\<close> has the data of device.h, sensor.h, qos.h, vlan.h, stream.h, timesync.h
  and the functions of their .c files.

  \<^bold>\<open>Endpoint firmware and wire format.\<close> \<open>Frame_Codec\<close>: the frame of stm32-tsn/tsn/htsn_frame.h and its CRC (packing and
  unpacking are inverse, a burst of up to 16 bits is detected). \<open>Eth_Endpoint\<close>: stm32-tsn/tsn/eth_proto.c, with the state in a record and
  transmitted frames as a list (configuration is applied and reported, VLAN tagging, sonar sweeps, preemption sequence numbers).
  \<open>Ptp_Slave\<close>: stm32-tsn/tsn/ptp.c (header fields, the servo, and that it never reports lock).

  \<^bold>\<open>Host application.\<close> \<open>Gcl_Tas\<close>: src/src/tas/gcl.c and tas.c. \<open>Event_Bus\<close>: src/src/mvc. \<open>Sql\<close>: the statements the
  sources pass to SQLite, the schema of src/src/db/db.c and the contract of the engine. SQLite is the parameter \<open>E\<close>
  of every definition that reaches it; the locale \<open>sqlite\<close> states the documented behaviour of the statements and is
  interpreted on \<open>sql_run\<close>; a query without \<open>ORDER BY\<close> returns rows in the order of insertion.
  \<open>Db_Store\<close>: all of src/src/db; \<open>Db_Laws\<close> and \<open>Db_Streams\<close>: the tables of QoS configurations and of streams as key-value stores (locale \<open>kv_store\<close>).
  \<open>Mqtt\<close>: src/src/mqtt and src/src/fxmqtt over the parameter \<open>Q\<close>, the outcome of a mosquitto call given the calls so
  far, and the \<open>world\<close> (database, bus, client) the managers share. \<open>Config_Managers\<close>: the managers of QoS, VLAN, schedules,
  time synchronisation and domains. \<open>Caches\<close>: plugins, device manager and sensor manager. \<open>Tsn_Manager\<close>: src/src/stream/tsn_manager.c, with the
  text and the order of the messages of a deployment. \<open>Config_Version\<close>: snapshots, rollbacks and comparisons of src/src/config_version.
  \<open>Trace_Ring\<close>: src/src/trace. \<open>Telemetry\<close>: src/src/telemetry and src/src/radio.

  \<^bold>\<open>Agents.\<close> \<open>Agent\<close>: the host agent of src/src/agent, with the shell commands it runs. The firmware of the ESP32 endpoint
  (src/esp32-agent): \<open>Esp_Json\<close>, the reader of htsn_json.c (it reads back what a printer of objects writes); \<open>Esp_Cfg\<close>, htsn_cfg.c
  over the parameter \<open>N\<close>, the vendor's flash storage, whose documented behaviour is the locale \<open>nvs_flash\<close>, interpreted on
  \<open>flash_nvs\<close> (the stored networks refine a plain list); \<open>Esp_Ptp\<close>, htsn_ptp.c (messages, the measured offset);
  \<open>Esp_Tsn\<close>, htsn_tsn.c (a snapshot survives a restart); \<open>Esp_Agent\<close>, the commands and the start of main/main.c and the topics
  of htsn_mqtt.c; \<open>Esp_Wifi\<close>, the network events, button and lamp of main/main.c; \<open>Provisioning\<close>, the configuration portal of
  src/shared/htsn_prov; \<open>Wifi_Motion\<close>, the motion detector of htsn_wifimotion.c over the reals.

  \<^bold>\<open>Services on the Raspberry Pi.\<close> \<open>Policy_Engine\<close>: src/rpi-ai/policy_engine.c, with the database and the broker it uses.
  \<open>Llm_Bridge\<close>: src/rpi-ai/llm_bridge.c, its requests and the actions it executes; the output of the language model is a
  parameter. \<open>Opcua_Bridge\<close>: src/rpi-tsn/tsn_opcua_bridge.c and the address space of htsn_nodes.c; the values of
  the nodes are a map, frames to the endpoint a list, and the frames are those \<open>Eth_Endpoint\<close> receives. \<open>Opcua_Link\<close>:
  the poller tsn_opcua_link.c and the command line client htsn_opcua_cli.c over the same nodes.

  \<^bold>\<open>Conventions.\<close> An error code is a value of \<open>htsn_error\<close>; a loader returns \<open>htsn_error + data\<close>; a pointer that may be
  null is an option. A loop that may not end is a \<open>partial_function (option)\<close>, and \<open>None\<close> is not returning; an access outside a
  buffer is \<open>None\<close> where the code makes it possible. Fixed-width integers are words or are wrapped explicitly; an allocation
  does not fail. The clock is the parameter \<open>now\<close>. No definition uses fuel.

  \<^bold>\<open>Not modelled.\<close> Log output, graphics on displays, camera and sensor drivers, the set-up of sockets, radio and HTTP servers, and the
  configuration of the OPC UA servers and of their PubSub connections: they consist of calls to libraries outside the repository.
  Memory exhaustion is left out everywhere.
\<close>

end
